(* ===== verification/Prelude.thy ===== *)
theory Prelude
  imports Main "HOL-Library.Word" "HOL-Library.Multiset"
begin

text \<open>
  Shared vocabulary of the development: the machine types of the server (bytes and
  fixed-width integers), the little- and big-endian byte views of a 32-bit word that the
  network, storage and filter code uses, and the list and word facts that several
  components need.
\<close>

unbundle bit_operations_syntax

subsection \<open>Machine types\<close>

type_synonym byte = "8 word"
type_synonym u16 = "16 word"
type_synonym u32 = "32 word"
type_synonym u64 = "64 word"

named_theorems wire_simps \<open>byte-level encodings and their inverses\<close>

subsection \<open>Bits and values\<close>

lemma bit_val_bound: "unat (v :: 'a :: len word) < 2 ^ n \<Longrightarrow> n \<le> i \<Longrightarrow> \<not> bit v i"
proof
  assume v: "unat v < 2 ^ n" and "n \<le> i" and "bit v i"
  then have "unat v < 2 ^ i" by (meson less_le_trans one_le_numeral power_increasing)
  then have "unat v div 2 ^ i = 0" by simp
  moreover have "bit (unat v) i" using \<open>bit v i\<close> bit_imp_le_length by (simp add: bit_unsigned_iff)
  ultimately show False by (simp add: bit_iff_odd)
qed

lemma unat_or_low:
  assumes "take_bit k a = (0 :: 'a :: len word)"
  shows "unat (a OR take_bit k x) = unat a + unat x mod 2 ^ k"
proof -
  have "take_bit k (unat a) = unat (take_bit k a)" by (simp only: unsigned_take_bit_eq)
  then have "take_bit k (unat a) = 0" using assms by simp
  then have "unat a AND take_bit k (unat x) = 0"
    by (auto simp: bit_eq_iff bit_and_iff bit_take_bit_iff)
  then have "unat a OR take_bit k (unat x) = unat a + take_bit k (unat x)"
    by (simp add: disjunctive_add_eq_or)
  then show ?thesis
    by (simp only: unsigned_or_eq unsigned_take_bit_eq) (simp only: take_bit_eq_mod)
qed

lemma take_bit_small: "unat (x :: 'a :: len word) < 2 ^ k \<Longrightarrow> take_bit k x = x"
proof (rule bit_word_eqI)
  fix n assume "unat x < 2 ^ k"
  then show "bit (take_bit k x) n = bit x n"
    using bit_val_bound [of x k n] by (cases "n < k") (simp_all add: bit_take_bit_iff)
qed

lemma take_bit_or: "take_bit k (pre :: 'a :: len word) = 0 \<Longrightarrow> take_bit k (pre OR take_bit k x) = take_bit k x"
  by (auto simp: bit_eq_iff bit_or_iff bit_take_bit_iff)

lemma byte_eqI:
  assumes "bit (x :: byte) 0 = bit y 0" "bit x 1 = bit y 1" "bit x 2 = bit y 2" "bit x 3 = bit y 3"
    "bit x 4 = bit y 4" "bit x 5 = bit y 5" "bit x 6 = bit y 6" "bit x 7 = bit y 7"
  shows "x = y"
proof (rule bit_word_eqI)
  fix n assume "n < LENGTH(8)"
  then have "n \<in> {0, 1, 2, 3, 4, 5, 6, 7}" by auto
  then show "bit x n = bit y n" using assms by auto
qed

lemma or_and_not_cancel: "x AND c = 0 \<Longrightarrow> (x OR c) AND NOT c = (x :: 'a :: len word)"
  by (auto simp: bit_eq_iff bit_and_iff bit_or_iff bit_not_iff)

lemma and_zero_low: "take_bit k x = x \<Longrightarrow> take_bit k c = 0 \<Longrightarrow> x AND c = (0 :: 'a :: len word)"
  by (auto simp: bit_eq_iff bit_and_iff bit_take_bit_iff)

text \<open>Setting bits above a small value adds them.\<close>

lemma unat_or_high:
  assumes "unat (x :: 'a :: len word) < 2 ^ k" "take_bit k c = 0"
  shows "unat (x OR c) = unat x + unat c"
proof -
  have "take_bit k x = x" using assms(1) by (rule take_bit_small)
  then have "x OR c = c OR take_bit k x" by (simp add: or.commute)
  then show ?thesis using unat_or_low [OF assms(2), of x] assms(1) by simp
qed

subsection \<open>32-bit words as bytes\<close>

text \<open>
  The server runs on little-endian hosts: \<open>memcpy\<close> of an \<open>int\<close> puts the low byte
  first. \<open>byteorder_32\<close> swaps to network order.
\<close>

definition join32 :: "byte \<Rightarrow> byte \<Rightarrow> byte \<Rightarrow> byte \<Rightarrow> u32" where
  "join32 a b c d =
     ucast a OR push_bit 8 (ucast b) OR push_bit 16 (ucast c) OR push_bit 24 (ucast d)"

definition le32_bytes :: "u32 \<Rightarrow> byte list" where
  "le32_bytes w = [ucast w, ucast (drop_bit 8 w), ucast (drop_bit 16 w), ucast (drop_bit 24 w)]"

fun of_le32 :: "byte list \<Rightarrow> u32" where
  "of_le32 (a # b # c # d # _) = join32 a b c d"
| "of_le32 _ = 0"

definition byteorder_32 :: "u32 \<Rightarrow> u32" where
  "byteorder_32 w = of_le32 (rev (le32_bytes w))"

lemma length_le32_bytes [simp]: "length (le32_bytes w) = 4"
  by (simp add: le32_bytes_def)

lemma bit_byte_high: "8 \<le> n \<Longrightarrow> \<not> bit (a :: byte) n"
  using bit_imp_le_length [of a n] by auto

lemma bit_join32:
  "bit (join32 a b c d) n \<longleftrightarrow>
     (if n < 8 then bit a n else if n < 16 then bit b (n - 8)
      else if n < 24 then bit c (n - 16) else n < 32 \<and> bit d (n - 24))"
  unfolding join32_def
  by (simp add: bit_or_iff bit_push_bit_iff bit_ucast_iff bit_byte_high) auto

lemma join32_split:
  "join32 (ucast w) (ucast (drop_bit 8 w)) (ucast (drop_bit 16 w)) (ucast (drop_bit 24 w)) = (w :: u32)"
  by (rule bit_word_eqI) (auto simp: bit_join32 bit_ucast_iff bit_drop_bit_eq)

lemma ucast_join32 [simp]:
  "(ucast (join32 a b c d) :: byte) = a"
  "(ucast (drop_bit 8 (join32 a b c d)) :: byte) = b"
  "(ucast (drop_bit 16 (join32 a b c d)) :: byte) = c"
  "(ucast (drop_bit 24 (join32 a b c d)) :: byte) = d"
  by (rule bit_word_eqI, simp add: bit_ucast_iff bit_drop_bit_eq bit_join32)+

lemma of_le32_le32_bytes [simp, wire_simps]: "of_le32 (le32_bytes w @ rest) = w"
  by (simp add: le32_bytes_def join32_split)

lemma of_le32_le32_bytes_nil [simp, wire_simps]: "of_le32 (le32_bytes w) = w"
  by (simp add: le32_bytes_def join32_split)

lemma le32_bytes_of_le32 [wire_simps]: "le32_bytes (of_le32 [a, b, c, d]) = [a, b, c, d]"
  by (simp add: le32_bytes_def)

lemma length_4_cases: "length xs = 4 \<Longrightarrow> \<exists>a b c d. xs = [a, b, c, d]"
  by (auto simp: numeral_eq_Suc length_Suc_conv)

lemma le32_bytes_of_le32_length: "length xs = 4 \<Longrightarrow> le32_bytes (of_le32 xs) = xs"
  using length_4_cases [of xs] le32_bytes_of_le32 by auto

lemma byteorder_32_involutive [simp]: "byteorder_32 (byteorder_32 w) = w"
  by (simp add: byteorder_32_def le32_bytes_of_le32_length)

subsection \<open>Lists\<close>

text \<open>\<open>std::swap(xs[i], xs[j])\<close>\<close>

definition swap_at :: "nat \<Rightarrow> nat \<Rightarrow> 'a list \<Rightarrow> 'a list" where
  "swap_at i j xs = xs[i := xs ! j, j := xs ! i]"

lemma length_swap_at [simp]: "length (swap_at i j xs) = length xs"
  by (simp add: swap_at_def)

lemma mset_swap_at [simp]:
  "i < length xs \<Longrightarrow> j < length xs \<Longrightarrow> mset (swap_at i j xs) = mset xs"
  by (simp add: swap_at_def mset_swap)

lemma swap_at_twice:
  "i < length xs \<Longrightarrow> j < length xs \<Longrightarrow> swap_at i j (swap_at i j xs) = xs"
  by (rule nth_equalityI) (auto simp: swap_at_def nth_list_update)

lemma filter_update_count:
  assumes "i < length xs"
  shows "length (filter P (xs[i := x])) + (if P (xs ! i) then 1 else 0)
       = length (filter P xs) + (if P x then 1 else 0)"
  using assms
proof (induction xs arbitrary: i)
  case Nil
  then show ?case by simp
next
  case (Cons y ys)
  then show ?case by (cases i) auto
qed

lemma sum_list_update_nat:
  fixes f :: "'a \<Rightarrow> nat"
  assumes "i < length xs"
  shows "sum_list (map f (xs[i := x])) + f (xs ! i) = sum_list (map f xs) + f x"
  using assms
proof (induction xs arbitrary: i)
  case Nil
  then show ?case by simp
next
  case (Cons y ys)
  then show ?case by (cases i) auto
qed

end
