(* ===== verification/Wperf.thy ===== *)
theory Wperf
  imports Prelude
begin

text \<open>
  \<open>src/win32/wperf.c\<close>: the C replacements for the assembly helpers, \<open>crc32\<close>
  (table driven, start value 0, no final complement) and the base64 codec. A buffer is the
  list of its bytes; \<open>len\<close> is the length argument, and the code reads the first
  \<open>len\<close> bytes. The lemmas relate the table-driven CRC to the bit-serial one over the
  reflected polynomial, and the block-wise base64 routines to a three-byte reference coder,
  ending in the round trip.
\<close>

subsection \<open>CRC-32\<close>

definition wp_crc32_table :: "u32 list" where
  "wp_crc32_table =
    [0x00000000, 0x77073096, 0xee0e612c, 0x990951ba, 0x076dc419,
     0x706af48f, 0xe963a535, 0x9e6495a3, 0x0edb8832, 0x79dcb8a4,
     0xe0d5e91e, 0x97d2d988, 0x09b64c2b, 0x7eb17cbd, 0xe7b82d07,
     0x90bf1d91, 0x1db71064, 0x6ab020f2, 0xf3b97148, 0x84be41de,
     0x1adad47d, 0x6ddde4eb, 0xf4d4b551, 0x83d385c7, 0x136c9856,
     0x646ba8c0, 0xfd62f97a, 0x8a65c9ec, 0x14015c4f, 0x63066cd9,
     0xfa0f3d63, 0x8d080df5, 0x3b6e20c8, 0x4c69105e, 0xd56041e4,
     0xa2677172, 0x3c03e4d1, 0x4b04d447, 0xd20d85fd, 0xa50ab56b,
     0x35b5a8fa, 0x42b2986c, 0xdbbbc9d6, 0xacbcf940, 0x32d86ce3,
     0x45df5c75, 0xdcd60dcf, 0xabd13d59, 0x26d930ac, 0x51de003a,
     0xc8d75180, 0xbfd06116, 0x21b4f4b5, 0x56b3c423, 0xcfba9599,
     0xb8bda50f, 0x2802b89e, 0x5f058808, 0xc60cd9b2, 0xb10be924,
     0x2f6f7c87, 0x58684c11, 0xc1611dab, 0xb6662d3d, 0x76dc4190,
     0x01db7106, 0x98d220bc, 0xefd5102a, 0x71b18589, 0x06b6b51f,
     0x9fbfe4a5, 0xe8b8d433, 0x7807c9a2, 0x0f00f934, 0x9609a88e,
     0xe10e9818, 0x7f6a0dbb, 0x086d3d2d, 0x91646c97, 0xe6635c01,
     0x6b6b51f4, 0x1c6c6162, 0x856530d8, 0xf262004e, 0x6c0695ed,
     0x1b01a57b, 0x8208f4c1, 0xf50fc457, 0x65b0d9c6, 0x12b7e950,
     0x8bbeb8ea, 0xfcb9887c, 0x62dd1ddf, 0x15da2d49, 0x8cd37cf3,
     0xfbd44c65, 0x4db26158, 0x3ab551ce, 0xa3bc0074, 0xd4bb30e2,
     0x4adfa541, 0x3dd895d7, 0xa4d1c46d, 0xd3d6f4fb, 0x4369e96a,
     0x346ed9fc, 0xad678846, 0xda60b8d0, 0x44042d73, 0x33031de5,
     0xaa0a4c5f, 0xdd0d7cc9, 0x5005713c, 0x270241aa, 0xbe0b1010,
     0xc90c2086, 0x5768b525, 0x206f85b3, 0xb966d409, 0xce61e49f,
     0x5edef90e, 0x29d9c998, 0xb0d09822, 0xc7d7a8b4, 0x59b33d17,
     0x2eb40d81, 0xb7bd5c3b, 0xc0ba6cad, 0xedb88320, 0x9abfb3b6,
     0x03b6e20c, 0x74b1d29a, 0xead54739, 0x9dd277af, 0x04db2615,
     0x73dc1683, 0xe3630b12, 0x94643b84, 0x0d6d6a3e, 0x7a6a5aa8,
     0xe40ecf0b, 0x9309ff9d, 0x0a00ae27, 0x7d079eb1, 0xf00f9344,
     0x8708a3d2, 0x1e01f268, 0x6906c2fe, 0xf762575d, 0x806567cb,
     0x196c3671, 0x6e6b06e7, 0xfed41b76, 0x89d32be0, 0x10da7a5a,
     0x67dd4acc, 0xf9b9df6f, 0x8ebeeff9, 0x17b7be43, 0x60b08ed5,
     0xd6d6a3e8, 0xa1d1937e, 0x38d8c2c4, 0x4fdff252, 0xd1bb67f1,
     0xa6bc5767, 0x3fb506dd, 0x48b2364b, 0xd80d2bda, 0xaf0a1b4c,
     0x36034af6, 0x41047a60, 0xdf60efc3, 0xa867df55, 0x316e8eef,
     0x4669be79, 0xcb61b38c, 0xbc66831a, 0x256fd2a0, 0x5268e236,
     0xcc0c7795, 0xbb0b4703, 0x220216b9, 0x5505262f, 0xc5ba3bbe,
     0xb2bd0b28, 0x2bb45a92, 0x5cb36a04, 0xc2d7ffa7, 0xb5d0cf31,
     0x2cd99e8b, 0x5bdeae1d, 0x9b64c2b0, 0xec63f226, 0x756aa39c,
     0x026d930a, 0x9c0906a9, 0xeb0e363f, 0x72076785, 0x05005713,
     0x95bf4a82, 0xe2b87a14, 0x7bb12bae, 0x0cb61b38, 0x92d28e9b,
     0xe5d5be0d, 0x7cdcefb7, 0x0bdbdf21, 0x86d3d2d4, 0xf1d4e242,
     0x68ddb3f8, 0x1fda836e, 0x81be16cd, 0xf6b9265b, 0x6fb077e1,
     0x18b74777, 0x88085ae6, 0xff0f6a70, 0x66063bca, 0x11010b5c,
     0x8f659eff, 0xf862ae69, 0x616bffd3, 0x166ccf45, 0xa00ae278,
     0xd70dd2ee, 0x4e048354, 0x3903b3c2, 0xa7672661, 0xd06016f7,
     0x4969474d, 0x3e6e77db, 0xaed16a4a, 0xd9d65adc, 0x40df0b66,
     0x37d83bf0, 0xa9bcae53, 0xdebb9ec5, 0x47b2cf7f, 0x30b5ffe9,
     0xbdbdf21c, 0xcabac28a, 0x53b39330, 0x24b4a3a6, 0xbad03605,
     0xcdd70693, 0x54de5729, 0x23d967bf, 0xb3667a2e, 0xc4614ab8,
     0x5d681b02, 0x2a6f2b94, 0xb40bbe37, 0xc30c8ea1, 0x5a05df1b,
     0x2d02ef8d]"

text \<open>The body of the loop for one byte, and the loop.\<close>

definition crc32_step :: "u32 \<Rightarrow> byte \<Rightarrow> u32" where
  "crc32_step crc b =
     (wp_crc32_table ! unat ((crc XOR ucast b) AND 0xFF)) XOR drop_bit 8 crc"

definition crc32_loop :: "u32 \<Rightarrow> byte list \<Rightarrow> u32" where
  "crc32_loop crc bs = foldl crc32_step crc bs"

text \<open>\<open>crc32(s, len)\<close>; a null pointer is \<open>None\<close>.\<close>

definition crc32 :: "byte list option \<Rightarrow> nat \<Rightarrow> u64" where
  "crc32 s len = (case s of None \<Rightarrow> 0 | Some bs \<Rightarrow> ucast (crc32_loop 0 (take len bs)))"

subsection \<open>Base64\<close>

definition wp_b64_alphabet :: "byte list" where
  "wp_b64_alphabet = map (\<lambda>c. of_nat (of_char c))
     ''ABCDEFGHIJKLMNOPQRSTUVWXYZabcdefghijklmnopqrstuvwxyz0123456789+/''"

definition wp_b64_inverse :: "byte list" where
  "wp_b64_inverse =
    [0xff, 0xff, 0xff, 0xff, 0xff, 0xff, 0xff, 0xff,
     0xff, 0xff, 0xff, 0xff, 0xff, 0xff, 0xff, 0xff,
     0xff, 0xff, 0xff, 0xff, 0xff, 0xff, 0xff, 0xff,
     0xff, 0xff, 0xff, 0xff, 0xff, 0xff, 0xff, 0xff,
     0xff, 0xff, 0xff, 0xff, 0xff, 0xff, 0xff, 0xff,
     0xff, 0xff, 0xff, 0x3e, 0xff, 0xff, 0xff, 0x3f,
     0x34, 0x35, 0x36, 0x37, 0x38, 0x39, 0x3a, 0x3b,
     0x3c, 0x3d, 0xff, 0xff, 0xff, 0xff, 0xff, 0xff,
     0xff, 0x00, 0x01, 0x02, 0x03, 0x04, 0x05, 0x06,
     0x07, 0x08, 0x09, 0x0a, 0x0b, 0x0c, 0x0d, 0x0e,
     0x0f, 0x10, 0x11, 0x12, 0x13, 0x14, 0x15, 0x16,
     0x17, 0x18, 0x19, 0xff, 0xff, 0xff, 0xff, 0xff,
     0xff, 0x1a, 0x1b, 0x1c, 0x1d, 0x1e, 0x1f, 0x20,
     0x21, 0x22, 0x23, 0x24, 0x25, 0x26, 0x27, 0x28,
     0x29, 0x2a, 0x2b, 0x2c, 0x2d, 0x2e, 0x2f, 0x30,
     0x31, 0x32, 0x33, 0xff, 0xff, 0xff, 0xff, 0xff,
     0x41, 0x58, 0x49, 0x83, 0xfb, 0x04, 0x76, 0x52,
     0x0f, 0xb6, 0x06, 0x0f, 0xb6, 0x5e, 0x01, 0x0f,
     0xb6, 0x4e, 0x02, 0x0f, 0xb6, 0x56, 0x03, 0x41,
     0x0f, 0xb6, 0x04, 0x00, 0x41, 0x0f, 0xb6, 0x1c,
     0x18, 0x41, 0x0f, 0xb6, 0x0c, 0x08, 0x41, 0x0f,
     0xb6, 0x14, 0x10, 0xc1, 0xe0, 0x1a, 0xc1, 0xe3,
     0x14, 0xc1, 0xe1, 0x0e, 0xc1, 0xe2, 0x08, 0x09,
     0xd8, 0x09, 0xc8, 0x09, 0xd0, 0x0f, 0xc8, 0x66,
     0x89, 0x07, 0xc1, 0xe8, 0x10, 0x88, 0x47, 0x02,
     0x48, 0x83, 0xc6, 0x04, 0x48, 0x83, 0xc7, 0x03,
     0x49, 0x83, 0xc2, 0x03, 0x49, 0x83, 0xeb, 0x04,
     0xeb, 0xa8, 0x75, 0x5b, 0x0f, 0xb6, 0x1e, 0x41,
     0x0f, 0xb6, 0x04, 0x18, 0x0f, 0xb6, 0x5e, 0x01,
     0xc1, 0xe0, 0x02, 0x41, 0x0f, 0xb6, 0x1c, 0x18,
     0x89, 0xda, 0xc1, 0xeb, 0x04, 0xc1, 0xe2, 0x04,
     0x09, 0xd8, 0x88, 0x07, 0x0f, 0xb6, 0x5e, 0x02]"

abbreviation b64_pad :: byte where
  "b64_pad \<equiv> 0x3D"

definition b64_char :: "u64 \<Rightarrow> nat \<Rightarrow> byte" where
  "b64_char v n = wp_b64_alphabet ! unat (drop_bit n v AND 63)"

text \<open>The packed value \<open>v\<close> of six, three, two and one input bytes.\<close>

definition pack6 :: "byte \<Rightarrow> byte \<Rightarrow> byte \<Rightarrow> byte \<Rightarrow> byte \<Rightarrow> byte \<Rightarrow> u64" where
  "pack6 a b c d e f =
     push_bit 40 (ucast a) OR push_bit 32 (ucast b) OR push_bit 24 (ucast c) OR
     push_bit 16 (ucast d) OR push_bit 8 (ucast e) OR ucast f"

definition pack3 :: "byte \<Rightarrow> byte \<Rightarrow> byte \<Rightarrow> u64" where
  "pack3 a b c = push_bit 16 (ucast a) OR push_bit 8 (ucast b) OR ucast c"

text \<open>The tail of \<open>base64_encode\<close>, after the six-byte blocks: at most one three-byte
  block, then one or two bytes with padding.\<close>

fun base64_encode_last :: "byte list \<Rightarrow> byte list" where
  "base64_encode_last [a, b] =
     (let v = pack3 a b 0 in [b64_char v 18, b64_char v 12, b64_char v 6, b64_pad])"
| "base64_encode_last [a] =
     (let v = pack3 a 0 0 in [b64_char v 18, b64_char v 12, b64_pad, b64_pad])"
| "base64_encode_last _ = []"

fun base64_encode_tail :: "byte list \<Rightarrow> byte list" where
  "base64_encode_tail (a # b # c # rest) =
     (let v = pack3 a b c in
      [b64_char v 18, b64_char v 12, b64_char v 6, b64_char v 0] @ base64_encode_last rest)"
| "base64_encode_tail rest = base64_encode_last rest"

fun base64_encode_blocks :: "byte list \<Rightarrow> byte list" where
  "base64_encode_blocks (a # b # c # d # e # f # rest) =
     (let v = pack6 a b c d e f in
      [b64_char v 42, b64_char v 36, b64_char v 30, b64_char v 24,
       b64_char v 18, b64_char v 12, b64_char v 6, b64_char v 0] @ base64_encode_blocks rest)"
| "base64_encode_blocks rest = base64_encode_tail rest"

text \<open>\<open>base64_encode(output, input, len)\<close>: the bytes it stores at \<open>output\<close>.\<close>

definition base64_encode :: "byte list \<Rightarrow> nat \<Rightarrow> byte list" where
  "base64_encode input len = base64_encode_blocks (take len input)"

definition b64_inv :: "byte \<Rightarrow> u32" where
  "b64_inv x = ucast (wp_b64_inverse ! unat x)"

definition b64_out0 :: "u32 \<Rightarrow> u32 \<Rightarrow> byte" where
  "b64_out0 a b = ucast (push_bit 2 a OR drop_bit 4 b)"

definition b64_out1 :: "u32 \<Rightarrow> u32 \<Rightarrow> byte" where
  "b64_out1 b c = ucast (push_bit 4 (b AND 15) OR drop_bit 2 c)"

definition b64_out2 :: "u32 \<Rightarrow> u32 \<Rightarrow> byte" where
  "b64_out2 c d = ucast (push_bit 6 (c AND 3) OR d)"

text \<open>The last group of four: \<open>=\<close> ends the output early.\<close>

fun base64_decode_last :: "byte list \<Rightarrow> byte list" where
  "base64_decode_last [i0, i1, i2, i3] =
     (let a = b64_inv i0; b = b64_inv i1; c = b64_inv i2; d = b64_inv i3 in
      if i2 = b64_pad then [b64_out0 a b]
      else if i3 = b64_pad then [b64_out0 a b, b64_out1 b c]
      else [b64_out0 a b, b64_out1 b c, b64_out2 c d])"
| "base64_decode_last _ = []"

text \<open>The loop over full groups runs while more than four bytes remain.\<close>

fun base64_decode_groups :: "byte list \<Rightarrow> byte list" where
  "base64_decode_groups (i0 # i1 # i2 # i3 # i4 # rest) =
     (let a = b64_inv i0; b = b64_inv i1; c = b64_inv i2; d = b64_inv i3 in
      [b64_out0 a b, b64_out1 b c, b64_out2 c d] @ base64_decode_groups (i4 # rest))"
| "base64_decode_groups rest = base64_decode_last rest"

text \<open>\<open>base64_decode(output, input, len)\<close>: the bytes stored at \<open>output\<close> and the
  returned count.\<close>

definition base64_decode :: "byte list \<Rightarrow> nat \<Rightarrow> byte list \<times> nat" where
  "base64_decode input len =
     (let out = base64_decode_groups (take len input) in (out, length out))"

subsection \<open>The table against the bit-serial CRC\<close>

text \<open>One step of the reflected shift register with polynomial 0xEDB88320.\<close>

definition crc_bit :: "u32 \<Rightarrow> u32" where
  "crc_bit x = (if bit x 0 then drop_bit 1 x XOR 0xEDB88320 else drop_bit 1 x)"
lemma crc_bit_xor: "crc_bit (x XOR y) = crc_bit x XOR crc_bit y"
  by (auto simp: crc_bit_def bit_xor_iff ac_simps xor.assoc)

lemma crc_bits_xor: "(crc_bit ^^ k) (x XOR y) = (crc_bit ^^ k) x XOR (crc_bit ^^ k) y"
  by (induction k) (simp_all add: crc_bit_xor)

lemma crc_bits_low_zero:
  "(\<And>i. i < k \<Longrightarrow> \<not> bit y i) \<Longrightarrow> (crc_bit ^^ k) y = drop_bit k y"
proof (induction k)
  case 0
  then show ?case by simp
next
  case (Suc k)
  then have "(crc_bit ^^ k) y = drop_bit k y" by simp
  moreover have "\<not> bit y k" using Suc.prems by simp
  then have "\<not> bit (drop_bit k y) 0" by (simp add: bit_drop_bit_eq)
  with \<open>(crc_bit ^^ k) y = drop_bit k y\<close> show ?case by (simp add: crc_bit_def [of "drop_bit k y"])
qed


definition icrc_bit :: "int \<Rightarrow> int" where
  "icrc_bit x = (if x mod 2 = 1 then x div 2 XOR 0xEDB88320 else x div 2)"

lemma uint_crc_bit: "uint (crc_bit x) = icrc_bit (uint x)"
proof -
  have "bit x 0 \<longleftrightarrow> uint x mod 2 = 1"
    by (metis bit_uint_iff bit_0 odd_iff_mod_2_eq_one bit_imp_le_length len_gt_0)
  moreover have "uint (drop_bit 1 x) = uint x div 2"
    by (simp only: drop_bit_eq_div uint_div_distrib) simp
  ultimately show ?thesis
    by (simp add: crc_bit_def icrc_bit_def unsigned_xor_eq)
qed

definition icrc8 :: "int \<Rightarrow> int" where
  "icrc8 x = icrc_bit (icrc_bit (icrc_bit (icrc_bit (icrc_bit (icrc_bit (icrc_bit (icrc_bit x)))))))"

lemma crc_table_int: "map icrc8 [0..255] = map uint wp_crc32_table"
  by (simp add: icrc8_def icrc_bit_def wp_crc32_table_def upto.simps)


lemma uint_crc_bits8: "uint ((crc_bit ^^ 8) x) = icrc8 (uint x)"
  by (simp add: icrc8_def uint_crc_bit eval_nat_numeral)

lemma table_is_serial:
  assumes "i < 256" shows "wp_crc32_table ! i = (crc_bit ^^ 8) (of_nat i)"
proof -
  have len: "length wp_crc32_table = 256" using arg_cong [OF crc_table_int, of length] by simp
  have "map uint wp_crc32_table ! i = map icrc8 [0..255] ! i" by (simp only: crc_table_int)
  then have "uint (wp_crc32_table ! i) = icrc8 (int i)" using assms len by simp
  also have "\<dots> = uint ((crc_bit ^^ 8) (of_nat i))"
    using assms by (simp add: uint_crc_bits8 unsigned_of_nat take_bit_nat_eq_self)
  finally show ?thesis by (simp add: word_uint_eq_iff)
qed

lemma mask_ff: "(0xFF :: u32) = mask 8" by (simp add: mask_eq_exp_minus_1)

lemma crc32_step_serial: "crc32_step crc b = (crc_bit ^^ 8) (crc XOR ucast b)"
proof -
  define z where "z = crc XOR ucast b"
  have "z = (z AND mask 8) XOR push_bit 8 (drop_bit 8 z)"
    by (rule bit_word_eqI) (auto simp: bit_xor_iff bit_and_iff bit_push_bit_iff bit_drop_bit_eq bit_mask_iff)
  then have "(crc_bit ^^ 8) z = (crc_bit ^^ 8) (z AND mask 8) XOR (crc_bit ^^ 8) (push_bit 8 (drop_bit 8 z))"
    by (metis crc_bits_xor)
  moreover have "(crc_bit ^^ 8) (push_bit 8 (drop_bit 8 z)) = drop_bit 8 crc"
  proof -
    have "(crc_bit ^^ 8) (push_bit 8 (drop_bit 8 z)) = drop_bit 8 (push_bit 8 (drop_bit 8 z))"
      by (rule crc_bits_low_zero) (simp add: bit_push_bit_iff)
    also have "\<dots> = drop_bit 8 crc" unfolding z_def
      by (rule bit_word_eqI)
        (auto simp: bit_drop_bit_eq bit_push_bit_iff bit_xor_iff bit_ucast_iff bit_byte_high
          dest: bit_imp_le_length)
    finally show ?thesis .
  qed
  moreover have "unat (z AND mask 8) < 256"
    using and_mask_less' [of 8 z] by (simp add: word_less_nat_alt)
  then have "wp_crc32_table ! unat (z AND mask 8) = (crc_bit ^^ 8) (z AND mask 8)"
    using table_is_serial [of "unat (z AND mask 8)"] by simp
  ultimately show ?thesis
    by (simp add: crc32_step_def z_def [symmetric] mask_ff)
qed

lemma crc_poly_bit31: "bit (0xEDB88320 :: u32) 31"
  by code_simp

lemma crc_bit_inj: "crc_bit x = crc_bit y \<longleftrightarrow> x = y"
proof
  assume "crc_bit x = crc_bit y"
  define z where "z = x XOR y"
  have zero: "crc_bit z = 0"
    using \<open>crc_bit x = crc_bit y\<close> by (simp add: z_def crc_bit_xor)
  have top: "\<not> bit (drop_bit 1 z) 31"
    using bit_imp_le_length [of z 32] by (auto simp: bit_drop_bit_eq)
  have low: "\<not> bit z 0"
  proof
    assume "bit z 0"
    then have "bit (crc_bit z) 31"
      using top crc_poly_bit31 by (simp only: crc_bit_def if_True bit_xor_iff not_False_eq_True simp_thms)
    with zero show False by simp
  qed
  with zero have shifted: "drop_bit 1 z = 0" by (simp only: crc_bit_def if_False)
  have "\<not> bit z n" for n
  proof (cases n)
    case 0
    with low show ?thesis by simp
  next
    case (Suc m)
    have "bit z (1 + m) \<longleftrightarrow> bit (drop_bit 1 z) m" by (simp only: bit_drop_bit_eq comp_apply)
    with Suc show ?thesis by (simp only: shifted bit_0_eq bot_apply bot_bool_def) simp
  qed
  then show "x = y" by (simp add: z_def bit_eq_iff bit_xor_iff)
qed simp

lemma crc_bits_inj: "(crc_bit ^^ k) x = (crc_bit ^^ k) y \<longleftrightarrow> x = y"
  by (induction k) (simp_all add: crc_bit_inj)

lemma xor_right_cancel32: "(x :: u32) XOR z = y XOR z \<longleftrightarrow> x = y"
  by (auto simp: bit_eq_iff bit_xor_iff)

lemma xor_left_cancel32: "(z :: u32) XOR x = z XOR y \<longleftrightarrow> x = y"
  by (auto simp: bit_eq_iff bit_xor_iff)

lemma crc32_loop_inj_start: "crc32_loop c xs = crc32_loop c' xs \<longleftrightarrow> c = c'"
proof (induction xs arbitrary: c c')
  case Nil
  then show ?case by (simp add: crc32_loop_def)
next
  case (Cons b xs)
  have "crc32_step c b = crc32_step c' b \<longleftrightarrow> c = c'"
    by (simp add: crc32_step_serial crc_bits_inj xor_right_cancel32)
  with Cons show ?case by (simp add: crc32_loop_def)
qed

fun pack_burst :: "byte list \<Rightarrow> u32" where
  "pack_burst [] = 0"
| "pack_burst (b # bs) = ucast b XOR push_bit 8 (pack_burst bs)"

lemma bit_pack_burst:
  "bit (pack_burst bs) n \<longleftrightarrow> n < 32 \<and> n div 8 < length bs \<and> bit (bs ! (n div 8)) (n mod 8)"
proof (induction bs arbitrary: n)
  case Nil
  then show ?case by simp
next
  case (Cons b bs)
  show ?case
  proof (cases "n < 8")
    case True
    then show ?thesis by (auto simp: bit_xor_iff bit_push_bit_iff bit_ucast_iff)
  next
    case False
    then obtain m where "n = m + 8" using le_Suc_ex by (metis add.commute not_less)
    moreover have "(m + 8) div 8 = Suc (m div 8)" by simp
    ultimately show ?thesis
      by (auto simp: bit_xor_iff bit_push_bit_iff bit_ucast_iff bit_byte_high Cons simp del: div_add_self2)
  qed
qed

lemma pack_burst_inj:
  assumes "pack_burst xs = pack_burst ys" "length xs = length ys" "length xs \<le> 4"
  shows "xs = ys"
proof (rule nth_equalityI)
  show "length xs = length ys" by fact
next
  fix i assume i: "i < length xs"
  show "xs ! i = ys ! i"
  proof (rule bit_word_eqI)
    fix n assume "n < LENGTH(8)"
    then have n: "(8 * i + n) div 8 = i" "(8 * i + n) mod 8 = n" "8 * i + n < 32"
      using i assms(3) by auto
    have "bit (pack_burst xs) (8 * i + n) = bit (pack_burst ys) (8 * i + n)"
      using assms(1) by simp
    then show "bit (xs ! i) n = bit (ys ! i) n"
      using n i assms(2) by (simp add: bit_pack_burst)
  qed
qed

lemma crc32_loop_burst:
  "length bs \<le> 4 \<Longrightarrow> crc32_loop c bs = (crc_bit ^^ (8 * length bs)) (c XOR pack_burst bs)"
proof (induction bs arbitrary: c)
  case Nil
  then show ?case by (simp add: crc32_loop_def)
next
  case (Cons b bs)
  have "(crc_bit ^^ 8) (push_bit 8 (pack_burst bs)) = drop_bit 8 (push_bit 8 (pack_burst bs))"
    by (rule crc_bits_low_zero) (simp add: bit_push_bit_iff)
  also have "\<dots> = pack_burst bs"
    by (rule bit_word_eqI) (use Cons.prems in \<open>auto simp: bit_drop_bit_eq bit_push_bit_iff bit_pack_burst\<close>)
  finally have tail: "(crc_bit ^^ 8) (push_bit 8 (pack_burst bs)) = pack_burst bs" .
  have "crc32_loop c (b # bs) = crc32_loop (crc32_step c b) bs"
    by (simp add: crc32_loop_def)
  also have "\<dots> = (crc_bit ^^ (8 * length bs)) (crc32_step c b XOR pack_burst bs)"
    using Cons by simp
  also have "crc32_step c b XOR pack_burst bs = (crc_bit ^^ 8) (c XOR pack_burst (b # bs))"
    by (simp add: crc32_step_serial tail crc_bits_xor xor.assoc)
  also have "(crc_bit ^^ (8 * length bs)) \<dots> = (crc_bit ^^ (8 * length bs + 8)) (c XOR pack_burst (b # bs))"
    by (simp only: funpow_add comp_apply)
  finally show ?case by (simp add: add.commute)
qed

lemma crc32_loop_append: "crc32_loop c (xs @ ys) = crc32_loop (crc32_loop c xs) ys"
  by (simp add: crc32_loop_def)

lemma ucast64_inj: "(ucast (a :: u32) :: u64) = ucast b \<longleftrightarrow> a = b"
proof
  assume "(ucast a :: u64) = ucast b"
  then have "bit (ucast a :: u64) n = bit (ucast b :: u64) n" for n by simp
  show "a = b"
  proof (rule bit_word_eqI)
    fix n assume "n < LENGTH(32)"
    with \<open>bit (ucast a :: u64) n = bit (ucast b :: u64) n\<close> show "bit a n = bit b n"
      by (simp add: bit_ucast_iff)
  qed
qed simp

subsection \<open>Base64 against a three-byte reference coder\<close>

fun b64_quad :: "byte \<Rightarrow> byte \<Rightarrow> byte \<Rightarrow> byte list" where
  "b64_quad a b c = (let v = pack3 a b c in map (b64_char v) [18, 12, 6, 0])"

fun b64_ref :: "byte list \<Rightarrow> byte list" where
  "b64_ref [] = []"
| "b64_ref [a] = take 2 (b64_quad a 0 0) @ [b64_pad, b64_pad]"
| "b64_ref [a, b] = take 3 (b64_quad a b 0) @ [b64_pad]"
| "b64_ref (a # b # c # rest) = b64_quad a b c @ b64_ref rest"

lemma bit_pack3:
  "bit (pack3 a b c) n \<longleftrightarrow>
     (if n < 8 then bit c n else if n < 16 then bit b (n - 8) else bit a (n - 16))"
  by (auto simp: pack3_def bit_or_iff bit_push_bit_iff bit_ucast_iff bit_byte_high dest: bit_imp_le_length)

lemma bit_pack6:
  "bit (pack6 a b c d e f) n \<longleftrightarrow> (if n < 24 then bit (pack3 d e f) n else bit (pack3 a b c) (n - 24))"
  by (auto simp: bit_pack3 pack6_def bit_or_iff bit_push_bit_iff bit_ucast_iff bit_byte_high dest: bit_imp_le_length)

lemma mask_63: "(63 :: u64) = mask 6"
  by (simp add: mask_eq_exp_minus_1)

lemma b64_char_pack6_low:
  "n \<le> 18 \<Longrightarrow> b64_char (pack6 a b c d e f) n = b64_char (pack3 d e f) n"
proof -
  assume n: "n \<le> 18"
  have "drop_bit n (pack6 a b c d e f) AND 63 = drop_bit n (pack3 d e f) AND 63"
    unfolding mask_63
    by (rule bit_word_eqI) (use n in \<open>auto simp: bit_and_iff bit_mask_iff bit_drop_bit_eq bit_pack6\<close>)
  then show ?thesis by (simp add: b64_char_def)
qed

lemma b64_char_pack6_high:
  "n \<le> 18 \<Longrightarrow> b64_char (pack6 a b c d e f) (n + 24) = b64_char (pack3 a b c) n"
proof -
  assume n: "n \<le> 18"
  have "drop_bit (n + 24) (pack6 a b c d e f) AND 63 = drop_bit n (pack3 a b c) AND 63"
    unfolding mask_63
    by (rule bit_word_eqI) (use n in \<open>auto simp: bit_and_iff bit_mask_iff bit_drop_bit_eq bit_pack6\<close>)
  then show ?thesis by (simp add: b64_char_def)
qed

lemmas b64_char_pack6_simps =
  b64_char_pack6_low b64_char_pack6_high [of 18, simplified] b64_char_pack6_high [of 12, simplified]
  b64_char_pack6_high [of 6, simplified] b64_char_pack6_high [of 0, simplified]

lemma base64_encode_last_ref: "length xs < 3 \<Longrightarrow> base64_encode_last xs = b64_ref xs"
  by (cases xs rule: b64_ref.cases) (simp_all add: Let_def)

lemma base64_encode_tail_ref: "length xs < 6 \<Longrightarrow> base64_encode_tail xs = b64_ref xs"
  by (cases xs rule: b64_ref.cases) (simp_all add: Let_def base64_encode_last_ref)

lemma base64_blocks_ref: "base64_encode_blocks xs = b64_ref xs"
proof (induction xs rule: base64_encode_blocks.induct)
  case (1 a b c d e f rest)
  then show ?case by (simp add: Let_def b64_char_pack6_simps)
qed (simp_all add: base64_encode_tail_ref del: base64_encode_tail.simps b64_ref.simps)

lemma length_b64_ref: "length (b64_ref xs) = 4 * ((length xs + 2) div 3)"
proof (induction xs rule: b64_ref.induct)
  case (4 a b c rest)
  have "(length (a # b # c # rest) + 2) div 3 = Suc ((length rest + 2) div 3)" by simp
  with 4 show ?case by (simp only: b64_ref.simps length_append) (simp add: Let_def)
qed (simp_all add: Let_def)

lemma b64_inverse_alphabet:
  "map (\<lambda>k. wp_b64_inverse ! unat (wp_b64_alphabet ! k)) [0..<64] = map of_nat [0..<64]"
  by (code_simp)

lemma b64_alphabet_not_pad: "b64_pad \<notin> set wp_b64_alphabet"
  by code_simp

lemma length_b64_alphabet: "length wp_b64_alphabet = 64"
  by (simp add: wp_b64_alphabet_def)

lemma unat_sextet: "unat (drop_bit n v AND (63 :: u64)) < 64"
  using and_mask_less' [of 6 "drop_bit n v"] by (simp add: mask_63 word_less_nat_alt)

lemma b64_char_not_pad: "b64_char v n \<noteq> b64_pad"
proof
  assume "b64_char v n = b64_pad"
  moreover have "b64_char v n \<in> set wp_b64_alphabet"
    by (simp add: b64_char_def length_b64_alphabet unat_sextet)
  ultimately show False using b64_alphabet_not_pad by simp
qed

lemma b64_inv_char: "b64_inv (b64_char v n) = ucast (drop_bit n v AND 63)"
proof -
  let ?k = "unat (drop_bit n v AND 63)"
  have "map (\<lambda>k. wp_b64_inverse ! unat (wp_b64_alphabet ! k)) [0..<64] ! ?k = map of_nat [0..<64] ! ?k"
    by (simp only: b64_inverse_alphabet)
  then have "wp_b64_inverse ! unat (wp_b64_alphabet ! ?k) = of_nat ?k"
    using unat_sextet [of n v] by simp
  then have "b64_inv (b64_char v n) = ucast (of_nat ?k :: byte)"
    by (simp add: b64_inv_def b64_char_def)
  also have "\<dots> = ucast (drop_bit n v AND 63)"
    by (simp add: mask_63, intro bit_word_eqI) (auto simp: bit_ucast_iff bit_and_iff bit_mask_iff)
  finally show ?thesis .
qed

lemma bit_b64_inv_char:
  "bit (b64_inv (b64_char v n)) i \<longleftrightarrow> i < 6 \<and> bit v (n + i)"
  by (auto simp: b64_inv_char mask_63 bit_ucast_iff bit_and_iff bit_mask_iff bit_drop_bit_eq
      dest: bit_imp_le_length)

lemma mask_u32: "(15 :: u32) = mask 4" "(3 :: u32) = mask 2"
  by (simp_all add: mask_eq_exp_minus_1)

lemma b64_out_chars:
  "b64_out0 (b64_inv (b64_char (pack3 a b c) 18)) (b64_inv (b64_char (pack3 a b c) 12)) = a"
  "b64_out1 (b64_inv (b64_char (pack3 a b c) 12)) (b64_inv (b64_char (pack3 a b c) 6)) = b"
  "b64_out2 (b64_inv (b64_char (pack3 a b c) 6)) (b64_inv (b64_char (pack3 a b c) 0)) = c"
  by (rule byte_eqI; simp add: b64_out0_def b64_out1_def b64_out2_def mask_u32 bit_ucast_iff
      bit_or_iff bit_and_iff bit_mask_iff bit_push_bit_iff bit_drop_bit_eq bit_b64_inv_char bit_pack3
      del: push_bit_and flip: numeral_2_eq_2)+

lemma base64_decode_quad:
  "rest \<noteq> [] \<Longrightarrow> base64_decode_groups (b64_quad a b c @ rest) = [a, b, c] @ base64_decode_groups rest"
  by (cases rest) (simp_all add: Let_def b64_out_chars)

lemma b64_ref_eq_Nil: "b64_ref xs = [] \<longleftrightarrow> xs = []"
  by (cases xs rule: b64_ref.cases) (simp_all add: Let_def)

lemma base64_decode_groups_ref: "base64_decode_groups (b64_ref xs) = xs"
proof (induction xs rule: b64_ref.induct)
  case (4 a b c rest)
  show ?case
  proof (cases "rest = []")
    case True
    then show ?thesis by (simp add: Let_def b64_out_chars b64_char_not_pad)
  next
    case False
    with 4 show ?thesis
      using base64_decode_quad [of "b64_ref rest"] by (simp add: b64_ref_eq_Nil del: b64_quad.simps)
  qed
qed (simp_all add: Let_def b64_out_chars b64_char_not_pad)

subsection \<open>Properties\<close>

text \<open>
  (C1) \<open>crc32\<close> computes the bit-serial CRC: its table-driven loop equals the shift register
  with the reflected polynomial 0xEDB88320 clocked eight times per input byte, started at 0,
  without final complement.
\<close>

theorem crc32_bit_serial:
  "crc32 (Some bs) len = ucast (foldl (\<lambda>r b. (crc_bit ^^ 8) (r XOR ucast b)) 0 (take len bs))"
  by (simp add: crc32_def crc32_loop_def crc32_step_serial [abs_def])

text \<open>
  (C2) \<open>crc32\<close> detects every error burst of up to 32 bits: two messages that differ only in a
  window of at most four bytes have different checksums.
\<close>

theorem crc32_burst:
  assumes "length m = length m'" "length m \<le> 4" "m \<noteq> m'"
  shows "crc32 (Some (pre @ m @ post)) (length (pre @ m @ post))
       \<noteq> crc32 (Some (pre @ m' @ post)) (length (pre @ m' @ post))"
proof -
  have "pack_burst m \<noteq> pack_burst m'" using pack_burst_inj assms by blast
  then have "crc32_loop c m \<noteq> crc32_loop c m'" for c
    using assms(1,2) by (simp add: crc32_loop_burst crc_bits_inj xor_left_cancel32)
  then show ?thesis
    by (simp add: crc32_def crc32_loop_append ucast64_inj crc32_loop_inj_start)
qed

theorem crc32_burst_witness:
  "crc32 (Some [1, 2, 3, 9]) (length [1, 2, 3, 9 :: byte])
     \<noteq> crc32 (Some [1, 7, 3, 9]) (length [1, 7, 3, 9 :: byte])"
  using crc32_burst [of "[2]" "[7]" "[1]" "[3, 9]"] by simp

text \<open>
  (C3) \<open>base64_encode\<close> with its six-byte fast path stores what the three-byte coder of
  RFC 4648 stores, padding included, and fills exactly \<open>4 * ceil (len / 3)\<close> bytes.
\<close>

theorem base64_encode_rfc:
  "base64_encode input len = b64_ref (take len input)
   \<and> length (base64_encode input len) = 4 * ((min (length input) len + 2) div 3)"
  by (simp add: base64_encode_def base64_blocks_ref length_b64_ref)

text \<open>
  (C4) \<open>base64_decode\<close> undoes \<open>base64_encode\<close> on every byte string, and returns the number
  of bytes it restored.
\<close>

theorem base64_roundtrip:
  "base64_decode (base64_encode xs (length xs)) (length (base64_encode xs (length xs)))
     = (xs, length xs)"
  by (simp add: base64_decode_def base64_encode_def base64_blocks_ref base64_decode_groups_ref Let_def)

end
