(* ===== verification/Arc4.thy ===== *)
theory Arc4
  imports Prelude
begin

text \<open>
  \<open>src/cnet/io/security.h\<close>, class \<open>ARCFourSecurity\<close> (the portable variant): the RC4
  state of a network session, its key schedule and its in-place update. A stream cipher
  interface states what the protocol stack needs from it: output of the same length, and that
  a peer in the same state restores the plaintext however the bytes are cut into packets.
\<close>

subsection \<open>State and operations\<close>

record arc4 =
  index1 :: byte
  index2 :: byte
  perm :: "byte list"

abbreviation perm_at :: "byte list \<Rightarrow> byte \<Rightarrow> byte" where
  "perm_at p i \<equiv> p ! unat i"

text \<open>One iteration of the key schedule: \<open>j += perm[i] + IV[i % keylen]\<close> and the swap.\<close>

definition arc4_key_step :: "byte list \<Rightarrow> byte list \<times> byte \<Rightarrow> nat \<Rightarrow> byte list \<times> byte" where
  "arc4_key_step iv pj i =
     (let p = fst pj; j = snd pj + p ! i + iv ! (i mod length iv)
      in (swap_at i (unat j) p, j))"

text \<open>\<open>SetParameter\<close>; an empty key divides by zero (\<open>i % keylen\<close>), which is \<open>None\<close>.\<close>

definition arc4_set_parameter :: "byte list \<Rightarrow> arc4 option" where
  "arc4_set_parameter param =
     (if param = [] then None
      else Some \<lparr>index1 = 0, index2 = 0,
                 perm = fst (foldl (arc4_key_step param) (map of_nat [0..<256], 0) [0..<256])\<rparr>)"

text \<open>One iteration of the loop of \<open>Update\<close>: the new state and the key stream byte.\<close>

definition arc4_step :: "arc4 \<Rightarrow> arc4 \<times> byte" where
  "arc4_step s =
     (let i1 = index1 s + 1;
          j1 = perm_at (perm s) i1;
          i2 = index2 s + j1;
          j2 = perm_at (perm s) i2;
          p = (perm s)[unat i2 := j1];
          p = p[unat i1 := j2]
      in (\<lparr>index1 = i1, index2 = i2, perm = p\<rparr>, perm_at p (j1 + j2)))"

fun arc4_update :: "arc4 \<Rightarrow> byte list \<Rightarrow> arc4 \<times> byte list" where
  "arc4_update s [] = (s, [])"
| "arc4_update s (x # xs) =
     (let (s, k) = arc4_step s; (s, ys) = arc4_update s xs in (s, (x XOR k) # ys))"

text \<open>A session calls \<open>Update\<close> once per packet on the same object.\<close>

fun arc4_packets :: "arc4 \<Rightarrow> byte list list \<Rightarrow> arc4 \<times> byte list list" where
  "arc4_packets s [] = (s, [])"
| "arc4_packets s (p # ps) =
     (let (s, q) = arc4_update s p; (s, qs) = arc4_packets s ps in (s, q # qs))"

subsection \<open>The permutation invariant\<close>

definition arc4_ok :: "arc4 \<Rightarrow> bool" where
  "arc4_ok s \<longleftrightarrow> mset (perm s) = mset (map of_nat [0..<256])"

lemma unat_byte_less [simp]: "unat (b :: byte) < 256"
  using unsigned_less [of b] by simp

lemma arc4_ok_length: "arc4_ok s \<Longrightarrow> length (perm s) = 256"
  unfolding arc4_ok_def by (metis diff_zero length_map length_upt size_mset)

lemma arc4_key_step_mset:
  assumes "length (fst pj) = 256" "i < 256"
  shows "mset (fst (arc4_key_step iv pj i)) = mset (fst pj)"
    "length (fst (arc4_key_step iv pj i)) = 256"
  using assms by (simp_all add: arc4_key_step_def Let_def)

lemma arc4_key_fold_mset:
  "length (fst pj) = 256 \<Longrightarrow> (\<forall>i \<in> set is. i < 256) \<Longrightarrow>
     mset (fst (foldl (arc4_key_step iv) pj is)) = mset (fst pj)"
  by (induction "is" arbitrary: pj) (simp_all add: arc4_key_step_mset)

lemma arc4_set_parameter_ok:
  "arc4_set_parameter k = Some s \<Longrightarrow> arc4_ok s"
  by (auto simp: arc4_set_parameter_def arc4_ok_def arc4_key_fold_mset split: if_splits)

lemma arc4_step_swap:
  "perm (fst (arc4_step s)) = swap_at (unat (index2 s + perm_at (perm s) (index1 s + 1)))
     (unat (index1 s + 1)) (perm s)"
  by (simp add: arc4_step_def Let_def swap_at_def)

lemma arc4_step_ok: "arc4_ok s \<Longrightarrow> arc4_ok (fst (arc4_step s))"
  by (simp add: arc4_ok_def arc4_step_swap arc4_ok_length)

lemma arc4_update_ok: "arc4_ok s \<Longrightarrow> arc4_ok (fst (arc4_update s xs))"
  by (induction xs arbitrary: s) (auto simp: split_beta Let_def arc4_step_ok)

subsection \<open>The stream cipher interface\<close>

lemma byte_xor_cancel [simp]: "((x :: byte) XOR k) XOR k = x"
  by (rule bit_word_eqI) (auto simp: bit_xor_iff)

locale stream_cipher =
  fixes enc :: "'s \<Rightarrow> byte list \<Rightarrow> 's \<times> byte list"
  assumes enc_nil: "enc s [] = (s, [])"
    and enc_append: "enc s (xs @ ys) =
          (let (s1, cs) = enc s xs; (s2, ds) = enc s1 ys in (s2, cs @ ds))"
    and enc_length: "length (snd (enc s xs)) = length xs"
    and enc_involutive: "enc s (snd (enc s xs)) = (fst (enc s xs), xs)"
begin

fun enc_packets :: "'s \<Rightarrow> byte list list \<Rightarrow> 's \<times> byte list list" where
  "enc_packets s [] = (s, [])"
| "enc_packets s (p # ps) =
     (let (s1, q) = enc s p; (s2, qs) = enc_packets s1 ps in (s2, q # qs))"

lemma enc_packets_concat:
  "enc s (concat ps) = (fst (enc_packets s ps), concat (snd (enc_packets s ps)))"
  by (induction ps arbitrary: s) (simp_all add: enc_nil enc_append split_beta Let_def)

lemma packets_roundtrip:
  assumes "concat qs = concat (snd (enc_packets s ps))"
  shows "concat (snd (enc_packets s qs)) = concat ps
       \<and> fst (enc_packets s qs) = fst (enc_packets s ps)"
proof -
  have "enc s (concat qs) = (fst (enc s (concat ps)), concat ps)"
    using enc_involutive [of s "concat ps"] by (simp add: assms enc_packets_concat [of s ps])
  then show ?thesis by (simp add: enc_packets_concat)
qed

end

lemma arc4_update_append:
  "arc4_update s (xs @ ys) =
     (let (s1, cs) = arc4_update s xs; (s2, ds) = arc4_update s1 ys in (s2, cs @ ds))"
  by (induction xs arbitrary: s) (simp_all add: split_beta Let_def)

lemma arc4_update_length: "length (snd (arc4_update s xs)) = length xs"
  by (induction xs arbitrary: s) (simp_all add: split_beta Let_def)

lemma arc4_update_involutive:
  "arc4_update s (snd (arc4_update s xs)) = (fst (arc4_update s xs), xs)"
  by (induction xs arbitrary: s) (simp_all add: split_beta Let_def)

interpretation rc4: stream_cipher arc4_update
  by unfold_locales (simp_all add: arc4_update_append arc4_update_length arc4_update_involutive)

lemma arc4_packets_is: "arc4_packets s ps = rc4.enc_packets s ps"
  by (induction ps arbitrary: s) (simp_all add: split_beta Let_def)

subsection \<open>Properties\<close>

text \<open>
  (C6) However a session feeds packets to \<open>Update\<close>, after \<open>SetParameter\<close> with a non-empty key
  the table \<open>perm\<close> stays a permutation of the 256 byte values, so every index the cipher
  computes is in range.
\<close>

theorem arc4_permutation:
  assumes "arc4_set_parameter key = Some s"
  shows "mset (perm (fst (arc4_packets s ps))) = mset (map of_nat [0..<256])
       \<and> length (perm (fst (arc4_packets s ps))) = 256"
proof -
  have "arc4_ok (fst (arc4_packets t ps))" if "arc4_ok t" for t
    using that by (induction ps arbitrary: t) (auto simp: split_beta Let_def arc4_update_ok)
  then have "arc4_ok (fst (arc4_packets s ps))" using assms arc4_set_parameter_ok by blast
  then show ?thesis using arc4_ok_length arc4_ok_def by blast
qed

theorem arc4_permutation_witness:
  "\<exists>s. arc4_set_parameter [1] = Some s
     \<and> mset (perm (fst (arc4_packets s [[7], [8, 9]]))) = mset (map of_nat [0..<256])"
proof -
  obtain s where "arc4_set_parameter [1] = Some s" by (simp add: arc4_set_parameter_def)
  then show ?thesis using arc4_permutation [of "[1]" s "[[7], [8, 9]]"] by blast
qed

text \<open>
  (C5) Two peers keyed alike stay in step: if the receiver gets the encrypted byte stream, cut into
  packets in any way, its \<open>Update\<close> calls restore the sent bytes and both cipher states are equal
  afterwards.
\<close>

theorem arc4_session_roundtrip:
  assumes "concat qs = concat (snd (arc4_packets s ps))"
  shows "concat (snd (arc4_packets s qs)) = concat ps
       \<and> fst (arc4_packets s qs) = fst (arc4_packets s ps)"
  using assms unfolding arc4_packets_is by (rule rc4.packets_roundtrip)

theorem arc4_session_roundtrip_witness:
  "let s = the (arc4_set_parameter [1, 2]);
       wire = concat (snd (arc4_packets s [[5], [6, 7]]))
   in concat (snd (arc4_packets s [take 2 wire, drop 2 wire])) = [5, 6, 7]"
  unfolding Let_def
  by (subst arc4_session_roundtrip [THEN conjunct1, of _ _ "[[5], [6, 7]]"]) simp_all

end
