(* ===== verification/HashCore.thy ===== *)
theory HashCore
  imports Prelude
begin

text \<open>
  The part that \<open>MD5Hash\<close> and \<open>SHA1Hash\<close> (\<open>src/cnet/io/security.h\<close>) have in common: the
  64-byte buffer, the 64-bit message counter in two words and the padding of \<open>Final\<close>. Both
  classes repeat the same code around their own \<open>transform\<close>, so the definitions take
  \<open>transform\<close> as an argument; the locale \<open>block_hash\<close> proves once that any sequence of
  \<open>Update\<close> calls followed by \<open>Final\<close> computes the padded block digest of the concatenation.
\<close>

subsection \<open>State and operations\<close>

record hash_ctx =
  state :: "u32 list"
  low_count :: u32
  high_count :: u32
  remain :: nat
  buffer :: "byte list"

type_synonym transform = "u32 list \<Rightarrow> byte list \<Rightarrow> u32 list"

text \<open>\<open>memcpy(buffer + off, input, n)\<close>\<close>

definition buf_write :: "byte list \<Rightarrow> nat \<Rightarrow> byte list \<Rightarrow> nat \<Rightarrow> byte list" where
  "buf_write buf off input n = take off buf @ take n input @ drop (off + n) buf"

text \<open>\<open>transform(block); if ((low_count += 512) == 0) high_count++;\<close>\<close>

definition hash_block :: "transform \<Rightarrow> hash_ctx \<Rightarrow> byte list \<Rightarrow> hash_ctx" where
  "hash_block tr c block =
     (let l = low_count c + 512
      in c\<lparr>state := tr (state c) block, low_count := l,
          high_count := (if l = 0 then high_count c + 1 else high_count c)\<rparr>)"

text \<open>The loop over full blocks and the final copy of the rest.\<close>

function hash_loop :: "transform \<Rightarrow> hash_ctx \<Rightarrow> byte list \<Rightarrow> nat \<Rightarrow> hash_ctx" where
  "hash_loop tr c input inputlen =
     (if 64 \<le> inputlen then hash_loop tr (hash_block tr c (take 64 input)) (drop 64 input) (inputlen - 64)
      else c\<lparr>remain := inputlen,
            buffer := (if 0 < inputlen then buf_write (buffer c) 0 input inputlen else buffer c)\<rparr>)"
  by pat_completeness auto
termination by (relation "measure (\<lambda>(_, _, _, n). n)") auto

declare hash_loop.simps [simp del]

definition hash_update :: "transform \<Rightarrow> hash_ctx \<Rightarrow> byte list \<Rightarrow> nat \<Rightarrow> hash_ctx" where
  "hash_update tr c input inputlen =
     (if remain c \<noteq> 0 then
        let copy_len = 64 - remain c in
        if inputlen < copy_len then
          c\<lparr>buffer := buf_write (buffer c) (remain c) input inputlen, remain := remain c + inputlen\<rparr>
        else
          let c = c\<lparr>buffer := buf_write (buffer c) (remain c) input copy_len\<rparr>
          in hash_loop tr (hash_block tr c (buffer c)) (drop copy_len input) (inputlen - copy_len)
      else hash_loop tr c input inputlen)"

text \<open>\<open>Update(Octets)\<close>: \<open>size()\<close> is passed as a 32-bit \<open>unsigned int\<close>.\<close>

definition hash_Update :: "transform \<Rightarrow> hash_ctx \<Rightarrow> byte list \<Rightarrow> hash_ctx" where
  "hash_Update tr c o1 = hash_update tr c o1 (unat (of_nat (length o1) :: u32))"

definition hash_padding :: "byte list" where
  "hash_padding = 0x80 # replicate 63 0"

text \<open>The counters as \<open>Final\<close> computes them: bits of the blocks done plus the buffered bytes.\<close>

definition final_low :: "hash_ctx \<Rightarrow> u32" where
  "final_low c = low_count c + of_nat (remain c * 8)"

definition final_high :: "hash_ctx \<Rightarrow> u32" where
  "final_high c = (if final_low c < low_count c then high_count c + 1 else high_count c)"

text \<open>The padding phase of \<open>Final\<close>; \<open>len_enc l h\<close> is the eight bytes of the length.\<close>

definition hash_pad :: "transform \<Rightarrow> (u32 \<Rightarrow> u32 \<Rightarrow> byte list) \<Rightarrow> hash_ctx \<Rightarrow> hash_ctx" where
  "hash_pad tr len_enc c =
     (let index = remain c mod 64;
          padlen = (if index < 56 then 56 - index else 120 - index);
          lh = len_enc (final_low c) (final_high c);
          c = hash_update tr c hash_padding padlen;
          c = hash_update tr c (take 4 lh) 4
      in hash_update tr c (drop 4 lh) 4)"

subsection \<open>The reference digest\<close>

fun blocks :: "byte list \<Rightarrow> byte list list" where
  "blocks [] = []"
| "blocks (x # xs) = take 64 (x # xs) # blocks (drop 63 xs)"

declare blocks.simps(2) [simp del]

definition md_pad :: "(u32 \<Rightarrow> u32 \<Rightarrow> byte list) \<Rightarrow> byte list \<Rightarrow> byte list" where
  "md_pad len_enc msg =
     (let bits = 8 * length msg;
          zeros = (119 - length msg mod 64) mod 64
      in msg @ 0x80 # replicate zeros 0 @ len_enc (of_nat bits) (of_nat (bits div 2 ^ 32)))"

definition md_digest :: "transform \<Rightarrow> u32 list \<Rightarrow> (u32 \<Rightarrow> u32 \<Rightarrow> byte list) \<Rightarrow> byte list \<Rightarrow> u32 list" where
  "md_digest tr iv len_enc msg = foldl tr iv (blocks (md_pad len_enc msg))"

subsection \<open>Numbers, rotations and padding as the standards write them\<close>

text \<open>
  The references of \<open>Md5\<close> and \<open>Sha1\<close> use none of the code's definitions: words are read
  with the library's \<open>word_rcat\<close>, rotated with its \<open>word_rotl\<close>, written with \<open>word_bytes\<close>,
  and the message is padded by \<open>std_pad\<close> with its bit count as one 64-bit word. The lemmas
  relate the shifts, loads and stores of the code to them.
\<close>

text \<open>The bytes of a word, low-order byte first, and a message with the single 1 bit, the zeros
  and its bit count, which fills the last block.\<close>

definition word_bytes :: "'a :: len word \<Rightarrow> byte list" where
  "word_bytes w = map (\<lambda>j. ucast (drop_bit (8 * j) w)) [0..<LENGTH('a) div 8]"

definition std_pad :: "(64 word \<Rightarrow> byte list) \<Rightarrow> byte list \<Rightarrow> byte list" where
  "std_pad enc msg =
     msg @ 0x80 # replicate ((119 - length msg mod 64) mod 64) 0 @ enc (of_nat (8 * length msg))"

lemma bit_rcat:
  "bit (word_rcat ws :: u32) n \<longleftrightarrow> n < 32 \<and> n div 8 < length ws \<and> bit (rev ws ! (n div 8) :: byte) (n mod 8)"
  using bit_horner_sum_uint_exp_iff [of "rev ws" n] by (auto simp: word_rcat_def bit_word_of_int_iff)

lemma of_le32_rcat: "of_le32 (a # b # c # d # xs) = word_rcat [d, c, b, a]"
proof (rule bit_word_eqI)
  fix n assume n: "n < LENGTH(32)"
  obtain j i where ji: "n = 8 * j + i" "i < 8" "n div 8 = j" "n mod 8 = i"
    by (rule that [of "n div 8" "n mod 8"]) simp_all
  with n have "j = 0 \<or> j = 1 \<or> j = 2 \<or> j = 3" by auto
  then show "bit (of_le32 (a # b # c # d # xs)) n = bit (word_rcat [d, c, b, a] :: u32) n"
    unfolding bit_rcat ji using ji(1,2) n by (auto simp: bit_join32)
qed

lemma word_rotl_shifts:
  assumes n: "n < 32"
  shows "push_bit n x OR drop_bit (32 - n) x = word_rotl n (x :: u32)"
proof (rule bit_word_eqI)
  fix i assume i: "i < LENGTH(32)"
  show "bit (push_bit n x OR drop_bit (32 - n) x) i = bit (word_rotl n x) i"
  proof (cases "i < n")
    case True
    then have "(i + (32 - n mod 32)) mod 32 = 32 - n + i" using n i by simp
    then show ?thesis using True i by (simp add: bit_or_iff bit_push_bit_iff bit_drop_bit_eq bit_word_rotl_iff)
  next
    case False
    then have "(i + (32 - n mod 32)) mod 32 = i - n" using n i by (simp add: mod_if)
    moreover have "\<not> bit x (32 - n + i)" using bit_imp_le_length [of x "32 - n + i"] False n by auto
    ultimately show ?thesis using False i by (simp add: bit_or_iff bit_push_bit_iff bit_drop_bit_eq bit_word_rotl_iff)
  qed
qed

lemma le32_word_bytes: "le32_bytes w = word_bytes w"
  by (simp add: le32_bytes_def word_bytes_def upt_rec)

lemma le64_word_bytes:
  "le32_bytes (of_nat n) @ le32_bytes (of_nat (n div 2 ^ 32)) = word_bytes (of_nat n :: 64 word)"
proof -
  have 1: "ucast (drop_bit k (of_nat n :: u32)) = (ucast (drop_bit k (of_nat n :: 64 word)) :: byte)" if "k \<le> 24" for k
    using that by (intro bit_word_eqI) (simp add: bit_ucast_iff bit_drop_bit_eq bit_of_nat_iff)
  have 2: "ucast (drop_bit k (of_nat (n div 2 ^ 32) :: u32)) = (ucast (drop_bit (32 + k) (of_nat n :: 64 word)) :: byte)"
    if "k \<le> 24" for k
    using that unfolding drop_bit_eq_div [symmetric]
    by (intro bit_word_eqI) (simp add: bit_ucast_iff bit_drop_bit_eq bit_of_nat_iff ac_simps)
  show ?thesis using 1 [of 0] 2 [of 0] 2 [of 8] 2 [of 16] 2 [of 24] by (simp add: le32_bytes_def word_bytes_def upt_rec 1)
qed

lemma md_pad_std:
  assumes "\<And>n. len_enc (of_nat n) (of_nat (n div 2 ^ 32)) = enc (of_nat n :: 64 word)"
  shows "md_pad len_enc msg = std_pad enc msg"
  by (simp only: md_pad_def std_pad_def Let_def assms)

subsection \<open>Blocks\<close>

lemma blocks_Cons64: "xs \<noteq> [] \<Longrightarrow> blocks xs = take 64 xs # blocks (drop 64 xs)"
  by (cases xs) (simp_all add: blocks.simps(2))

lemma blocks_append: "64 dvd length xs \<Longrightarrow> blocks (xs @ ys) = blocks xs @ blocks ys"
proof (induction xs rule: length_induct)
  case (1 xs)
  show ?case
  proof (cases "xs = []")
    case False
    with 1 have len: "64 \<le> length xs" by (auto dest: dvd_imp_le)
    then have "blocks (drop 64 xs @ ys) = blocks (drop 64 xs) @ blocks ys"
      using 1 False by (simp add: dvd_minus_self)
    with len False show ?thesis by (simp add: blocks_Cons64)
  qed simp
qed

lemma blocks_single: "length b = 64 \<Longrightarrow> blocks b = [b]"
  by (cases "b = []") (auto simp: blocks_Cons64)

lemma set_blocks: "64 dvd length xs \<Longrightarrow> b \<in> set (blocks xs) \<Longrightarrow> length b = 64"
proof (induction xs rule: length_induct)
  case (1 xs)
  show ?case
  proof (cases "xs = []")
    case True
    with 1 show ?thesis by simp
  next
    case False
    with "1.prems"(1) have len: "64 \<le> length xs" by (auto dest: dvd_imp_le)
    have "64 dvd length (drop 64 xs)" using len "1.prems"(1) by (simp add: dvd_minus_self)
    moreover have "length (drop 64 xs) < length xs" using len by simp
    ultimately have "b \<in> set (blocks (drop 64 xs)) \<Longrightarrow> length b = 64"
      using "1.IH" by blast
    then show ?thesis using "1.prems"(2) len False by (auto simp: blocks_Cons64)
  qed
qed

lemma length_buf_write: "off + n \<le> length buf \<Longrightarrow> n \<le> length input \<Longrightarrow>
    length (buf_write buf off input n) = length buf"
  by (simp add: buf_write_def)

lemma take_buf_write: "off + n \<le> length buf \<Longrightarrow> n \<le> length input \<Longrightarrow>
    take (off + n) (buf_write buf off input n) = take off buf @ take n input"
  by (simp add: buf_write_def)

subsection \<open>The context represents the message fed so far\<close>

definition hash_aligned :: "transform \<Rightarrow> u32 list \<Rightarrow> hash_ctx \<Rightarrow> byte list \<Rightarrow> bool" where
  "hash_aligned tr iv c msg \<longleftrightarrow>
     64 dvd length msg \<and> length (buffer c) = 64 \<and> state c = foldl tr iv (blocks msg)
     \<and> low_count c = of_nat (8 * length msg) \<and> high_count c = of_nat (8 * length msg div 2 ^ 32)"

definition hash_rep :: "transform \<Rightarrow> u32 list \<Rightarrow> hash_ctx \<Rightarrow> byte list \<Rightarrow> bool" where
  "hash_rep tr iv c msg \<longleftrightarrow>
     (let n = 64 * (length msg div 64)
      in hash_aligned tr iv c (take n msg) \<and> remain c = length msg mod 64
         \<and> take (remain c) (buffer c) = drop n msg)"

lemma count_tick:
  fixes q :: nat
  defines "l \<equiv> of_nat (512 * q) + 512 :: u32"
  shows "l = of_nat (512 * Suc q)"
    and "(if l = 0 then of_nat (512 * q div 2 ^ 32) + 1 else of_nat (512 * q div 2 ^ 32))
       = (of_nat (512 * Suc q div 2 ^ 32) :: u32)"
proof -
  show l: "l = of_nat (512 * Suc q)" by (simp add: l_def)
  have "l = 0 \<longleftrightarrow> 2 ^ 32 dvd 512 * Suc q"
    unfolding l by (simp only: word_of_nat_eq_0_iff) simp
  also have "\<dots> \<longleftrightarrow> 512 * 8388608 dvd 512 * Suc q" by simp
  also have "\<dots> \<longleftrightarrow> Suc q mod 8388608 = 0" by (simp only: nat_mult_dvd_cancel_disj) (simp add: mod_eq_0_iff_dvd)
  finally have zero: "l = 0 \<longleftrightarrow> Suc q mod 8388608 = 0" .
  have div: "512 * k div 2 ^ 32 = k div 8388608" for k :: nat
    using div_mult_mult1 [of 512 k 8388608] by simp
  show "(if l = 0 then of_nat (512 * q div 2 ^ 32) + 1 else of_nat (512 * q div 2 ^ 32))
       = (of_nat (512 * Suc q div 2 ^ 32) :: u32)"
    unfolding div div_Suc zero by simp
qed

lemma hash_block_aligned:
  assumes "hash_aligned tr iv c msg" "length b = 64"
  shows "hash_aligned tr iv (hash_block tr c b) (msg @ b)"
proof -
  obtain q where q: "length msg = 64 * q" using assms(1) by (auto simp: hash_aligned_def)
  have cnt: "low_count c = of_nat (512 * q)" "high_count c = of_nat (512 * q div 2 ^ 32)"
    using assms(1) q by (simp_all add: hash_aligned_def)
  have len: "8 * length (msg @ b) = 512 * Suc q" using q assms(2) by simp
  have "low_count (hash_block tr c b) = low_count c + 512"
    "high_count (hash_block tr c b) = (if low_count c + 512 = 0 then high_count c + 1 else high_count c)"
    by (simp_all add: hash_block_def Let_def)
  then have "low_count (hash_block tr c b) = of_nat (512 * Suc q)"
    "high_count (hash_block tr c b) = of_nat (512 * Suc q div 2 ^ 32)"
    unfolding cnt using count_tick [of q] by metis+
  moreover have "buffer (hash_block tr c b) = buffer c" "state (hash_block tr c b) = tr (state c) b"
    by (simp_all add: hash_block_def Let_def)
  ultimately show ?thesis
    using assms unfolding hash_aligned_def len by (simp add: blocks_append blocks_single)
qed

lemma hash_loop_rep:
  "hash_aligned tr iv c msg \<Longrightarrow> n \<le> length input \<Longrightarrow>
     hash_rep tr iv (hash_loop tr c input n) (msg @ take n input)"
proof (induction tr c input n arbitrary: msg rule: hash_loop.induct)
  case (1 tr c input n)
  show ?case
  proof (cases "64 \<le> n")
    case True
    have "hash_aligned tr iv (hash_block tr c (take 64 input)) (msg @ take 64 input)"
      using 1 True by (intro hash_block_aligned) auto
    then have "hash_rep tr iv
        (hash_loop tr (hash_block tr c (take 64 input)) (drop 64 input) (n - 64))
        ((msg @ take 64 input) @ take (n - 64) (drop 64 input))"
      using 1 True by (intro "1.IH") auto
    moreover have "take 64 input @ take (n - 64) (drop 64 input) = take n input"
      using True by (metis le_add_diff_inverse take_add)
    ultimately show ?thesis using True by (subst hash_loop.simps) simp
  next
    case False
    obtain q where q: "length msg = 64 * q" using 1 by (auto simp: hash_aligned_def)
    have "length (msg @ take n input) div 64 = q" "length (msg @ take n input) mod 64 = n"
      using q False 1 by auto
    then show ?thesis
      using False 1 q take_buf_write [of 0 n "buffer c" input] length_buf_write [of 0 n "buffer c" input]
      by (subst hash_loop.simps) (auto simp: hash_rep_def hash_aligned_def Let_def)
  qed
qed

lemma hash_update_rep:
  assumes rep: "hash_rep tr iv c msg" and n: "n \<le> length input"
  shows "hash_rep tr iv (hash_update tr c input n) (msg @ take n input)"
proof -
  define q where "q = length msg div 64"
  define r where "r = length msg mod 64"
  have len: "length msg = 64 * q + r" and r: "r < 64" by (simp_all add: q_def r_def)
  have al: "hash_aligned tr iv c (take (64 * q) msg)" and rem: "remain c = r"
    using rep by (simp_all add: hash_rep_def Let_def q_def r_def)
  have "take (remain c) (buffer c) = drop (64 * q) msg"
    using rep unfolding hash_rep_def Let_def q_def by blast
  then have buf: "take r (buffer c) = drop (64 * q) msg" using rem by simp
  have buflen: "length (buffer c) = 64" using al by (simp add: hash_aligned_def)
  show ?thesis
  proof (cases "r = 0")
    case True
    then show ?thesis
      using hash_loop_rep [OF al n] len rem by (simp add: hash_update_def)
  next
    case rnz: False
    show ?thesis
    proof (cases "n < 64 - r")
      case True
      have *: "length (msg @ take n input) div 64 = q" "length (msg @ take n input) mod 64 = r + n"
      proof -
        have "length (msg @ take n input) = (r + n) + q * 64" using len n by simp
        moreover have "r + n < 64" using True by simp
        ultimately show "length (msg @ take n input) div 64 = q" "length (msg @ take n input) mod 64 = r + n"
          by (simp_all only: div_mult_self1 mod_mult_self1) simp_all
      qed
      define c' where "c' = c\<lparr>buffer := buf_write (buffer c) r input n, remain := r + n\<rparr>"
      have "take (remain c') (buffer c') = drop (64 * q) msg @ take n input"
        using take_buf_write [of r n "buffer c" input] buflen n True buf by (simp add: c'_def)
      moreover have "take (64 * q) (msg @ take n input) = take (64 * q) msg"
        and "drop (64 * q) (msg @ take n input) = drop (64 * q) msg @ take n input"
        using len by simp_all
      moreover have "hash_aligned tr iv c' (take (64 * q) msg)"
        using al length_buf_write [of r n "buffer c" input] buflen n True
        by (simp add: hash_aligned_def c'_def)
      moreover have "hash_update tr c input n = c'" "remain c' = r + n"
        using rem rnz True by (simp_all add: hash_update_def Let_def c'_def)
      ultimately show ?thesis
        by (simp only: hash_rep_def Let_def *)
    next
      case False
      define k where "k = 64 - r"
      have k: "k \<le> n" "r + k = 64" using False r by (auto simp: k_def)
      define b where "b = buf_write (buffer c) r input k"
      have "length b = 64" using length_buf_write [of r k "buffer c" input] buflen n k by (simp add: b_def)
      moreover have "take 64 b = drop (64 * q) msg @ take k input"
        using take_buf_write [of r k "buffer c" input] buflen n k buf by (simp add: b_def)
      ultimately have b: "b = drop (64 * q) msg @ take k input" "length b = 64" by simp_all
      have "hash_aligned tr iv (c\<lparr>buffer := b\<rparr>) (take (64 * q) msg)"
        using al b by (simp add: hash_aligned_def)
      then have "hash_aligned tr iv (hash_block tr (c\<lparr>buffer := b\<rparr>) b) (take (64 * q) msg @ b)"
        using b(2) by (rule hash_block_aligned)
      moreover have "take (64 * q) msg @ b = msg @ take k input" by (simp add: b(1))
      ultimately have "hash_rep tr iv
          (hash_loop tr (hash_block tr (c\<lparr>buffer := b\<rparr>) b) (drop k input) (n - k))
          ((msg @ take k input) @ take (n - k) (drop k input))"
        using n k by (intro hash_loop_rep) auto
      moreover have "take k input @ take (n - k) (drop k input) = take n input"
        using k by (metis le_add_diff_inverse take_add)
      ultimately show ?thesis
        using rem rnz False by (simp add: hash_update_def Let_def flip: k_def b_def)
    qed
  qed
qed

lemma hash_Update_rep:
  "hash_rep tr iv c msg \<Longrightarrow>
     hash_rep tr iv (hash_Update tr c o1) (msg @ take (length o1 mod 2 ^ 32) o1)"
  using hash_update_rep [of tr iv c msg "unat (of_nat (length o1) :: u32)" o1]
  by (simp add: hash_Update_def unsigned_of_nat take_bit_eq_mod)

lemma final_counts:
  assumes "hash_rep tr iv c msg"
  shows "final_low c = of_nat (8 * length msg)" "final_high c = of_nat (8 * length msg div 2 ^ 32)"
proof -
  define q where "q = length msg div 64"
  define r where "r = length msg mod 64"
  have "length msg = 64 * q + r" by (simp add: q_def r_def)
  then have len: "8 * length msg = 512 * q + 8 * r" by simp
  have r: "8 * r < 512" by (simp add: r_def)
  have "remain c = r" "low_count c = of_nat (512 * q)" "high_count c = of_nat (512 * q div 2 ^ 32)"
    using assms by (simp_all add: hash_rep_def Let_def q_def r_def hash_aligned_def)
  note c = this
  show low: "final_low c = of_nat (8 * length msg)"
    unfolding len by (simp add: final_low_def c algebra_simps)
  define A where "A = 512 * q mod 2 ^ 32"
  define B where "B = 512 * q div 2 ^ 32"
  have "512 * q mod (512 * 8388608) = 512 * (q mod 8388608)" by (rule mult_mod_right [symmetric])
  then have "A = 512 * (q mod 8388608)" by (simp add: A_def)
  moreover have "q mod 8388608 < 8388608" by simp
  ultimately have lt: "A + 8 * r < 2 ^ 32" using r by simp
  have "512 * q = B * 2 ^ 32 + A" unfolding A_def B_def by (rule div_mult_mod_eq [symmetric])
  then have split: "512 * q + 8 * r = (A + 8 * r) + B * 2 ^ 32" by linarith
  have div: "(512 * q + 8 * r) div 2 ^ 32 = B" unfolding split using lt by simp
  have mod: "(512 * q + 8 * r) mod 2 ^ 32 = A + 8 * r" unfolding split using lt by simp
  have "unat (final_low c) = A + 8 * r"
    by (simp only: low len unsigned_of_nat take_bit_eq_mod len_num1 mod len_bit0 flip: mod) simp
  moreover have "unat (low_count c) = A"
    by (simp only: c A_def unsigned_of_nat take_bit_eq_mod) simp
  ultimately have "\<not> final_low c < low_count c"
    by (simp add: word_less_nat_alt)
  then show "final_high c = of_nat (8 * length msg div 2 ^ 32)"
    unfolding len div by (simp add: final_high_def c B_def)
qed

subsection \<open>The interface of a block hash\<close>

locale block_hash =
  fixes tr :: transform
    and iv :: "u32 list"
    and len_enc :: "u32 \<Rightarrow> u32 \<Rightarrow> byte list"
  assumes len_enc_length: "length (len_enc l h) = 8"
    and tr_length: "length s = length iv \<Longrightarrow> length (tr s b) = length iv"
begin

lemma fresh_rep:
  "length buf = 64 \<Longrightarrow>
     hash_rep tr iv \<lparr>state = iv, low_count = 0, high_count = 0, remain = 0, buffer = buf\<rparr> []"
  by (simp add: hash_rep_def hash_aligned_def)

lemma updates_rep:
  assumes "hash_rep tr iv c msg" "\<forall>o1 \<in> set os. length o1 < 2 ^ 32"
  shows "hash_rep tr iv (foldl (hash_Update tr) c os) (msg @ concat os)"
  using assms
proof (induction os arbitrary: c msg)
  case (Cons o1 os)
  have "hash_rep tr iv (hash_Update tr c o1) (msg @ o1)"
    using hash_Update_rep [of tr iv c msg o1] Cons.prems by simp
  from Cons.IH [OF this] Cons.prems show ?case by simp
qed simp

lemma pad_aligned: "64 dvd length (md_pad len_enc msg)"
proof -
  define r where "r = length msg mod 64"
  have "length (md_pad len_enc msg) = length msg + (9 + (119 - r) mod 64)"
    using len_enc_length by (simp add: md_pad_def Let_def r_def)
  also have "\<dots> mod 64 = (r + (9 + (119 - r) mod 64)) mod 64" by (simp only: r_def mod_add_left_eq)
  also have "\<dots> = 0"
  proof -
    have "r < 64" by (simp add: r_def)
    then show ?thesis by (auto simp: mod_if)
  qed
  finally show ?thesis by (simp add: mod_eq_0_iff_dvd)
qed

lemma pad_state:
  assumes rep: "hash_rep tr iv c msg"
  shows "state (hash_pad tr len_enc c) = md_digest tr iv len_enc msg"
proof -
  define lh where "lh = len_enc (final_low c) (final_high c)"
  define r where "r = length msg mod 64"
  define p where "p = (if r < 56 then 56 - r else 120 - r)"
  have r: "r < 64" "remain c mod 64 = r" using rep by (simp_all add: r_def hash_rep_def Let_def)
  have p: "take p hash_padding = 0x80 # replicate (p - Suc 0) 0" "p \<le> 64" "0 < p"
    using r by (auto simp: p_def hash_padding_def take_Cons')
  have zeros: "p - Suc 0 = (119 - length msg mod 64) mod 64"
    using r unfolding p_def r_def [symmetric] by (auto simp: mod_if)
  have pad: "((msg @ take p hash_padding) @ take 4 (take 4 lh)) @ take 4 (drop 4 lh) = md_pad len_enc msg"
    using len_enc_length by (simp add: md_pad_def Let_def p zeros lh_def final_counts [OF rep])
  have "hash_rep tr iv (hash_pad tr len_enc c) (md_pad len_enc msg)"
    unfolding pad [symmetric] hash_pad_def r Let_def lh_def [symmetric] p_def [symmetric]
    using p len_enc_length by (intro hash_update_rep rep) (simp_all add: lh_def hash_padding_def)
  then show ?thesis
    using pad_aligned [of msg] by (simp add: hash_rep_def Let_def hash_aligned_def md_digest_def)
qed

lemma digest_length: "length (md_digest tr iv len_enc msg) = length iv"
proof -
  have "length (foldl tr s bs) = length iv" if "length s = length iv" for s bs
    using that by (induction bs arbitrary: s) (simp_all add: tr_length)
  then show ?thesis by (simp add: md_digest_def)
qed

lemma streaming:
  assumes "length buf = 64" "\<forall>o1 \<in> set os. length o1 < 2 ^ 32"
  shows "state (hash_pad tr len_enc (foldl (hash_Update tr)
           \<lparr>state = iv, low_count = 0, high_count = 0, remain = 0, buffer = buf\<rparr> os))
       = md_digest tr iv len_enc (concat os)"
  using pad_state [OF updates_rep [OF fresh_rep [OF assms(1)] assms(2)]] by simp

end

end
