(* ===== verification/Md5.thy ===== *)
theory Md5
  imports HashCore
begin

text \<open>
  \<open>src/cnet/io/security.h\<close>, class \<open>MD5Hash\<close> (the portable variant). Each round is the table
  of its sixteen macro calls (word index, rotation, constant); a call \<open>ff (a, b, c, d, ...)\<close>
  is followed by one with the roles rotated to \<open>(d, a, b, c)\<close>, which the step function does
  on the quadruple.
\<close>

subsection \<open>The compression function\<close>

type_synonym quad = "u32 \<times> u32 \<times> u32 \<times> u32"

definition md5_f :: "u32 \<Rightarrow> u32 \<Rightarrow> u32 \<Rightarrow> u32" where
  "md5_f x y z = z XOR (x AND (y XOR z))"

definition md5_g :: "u32 \<Rightarrow> u32 \<Rightarrow> u32 \<Rightarrow> u32" where
  "md5_g x y z = y XOR (z AND (x XOR y))"

definition md5_h :: "u32 \<Rightarrow> u32 \<Rightarrow> u32 \<Rightarrow> u32" where
  "md5_h x y z = (x XOR y) XOR z"

definition md5_i :: "u32 \<Rightarrow> u32 \<Rightarrow> u32 \<Rightarrow> u32" where
  "md5_i x y z = y XOR (x OR NOT z)"

definition rotate_left :: "u32 \<Rightarrow> nat \<Rightarrow> u32" where
  "rotate_left x n = push_bit n x OR drop_bit (32 - n) x"

definition md5_step ::
  "(u32 \<Rightarrow> u32 \<Rightarrow> u32 \<Rightarrow> u32) \<Rightarrow> u32 list \<Rightarrow> quad \<Rightarrow> nat \<times> nat \<times> u32 \<Rightarrow> quad" where
  "md5_step fn x q call =
     (let (a, b, c, d) = q; (k, s, ac) = call;
          a = a + (fn b c d + x ! k + ac);
          a = rotate_left a s;
          a = a + b
      in (d, a, b, c))"

definition md5_calls1 :: "(nat \<times> nat \<times> u32) list" where
  "md5_calls1 =
    [(0, 7, 0xd76aa478), (1, 12, 0xe8c7b756), (2, 17, 0x242070db), (3, 22, 0xc1bdceee),
     (4, 7, 0xf57c0faf), (5, 12, 0x4787c62a), (6, 17, 0xa8304613), (7, 22, 0xfd469501),
     (8, 7, 0x698098d8), (9, 12, 0x8b44f7af), (10, 17, 0xffff5bb1), (11, 22, 0x895cd7be),
     (12, 7, 0x6b901122), (13, 12, 0xfd987193), (14, 17, 0xa679438e), (15, 22, 0x49b40821)]"

definition md5_calls2 :: "(nat \<times> nat \<times> u32) list" where
  "md5_calls2 =
    [(1, 5, 0xf61e2562), (6, 9, 0xc040b340), (11, 14, 0x265e5a51), (0, 20, 0xe9b6c7aa),
     (5, 5, 0xd62f105d), (10, 9, 0x2441453), (15, 14, 0xd8a1e681), (4, 20, 0xe7d3fbc8),
     (9, 5, 0x21e1cde6), (14, 9, 0xc33707d6), (3, 14, 0xf4d50d87), (8, 20, 0x455a14ed),
     (13, 5, 0xa9e3e905), (2, 9, 0xfcefa3f8), (7, 14, 0x676f02d9), (12, 20, 0x8d2a4c8a)]"

definition md5_calls3 :: "(nat \<times> nat \<times> u32) list" where
  "md5_calls3 =
    [(5, 4, 0xfffa3942), (8, 11, 0x8771f681), (11, 16, 0x6d9d6122), (14, 23, 0xfde5380c),
     (1, 4, 0xa4beea44), (4, 11, 0x4bdecfa9), (7, 16, 0xf6bb4b60), (10, 23, 0xbebfbc70),
     (13, 4, 0x289b7ec6), (0, 11, 0xeaa127fa), (3, 16, 0xd4ef3085), (6, 23, 0x4881d05),
     (9, 4, 0xd9d4d039), (12, 11, 0xe6db99e5), (15, 16, 0x1fa27cf8), (2, 23, 0xc4ac5665)]"

definition md5_calls4 :: "(nat \<times> nat \<times> u32) list" where
  "md5_calls4 =
    [(0, 6, 0xf4292244), (7, 10, 0x432aff97), (14, 15, 0xab9423a7), (5, 21, 0xfc93a039),
     (12, 6, 0x655b59c3), (3, 10, 0x8f0ccc92), (10, 15, 0xffeff47d), (1, 21, 0x85845dd1),
     (8, 6, 0x6fa87e4f), (15, 10, 0xfe2ce6e0), (6, 15, 0xa3014314), (13, 21, 0x4e0811a1),
     (4, 6, 0xf7537e82), (11, 10, 0xbd3af235), (2, 15, 0x2ad7d2bb), (9, 21, 0xeb86d391)]"

text \<open>The block read as sixteen little-endian words: \<open>(unsigned int *)block\<close>.\<close>

definition le_words :: "byte list \<Rightarrow> u32 list" where
  "le_words block = map (\<lambda>i. of_le32 (drop (4 * i) block)) [0..<16]"

definition md5_transform :: "u32 list \<Rightarrow> byte list \<Rightarrow> u32 list" where
  "md5_transform st block =
     (let x = le_words block;
          q = (st ! 0, st ! 1, st ! 2, st ! 3);
          q = foldl (md5_step md5_f x) q md5_calls1;
          q = foldl (md5_step md5_g x) q md5_calls2;
          q = foldl (md5_step md5_h x) q md5_calls3;
          q = foldl (md5_step md5_i x) q md5_calls4
      in (case q of (a, b, c, d) \<Rightarrow> [st ! 0 + a, st ! 1 + b, st ! 2 + c, st ! 3 + d]))"

subsection \<open>The object\<close>

definition md5_iv :: "u32 list" where
  "md5_iv = [0x67452301, 0xefcdab89, 0x98badcfe, 0x10325476]"

text \<open>The constructor leaves the buffer as it is in memory: \<open>buf\<close> is its content.\<close>

definition md5_init :: "byte list \<Rightarrow> hash_ctx" where
  "md5_init buf = \<lparr>state = md5_iv, low_count = 0, high_count = 0, remain = 0, buffer = buf\<rparr>"

definition md5_Update :: "hash_ctx \<Rightarrow> byte list \<Rightarrow> hash_ctx" where
  "md5_Update = hash_Update md5_transform"

definition md5_len_enc :: "u32 \<Rightarrow> u32 \<Rightarrow> byte list" where
  "md5_len_enc l h = le32_bytes l @ le32_bytes h"

definition md5_Final :: "hash_ctx \<Rightarrow> hash_ctx \<times> byte list" where
  "md5_Final c =
     (let c = hash_pad md5_transform md5_len_enc c in (c, concat (map le32_bytes (state c))))"

definition md5_Digest :: "byte list \<Rightarrow> byte list \<Rightarrow> byte list" where
  "md5_Digest buf o1 = snd (md5_Final (md5_Update (md5_init buf) o1))"

subsection \<open>The reference: RFC 1321\<close>

text \<open>
  Section 3.4 of the RFC, by step number: the table \<open>T[1 ... 64]\<close>, the auxiliary functions,
  the word and the shift of each step, and one step
  \<open>a = b + ((a + F(b,c,d) + X[k] + T[i]) <<< s)\<close>. Nothing of the class is used.
\<close>

definition rfc1321_T :: "u32 list" where
  "rfc1321_T =
    [0xd76aa478, 0xe8c7b756, 0x242070db, 0xc1bdceee, 0xf57c0faf, 0x4787c62a, 0xa8304613, 0xfd469501,
     0x698098d8, 0x8b44f7af, 0xffff5bb1, 0x895cd7be, 0x6b901122, 0xfd987193, 0xa679438e, 0x49b40821,
     0xf61e2562, 0xc040b340, 0x265e5a51, 0xe9b6c7aa, 0xd62f105d, 0x02441453, 0xd8a1e681, 0xe7d3fbc8,
     0x21e1cde6, 0xc33707d6, 0xf4d50d87, 0x455a14ed, 0xa9e3e905, 0xfcefa3f8, 0x676f02d9, 0x8d2a4c8a,
     0xfffa3942, 0x8771f681, 0x6d9d6122, 0xfde5380c, 0xa4beea44, 0x4bdecfa9, 0xf6bb4b60, 0xbebfbc70,
     0x289b7ec6, 0xeaa127fa, 0xd4ef3085, 0x04881d05, 0xd9d4d039, 0xe6db99e5, 0x1fa27cf8, 0xc4ac5665,
     0xf4292244, 0x432aff97, 0xab9423a7, 0xfc93a039, 0x655b59c3, 0x8f0ccc92, 0xffeff47d, 0x85845dd1,
     0x6fa87e4f, 0xfe2ce6e0, 0xa3014314, 0x4e0811a1, 0xf7537e82, 0xbd3af235, 0x2ad7d2bb, 0xeb86d391]"

definition rfc1321_fun :: "nat \<Rightarrow> u32 \<Rightarrow> u32 \<Rightarrow> u32 \<Rightarrow> u32" where
  "rfc1321_fun i x y z =
     (if i < 16 then (x AND y) OR (NOT x AND z)
      else if i < 32 then (x AND z) OR (y AND NOT z)
      else if i < 48 then x XOR y XOR z
      else y XOR (x OR NOT z))"

definition rfc1321_k :: "nat \<Rightarrow> nat" where
  "rfc1321_k i =
     (if i < 16 then i else if i < 32 then (1 + 5 * i) mod 16
      else if i < 48 then (5 + 3 * i) mod 16 else 7 * i mod 16)"

definition rfc1321_s :: "nat \<Rightarrow> nat" where
  "rfc1321_s i =
     (if i < 16 then [7, 12, 17, 22] else if i < 32 then [5, 9, 14, 20]
      else if i < 48 then [4, 11, 16, 23] else [6, 10, 15, 21]) ! (i mod 4)"

definition rfc1321_step :: "(nat \<Rightarrow> u32) \<Rightarrow> quad \<Rightarrow> nat \<Rightarrow> quad" where
  "rfc1321_step X q i =
     (case q of (a, b, c, d) \<Rightarrow>
        (d, b + word_rotl (rfc1321_s i) (a + rfc1321_fun i b c d + X (rfc1321_k i) + rfc1321_T ! i), b, c))"

definition rfc1321_block :: "u32 list \<Rightarrow> byte list \<Rightarrow> u32 list" where
  "rfc1321_block st block =
     (let X = (\<lambda>j. word_rcat (rev (take 4 (drop (4 * j) block))))
      in case foldl (rfc1321_step X) (st ! 0, st ! 1, st ! 2, st ! 3) [0..<64] of
           (a, b, c, d) \<Rightarrow> [st ! 0 + a, st ! 1 + b, st ! 2 + c, st ! 3 + d])"

definition rfc1321_iv :: "u32 list" where
  "rfc1321_iv =
     [word_rcat [0x67, 0x45, 0x23, 0x01 :: byte], word_rcat [0xef, 0xcd, 0xab, 0x89 :: byte],
      word_rcat [0x98, 0xba, 0xdc, 0xfe :: byte], word_rcat [0x10, 0x32, 0x54, 0x76 :: byte]]"

definition md5_ref :: "byte list \<Rightarrow> byte list" where
  "md5_ref msg =
     concat (map word_bytes (foldl rfc1321_block rfc1321_iv (blocks (std_pad word_bytes msg))))"

subsection \<open>The class computes it\<close>

lemma rfc_iv: "md5_iv = rfc1321_iv"
  by (simp add: md5_iv_def rfc1321_iv_def word_rcat_def)

lemma le_words_rcat: "j < 16 \<Longrightarrow> length block = 64 \<Longrightarrow> le_words block ! j = word_rcat (rev (take 4 (drop (4 * j) block)))"
proof -
  assume j: "j < 16" "length block = 64"
  then have "length (take 4 (drop (4 * j) block)) = 4" by simp
  then obtain a b c d where "take 4 (drop (4 * j) block) = [a, b, c, d]" using length_4_cases by blast
  moreover from this have "drop (4 * j) block = a # b # c # d # drop 4 (drop (4 * j) block)"
    by (metis append_Cons append_Nil append_take_drop_id)
  ultimately show ?thesis using j by (simp only: le_words_def) (simp add: of_le32_rcat del: of_le32.simps)
qed

lemma rfc_funs:
  "i < 16 \<Longrightarrow> rfc1321_fun i = md5_f" "16 \<le> i \<Longrightarrow> i < 32 \<Longrightarrow> rfc1321_fun i = md5_g"
  "32 \<le> i \<Longrightarrow> i < 48 \<Longrightarrow> rfc1321_fun i = md5_h" "48 \<le> i \<Longrightarrow> rfc1321_fun i = md5_i"
  by (auto simp: fun_eq_iff rfc1321_fun_def md5_f_def md5_g_def md5_h_def md5_i_def bit_eq_iff
      bit_and_iff bit_or_iff bit_xor_iff bit_not_iff)

lemma rfc_calls:
  "md5_calls1 = map (\<lambda>i. (rfc1321_k i, rfc1321_s i, rfc1321_T ! i)) [0..<16]"
  "md5_calls2 = map (\<lambda>i. (rfc1321_k i, rfc1321_s i, rfc1321_T ! i)) [16..<32]"
  "md5_calls3 = map (\<lambda>i. (rfc1321_k i, rfc1321_s i, rfc1321_T ! i)) [32..<48]"
  "md5_calls4 = map (\<lambda>i. (rfc1321_k i, rfc1321_s i, rfc1321_T ! i)) [48..<64]"
  by code_simp+

lemma rfc_schedule: "i < 64 \<Longrightarrow> rfc1321_k i < 16 \<and> rfc1321_s i < 32"
proof -
  have "\<forall>i \<in> set [0..<64]. rfc1321_k i < 16 \<and> rfc1321_s i < 32" by code_simp
  then show "i < 64 \<Longrightarrow> rfc1321_k i < 16 \<and> rfc1321_s i < 32" by simp
qed

lemma md5_step_rfc:
  assumes "i < 64" "length block = 64"
  shows "md5_step (rfc1321_fun i) (le_words block) q (rfc1321_k i, rfc1321_s i, rfc1321_T ! i)
       = rfc1321_step (\<lambda>j. word_rcat (rev (take 4 (drop (4 * j) block)))) q i"
  using rfc_schedule [OF assms(1)] le_words_rcat [OF _ assms(2), of "rfc1321_k i"]
  by (cases q) (simp add: md5_step_def rfc1321_step_def rotate_left_def word_rotl_shifts ac_simps)

lemma md5_round_rfc:
  assumes "length block = 64" "set is \<subseteq> {..<64}" "\<forall>i \<in> set is. rfc1321_fun i = fn"
  shows "foldl (md5_step fn (le_words block)) q (map (\<lambda>i. (rfc1321_k i, rfc1321_s i, rfc1321_T ! i)) is)
       = foldl (rfc1321_step (\<lambda>j. word_rcat (rev (take 4 (drop (4 * j) block))))) q is"
  using assms(2,3)
proof (induction "is" arbitrary: q)
  case (Cons i l)
  then show ?case using md5_step_rfc [OF _ assms(1), of i q] by simp
qed simp

lemma md5_transform_rfc: "length block = 64 \<Longrightarrow> md5_transform st block = rfc1321_block st block"
proof -
  assume len: "length block = 64"
  have split: "[0..<64::nat] = [0..<16] @ [16..<32] @ [32..<48] @ [48..<64]"
    using upt_add_eq_append [of 0 16 48] upt_add_eq_append [of 16 32 32] upt_add_eq_append [of 32 48 16] by simp
  have rounds:
    "foldl (md5_step md5_f (le_words block)) q md5_calls1 = foldl (rfc1321_step X) q [0..<16]"
    "foldl (md5_step md5_g (le_words block)) q md5_calls2 = foldl (rfc1321_step X) q [16..<32]"
    "foldl (md5_step md5_h (le_words block)) q md5_calls3 = foldl (rfc1321_step X) q [32..<48]"
    "foldl (md5_step md5_i (le_words block)) q md5_calls4 = foldl (rfc1321_step X) q [48..<64]"
    if "X = (\<lambda>j. word_rcat (rev (take 4 (drop (4 * j) block))))" for q X
    unfolding rfc_calls that by (rule md5_round_rfc [OF len]; auto simp: rfc_funs)+
  show ?thesis
    unfolding md5_transform_def rfc1321_block_def Let_def split foldl_append rounds [OF refl] ..
qed

lemma length_md5_transform: "length (md5_transform st b) = 4"
  by (simp add: md5_transform_def Let_def split: prod.splits)

interpretation md5: block_hash md5_transform md5_iv md5_len_enc
  by unfold_locales (simp_all add: md5_len_enc_def md5_iv_def length_md5_transform)

lemma md5_digest_rfc: "md_digest md5_transform md5_iv md5_len_enc msg
    = foldl rfc1321_block rfc1321_iv (blocks (std_pad word_bytes msg))"
proof -
  have "foldl md5_transform s bs = foldl rfc1321_block s bs" if "\<forall>b \<in> set bs. length b = 64" for s bs
    using that by (induction bs arbitrary: s) (simp_all add: md5_transform_rfc)
  moreover have "md_pad md5_len_enc msg = std_pad word_bytes msg"
    by (rule md_pad_std) (simp only: md5_len_enc_def le64_word_bytes)
  ultimately show ?thesis
    using set_blocks md5.pad_aligned [of msg] by (simp add: md_digest_def rfc_iv)
qed

lemma md5_stream:
  assumes "length buf = 64" "\<forall>o1 \<in> set os. length o1 < 2 ^ 32"
  shows "snd (md5_Final (foldl md5_Update (md5_init buf) os)) = md5_ref (concat os)"
  using md5.streaming [OF assms]
  by (simp add: md5_Final_def md5_Update_def md5_init_def md5_ref_def Let_def md5_digest_rfc
      le32_word_bytes [abs_def])

lemma length_concat_words: "length (concat (map word_bytes ws)) = 4 * length (ws :: u32 list)"
  by (induction ws) (simp_all add: word_bytes_def)

lemma length_md5_ref: "length (md5_ref msg) = 16"
proof -
  have "length (foldl rfc1321_block rfc1321_iv (blocks (std_pad word_bytes msg))) = 4"
    using md5.digest_length [of msg] unfolding md5_digest_rfc by (simp add: md5_iv_def)
  then show ?thesis by (simp only: md5_ref_def length_concat_words)
qed

text \<open>The test vector of RFC 1321, appendix A.5: the digest of "abc".\<close>

lemma md5_ref_abc:
  "md5_ref [97, 98, 99] =
     [0x90, 0x01, 0x50, 0x98, 0x3c, 0xd2, 0x4f, 0xb0, 0xd6, 0x96, 0x3f, 0x7d, 0x28, 0xe1, 0x7f, 0x72]"
  by code_simp

subsection \<open>Properties\<close>

text \<open>
  (C7) \<open>MD5Hash\<close>: however the message is cut into \<open>Update\<close> calls (each below 4 GB), \<open>Final\<close>
  returns the sixteen bytes of the RFC 1321 digest of the concatenation, whatever the
  uninitialised buffer held. The reference \<open>md5_ref\<close> is written from the RFC with its own
  table, auxiliary functions, schedule, initial registers, padding and 64-bit bit count, and
  uses no definition of the class.
\<close>

theorem md5_streaming:
  assumes "length buf = 64" "\<forall>o1 \<in> set os. length o1 < 2 ^ 32"
  shows "snd (md5_Final (foldl md5_Update (md5_init buf) os)) = md5_ref (concat os)
       \<and> length (md5_ref (concat os)) = 16"
  using md5_stream [OF assms] length_md5_ref by simp

theorem md5_streaming_witness:
  "snd (md5_Final (foldl md5_Update (md5_init (replicate 64 9)) [[97], [], [98, 99]])) =
     [0x90, 0x01, 0x50, 0x98, 0x3c, 0xd2, 0x4f, 0xb0, 0xd6, 0x96, 0x3f, 0x7d, 0x28, 0xe1, 0x7f, 0x72]"
  using md5_streaming [of "replicate 64 9" "[[97], [], [98, 99]]"] by (simp add: md5_ref_abc)

end
