(* ===== verification/Hmac.thy ===== *)
theory Hmac
  imports Md5
begin

text \<open>
  \<open>src/cnet/io/security.h\<close>, class \<open>HMAC_MD5Hash\<close>: the two key blocks, the inner hash running
  over \<open>k_ipad\<close> and the data, and \<open>Final\<close>, which hashes \<open>k_opad\<close> and the inner digest. The
  lemmas reduce it to the definition of RFC 2104 over the MD5 of \<open>Md5\<close>.
\<close>

record hmac_ctx =
  k_opad :: "byte list"
  md5hash :: hash_ctx

text \<open>The constructor: a 64-byte \<open>k_opad\<close> with the content \<open>pad\<close>, and a fresh MD5 object.\<close>

definition hmac_init :: "byte list \<Rightarrow> byte list \<Rightarrow> hmac_ctx" where
  "hmac_init pad buf = \<lparr>k_opad = pad, md5hash = md5_init buf\<rparr>"

text \<open>\<open>memcpy(pad, key, keylen)\<close>, the loop \<open>pad[i] ^= c\<close>, then \<open>memset(pad + keylen, c, 64 - keylen)\<close>.\<close>

definition hmac_pad :: "byte list \<Rightarrow> byte list \<Rightarrow> byte \<Rightarrow> byte list" where
  "hmac_pad pad key c =
     (let pad = buf_write pad 0 key (length key);
          pad = map (\<lambda>x. x XOR c) (take (length key) pad) @ drop (length key) pad
      in take (length key) pad @ replicate (64 - length key) c)"

text \<open>\<open>SetParameter\<close>; \<open>ipad\<close> is the content of the freshly sized local \<open>k_ipad\<close>, \<open>dbuf\<close> the
  buffer of the temporary object inside \<open>MD5Hash::Digest\<close>.\<close>

definition hmac_set_parameter ::
  "byte list \<Rightarrow> byte list \<Rightarrow> hmac_ctx \<Rightarrow> byte list \<Rightarrow> hmac_ctx" where
  "hmac_set_parameter ipad dbuf c param =
     (let key = (if 64 < length param then md5_Digest dbuf param else param);
          ipad = hmac_pad ipad key 0x36;
          c = c\<lparr>k_opad := hmac_pad (k_opad c) key 0x5c\<rparr>
      in c\<lparr>md5hash := md5_Update (md5hash c) ipad\<rparr>)"

definition hmac_Update :: "hmac_ctx \<Rightarrow> byte list \<Rightarrow> hmac_ctx" where
  "hmac_Update c o1 = c\<lparr>md5hash := md5_Update (md5hash c) o1\<rparr>"

definition hmac_Final :: "byte list \<Rightarrow> hmac_ctx \<Rightarrow> hmac_ctx \<times> byte list" where
  "hmac_Final dbuf c =
     (let (m, digest) = md5_Final (md5hash c);
          ctx = md5_Update (md5_Update (md5_init dbuf) (k_opad c)) digest
      in (c\<lparr>md5hash := m\<rparr>, snd (md5_Final ctx)))"

subsection \<open>The reference: RFC 2104\<close>

definition rfc_key :: "byte list \<Rightarrow> byte list" where
  "rfc_key key = (let k = (if 64 < length key then md5_ref key else key) in k @ replicate (64 - length k) 0)"

definition hmac_ref :: "byte list \<Rightarrow> byte list \<Rightarrow> byte list" where
  "hmac_ref key msg =
     md5_ref (map (\<lambda>x. x XOR 0x5c) (rfc_key key) @ md5_ref (map (\<lambda>x. x XOR 0x36) (rfc_key key) @ msg))"

lemma hmac_pad_rfc:
  assumes "length pad = 64" "length key \<le> 64"
  shows "hmac_pad pad key c = map (\<lambda>x. x XOR c) (key @ replicate (64 - length key) 0)"
  using assms by (simp add: hmac_pad_def buf_write_def Let_def)

lemma hmac_Update_fold:
  "md5hash (foldl hmac_Update c os) = foldl md5_Update (md5hash c) os"
  "k_opad (foldl hmac_Update c os) = k_opad c"
  by (induction os arbitrary: c) (simp_all add: hmac_Update_def)

lemma hmac_parameter:
  assumes "length ipad = 64" "length pad = 64" "length dbuf = 64" "length key < 2 ^ 32"
  shows "md5hash (hmac_set_parameter ipad dbuf (hmac_init pad buf) key)
           = md5_Update (md5_init buf) (map (\<lambda>x. x XOR 0x36) (rfc_key key))"
    and "k_opad (hmac_set_parameter ipad dbuf (hmac_init pad buf) key) = map (\<lambda>x. x XOR 0x5c) (rfc_key key)"
proof -
  have "md5_Digest dbuf key = md5_ref key"
    using md5_stream [of dbuf "[key]"] assms by (simp add: md5_Digest_def)
  moreover have "length (md5_ref key) \<le> 64" by (simp add: length_md5_ref)
  ultimately show "md5hash (hmac_set_parameter ipad dbuf (hmac_init pad buf) key)
           = md5_Update (md5_init buf) (map (\<lambda>x. x XOR 0x36) (rfc_key key))"
    and "k_opad (hmac_set_parameter ipad dbuf (hmac_init pad buf) key) = map (\<lambda>x. x XOR 0x5c) (rfc_key key)"
    using assms by (auto simp: hmac_set_parameter_def hmac_init_def rfc_key_def Let_def hmac_pad_rfc)
qed

lemma length_rfc_key: "length (rfc_key key) = 64"
  by (simp add: rfc_key_def Let_def length_md5_ref)

text \<open>
  (C9) \<open>HMAC_MD5Hash\<close>: a fresh object keyed with \<open>SetParameter\<close> (keys longer than a block
  included) and fed any sequence of \<open>Update\<close> calls returns the RFC 2104 HMAC-MD5 of the
  concatenated data from \<open>Final\<close>.
\<close>

theorem hmac_md5_rfc2104:
  assumes "length ipad = 64" "length pad = 64" "length buf = 64" "length dbuf = 64"
    and "length key < 2 ^ 32" "\<forall>o1 \<in> set os. length o1 < 2 ^ 32"
  shows "snd (hmac_Final dbuf (foldl hmac_Update (hmac_set_parameter ipad dbuf (hmac_init pad buf) key) os))
       = hmac_ref key (concat os)"
proof -
  let ?i = "map (\<lambda>x. x XOR 0x36) (rfc_key key)" and ?o = "map (\<lambda>x. x XOR 0x5c) (rfc_key key)"
  note par = hmac_parameter [OF assms(1,2,4,5)]
  have inner: "snd (md5_Final (foldl md5_Update (md5_Update (md5_init buf) ?i) os)) = md5_ref (?i @ concat os)"
    using md5_stream [of buf "?i # os"] assms(3,6) by (simp add: length_rfc_key)
  have "snd (md5_Final (md5_Update (md5_Update (md5_init dbuf) ?o) (md5_ref (?i @ concat os))))
      = md5_ref (?o @ md5_ref (?i @ concat os))"
    using md5_stream [of dbuf "[?o, md5_ref (?i @ concat os)]"] assms(4)
    by (simp add: length_rfc_key length_md5_ref)
  then show ?thesis
    by (simp add: hmac_Final_def hmac_ref_def split_beta Let_def hmac_Update_fold par inner)
qed

theorem hmac_md5_rfc2104_witness:
  "snd (hmac_Final (replicate 64 0) (foldl hmac_Update
      (hmac_set_parameter (replicate 64 5) (replicate 64 0) (hmac_init (replicate 64 1) (replicate 64 2)) (replicate 80 0xaa))
      [[1, 2], [3]])) = hmac_ref (replicate 80 0xaa) [1, 2, 3]"
  using hmac_md5_rfc2104 [of "replicate 64 5" "replicate 64 1" "replicate 64 2" "replicate 64 0"
      "replicate 80 0xaa" "[[1, 2], [3]]"] by simp

end
