(* ===== verification/Sha1.thy ===== *)
theory Sha1
  imports HashCore
begin

text \<open>
  \<open>src/cnet/io/security.h\<close>, class \<open>SHA1Hash\<close> (the portable variant). The 80 macro calls
  rotate the roles of the five registers by one each time; the step function does the rotation
  on the quintuple, and the call number \<open>i\<close> selects the function, the constant and the word:
  loaded from the block while \<open>i < 16\<close>, from the circular schedule \<open>x[16]\<close> afterwards. The
  lemmas relate the circular schedule to the 80-word expansion of FIPS 180.
\<close>

subsection \<open>The compression function\<close>

type_synonym quint = "u32 \<times> u32 \<times> u32 \<times> u32 \<times> u32"

definition rol1 :: "u32 \<Rightarrow> u32" where
  "rol1 x = push_bit 1 x OR drop_bit 31 x"

definition rol5 :: "u32 \<Rightarrow> u32" where
  "rol5 x = push_bit 5 x OR drop_bit 27 x"

definition rol30 :: "u32 \<Rightarrow> u32" where
  "rol30 x = push_bit 30 x OR drop_bit 2 x"

definition sha1_F1 :: "u32 \<Rightarrow> u32 \<Rightarrow> u32 \<Rightarrow> u32" where
  "sha1_F1 x y z = z XOR (x AND (y XOR z))"

definition sha1_F2 :: "u32 \<Rightarrow> u32 \<Rightarrow> u32 \<Rightarrow> u32" where
  "sha1_F2 x y z = (x XOR y) XOR z"

definition sha1_F3 :: "u32 \<Rightarrow> u32 \<Rightarrow> u32 \<Rightarrow> u32" where
  "sha1_F3 x y z = (x AND y) OR (z AND (x OR y))"

text \<open>The function and constant of call \<open>i\<close>; \<open>F4\<close> is \<open>F2\<close>.\<close>

definition sha1_F :: "nat \<Rightarrow> u32 \<Rightarrow> u32 \<Rightarrow> u32 \<Rightarrow> u32" where
  "sha1_F i = (if i < 20 then sha1_F1 else if i < 40 then sha1_F2 else if i < 60 then sha1_F3 else sha1_F2)"

definition sha1_K :: "nat \<Rightarrow> u32" where
  "sha1_K i = (if i < 20 then 0x5A827999 else if i < 40 then 0x6ED9EBA1
               else if i < 60 then 0x8F1BBCDC else 0xCA62C1D6)"

text \<open>Macro \<open>R\<close>, with the roles rotated for the next call.\<close>

definition sha1_R :: "nat \<Rightarrow> u32 \<Rightarrow> quint \<Rightarrow> quint" where
  "sha1_R i m q =
     (let (a, b, c, d, e) = q;
          e = e + (rol5 a + sha1_F i b c d + sha1_K i + m);
          b = rol30 b
      in (e, a, b, c, d))"

text \<open>The word of call \<open>i\<close>: \<open>x[i] = byteorder_32(p[i])\<close>, or macro \<open>M(i)\<close>; both store it.\<close>

definition sha1_word :: "byte list \<Rightarrow> u32 list \<Rightarrow> nat \<Rightarrow> u32" where
  "sha1_word block x i =
     (if i < 16 then byteorder_32 (of_le32 (drop (4 * i) block))
      else rol1 (((x ! ((i - 14) mod 16) XOR x ! ((i - 8) mod 16)) XOR x ! ((i - 3) mod 16)) XOR x ! (i mod 16)))"

definition sha1_call :: "byte list \<Rightarrow> u32 list \<times> quint \<Rightarrow> nat \<Rightarrow> u32 list \<times> quint" where
  "sha1_call block xq i =
     (let m = sha1_word block (fst xq) i
      in ((fst xq)[i mod 16 := m], sha1_R i m (snd xq)))"

text \<open>\<open>x\<close> is an uninitialised local array: \<open>x0\<close> is its content.\<close>

definition sha1_transform :: "u32 list \<Rightarrow> u32 list \<Rightarrow> byte list \<Rightarrow> u32 list" where
  "sha1_transform x0 st block =
     (case foldl (sha1_call block) (x0, (st ! 0, st ! 1, st ! 2, st ! 3, st ! 4)) [0..<80] of
        (_, (a, b, c, d, e)) \<Rightarrow>
          [st ! 0 + a, st ! 1 + b, st ! 2 + c, st ! 3 + d, st ! 4 + e])"

subsection \<open>The object\<close>

definition sha1_iv :: "u32 list" where
  "sha1_iv = [0x67452301, 0xefcdab89, 0x98badcfe, 0x10325476, 0xc3d2e1f0]"

definition sha1_init :: "byte list \<Rightarrow> hash_ctx" where
  "sha1_init buf = \<lparr>state = sha1_iv, low_count = 0, high_count = 0, remain = 0, buffer = buf\<rparr>"

definition sha1_Update :: "u32 list \<Rightarrow> hash_ctx \<Rightarrow> byte list \<Rightarrow> hash_ctx" where
  "sha1_Update x0 = hash_Update (sha1_transform x0)"

definition sha1_len_enc :: "u32 \<Rightarrow> u32 \<Rightarrow> byte list" where
  "sha1_len_enc l h = le32_bytes (byteorder_32 h) @ le32_bytes (byteorder_32 l)"

definition sha1_Final :: "u32 list \<Rightarrow> hash_ctx \<Rightarrow> hash_ctx \<times> byte list" where
  "sha1_Final x0 c =
     (let c = hash_pad (sha1_transform x0) sha1_len_enc c;
          c = c\<lparr>state := map byteorder_32 (state c)\<rparr>
      in (c, concat (map le32_bytes (state c))))"

definition sha1_Digest :: "u32 list \<Rightarrow> byte list \<Rightarrow> byte list \<Rightarrow> byte list" where
  "sha1_Digest x0 buf o1 = snd (sha1_Final x0 (sha1_Update x0 (sha1_init buf) o1))"

subsection \<open>The reference: FIPS 180\<close>

text \<open>
  FIPS 180, sections 4.1.1, 4.2.1, 5 and 6.1, by step number \<open>t\<close>: the functions \<open>Ch\<close>,
  \<open>Parity\<close> and \<open>Maj\<close>, the constants, the 80-word message schedule as a growing list, one step
  on the five working variables, and the initial hash value. Nothing of the class is used.
\<close>

definition fips180_f :: "nat \<Rightarrow> u32 \<Rightarrow> u32 \<Rightarrow> u32 \<Rightarrow> u32" where
  "fips180_f t x y z =
     (if t < 20 then (x AND y) XOR (NOT x AND z)
      else if 40 \<le> t \<and> t < 60 then (x AND y) XOR (x AND z) XOR (y AND z)
      else x XOR y XOR z)"

definition fips180_K :: "nat \<Rightarrow> u32" where
  "fips180_K t = [0x5a827999, 0x6ed9eba1, 0x8f1bbcdc, 0xca62c1d6] ! (t div 20)"

fun fips_W :: "u32 list \<Rightarrow> nat \<Rightarrow> u32 list" where
  "fips_W ws 0 = ws"
| "fips_W ws (Suc n) =
     (let v = fips_W ws n; t = length v
      in v @ [word_rotl 1 (v ! (t - 3) XOR v ! (t - 8) XOR v ! (t - 14) XOR v ! (t - 16))])"

definition fips180_step :: "u32 list \<Rightarrow> quint \<Rightarrow> nat \<Rightarrow> quint" where
  "fips180_step W q t =
     (case q of (a, b, c, d, e) \<Rightarrow>
        (word_rotl 5 a + fips180_f t b c d + e + fips180_K t + W ! t, a, word_rotl 30 b, c, d))"

definition fips_words :: "byte list \<Rightarrow> u32 list" where
  "fips_words block = map (\<lambda>i. word_rcat (take 4 (drop (4 * i) block))) [0..<16]"

definition fips_block :: "u32 list \<Rightarrow> byte list \<Rightarrow> u32 list" where
  "fips_block st block =
     (let W = fips_W (fips_words block) 64 in
      case foldl (fips180_step W) (st ! 0, st ! 1, st ! 2, st ! 3, st ! 4) [0..<80] of
        (a, b, c, d, e) \<Rightarrow> [st ! 0 + a, st ! 1 + b, st ! 2 + c, st ! 3 + d, st ! 4 + e])"

definition fips180_H0 :: "u32 list" where
  "fips180_H0 =
     [word_rcat [0x67, 0x45, 0x23, 0x01 :: byte], word_rcat [0xef, 0xcd, 0xab, 0x89 :: byte],
      word_rcat [0x98, 0xba, 0xdc, 0xfe :: byte], word_rcat [0x10, 0x32, 0x54, 0x76 :: byte],
      word_rcat [0xc3, 0xd2, 0xe1, 0xf0 :: byte]]"

definition sha1_ref :: "byte list \<Rightarrow> byte list" where
  "sha1_ref msg = concat (map (\<lambda>w. rev (word_bytes w))
     (foldl fips_block fips180_H0 (blocks (std_pad (\<lambda>n. rev (word_bytes n)) msg))))"

subsection \<open>The class computes it\<close>

lemma sha1_iv_fips: "sha1_iv = fips180_H0"
  by (simp add: sha1_iv_def fips180_H0_def word_rcat_def)

lemma le32_bytes_byteorder: "le32_bytes (byteorder_32 w) = rev (word_bytes w)"
  by (simp add: byteorder_32_def le32_bytes_of_le32_length le32_word_bytes [symmetric])

lemma sha1_rotations: "rol1 x = word_rotl 1 x" "rol5 x = word_rotl 5 x" "rol30 x = word_rotl 30 x"
  using word_rotl_shifts [of 1 x] word_rotl_shifts [of 5 x] word_rotl_shifts [of 30 x]
  by (simp_all add: rol1_def rol5_def rol30_def)

lemma sha1_F_fips: "sha1_F t x y z = fips180_f t x y z"
  by (auto simp: sha1_F_def fips180_f_def sha1_F1_def sha1_F2_def sha1_F3_def bit_eq_iff
      bit_and_iff bit_or_iff bit_xor_iff bit_not_iff)

lemma sha1_K_fips: "t < 80 \<Longrightarrow> sha1_K t = fips180_K t"
proof -
  assume t: "t < 80"
  define k where "k = t div 20"
  have "k < 4" using t unfolding k_def by simp
  moreover have "t = 20 * k + t mod 20" "t mod 20 < 20" by (simp_all add: k_def)
  moreover have "k = 0 \<or> k = 1 \<or> k = 2 \<or> k = 3" using \<open>k < 4\<close> by auto
  ultimately show "sha1_K t = fips180_K t"
    unfolding fips180_K_def k_def [symmetric] by (auto simp: sha1_K_def)
qed

lemma sha1_R_fips: "t < 80 \<Longrightarrow> sha1_R t (W ! t) q = fips180_step W q t"
  by (cases q) (simp add: sha1_R_def fips180_step_def sha1_rotations sha1_F_fips sha1_K_fips ac_simps)

lemma byteorder_of_le32:
  "4 \<le> length b \<Longrightarrow> byteorder_32 (of_le32 b) = word_rcat (take 4 b)"
proof -
  assume "4 \<le> length b"
  then obtain c where c: "length (take 4 b) = 4" "b = take 4 b @ c"
    by (metis append_take_drop_id length_take min.absorb2)
  then obtain p q r s where "take 4 b = [p, q, r, s]" using length_4_cases by blast
  moreover from this c have "b = p # q # r # s # c" by simp
  ultimately show ?thesis
    using le32_bytes_of_le32 [of p q r s] of_le32_rcat [of s r q p "[]"]
    by (simp add: byteorder_32_def le32_bytes_def)
qed

lemma length_fips_W [simp]: "length (fips_W ws n) = length ws + n"
  by (induction n) (simp_all add: Let_def)

lemma nth_fips_W_mono: "i < length ws + n \<Longrightarrow> n \<le> m \<Longrightarrow> fips_W ws m ! i = fips_W ws n ! i"
  by (induction m) (auto simp: Let_def nth_append le_Suc_eq)

text \<open>Cell \<open>j\<close> of the circular schedule after call \<open>i\<close> holds the latest word with that index.\<close>

definition sched_ok :: "u32 list \<Rightarrow> nat \<Rightarrow> u32 list \<Rightarrow> bool" where
  "sched_ok W i x \<longleftrightarrow> length x = 16 \<and> (\<forall>k < i. i \<le> k + 16 \<longrightarrow> x ! (k mod 16) = W ! k)"

lemma sched_ok_step:
  assumes "sched_ok W i x"
  shows "sched_ok W (Suc i) (x[i mod 16 := W ! i])"
proof -
  have "x[i mod 16 := W ! i] ! (k mod 16) = W ! k" if k: "k < Suc i" "Suc i \<le> k + 16" for k
  proof (cases "k = i")
    case True
    then show ?thesis using assms by (simp add: sched_ok_def)
  next
    case False
    with k have lt: "k < i" "i - k < 16" by auto
    have "k mod 16 \<noteq> i mod 16"
    proof
      assume "k mod 16 = i mod 16"
      then have "16 dvd i - k" using lt by (metis mod_eq_dvd_iff_nat less_imp_le)
      then show False using lt by (auto dest: dvd_imp_le)
    qed
    then show ?thesis using assms k lt by (simp add: sched_ok_def)
  qed
  then show ?thesis using assms by (simp add: sched_ok_def)
qed

lemma sha1_word_fips:
  assumes W: "W = fips_W (fips_words block) 64" and "length block = 64" "i < 80" "sched_ok W i x"
  shows "sha1_word block x i = W ! i"
proof (cases "i < 16")
  case True
  then have "W ! i = fips_words block ! i"
    unfolding W using nth_fips_W_mono [of i "fips_words block" 0 64] by (simp add: fips_words_def)
  with True assms show ?thesis by (simp add: sha1_word_def fips_words_def byteorder_of_le32)
next
  case False
  have eq: "x ! ((i - j) mod 16) = W ! (i - j)" if "0 < j" "j \<le> 16" for j
    using assms(4) that False by (simp add: sched_ok_def)
  have x0: "x ! (i mod 16) = W ! (i - 16)"
    using eq [of 16] False by (simp add: le_mod_geq)
  define n where "n = i - 16"
  have n: "i = 16 + n" "Suc n \<le> 64" using False assms(3) by (auto simp: n_def)
  have len: "length (fips_words block) = 16" by (simp add: fips_words_def)
  have Wn: "W ! k = fips_W (fips_words block) n ! k" if "k < i" for k
    unfolding W using n that len by (intro nth_fips_W_mono) auto
  have "W ! i = fips_W (fips_words block) (Suc n) ! i"
    unfolding W using n len by (intro nth_fips_W_mono) auto
  also have "\<dots> = word_rotl 1 (W ! (i - 3) XOR W ! (i - 8) XOR W ! (i - 14) XOR W ! (i - 16))"
    using len n Wn by (simp add: Let_def nth_append)
  also have "\<dots> = sha1_word block x i"
    using False eq [of 3] eq [of 8] eq [of 14] x0 by (simp add: sha1_word_def sha1_rotations ac_simps)
  finally show ?thesis by simp
qed

lemma sha1_calls_fips:
  assumes "W = fips_W (fips_words block) 64" "length block = 64" "length x0 = 16" "n \<le> 80"
  shows "snd (foldl (sha1_call block) (x0, q) [0..<n]) = foldl (fips180_step W) q [0..<n]
       \<and> sched_ok W n (fst (foldl (sha1_call block) (x0, q) [0..<n]))"
  using assms(4)
proof (induction n)
  case 0
  then show ?case using assms(3) by (simp add: sched_ok_def)
next
  case (Suc n)
  then show ?case
    using sha1_word_fips [OF assms(1,2)] sched_ok_step [of W n]
    by (simp add: sha1_call_def Let_def sha1_R_fips)
qed

lemma sha1_transform_fips:
  assumes "length block = 64" "length x0 = 16"
  shows "sha1_transform x0 st block = fips_block st block"
  using sha1_calls_fips [OF refl assms, of 80 "(st ! 0, st ! 1, st ! 2, st ! 3, st ! 4)"]
  by (simp add: sha1_transform_def fips_block_def Let_def split_beta)

lemma length_sha1_transform: "length (sha1_transform x0 st b) = 5"
  by (simp add: sha1_transform_def split: prod.splits)

interpretation sha1: block_hash "sha1_transform x0" sha1_iv sha1_len_enc for x0
  by unfold_locales (simp_all add: sha1_len_enc_def sha1_iv_def length_sha1_transform)

lemma md_digest_fips:
  assumes "length x0 = 16"
  shows "md_digest (sha1_transform x0) sha1_iv sha1_len_enc msg
       = foldl fips_block fips180_H0 (blocks (std_pad (\<lambda>n. rev (word_bytes n)) msg))"
proof -
  have "foldl (sha1_transform x0) s bs = foldl fips_block s bs" if "\<forall>b \<in> set bs. length b = 64" for s bs
    using that by (induction bs arbitrary: s) (simp_all add: sha1_transform_fips assms)
  moreover have "md_pad sha1_len_enc msg = std_pad (\<lambda>n. rev (word_bytes n)) msg"
    by (rule md_pad_std) (simp only: sha1_len_enc_def le32_bytes_byteorder le32_word_bytes [symmetric]
        le64_word_bytes [symmetric] rev_append)
  ultimately show ?thesis
    using set_blocks sha1.pad_aligned [of msg] by (simp add: md_digest_def sha1_iv_fips)
qed

subsection \<open>Properties\<close>

text \<open>
  (C8) \<open>SHA1Hash\<close>: however the message is cut into \<open>Update\<close> calls (each below 4 GB), \<open>Final\<close>
  returns the FIPS 180 digest of the concatenation, whatever the uninitialised buffer and
  schedule held. The reference \<open>sha1_ref\<close> is written from the standard with its own functions,
  constants, 80-word schedule, initial hash value, padding and big-endian 64-bit bit count, and
  uses no definition of the class.
\<close>

theorem sha1_streaming:
  assumes "length x0 = 16" "length buf = 64" "\<forall>o1 \<in> set os. length o1 < 2 ^ 32"
  shows "snd (sha1_Final x0 (foldl (sha1_Update x0) (sha1_init buf) os)) = sha1_ref (concat os)"
  using sha1.streaming [OF assms(2,3)]
  by (simp add: sha1_Final_def sha1_Update_def sha1_init_def sha1_ref_def Let_def
      md_digest_fips [OF assms(1)] comp_def le32_bytes_byteorder)

theorem sha1_streaming_witness:
  "snd (sha1_Final (replicate 16 7) (foldl (sha1_Update (replicate 16 7)) (sha1_init (replicate 64 9)) [[97], [], [98, 99]]))
     = sha1_ref [97, 98, 99]"
  using sha1_streaming [of "replicate 16 7" "replicate 64 9" "[[97], [], [98, 99]]"] by simp

end
