(* ===== verification/BitStream.thy ===== *)
theory BitStream
  imports Prelude
begin

text \<open>
  The bit stream of the MPPC codecs (\<open>putbits\<close>, \<open>putlit\<close>, \<open>putoff\<close>, \<open>fetch\<close> in
  \<open>src/cnet/io/mppc.h\<close> and \<open>src/cnet/io/streamcompress.h\<close>): the writer stores four bytes at a
  time over memory of known capacity, most significant bit first; the reader loads four bytes
  and shifts. Memory is the list of its bytes; an access outside it is \<open>None\<close>. The lemmas give
  both sides in terms of the list of bits written so far or still to be read.
\<close>

subsection \<open>Memory and cursors\<close>

definition store32 :: "byte list \<Rightarrow> nat \<Rightarrow> u32 \<Rightarrow> byte list option" where
  "store32 mem pos w =
     (if pos + 4 \<le> length mem then Some (take pos mem @ le32_bytes w @ drop (pos + 4) mem) else None)"

definition load32 :: "byte list \<Rightarrow> nat \<Rightarrow> u32 option" where
  "load32 mem pos = (if pos + 4 \<le> length mem then Some (of_le32 (drop pos mem)) else None)"

text \<open>A writer: the memory, the byte \<open>buf\<close> points to and the bits \<open>l\<close> already used in it.\<close>

type_synonym writer = "byte list \<times> nat \<times> nat"

definition putbits :: "u32 \<Rightarrow> nat \<Rightarrow> writer \<Rightarrow> writer option" where
  "putbits val n w =
     (let (mem, buf, l) = w; l = l + n in
      case store32 mem buf (byteorder_32 (push_bit (32 - l) val) OR ucast (mem ! buf)) of
        None \<Rightarrow> None
      | Some mem \<Rightarrow> Some (mem, buf + l div 8, l mod 8))"

definition putlit :: "byte \<Rightarrow> writer \<Rightarrow> writer option" where
  "putlit c w = (if c < 0x80 then putbits (ucast c) 8 w else putbits ((ucast c AND 0x7f) OR 0x100) 9 w)"

definition putoff :: "u32 \<Rightarrow> writer \<Rightarrow> writer option" where
  "putoff off w =
     (if off < 64 then putbits (0x3c0 OR off) 10 w
      else if off < 320 then putbits (0xe00 OR (off - 64)) 12 w
      else putbits (0xc000 OR (off - 320)) 16 w)"

text \<open>The chain of length classes; a length of 8192 or more is not written at all.\<close>

definition putlen :: "u32 \<Rightarrow> writer \<Rightarrow> writer option" where
  "putlen len w =
     (if len < 4 then putbits 0 1 w
      else if len < 8 then putbits (0x08 OR (len AND 0x03)) 4 w
      else if len < 16 then putbits (0x30 OR (len AND 0x07)) 6 w
      else if len < 32 then putbits (0xe0 OR (len AND 0x0f)) 8 w
      else if len < 64 then putbits (0x3c0 OR (len AND 0x1f)) 10 w
      else if len < 128 then putbits (0xf80 OR (len AND 0x3f)) 12 w
      else if len < 256 then putbits (0x3f00 OR (len AND 0x7f)) 14 w
      else if len < 512 then putbits (0xfe00 OR (len AND 0xff)) 16 w
      else if len < 1024 then putbits (0x3fc00 OR (len AND 0x1ff)) 18 w
      else if len < 2048 then putbits (0xff800 OR (len AND 0x3ff)) 20 w
      else if len < 4096 then putbits (0x3ff000 OR (len AND 0x7ff)) 22 w
      else if len < 8192 then putbits (0xffe000 OR (len AND 0xfff)) 24 w
      else Some w)"

text \<open>The padding to a whole byte after the last code: \<open>if (l) putbits(0, 8 - l)\<close>.\<close>

definition putpad :: "writer \<Rightarrow> writer option" where
  "putpad w = (case w of (_, _, l) \<Rightarrow> if l = 0 then Some w else putbits 0 (8 - l) w)"

text \<open>\<open>fetch\<close>: the next bits, left aligned in a word; the cursor moves to the byte they start in.\<close>

definition fetch :: "byte list \<Rightarrow> nat \<times> nat \<Rightarrow> (u32 \<times> nat \<times> nat) option" where
  "fetch mem bl =
     (let buf = fst bl + snd bl div 8; l = snd bl mod 8 in
      case load32 mem buf of
        None \<Rightarrow> None
      | Some w \<Rightarrow> Some (push_bit l (byteorder_32 w), buf, l))"

text \<open>The ladder of length classes the decoders compare against: bound, value bits, shift and
  mask of the length and number of bits of the code.\<close>

definition len_classes :: "(u32 \<times> u32 \<times> nat \<times> u32 \<times> nat) list" where
  "len_classes =
    [(0x80000000, 3, 0, 0, 1), (0xc0000000, 4, 28, 3, 4), (0xe0000000, 8, 26, 7, 6),
     (0xf0000000, 16, 24, 15, 8), (0xf8000000, 32, 22, 0x1f, 10), (0xfc000000, 64, 20, 0x3f, 12),
     (0xfe000000, 128, 18, 0x7f, 14), (0xff000000, 256, 16, 0xff, 16),
     (0xff800000, 0x200, 14, 0x1ff, 18), (0xffc00000, 0x400, 12, 0x3ff, 20),
     (0xffe00000, 0x800, 10, 0x7ff, 22), (0xfff00000, 0x1000, 8, 0xfff, 24)]"

fun dec_len :: "(u32 \<times> u32 \<times> nat \<times> u32 \<times> nat) list \<Rightarrow> u32 \<Rightarrow> (u32 \<times> nat) option" where
  "dec_len [] val = None"
| "dec_len ((bound, base, shift, msk, n) # cs) val =
     (if val < bound then Some (base OR (drop_bit shift val AND msk), n) else dec_len cs val)"

subsection \<open>Bits\<close>

definition bits_of :: "nat \<Rightarrow> u32 \<Rightarrow> bool list" where
  "bits_of n v = map (\<lambda>i. bit v (n - 1 - i)) [0..<n]"

definition mem_bit :: "byte list \<Rightarrow> nat \<Rightarrow> bool" where
  "mem_bit mem i = bit (mem ! (i div 8)) (7 - i mod 8)"

lemma length_bits_of [simp]: "length (bits_of n v) = n"
  by (simp add: bits_of_def)

lemma nth_bits_of: "i < n \<Longrightarrow> bits_of n v ! i = bit v (n - 1 - i)"
  by (simp add: bits_of_def)

lemma bit_le32_byte: "j < 4 \<Longrightarrow> m < 8 \<Longrightarrow> bit (le32_bytes w ! j) m = bit w (8 * j + m)"
proof -
  assume "j < 4" "m < 8"
  then have "j = 0 \<or> j = 1 \<or> j = 2 \<or> j = 3" by auto
  with \<open>m < 8\<close> show ?thesis by (auto simp: le32_bytes_def bit_ucast_iff bit_drop_bit_eq)
qed

lemma bit_byteorder:
  assumes "j < 4" "m < 8"
  shows "bit (byteorder_32 w) (8 * j + m) = bit w (8 * (3 - j) + m)"
proof -
  have "byteorder_32 w = join32 (le32_bytes w ! 3) (le32_bytes w ! 2) (le32_bytes w ! 1) (le32_bytes w ! 0)"
    by (simp add: byteorder_32_def le32_bytes_def)
  moreover have "j = 0 \<or> j = 1 \<or> j = 2 \<or> j = 3" using assms(1) by auto
  ultimately show ?thesis
    using assms(2) by (auto simp: bit_join32 bit_le32_byte)
qed

lemma bit_byteorder31: "k < 32 \<Longrightarrow> bit (byteorder_32 w) (8 * (k div 8) + (7 - k mod 8)) = bit w (31 - k)"
proof -
  assume k: "k < 32"
  have "8 * (3 - k div 8) + (7 - k mod 8) = 31 - k"
  proof -
    have "k = 8 * (k div 8) + k mod 8" "k div 8 < 4" "k mod 8 < 8" using k by auto
    then show ?thesis by linarith
  qed
  with bit_byteorder [of "k div 8" "7 - k mod 8" w] k show ?thesis by simp
qed

subsection \<open>The writer\<close>

definition writes :: "writer \<Rightarrow> bool list \<Rightarrow> bool" where
  "writes w B \<longleftrightarrow>
     (case w of (mem, pos, l) \<Rightarrow>
        l < 8 \<and> length B = 8 * pos + l \<and> (\<forall>i < length B. mem_bit mem i = B ! i)
        \<and> (pos < length mem \<longrightarrow> (\<forall>i. length B \<le> i \<and> i < 8 * pos + 8 \<longrightarrow> \<not> mem_bit mem i)))"

lemma store32_mem_bit:
  assumes "store32 mem pos w = Some mem'"
  shows "length mem' = length mem"
    and "i < 8 * pos \<Longrightarrow> mem_bit mem' i = mem_bit mem i"
    and "k < 32 \<Longrightarrow> mem_bit mem' (8 * pos + k) = bit w (8 * (k div 8) + (7 - k mod 8))"
proof -
  have len: "pos + 4 \<le> length mem" and mem': "mem' = take pos mem @ le32_bytes w @ drop (pos + 4) mem"
    using assms by (auto simp: store32_def split: if_splits)
  show "length mem' = length mem" using len mem' by simp
  show "mem_bit mem' i = mem_bit mem i" if "i < 8 * pos"
  proof -
    have "i div 8 < pos" using that by auto
    then show ?thesis using len by (simp add: mem' mem_bit_def nth_append)
  qed
  show "mem_bit mem' (8 * pos + k) = bit w (8 * (k div 8) + (7 - k mod 8))" if "k < 32"
  proof -
    have "k div 8 < 4" using that by auto
    then have "mem' ! (pos + k div 8) = le32_bytes w ! (k div 8)"
      using len by (simp add: mem' nth_append)
    then show ?thesis
      using \<open>k div 8 < 4\<close> by (simp add: mem_bit_def bit_le32_byte)
  qed
qed

lemma putbits_writes:
  assumes w: "writes (mem, pos, l) B" and cap: "pos + 4 \<le> length mem"
    and n: "0 < n" "n \<le> 24" and val: "unat val < 2 ^ n"
  shows "\<exists>mem'. putbits val n (mem, pos, l) = Some (mem', pos + (l + n) div 8, (l + n) mod 8)
     \<and> length mem' = length mem
     \<and> writes (mem', pos + (l + n) div 8, (l + n) mod 8) (B @ bits_of n val)"
proof -
  define x where "x = push_bit (32 - (l + n)) val"
  have l: "l < 8" and B: "length B = 8 * pos + l"
    and Bi: "\<And>i. i < length B \<Longrightarrow> mem_bit mem i = B ! i"
    and Z: "\<And>i. length B \<le> i \<Longrightarrow> i < 8 * pos + 8 \<Longrightarrow> \<not> mem_bit mem i"
    using w cap by (auto simp: writes_def)
  obtain mem' where st: "store32 mem pos (byteorder_32 x OR ucast (mem ! pos)) = Some mem'"
    using cap by (simp add: store32_def)
  note sb = store32_mem_bit [OF st]
  have old: "bit (ucast (mem ! pos) :: u32) (8 * (k div 8) + (7 - k mod 8)) \<longleftrightarrow> k < 8 \<and> mem_bit mem (8 * pos + k)"
    if "k < 32" for k
  proof (cases "k < 8")
    case True
    then have "7 - k < 32" by simp
    with True show ?thesis by (simp add: mem_bit_def bit_ucast_iff)
  next
    case False
    then have "1 \<le> k div 8" "k mod 8 < 8" by auto
    then have "8 \<le> 8 * (k div 8) + (7 - k mod 8)" by linarith
    with False show ?thesis by (simp add: bit_ucast_iff bit_byte_high)
  qed
  have bx: "bit x (31 - k) \<longleftrightarrow> k < l + n \<and> bit val (l + n - 1 - k)" if "k < 32" for k
    using that n l by (auto simp: x_def bit_push_bit_iff Suc_diff_Suc algebra_simps)
  have key: "mem_bit mem' (8 * pos + k) \<longleftrightarrow>
      (k < l + n \<and> bit val (l + n - 1 - k)) \<or> (k < 8 \<and> mem_bit mem (8 * pos + k))" if "k < 32" for k
    using sb(3) [OF that] old [OF that] bx [OF that] bit_byteorder31 [OF that] by (simp add: bit_or_iff)
  have low: "mem_bit mem' i = (B @ bits_of n val) ! i" if "i < length B + n" for i
  proof (cases "i < 8 * pos")
    case True
    then show ?thesis using sb(2) Bi B by (simp add: nth_append)
  next
    case False
    define k where "k = i - 8 * pos"
    then have k: "i = 8 * pos + k" using False by simp
    with that B n l have "k < 32" by auto
    show ?thesis
    proof (cases "k < l")
      case True
      then have "\<not> bit val (l + n - 1 - k)" using bit_val_bound [OF val] by auto
      with True show ?thesis using key [OF \<open>k < 32\<close>] Bi [of i] B k l by (auto simp: nth_append)
    next
      case False
      then have no_old: "\<not> (k < 8 \<and> mem_bit mem (8 * pos + k))" using Z [of i] B k by auto
      have idx: "n - 1 - (k - l) = l + n - 1 - k" "k - l < n" "k < l + n" using False that B k by auto
      have "(B @ bits_of n val) ! i = bits_of n val ! (k - l)" using False B k by (simp add: nth_append)
      also have "\<dots> = bit val (n - 1 - (k - l))" by (rule nth_bits_of [OF idx(2)])
      also have "\<dots> = bit val (l + n - 1 - k)" by (simp only: idx(1))
      finally have "(B @ bits_of n val) ! i = bit val (l + n - 1 - k)" .
      moreover have "mem_bit mem' i = bit val (l + n - 1 - k)"
        unfolding k using key [OF \<open>k < 32\<close>] no_old idx(3) by simp
      ultimately show ?thesis by simp
    qed
  qed
  have zero: "\<not> mem_bit mem' i" if "length B + n \<le> i" "i < 8 * (pos + (l + n) div 8) + 8" for i
  proof -
    define k where "k = i - 8 * pos"
    then have k: "i = 8 * pos + k" using that(1) B by simp
    define q where "q = (l + n) div 8"
    have "q < 4" using l n by (auto simp: q_def)
    moreover have "i < 8 * (pos + q) + 8" using that(2) by (simp only: q_def)
    ultimately have "k < 32" using k by simp
    moreover have "l + n \<le> k" using that(1) B k by simp
    moreover have "\<not> (k < 8 \<and> mem_bit mem (8 * pos + k))" using Z [of i] B k \<open>l + n \<le> k\<close> by auto
    ultimately show ?thesis using key [of k] k by auto
  qed
  have "writes (mem', pos + (l + n) div 8, (l + n) mod 8) (B @ bits_of n val)"
    using low zero B by (simp add: writes_def)
  then show ?thesis
    using st sb(1) by (simp add: putbits_def Let_def x_def)
qed

subsection \<open>The reader\<close>

text \<open>The top \<open>k\<close> bits of \<open>val\<close> are the next bits of the stream \<open>S\<close>.\<close>

definition sees :: "u32 \<Rightarrow> bool list \<Rightarrow> nat \<Rightarrow> bool" where
  "sees val S k \<longleftrightarrow> (\<forall>i < k. i < length S \<longrightarrow> bit val (31 - i) = S ! i)"

lemma load32_mem_bit:
  assumes "load32 mem pos = Some w" "k < 32"
  shows "bit (byteorder_32 w) (31 - k) = mem_bit mem (8 * pos + k)"
proof -
  have len: "pos + 4 \<le> length mem" and w: "w = of_le32 (drop pos mem)"
    using assms(1) by (auto simp: load32_def split: if_splits)
  have "length (take 4 (drop pos mem)) = 4" using len by simp
  then obtain a b c d where abcd: "take 4 (drop pos mem) = [a, b, c, d]" using length_4_cases by blast
  then have drop: "drop pos mem = [a, b, c, d] @ drop (pos + 4) mem"
    by (metis append_take_drop_id drop_drop add.commute)
  have j: "k div 8 < 4" using assms(2) by auto
  have "le32_bytes w ! (k div 8) = take 4 (drop pos mem) ! (k div 8)"
    unfolding abcd by (simp add: w drop le32_bytes_def)
  also have "\<dots> = mem ! (pos + k div 8)" using j len by simp
  finally have "mem_bit mem (8 * pos + k) = bit (le32_bytes w ! (k div 8)) (7 - k mod 8)"
    by (simp add: mem_bit_def)
  also have "\<dots> = bit w (8 * (k div 8) + (7 - k mod 8))" using j by (simp add: bit_le32_byte)
  also have "\<dots> = bit (byteorder_32 w) (8 * (3 - k div 8) + (7 - k mod 8))"
    using bit_byteorder [of "k div 8" "7 - k mod 8" "byteorder_32 w"] j by simp
  also have "8 * (3 - k div 8) + (7 - k mod 8) = 31 - k"
  proof -
    have "k = 8 * (k div 8) + k mod 8" "k div 8 < 4" "k mod 8 < 8" using assms(2) by auto
    then show ?thesis by linarith
  qed
  finally show ?thesis by simp
qed

text \<open>A memory holds the bits \<open>S\<close> from bit position \<open>p\<close> on.\<close>

definition holds :: "byte list \<Rightarrow> nat \<Rightarrow> bool list \<Rightarrow> bool" where
  "holds mem p S \<longleftrightarrow> (\<forall>i < length S. mem_bit mem (p + i) = S ! i)"

lemma holds_drop: "holds mem p (xs @ S) \<Longrightarrow> holds mem (p + length xs) S"
  by (force simp: holds_def nth_append add.assoc dest: spec [of _ "length xs + _"])

lemma bit_push31: "n + k < 32 \<Longrightarrow> bit (push_bit n (w :: u32)) (31 - k) = bit w (31 - (n + k))"
proof -
  assume "n + k < 32"
  then have "n \<le> 31 - k" "31 - k < 32" "31 - k - n = 31 - (n + k)" by auto
  then show ?thesis by (simp only: bit_push_bit_iff) (simp del: diff_diff_left)
qed

lemma fetch_sees:
  assumes "8 * pos + l = p" "pos + l div 8 + 4 \<le> length mem" "holds mem p S"
  shows "\<exists>val. fetch mem (pos, l) = Some (val, pos + l div 8, l mod 8) \<and> sees val S 25"
proof -
  obtain w where w: "load32 mem (pos + l div 8) = Some w" using assms(2) by (simp add: load32_def)
  have "bit (push_bit (l mod 8) (byteorder_32 w)) (31 - i) = S ! i" if i: "i < 25" "i < length S" for i
  proof -
    have "l mod 8 < 8" by simp
    with i(1) have k: "l mod 8 + i < 32" by linarith
    have pos: "8 * (pos + l div 8) + (l mod 8 + i) = p + i"
      using assms(1) mult_div_mod_eq [of 8 l] by (simp add: algebra_simps)
    have "bit (push_bit (l mod 8) (byteorder_32 w)) (31 - i) = bit (byteorder_32 w) (31 - (l mod 8 + i))"
      using k by (rule bit_push31)
    also have "\<dots> = mem_bit mem (p + i)"
      using load32_mem_bit [OF w k] by (simp only: pos)
    finally show ?thesis using assms(3) i(2) by (simp add: holds_def)
  qed
  then show ?thesis using w by (auto simp: fetch_def sees_def Let_def)
qed

lemma sees_shift: "sees val (xs @ S) k \<Longrightarrow> length xs + j \<le> k \<Longrightarrow> k \<le> 32 \<Longrightarrow> sees (push_bit (length xs) val) S j"
  unfolding sees_def
proof (intro allI impI)
  fix i
  assume *: "\<forall>i<k. i < length (xs @ S) \<longrightarrow> bit val (31 - i) = (xs @ S) ! i"
    "length xs + j \<le> k" "k \<le> 32" "i < j" "i < length S"
  then have "bit val (31 - (length xs + i)) = S ! i"
    using spec [OF *(1), of "length xs + i"] by (simp add: nth_append)
  moreover have "bit (push_bit (length xs) val) (31 - i) = bit val (31 - (length xs + i))"
    using * by (intro bit_push31) auto
  ultimately show "bit (push_bit (length xs) val) (31 - i) = S ! i" by simp
qed

lemma sees_mono: "sees val S k \<Longrightarrow> j \<le> k \<Longrightarrow> sees val S j"
  by (simp add: sees_def)

lemma sees_prefix:
  assumes "sees val (bits_of n c @ S) k" "n \<le> k" "n \<le> 32" "unat c < 2 ^ n"
  shows "drop_bit (32 - n) val = c"
proof (rule bit_word_eqI)
  fix i assume "i < LENGTH(32)"
  show "bit (drop_bit (32 - n) val) i = bit c i"
  proof (cases "i < n")
    case True
    then have "bit val (31 - (n - 1 - i)) = bits_of n c ! (n - 1 - i)"
    proof -
      have "n - 1 - i < k" "n - 1 - i < length (bits_of n c @ S)" using True assms(2) by auto
      then have "bit val (31 - (n - 1 - i)) = (bits_of n c @ S) ! (n - 1 - i)"
        using assms(1) unfolding sees_def by blast
      then show ?thesis using True by (simp add: nth_append)
    qed
    moreover have "31 - (n - 1 - i) = 32 - n + i" using True assms(3) by auto
    ultimately show ?thesis using True by (simp add: bit_drop_bit_eq nth_bits_of)
  next
    case False
    then have "\<not> bit c i" using bit_val_bound [OF assms(4)] by auto
    moreover have "\<not> bit val (32 - n + i)" using False assms(3) by (auto dest: bit_imp_le_length)
    ultimately show ?thesis by (simp add: bit_drop_bit_eq)
  qed
qed

lemma drop_bit_bounds:
  assumes "drop_bit s val = (c :: u32)"
  shows "2 ^ s * unat c \<le> unat val" "unat val < 2 ^ s * (unat c + 1)"
proof -
  have "unat (drop_bit s val) = unat val div 2 ^ s"
    by (simp only: unat_drop_bit_eq) (simp only: drop_bit_eq_div)
  then have "unat c = unat val div 2 ^ s" using assms by simp
  then show "2 ^ s * unat c \<le> unat val" "unat val < 2 ^ s * (unat c + 1)"
    using dividend_less_times_div [of "2 ^ s" "unat val"] times_div_less_eq_dividend [of "2 ^ s" "unat val"]
    by simp_all
qed

subsection \<open>Codes\<close>

text \<open>The code words as value and number of bits: what one \<open>putlit\<close>, \<open>putoff\<close> or \<open>putlen\<close> adds
  to the stream.\<close>

definition lit_code :: "byte \<Rightarrow> u32 \<times> nat" where
  "lit_code c = (if c < 0x80 then (ucast c, 8) else ((ucast c AND 0x7f) OR 0x100, 9))"

definition off_code :: "u32 \<Rightarrow> u32 \<times> nat" where
  "off_code off = (if off < 64 then (0x3c0 OR off, 10)
     else if off < 320 then (0xe00 OR (off - 64), 12) else (0xc000 OR (off - 320), 16))"

definition len_code :: "u32 \<Rightarrow> u32 \<times> nat" where
  "len_code len =
     (if len < 4 then (0, 1)
      else if len < 8 then (0x08 OR (len AND 0x03), 4)
      else if len < 16 then (0x30 OR (len AND 0x07), 6)
      else if len < 32 then (0xe0 OR (len AND 0x0f), 8)
      else if len < 64 then (0x3c0 OR (len AND 0x1f), 10)
      else if len < 128 then (0xf80 OR (len AND 0x3f), 12)
      else if len < 256 then (0x3f00 OR (len AND 0x7f), 14)
      else if len < 512 then (0xfe00 OR (len AND 0xff), 16)
      else if len < 1024 then (0x3fc00 OR (len AND 0x1ff), 18)
      else if len < 2048 then (0xff800 OR (len AND 0x3ff), 20)
      else if len < 4096 then (0x3ff000 OR (len AND 0x7ff), 22)
      else (0xffe000 OR (len AND 0xfff), 24))"

lemma putlit_code: "putlit c w = putbits (fst (lit_code c)) (snd (lit_code c)) w"
  by (simp add: putlit_def lit_code_def)

lemma putoff_code: "putoff off w = putbits (fst (off_code off)) (snd (off_code off)) w"
  by (simp add: putoff_def off_code_def)

lemma putlen_code: "len < 8192 \<Longrightarrow> putlen len w = putbits (fst (len_code len)) (snd (len_code len)) w"
  by (simp add: putlen_def len_code_def)

lemma len_value:
  assumes "take_bit k pre = (0 :: u32)" "2 ^ k \<le> unat len" "unat len < 2 ^ (k + 1)" "k < 32"
  shows "2 ^ k OR take_bit k (pre OR take_bit k len) = len"
proof (rule bit_word_eqI)
  fix n assume n: "n < LENGTH(32)"
  have pre: "\<not> (bit pre n \<and> n < k)"
    using assms(1) n by (auto simp: bit_eq_iff bit_take_bit_iff)
  have "bit len k"
  proof -
    have "unat len div 2 ^ k = 1"
      using assms(2,3) by (intro div_nat_eqI) auto
    then have "bit (unat len) k" by (simp add: bit_iff_odd)
    then show ?thesis by (simp add: bit_unsigned_iff)
  qed
  moreover have "\<not> bit len n" if "k < n"
    using bit_val_bound [OF assms(3), of n] that by simp
  ultimately show "bit (2 ^ k OR take_bit k (pre OR take_bit k len)) n = bit len n"
    using pre n by (cases n k rule: linorder_cases)
      (auto simp: bit_or_iff bit_take_bit_iff bit_exp_iff possible_bit_word)
qed

lemma len_masks:
  "(len :: u32) AND 3 = take_bit 2 len" "len AND 7 = take_bit 3 len" "len AND 0xf = take_bit 4 len"
  "len AND 0x1f = take_bit 5 len" "len AND 0x3f = take_bit 6 len" "len AND 0x7f = take_bit 7 len"
  "len AND 0xff = take_bit 8 len" "len AND 0x1ff = take_bit 9 len" "len AND 0x3ff = take_bit 10 len"
  "len AND 0x7ff = take_bit 11 len" "len AND 0xfff = take_bit 12 len"
  by (simp_all add: take_bit_eq_mask mask_eq_exp_minus_1)

lemma code_prefixes:
  "take_bit 2 (8 :: u32) = 0" "take_bit 3 (0x30 :: u32) = 0" "take_bit 4 (0xe0 :: u32) = 0"
  "take_bit 5 (0x3c0 :: u32) = 0" "take_bit 6 (0xf80 :: u32) = 0" "take_bit 7 (0x3f00 :: u32) = 0"
  "take_bit 8 (0xfe00 :: u32) = 0" "take_bit 9 (0x3fc00 :: u32) = 0" "take_bit 10 (0xff800 :: u32) = 0"
  "take_bit 11 (0x3ff000 :: u32) = 0" "take_bit 12 (0xffe000 :: u32) = 0"
  by code_simp+

lemma len_unat:
  assumes "take_bit k pre = (0 :: u32)" "2 ^ k \<le> unat len" "unat len < 2 ^ (k + 1)"
  shows "unat (pre OR take_bit k len) + 2 ^ k = unat pre + unat len"
proof -
  have "unat len mod 2 ^ k = unat len - 2 ^ k" using assms(2,3) by (simp add: mod_if le_mod_geq)
  then show ?thesis using unat_or_low [OF assms(1), of len] assms(2) by simp
qed

lemma len_code_cases:
  assumes "3 \<le> unat len" "unat len < 8192"
  obtains (c3) "len = 3" "len_code len = (0, 1)"
  | (c4) "4 \<le> unat len" "unat len < 8" "len_code len = (0x08 OR take_bit 2 len, 4)"
      "unat (0x08 OR take_bit 2 len) = 4 + unat len"
      "4 OR take_bit 2 (0x08 OR take_bit 2 len) = len"
  | (c8) "8 \<le> unat len" "unat len < 16" "len_code len = (0x30 OR take_bit 3 len, 6)"
      "unat (0x30 OR take_bit 3 len) = 40 + unat len"
      "8 OR take_bit 3 (0x30 OR take_bit 3 len) = len"
  | (c16) "16 \<le> unat len" "unat len < 32" "len_code len = (0xe0 OR take_bit 4 len, 8)"
      "unat (0xe0 OR take_bit 4 len) = 208 + unat len"
      "16 OR take_bit 4 (0xe0 OR take_bit 4 len) = len"
  | (c32) "32 \<le> unat len" "unat len < 64" "len_code len = (0x3c0 OR take_bit 5 len, 10)"
      "unat (0x3c0 OR take_bit 5 len) = 928 + unat len"
      "32 OR take_bit 5 (0x3c0 OR take_bit 5 len) = len"
  | (c64) "64 \<le> unat len" "unat len < 128" "len_code len = (0xf80 OR take_bit 6 len, 12)"
      "unat (0xf80 OR take_bit 6 len) = 3904 + unat len"
      "64 OR take_bit 6 (0xf80 OR take_bit 6 len) = len"
  | (c128) "128 \<le> unat len" "unat len < 256" "len_code len = (0x3f00 OR take_bit 7 len, 14)"
      "unat (0x3f00 OR take_bit 7 len) = 16000 + unat len"
      "128 OR take_bit 7 (0x3f00 OR take_bit 7 len) = len"
  | (c256) "256 \<le> unat len" "unat len < 512" "len_code len = (0xfe00 OR take_bit 8 len, 16)"
      "unat (0xfe00 OR take_bit 8 len) = 64768 + unat len"
      "256 OR take_bit 8 (0xfe00 OR take_bit 8 len) = len"
  | (c512) "512 \<le> unat len" "unat len < 1024" "len_code len = (0x3fc00 OR take_bit 9 len, 18)"
      "unat (0x3fc00 OR take_bit 9 len) = 260608 + unat len"
      "512 OR take_bit 9 (0x3fc00 OR take_bit 9 len) = len"
  | (c1024) "1024 \<le> unat len" "unat len < 2048" "len_code len = (0xff800 OR take_bit 10 len, 20)"
      "unat (0xff800 OR take_bit 10 len) = 1045504 + unat len"
      "1024 OR take_bit 10 (0xff800 OR take_bit 10 len) = len"
  | (c2048) "2048 \<le> unat len" "unat len < 4096" "len_code len = (0x3ff000 OR take_bit 11 len, 22)"
      "unat (0x3ff000 OR take_bit 11 len) = 4188160 + unat len"
      "2048 OR take_bit 11 (0x3ff000 OR take_bit 11 len) = len"
  | (c4096) "4096 \<le> unat len" "unat len < 8192" "len_code len = (0xffe000 OR take_bit 12 len, 24)"
      "unat (0xffe000 OR take_bit 12 len) = 16764928 + unat len"
      "4096 OR take_bit 12 (0xffe000 OR take_bit 12 len) = len"
proof -
  have "unat len = 3 \<or> 4 \<le> unat len" using assms(1) by linarith
  then consider "unat len = 3" | "4 \<le> unat len \<and> unat len < 8" | "8 \<le> unat len \<and> unat len < 16" | "16 \<le> unat len \<and> unat len < 32" | "32 \<le> unat len \<and> unat len < 64" | "64 \<le> unat len \<and> unat len < 128" | "128 \<le> unat len \<and> unat len < 256" | "256 \<le> unat len \<and> unat len < 512" | "512 \<le> unat len \<and> unat len < 1024" | "1024 \<le> unat len \<and> unat len < 2048" | "2048 \<le> unat len \<and> unat len < 4096" | "4096 \<le> unat len \<and> unat len < 8192"
    using assms(2) unfolding not_less [symmetric] by blast
  then show thesis
  proof cases
    case 1
    then have "len = 3" by (simp add: word_unat_eq_iff)
    then show thesis by (rule c3) (simp add: \<open>len = 3\<close> len_code_def)
  next
    case 2
    then have b: "4 \<le> unat len" "unat len < 8" by simp_all
    show thesis
      by (rule c4 [OF b]) (use b in \<open>simp add: len_code_def len_masks word_less_nat_alt\<close>,
        use b len_unat [OF code_prefixes(1), of len] in simp, use b len_value [OF code_prefixes(1), of len] in simp)
  next
    case 3
    then have b: "8 \<le> unat len" "unat len < 16" by simp_all
    show thesis
      by (rule c8 [OF b]) (use b in \<open>simp add: len_code_def len_masks word_less_nat_alt\<close>,
        use b len_unat [OF code_prefixes(2), of len] in simp, use b len_value [OF code_prefixes(2), of len] in simp)
  next
    case 4
    then have b: "16 \<le> unat len" "unat len < 32" by simp_all
    show thesis
      by (rule c16 [OF b]) (use b in \<open>simp add: len_code_def len_masks word_less_nat_alt\<close>,
        use b len_unat [OF code_prefixes(3), of len] in simp, use b len_value [OF code_prefixes(3), of len] in simp)
  next
    case 5
    then have b: "32 \<le> unat len" "unat len < 64" by simp_all
    show thesis
      by (rule c32 [OF b]) (use b in \<open>simp add: len_code_def len_masks word_less_nat_alt\<close>,
        use b len_unat [OF code_prefixes(4), of len] in simp, use b len_value [OF code_prefixes(4), of len] in simp)
  next
    case 6
    then have b: "64 \<le> unat len" "unat len < 128" by simp_all
    show thesis
      by (rule c64 [OF b]) (use b in \<open>simp add: len_code_def len_masks word_less_nat_alt\<close>,
        use b len_unat [OF code_prefixes(5), of len] in simp, use b len_value [OF code_prefixes(5), of len] in simp)
  next
    case 7
    then have b: "128 \<le> unat len" "unat len < 256" by simp_all
    show thesis
      by (rule c128 [OF b]) (use b in \<open>simp add: len_code_def len_masks word_less_nat_alt\<close>,
        use b len_unat [OF code_prefixes(6), of len] in simp, use b len_value [OF code_prefixes(6), of len] in simp)
  next
    case 8
    then have b: "256 \<le> unat len" "unat len < 512" by simp_all
    show thesis
      by (rule c256 [OF b]) (use b in \<open>simp add: len_code_def len_masks word_less_nat_alt\<close>,
        use b len_unat [OF code_prefixes(7), of len] in simp, use b len_value [OF code_prefixes(7), of len] in simp)
  next
    case 9
    then have b: "512 \<le> unat len" "unat len < 1024" by simp_all
    show thesis
      by (rule c512 [OF b]) (use b in \<open>simp add: len_code_def len_masks word_less_nat_alt\<close>,
        use b len_unat [OF code_prefixes(8), of len] in simp, use b len_value [OF code_prefixes(8), of len] in simp)
  next
    case 10
    then have b: "1024 \<le> unat len" "unat len < 2048" by simp_all
    show thesis
      by (rule c1024 [OF b]) (use b in \<open>simp add: len_code_def len_masks word_less_nat_alt\<close>,
        use b len_unat [OF code_prefixes(9), of len] in simp, use b len_value [OF code_prefixes(9), of len] in simp)
  next
    case 11
    then have b: "2048 \<le> unat len" "unat len < 4096" by simp_all
    show thesis
      by (rule c2048 [OF b]) (use b in \<open>simp add: len_code_def len_masks word_less_nat_alt\<close>,
        use b len_unat [OF code_prefixes(10), of len] in simp, use b len_value [OF code_prefixes(10), of len] in simp)
  next
    case 12
    then have b: "4096 \<le> unat len" "unat len < 8192" by simp_all
    show thesis
      by (rule c4096 [OF b]) (use b in \<open>simp add: len_code_def len_masks word_less_nat_alt\<close>,
        use b len_unat [OF code_prefixes(11), of len] in simp, use b len_value [OF code_prefixes(11), of len] in simp)
  qed
qed

lemma len_code_bound: "3 \<le> unat len \<Longrightarrow> unat len < 8192 \<Longrightarrow> unat (fst (len_code len)) < 2 ^ snd (len_code len)"
  by (erule (1) len_code_cases) simp_all

lemma dec_len_code:
  assumes "3 \<le> unat len" "unat len < 8192" "len_code len = (c, n)" "drop_bit (32 - n) val = c"
  shows "dec_len len_classes val = Some (len, n)"
    and "dec_len (take 7 len_classes) val = (if n \<le> 14 then Some (len, n) else None)"
    and "dec_len (take 6 len_classes) val = (if n \<le> 12 then Some (len, n) else None)"
    and "dec_len (take 4 len_classes) val = (if n \<le> 8 then Some (len, n) else None)"
proof -
  note b = drop_bit_bounds [OF assms(4)]
  from assms(1,2) have "dec_len len_classes val = Some (len, n)
    \<and> dec_len (take 7 len_classes) val = (if n \<le> 14 then Some (len, n) else None)
    \<and> dec_len (take 6 len_classes) val = (if n \<le> 12 then Some (len, n) else None)
    \<and> dec_len (take 4 len_classes) val = (if n \<le> 8 then Some (len, n) else None)"
  proof (cases rule: len_code_cases)
    case c3
    then have "n = 1" "c = 0" using assms(3) by auto
    with c3 b show ?thesis by (simp add: len_classes_def word_less_nat_alt)
  next
    case c4
    then show ?thesis using b assms(3,4) by (simp add: len_classes_def word_less_nat_alt len_masks)
  next
    case c8
    then show ?thesis using b assms(3,4) by (simp add: len_classes_def word_less_nat_alt len_masks)
  next
    case c16
    then show ?thesis using b assms(3,4) by (simp add: len_classes_def word_less_nat_alt len_masks)
  next
    case c32
    then show ?thesis using b assms(3,4) by (simp add: len_classes_def word_less_nat_alt len_masks)
  next
    case c64
    then show ?thesis using b assms(3,4) by (simp add: len_classes_def word_less_nat_alt len_masks)
  next
    case c128
    then show ?thesis using b assms(3,4) by (simp add: len_classes_def word_less_nat_alt len_masks)
  next
    case c256
    then show ?thesis using b assms(3,4) by (simp add: len_classes_def word_less_nat_alt len_masks)
  next
    case c512
    then show ?thesis using b assms(3,4) by (simp add: len_classes_def word_less_nat_alt len_masks)
  next
    case c1024
    then show ?thesis using b assms(3,4) by (simp add: len_classes_def word_less_nat_alt len_masks)
  next
    case c2048
    then show ?thesis using b assms(3,4) by (simp add: len_classes_def word_less_nat_alt len_masks)
  next
    case c4096
    then show ?thesis using b assms(3,4) by (simp add: len_classes_def word_less_nat_alt len_masks)
  qed
  then show "dec_len len_classes val = Some (len, n)"
    and "dec_len (take 7 len_classes) val = (if n \<le> 14 then Some (len, n) else None)"
    and "dec_len (take 6 len_classes) val = (if n \<le> 12 then Some (len, n) else None)"
    and "dec_len (take 4 len_classes) val = (if n \<le> 8 then Some (len, n) else None)"
    by blast+
qed

lemma off_prefixes: "take_bit 6 (0x3c0 :: u32) = 0" "take_bit 8 (0xe00 :: u32) = 0" "take_bit 13 (0xc000 :: u32) = 0"
  by code_simp+

lemmas off_unat = off_prefixes [THEN unat_or_low, simplified]

lemma off_code_cases:
  assumes "unat off < 8512"
  obtains (short) x where "unat off < 64" "off = x" "unat x < 64" "off_code off = (0x3c0 OR x, 10)"
      "unat (0x3c0 OR x) = 0x3c0 + unat x" "take_bit 6 (0x3c0 OR x) = x"
  | (middle) x where "64 \<le> unat off" "unat off < 320" "off = x + 64" "unat x < 256"
      "off_code off = (0xe00 OR x, 12)" "unat (0xe00 OR x) = 0xe00 + unat x" "take_bit 8 (0xe00 OR x) = x"
  | (long) x where "320 \<le> unat off" "off = x + 320" "unat x < 8192"
      "off_code off = (0xc000 OR x, 16)" "unat (0xc000 OR x) = 0xc000 + unat x" "take_bit 13 (0xc000 OR x) = x"
proof -
  consider "unat off < 64" | "64 \<le> unat off \<and> unat off < 320" | "320 \<le> unat off" by linarith
  then show thesis
  proof cases
    case 1
    then have tb: "take_bit 6 off = off" by (intro take_bit_small) simp
    have "unat (0x3c0 OR off) = 0x3c0 + unat off" "take_bit 6 (0x3c0 OR off) = off"
      using off_unat(1) [of off] take_bit_or [OF off_prefixes(1), of off] 1 by (simp_all add: tb)
    with 1 show thesis by (intro short [of off]) (simp_all add: off_code_def word_less_nat_alt)
  next
    case 2
    define x where "x = off - 64"
    have x: "unat x = unat off - 64" using 2 by (simp add: x_def unat_sub word_le_nat_alt)
    then have lt: "unat x < 256" using 2 by linarith
    then have tb: "take_bit 8 x = x" by (intro take_bit_small) simp
    have "unat (0xe00 OR x) = 0xe00 + unat x" "take_bit 8 (0xe00 OR x) = x"
      using off_unat(2) [of x] take_bit_or [OF off_prefixes(2), of x] lt by (simp_all add: tb)
    with 2 lt show thesis by (intro middle [of x]) (simp_all add: off_code_def word_less_nat_alt x_def)
  next
    case 3
    define x where "x = off - 320"
    have x: "unat x = unat off - 320" using 3 by (simp add: x_def unat_sub word_le_nat_alt)
    then have lt: "unat x < 8192" using assms by linarith
    then have tb: "take_bit 13 x = x" by (intro take_bit_small) simp
    have "unat (0xc000 OR x) = 0xc000 + unat x" "take_bit 13 (0xc000 OR x) = x"
      using off_unat(3) [of x] take_bit_or [OF off_prefixes(3), of x] lt by (simp_all add: tb)
    with 3 lt show thesis by (intro long [of x]) (simp_all add: off_code_def word_less_nat_alt x_def)
  qed
qed

lemma off_code_bound: "unat off < 8512 \<Longrightarrow> unat (fst (off_code off)) < 2 ^ snd (off_code off)"
  by (erule off_code_cases) simp_all

lemma lit_code_bound: "unat (fst (lit_code c)) < 2 ^ snd (lit_code c)"
proof (cases "c < 0x80")
  case True
  have "unat c < 2 ^ LENGTH(8)" by (rule unsigned_less)
  with True show ?thesis by (simp add: lit_code_def unsigned_ucast_eq take_bit_nat_eq_self)
next
  case False
  have pre: "take_bit 7 (0x100 :: u32) = 0" by code_simp
  have "(ucast c AND 0x7f) OR 0x100 = (0x100 :: u32) OR take_bit 7 (ucast c)"
    by (simp add: len_masks or.commute)
  moreover have "unat (0x100 OR take_bit 7 (ucast c :: u32)) = 0x100 + unat (ucast c :: u32) mod 128"
    using unat_or_low [OF pre, of "ucast c"] by simp
  moreover have "unat (ucast c :: u32) mod 128 < 128" by simp
  ultimately show ?thesis using False by (simp add: lit_code_def)
qed

end
