(* ===== verification/Mppc.thy ===== *)
theory Mppc
  imports BitStream
begin

text \<open>
  \<open>src/cnet/io/mppc.h\<close>, class \<open>mppc\<close> in its portable variant: the LZ77 compressor of the
  packet layer with its table of 65536 uninitialised pointers, the decompressor, and the block
  formats \<open>compress\<close>/\<open>uncompress\<close> and \<open>compress2\<close>/\<open>uncompress2\<close>. Pointers into the
  source are offsets from its first byte, so a table entry is an arbitrary integer. Any access
  outside the source or destination buffer is \<open>None\<close>; the theorems show that it does not
  happen and that decompression restores the source for every content of the table.
\<close>

subsection \<open>The compressor\<close>

text \<open>\<open>*(unsigned short *)s\<close>\<close>

definition u16_at :: "byte list \<Rightarrow> nat \<Rightarrow> u16" where
  "u16_at inp s = ucast (inp ! s) OR push_bit 8 (ucast (inp ! (s + 1)))"

text \<open>\<open>for (...; s < r && *p == *s; p++, s++)\<close>: where \<open>s\<close> stops.\<close>

function match_end :: "byte list \<Rightarrow> nat \<Rightarrow> nat \<Rightarrow> nat \<Rightarrow> nat" where
  "match_end inp r p s = (if s < r \<and> inp ! p = inp ! s then match_end inp r (p + 1) (s + 1) else s)"
  by pat_completeness auto
termination by (relation "measure (\<lambda>(_, r, _, s). r - s)") auto

declare match_end.simps [simp del]

lemma match_end_ge: "s \<le> match_end inp r p s"
proof (induction inp r p s rule: match_end.induct)
  case (1 inp r p s)
  then show ?case by (subst match_end.simps) auto
qed

text \<open>
  The loop \<open>while (r - s > 2)\<close>. At its head \<open>s\<close> and \<open>ibuf\<close> are equal. \<open>look\<close> is the lookup
  that yields the candidate position and updates the table; a candidate is used only when it
  lies before \<open>s\<close> and its three bytes agree.
\<close>

function match_loop ::
  "('h \<Rightarrow> nat \<Rightarrow> int \<times> 'h) \<Rightarrow> byte list \<Rightarrow> nat \<Rightarrow> 'h \<Rightarrow> nat \<Rightarrow> writer \<Rightarrow> (nat \<times> 'h \<times> writer) option" where
  "match_loop look inp r h s w =
     (if s + 2 < r then
        let (p, h) = look h s in
        if p < 0 \<or> int s \<le> p \<or> u16_at inp (nat p) \<noteq> u16_at inp s \<or> inp ! (nat p + 2) \<noteq> inp ! (s + 2) then
          (case putlit (inp ! s) w of None \<Rightarrow> None | Some w \<Rightarrow> match_loop look inp r h (s + 1) w)
        else
          let e = match_end inp r (nat p + 3) (s + 3) in
          (case putoff (of_nat (s - nat p)) w of
             None \<Rightarrow> None
           | Some w \<Rightarrow>
               (case putlen (of_nat (e - s)) w of
                  None \<Rightarrow> None
                | Some w \<Rightarrow> match_loop look inp r h e w))
      else Some (s, h, w))"
  by pat_completeness auto
termination
proof (relation "measure (\<lambda>(_, _, r, _, s, _). r - s)", goal_cases)
  case (3 look inp r h s w pr p h' e w' w'')
  then show ?case using match_end_ge [of "s + 3" inp r "nat p + 3"] by auto
qed auto

declare match_loop.simps [simp del]

text \<open>\<open>switch (r - s)\<close>: the one or two bytes left are literals; then the padding.\<close>

definition match_tail :: "byte list \<Rightarrow> nat \<Rightarrow> nat \<Rightarrow> writer \<Rightarrow> writer option" where
  "match_tail inp r s w =
     (if r - s = 2 then Option.bind (putlit (inp ! s) w) (putlit (inp ! (s + 1)))
      else if r - s = 1 then putlit (inp ! s) w
      else Some w)"

text \<open>The lookup of \<open>mppc\<close>: \<open>q = hash + *(unsigned short*)s; p = *q; *q = s\<close>.\<close>

definition mppc_find :: "byte list \<Rightarrow> (u16 \<Rightarrow> int) \<Rightarrow> nat \<Rightarrow> int \<times> (u16 \<Rightarrow> int)" where
  "mppc_find inp h s = (let k = u16_at inp s in (h k, h(k := int s)))"

text \<open>
  \<open>mppc_compress(ibuf, obuf, isize, osize)\<close>; \<open>mem\<close> is the memory from \<open>obuf\<close> on and \<open>h\<close> the
  content of the uninitialised table. \<open>osize\<close> is not read by the code. The result is the
  memory and the number of bytes written.
\<close>

definition mppc_compress :: "(u16 \<Rightarrow> int) \<Rightarrow> byte list \<Rightarrow> nat \<Rightarrow> byte list \<Rightarrow> (byte list \<times> nat) option" where
  "mppc_compress h inp isize mem =
     (if mem = [] then None
      else case match_loop (mppc_find inp) inp isize h 0 (mem[0 := 0], 0, 0) of
             None \<Rightarrow> None
           | Some (s, _, w) \<Rightarrow>
               (case Option.bind (match_tail inp isize s w) putpad of
                  None \<Rightarrow> None
                | Some (mem, n, _) \<Rightarrow> Some (mem, n)))"

subsection \<open>The decompressor\<close>

text \<open>The reader position, the bits passed (\<open>blen\<close>, which starts at 7), the output memory and
  the write position.\<close>

record dec_state =
  d_buf :: nat
  d_l :: nat
  d_blen :: nat
  d_mem :: "byte list"
  d_out :: nat

definition passbits :: "nat \<Rightarrow> dec_state \<Rightarrow> dec_state" where
  "passbits n d = d\<lparr>d_l := d_l d + n, d_blen := d_blen d + n\<rparr>"

text \<open>\<open>lamecopy(dst, src, len)\<close>: four bytes at a time when the ranges are at least four apart.\<close>

function lame_words :: "byte list \<Rightarrow> nat \<Rightarrow> nat \<Rightarrow> nat \<Rightarrow> (byte list \<times> nat \<times> nat \<times> nat) option" where
  "lame_words mem dst src len =
     (if 3 < len then
        (case load32 mem src of
           None \<Rightarrow> None
         | Some w \<Rightarrow>
             (case store32 mem dst w of
                None \<Rightarrow> None
              | Some mem \<Rightarrow> lame_words mem (dst + 4) (src + 4) (len - 4)))
      else Some (mem, dst, src, len))"
  by pat_completeness auto
termination by (relation "measure (\<lambda>(_, _, _, len). len)") auto

declare lame_words.simps [simp del]

fun lame_bytes :: "byte list \<Rightarrow> nat \<Rightarrow> nat \<Rightarrow> nat \<Rightarrow> byte list option" where
  "lame_bytes mem dst src 0 = Some mem"
| "lame_bytes mem dst src (Suc len) =
     (if dst < length mem \<and> src < length mem
      then lame_bytes (mem[dst := mem ! src]) (dst + 1) (src + 1) len else None)"

definition lamecopy :: "byte list \<Rightarrow> nat \<Rightarrow> nat \<Rightarrow> nat \<Rightarrow> byte list option" where
  "lamecopy mem dst src len =
     (if src + 3 < dst then
        (case lame_words mem dst src len of
           None \<Rightarrow> None | Some (mem, dst, src, len) \<Rightarrow> lame_bytes mem dst src len)
      else lame_bytes mem dst src len)"

text \<open>One code of the stream: a step to the next state, or the return value \<open>DECOMP_ERROR\<close>.\<close>

datatype dec_result = Next dec_state | Error

definition dec_literal :: "nat \<Rightarrow> byte \<Rightarrow> nat \<Rightarrow> dec_state \<Rightarrow> dec_result option" where
  "dec_literal osize c n d =
     (if osize \<le> d_out d then Some Error
      else if length (d_mem d) \<le> d_out d then None
      else Some (Next (passbits n (d\<lparr>d_mem := (d_mem d)[d_out d := c], d_out := d_out d + 1\<rparr>))))"

text \<open>The bounds check and the copy after offset and length are known.\<close>

definition dec_copy :: "nat \<Rightarrow> u32 \<Rightarrow> u32 \<Rightarrow> dec_state \<Rightarrow> dec_result option" where
  "dec_copy osize off len d =
     (if d_out d < unat off \<or> osize < d_out d + unat len then Some Error
      else case lamecopy (d_mem d) (d_out d) (d_out d - unat off) (unat len) of
             None \<Rightarrow> None
           | Some mem \<Rightarrow> Some (Next (d\<lparr>d_mem := mem, d_out := d_out d + unat len\<rparr>)))"

text \<open>
  The length after an offset code of \<open>n\<close> bits: the first \<open>k\<close> classes are decided on the rest
  of the fetched word, the others after a second \<open>fetch\<close>.
\<close>

definition dec_length ::
  "byte list \<Rightarrow> nat \<Rightarrow> u32 \<Rightarrow> u32 \<Rightarrow> nat \<Rightarrow> nat \<Rightarrow> dec_state \<Rightarrow> dec_result option" where
  "dec_length input osize off val n k d =
     (case dec_len (take k len_classes) (push_bit n val) of
        Some (len, m) \<Rightarrow> dec_copy osize off len (passbits (n + m) d)
      | None \<Rightarrow>
          (let d = passbits n d in
           case fetch input (d_buf d, d_l d) of
             None \<Rightarrow> None
           | Some (val, buf, l) \<Rightarrow>
               (let d = d\<lparr>d_buf := buf, d_l := l\<rparr> in
                case dec_len (drop k len_classes) val of
                  None \<Rightarrow> Some Error
                | Some (len, m) \<Rightarrow> dec_copy osize off len (passbits m d))))"

definition dec_step :: "byte list \<Rightarrow> nat \<Rightarrow> dec_state \<Rightarrow> dec_result option" where
  "dec_step input osize d =
     (case fetch input (d_buf d, d_l d) of
        None \<Rightarrow> None
      | Some (val, buf, l) \<Rightarrow>
          (let d = d\<lparr>d_buf := buf, d_l := l\<rparr> in
           if val < 0x80000000 then dec_literal osize (ucast (drop_bit 24 val)) 8 d
           else if val < 0xc0000000 then
             dec_literal osize (ucast ((drop_bit 23 val OR 0x80) AND 0xff)) 9 d
           else if 0xf0000000 \<le> val then
             dec_length input osize (drop_bit 22 val AND 0x3f) val 10 7 d
           else if 0xe0000000 \<le> val then
             dec_length input osize ((drop_bit 20 val AND 0xff) + 64) val 12 6 d
           else dec_length input osize ((drop_bit 16 val AND 0x1fff) + 320) val 16 4 d))"

lemma dec_step_blen:
  "dec_step input osize d = Some (Next d') \<Longrightarrow> d_blen d < d_blen d'"
  by (auto simp: dec_step_def dec_literal_def dec_length_def dec_copy_def passbits_def Let_def
      split: option.splits if_splits prod.splits)

text \<open>The result of the loop: the memory, and the size or \<open>DECOMP_ERROR\<close>.\<close>

function dec_loop :: "byte list \<Rightarrow> nat \<Rightarrow> nat \<Rightarrow> dec_state \<Rightarrow> (byte list \<times> int) option" where
  "dec_loop input osize tot d =
     (if d_blen d < tot then
        (case dec_step input osize d of
           None \<Rightarrow> None
         | Some Error \<Rightarrow> Some (d_mem d, -1)
         | Some (Next d) \<Rightarrow> dec_loop input osize tot d)
      else Some (d_mem d, int (d_out d)))"
  by pat_completeness auto
termination
  by (relation "measure (\<lambda>(_, _, tot, d). tot - d_blen d)") (auto dest!: dec_step_blen)

declare dec_loop.simps [simp del]

text \<open>
  \<open>mppc_decompress(ibuf, obuf, isize, osize)\<close>: the source is copied into a local array of
  16384 bytes, whose other bytes \<open>junk\<close> are uninitialised.
\<close>

definition mppc_decompress ::
  "byte list \<Rightarrow> byte list \<Rightarrow> nat \<Rightarrow> byte list \<Rightarrow> nat \<Rightarrow> (byte list \<times> int) option" where
  "mppc_decompress junk ibuf isize mem osize =
     (if 8192 * 9 div 8 + 1 < isize then Some (mem, -1)
      else let input = take isize ibuf @ drop isize (take 16384 junk)
           in dec_loop input osize (isize * 8)
                \<lparr>d_buf = 0, d_l = 0, d_blen = 7, d_mem = mem, d_out = 0\<rparr>)"

subsection \<open>Tokens: what the bit stream means\<close>

datatype token = Lit byte | Copy nat nat

fun lz_copy :: "byte list \<Rightarrow> nat \<Rightarrow> nat \<Rightarrow> byte list" where
  "lz_copy out off 0 = out"
| "lz_copy out off (Suc n) = lz_copy (out @ [out ! (length out - off)]) off n"

fun play :: "byte list \<Rightarrow> token list \<Rightarrow> byte list" where
  "play out [] = out"
| "play out (Lit c # ts) = play (out @ [c]) ts"
| "play out (Copy off len # ts) = play (lz_copy out off len) ts"

fun tok_bits :: "token \<Rightarrow> bool list" where
  "tok_bits (Lit c) = bits_of (snd (lit_code c)) (fst (lit_code c))"
| "tok_bits (Copy off len) =
     bits_of (snd (off_code (of_nat off))) (fst (off_code (of_nat off)))
     @ bits_of (snd (len_code (of_nat len))) (fst (len_code (of_nat len)))"

abbreviation stream_bits :: "token list \<Rightarrow> bool list" where
  "stream_bits ts \<equiv> concat (map tok_bits ts)"

text \<open>Tokens the compressor emits when \<open>n\<close> bytes are out: nonempty back references in range.\<close>

fun good_tokens :: "nat \<Rightarrow> token list \<Rightarrow> bool" where
  "good_tokens n [] \<longleftrightarrow> True"
| "good_tokens n (Lit c # ts) \<longleftrightarrow> good_tokens (n + 1) ts"
| "good_tokens n (Copy off len # ts) \<longleftrightarrow>
     0 < off \<and> off \<le> n \<and> off < 8512 \<and> 3 \<le> len \<and> len < 8192 \<and> good_tokens (n + len) ts"

lemma length_lz_copy [simp]: "length (lz_copy out off n) = length out + n"
  by (induction out off n rule: lz_copy.induct) simp_all

lemma play_append: "play out (ts @ us) = play (play out ts) us"
  by (induction out ts rule: play.induct) simp_all

lemma good_tokens_append:
  "good_tokens (length out) (ts @ us) \<longleftrightarrow> good_tokens (length out) ts \<and> good_tokens (length (play out ts)) us"
  by (induction out ts rule: play.induct) simp_all

text \<open>Copying from \<open>p\<close> reproduces a source whose bytes from \<open>s\<close> repeat those from \<open>p\<close>.\<close>

lemma lz_copy_source:
  assumes "p < s" "s + n \<le> length inp" "\<forall>i < n. inp ! (p + i) = inp ! (s + i)"
  shows "lz_copy (take s inp) (s - p) n = take (s + n) inp"
  using assms
proof (induction n arbitrary: p s)
  case (Suc n)
  have "take s inp ! (length (take s inp) - (s - p)) = inp ! s"
    using Suc.prems spec [OF Suc.prems(3), of 0] by simp
  then have "take s inp @ [take s inp ! (length (take s inp) - (s - p))] = take (Suc s) inp"
    using Suc.prems by (simp add: take_Suc_conv_app_nth)
  moreover have "lz_copy (take (Suc s) inp) (Suc s - Suc p) n = take (Suc s + n) inp"
    using Suc.prems by (intro Suc.IH) (auto dest: spec [of _ "Suc _"])
  ultimately show ?case by simp
qed simp

lemma match_end_bound: "s \<le> r \<Longrightarrow> match_end inp r p s \<le> r"
proof (induction inp r p s rule: match_end.induct)
  case (1 inp r p s)
  then show ?case by (subst match_end.simps) auto
qed

lemma match_end_equal: "s + i < match_end inp r p s \<Longrightarrow> inp ! (p + i) = inp ! (s + i)"
proof (induction inp r p s arbitrary: i rule: match_end.induct)
  case (1 inp r p s)
  show ?case
  proof (cases "s < r \<and> inp ! p = inp ! s")
    case True
    then have ext: "match_end inp r p s = match_end inp r (p + 1) (s + 1)" by (subst match_end.simps) simp
    show ?thesis
    proof (cases i)
      case (Suc j)
      then show ?thesis using "1.IH" [OF True, of j] "1.prems" ext by simp
    qed (use True in simp)
  next
    case False
    then have "match_end inp r p s = s" by (subst match_end.simps) auto
    then show ?thesis using "1.prems" by simp
  qed
qed

lemma u16_at_eq: "u16_at inp p = u16_at inp s \<Longrightarrow> inp ! p = inp ! s \<and> inp ! (p + 1) = inp ! (s + 1)"
proof -
  assume eq: "u16_at inp p = u16_at inp s"
  have b: "bit (u16_at inp q) n \<longleftrightarrow> (if n < 8 then bit (inp ! q) n else n < 16 \<and> bit (inp ! (q + 1)) (n - 8))" for q n
    by (auto simp: u16_at_def bit_or_iff bit_ucast_iff bit_push_bit_iff bit_byte_high)
  have "inp ! p = inp ! s"
  proof (rule bit_word_eqI)
    fix n assume "n < LENGTH(8)"
    then show "bit (inp ! p) n = bit (inp ! s) n" using b [of p n] b [of s n] eq by simp
  qed
  moreover have "inp ! (p + 1) = inp ! (s + 1)"
  proof (rule bit_word_eqI)
    fix n assume "n < LENGTH(8)"
    then show "bit (inp ! (p + 1)) n = bit (inp ! (s + 1)) n"
      using b [of p "n + 8"] b [of s "n + 8"] eq by simp
  qed
  ultimately show ?thesis by simp
qed

subsection \<open>What the compressor writes\<close>

text \<open>A writer over \<open>N\<close> bytes, which is room enough for everything an input of \<open>r\<close> bytes can produce.\<close>

definition room :: "writer \<Rightarrow> nat \<Rightarrow> nat \<Rightarrow> bool" where
  "room w N r \<longleftrightarrow> (case w of (mem, pos, l) \<Rightarrow> length mem = N \<and> 9 * r div 8 + 4 \<le> N)"

lemma putbits_ok:
  assumes "writes w B" "room w N r" "length B + n \<le> 9 * r" "0 < n" "n \<le> 24" "unat val < 2 ^ n"
  shows "\<exists>w'. putbits val n w = Some w' \<and> writes w' (B @ bits_of n val) \<and> room w' N r"
proof -
  obtain mem pos l where w: "w = (mem, pos, l)" by (cases w)
  have "length B = 8 * pos + l" using assms(1) by (simp add: writes_def w)
  then have "pos \<le> 9 * r div 8" using assms(3) by (simp add: less_eq_div_iff_mult_less_eq)
  then have "pos + 4 \<le> length mem" using assms(2) by (simp add: room_def w)
  from putbits_writes [OF assms(1) [unfolded w] this assms(4-6)] show ?thesis
    using assms(2) unfolding w by (auto simp: room_def)
qed

lemma lit_code_bits: "0 < snd (lit_code c)" "snd (lit_code c) \<le> 9"
  by (simp_all add: lit_code_def)

lemma off_code_bits: "0 < snd (off_code v)" "snd (off_code v) \<le> 16"
  by (simp_all add: off_code_def)

lemma len_code_bits: "0 < snd (len_code v)" "snd (len_code v) \<le> 24"
  by (simp_all add: len_code_def)

lemma len_code_bits9: "3 \<le> unat v \<Longrightarrow> unat v < 8192 \<Longrightarrow> 16 + snd (len_code v) \<le> 9 * unat v"
  by (erule (1) len_code_cases) simp_all

lemma putlit_ok:
  assumes "writes w B" "room w N r" "length B + 9 \<le> 9 * r"
  shows "\<exists>w'. putlit c w = Some w' \<and> writes w' (B @ tok_bits (Lit c)) \<and> room w' N r"
  unfolding putlit_code tok_bits.simps
  using assms lit_code_bits [of c] by (intro putbits_ok lit_code_bound) auto

lemma putcopy_ok:
  assumes "writes w B" "room w N r" "length B + 9 * len \<le> 9 * r" "off < 8512" "3 \<le> len" "len < 8192"
  shows "\<exists>w1 w2. putoff (of_nat off) w = Some w1 \<and> putlen (of_nat len) w1 = Some w2
    \<and> writes w2 (B @ tok_bits (Copy off len)) \<and> room w2 N r"
proof -
  have un: "unat (of_nat off :: u32) = off" "unat (of_nat len :: u32) = len"
    using assms(4,6) by (simp_all add: unsigned_of_nat take_bit_nat_eq_self)
  let ?ob = "bits_of (snd (off_code (of_nat off))) (fst (off_code (of_nat off)))"
  have n: "16 + snd (len_code (of_nat len)) \<le> 9 * len" using len_code_bits9 [of "of_nat len"] un assms by simp
  have "\<exists>w1. putoff (of_nat off) w = Some w1 \<and> writes w1 (B @ ?ob) \<and> room w1 N r"
    unfolding putoff_code
    using un n assms off_code_bits [of "of_nat off"] by (intro putbits_ok off_code_bound) auto
  then obtain w1 where w1: "putoff (of_nat off) w = Some w1" "writes w1 (B @ ?ob)" "room w1 N r" by blast
  have "(of_nat len :: u32) < 8192" using un assms(6) by (simp add: word_less_nat_alt)
  then have "\<exists>w2. putlen (of_nat len) w1 = Some w2
      \<and> writes w2 ((B @ ?ob) @ bits_of (snd (len_code (of_nat len))) (fst (len_code (of_nat len)))) \<and> room w2 N r"
    unfolding putlen_code [OF \<open>of_nat len < 8192\<close>]
    using un n assms w1 off_code_bits [of "of_nat off"] len_code_bits [of "of_nat len"]
    by (intro putbits_ok len_code_bound) auto
  with w1 show ?thesis by auto
qed

lemma length_tok_bits:
  "length (tok_bits (Lit c)) \<le> 9"
  "3 \<le> len \<Longrightarrow> len < 8192 \<Longrightarrow> length (tok_bits (Copy off len)) \<le> 9 * len"
proof -
  show "length (tok_bits (Lit c)) \<le> 9" using lit_code_bits [of c] by simp
  assume "3 \<le> len" "len < 8192"
  moreover from this have "unat (of_nat len :: u32) = len" by (simp add: unsigned_of_nat take_bit_nat_eq_self)
  ultimately show "length (tok_bits (Copy off len)) \<le> 9 * len"
    using len_code_bits9 [of "of_nat len"] off_code_bits [of "of_nat off"] by simp
qed

lemma match_loop_step:
  assumes "\<not> (p < 0 \<or> int s \<le> p \<or> u16_at inp (nat p) \<noteq> u16_at inp s \<or> inp ! (nat p + 2) \<noteq> inp ! (s + 2))"
    and "s + 2 < r" "r \<le> length inp" "r \<le> 8192"
  defines "e \<equiv> match_end inp r (nat p + 3) (s + 3)"
  shows "nat p < s" "s + 3 \<le> e" "e \<le> r" "e - s < 8192"
    and "play (take s inp) [Copy (s - nat p) (e - s)] = take e inp"
    and "good_tokens s [Copy (s - nat p) (e - s)]"
proof -
  have p: "nat p < s" "u16_at inp (nat p) = u16_at inp s" "inp ! (nat p + 2) = inp ! (s + 2)"
    using assms(1) by auto
  show "nat p < s" by fact
  show e: "s + 3 \<le> e" "e \<le> r" using match_end_ge match_end_bound assms(2) by (simp_all add: e_def)
  then show len: "e - s < 8192" using p(1) assms(4) by linarith
  have "inp ! (nat p + i) = inp ! (s + i)" if "i < e - s" for i
  proof (cases "i < 3")
    case True
    then have "i = 0 \<or> i = 1 \<or> i = 2" by auto
    then show ?thesis using u16_at_eq [OF p(2)] p(3) by auto
  next
    case False
    then obtain j where j: "i = 3 + j" using le_Suc_ex not_less by blast
    then have "s + 3 + j < match_end inp r (nat p + 3) (s + 3)" using that e_def by simp
    from match_end_equal [OF this] show ?thesis by (simp add: j add.assoc)
  qed
  then show "play (take s inp) [Copy (s - nat p) (e - s)] = take e inp"
    using lz_copy_source [of "nat p" s "e - s" inp] p(1) e assms(3) by simp
  show "good_tokens s [Copy (s - nat p) (e - s)]"
  proof -
    have "0 < s - nat p" "s - nat p \<le> s" "s - nat p < 8512" "3 \<le> e - s"
      using p(1) e assms(2,4) by linarith+
    then show ?thesis using len by simp
  qed
qed

lemma match_loop_writes:
  assumes "writes w B" "room w N r" "length B \<le> 9 * s" "s \<le> r" "r \<le> length inp" "r \<le> 8192"
  shows "\<exists>ts s' h' w'. match_loop look inp r h s w = Some (s', h', w')
     \<and> writes w' (B @ stream_bits ts) \<and> room w' N r \<and> length (B @ stream_bits ts) \<le> 9 * s'
     \<and> s \<le> s' \<and> s' \<le> r \<and> r \<le> s' + 2 \<and> play (take s inp) ts = take s' inp \<and> good_tokens s ts"
  using assms
proof (induction look inp r h s w arbitrary: B rule: match_loop.induct)
  case (1 look inp r h s w)
  show ?case
  proof (cases "s + 2 < r")
    case False
    then have "match_loop look inp r h s w = Some (s, h, w)" by (subst match_loop.simps) simp
    then show ?thesis using False "1.prems" by (intro exI [of _ "[]"]) auto
  next
    case long: True
    obtain p h' where look: "look h s = (p, h')" by fastforce
    let ?lit = "p < 0 \<or> int s \<le> p \<or> u16_at inp (nat p) \<noteq> u16_at inp s \<or> inp ! (nat p + 2) \<noteq> inp ! (s + 2)"
    show ?thesis
    proof (cases ?lit)
      case True
      have room: "length B + 9 \<le> 9 * r" using "1.prems"(3) long by linarith
      obtain w1 where w1: "putlit (inp ! s) w = Some w1" "writes w1 (B @ tok_bits (Lit (inp ! s)))" "room w1 N r"
        using putlit_ok [OF "1.prems"(1,2) room, of "inp ! s"] by blast
      have "length (B @ tok_bits (Lit (inp ! s))) \<le> 9 * (s + 1)"
        using length_tok_bits(1) [of "inp ! s"] "1.prems"(3) by (simp del: tok_bits.simps)
      with "1.IH"(1) [OF long refl look [symmetric] True w1(1) w1(2,3)] "1.prems" long
      obtain ts s' h'' w' where ih: "match_loop look inp r h' (s + 1) w1 = Some (s', h'', w')"
        "writes w' ((B @ tok_bits (Lit (inp ! s))) @ stream_bits ts)" "room w' N r"
        "length ((B @ tok_bits (Lit (inp ! s))) @ stream_bits ts) \<le> 9 * s'"
        "s + 1 \<le> s'" "s' \<le> r" "r \<le> s' + 2" "play (take (s + 1) inp) ts = take s' inp" "good_tokens (s + 1) ts"
        by auto
      moreover have "match_loop look inp r h s w = match_loop look inp r h' (s + 1) w1"
        using long look True w1(1) by (subst match_loop.simps) simp
      moreover have "play (take s inp) (Lit (inp ! s) # ts) = play (take (s + 1) inp) ts"
        using long "1.prems" by (simp add: take_Suc_conv_app_nth)
      ultimately show ?thesis
        by (intro exI [of _ "Lit (inp ! s) # ts"]) (simp del: tok_bits.simps)
    next
      case False
      let ?e = "match_end inp r (nat p + 3) (s + 3)"
      let ?t = "Copy (s - nat p) (?e - s)"
      note st = match_loop_step [OF False long "1.prems"(5,6)]
      have room: "length B + 9 * (?e - s) \<le> 9 * r" using "1.prems"(3) st(2,3) by linarith
      obtain w1 w2 where w: "putoff (of_nat (s - nat p)) w = Some w1" "putlen (of_nat (?e - s)) w1 = Some w2"
        "writes w2 (B @ tok_bits ?t)" "room w2 N r"
        using putcopy_ok [OF "1.prems"(1,2) room, of "s - nat p"] st "1.prems"(4,6) by auto
      have "length (B @ tok_bits ?t) \<le> 9 * ?e"
      proof -
        have "length (tok_bits ?t) \<le> 9 * (?e - s)"
          by (intro length_tok_bits(2)) (use st in linarith)+
        moreover have "9 * (?e - s) + 9 * s = 9 * ?e" using st(2) by (simp add: diff_mult_distrib2)
        ultimately show ?thesis using "1.prems"(3) by (simp only: length_append)
      qed
      with "1.IH"(2) [OF long refl look [symmetric] False refl w(1,2) w(3,4)] "1.prems" st
      obtain ts s' h'' w' where ih: "match_loop look inp r h' ?e w2 = Some (s', h'', w')"
        "writes w' ((B @ tok_bits ?t) @ stream_bits ts)" "room w' N r"
        "length ((B @ tok_bits ?t) @ stream_bits ts) \<le> 9 * s'"
        "?e \<le> s'" "s' \<le> r" "r \<le> s' + 2" "play (take ?e inp) ts = take s' inp" "good_tokens ?e ts"
        by auto
      moreover have "match_loop look inp r h s w = match_loop look inp r h' ?e w2"
        using long look False w(1,2) by (subst match_loop.simps) (simp add: Let_def)
      moreover have "play (take s inp) (?t # ts) = play (take ?e inp) ts"
        using st(5) by simp
      moreover have "good_tokens s (?t # ts)"
        using st(2,6) ih(9) by simp
      ultimately show ?thesis using st(2)
        by (intro exI [of _ "?t # ts"]) (simp del: tok_bits.simps play.simps)
    qed
  qed
qed

lemma writes_start: "mem \<noteq> [] \<Longrightarrow> writes (mem[0 := 0], 0, 0) []"
  by (simp add: writes_def mem_bit_def)

lemma match_tail_writes:
  assumes "writes w B" "room w N r" "length B \<le> 9 * s" "s \<le> r" "r \<le> s + 2" "r \<le> length inp"
  shows "\<exists>ts w'. match_tail inp r s w = Some w' \<and> writes w' (B @ stream_bits ts) \<and> room w' N r
     \<and> length (B @ stream_bits ts) \<le> 9 * r \<and> play (take s inp) ts = take r inp \<and> good_tokens s ts"
proof -
  have lit: "take (Suc n) inp = take n inp @ [inp ! n]" if "n < r" for n
    using that assms(6) by (simp add: take_Suc_conv_app_nth)
  consider "r = s" | "r = s + 1" | "r = s + 2" using assms(4,5) by linarith
  then show ?thesis
  proof cases
    case 1
    then show ?thesis using assms by (intro exI [of _ "[]"]) (simp add: match_tail_def)
  next
    case 2
    obtain w1 where w1: "putlit (inp ! s) w = Some w1" "writes w1 (B @ tok_bits (Lit (inp ! s)))" "room w1 N r"
      using putlit_ok [OF assms(1,2), of "inp ! s"] assms(3) 2 by auto
    then show ?thesis
      using 2 length_tok_bits(1) [of "inp ! s"] assms(3) lit [of s]
      by (intro exI [of _ "[Lit (inp ! s)]"]) (simp add: match_tail_def del: tok_bits.simps)
  next
    case 3
    let ?B1 = "B @ tok_bits (Lit (inp ! s))"
    obtain w1 where w1: "putlit (inp ! s) w = Some w1" "writes w1 ?B1" "room w1 N r"
      using putlit_ok [OF assms(1,2), of "inp ! s"] assms(3) 3 by auto
    moreover have B1: "length ?B1 \<le> 9 * s + 9"
      using length_tok_bits(1) [of "inp ! s"] assms(3) by (simp del: tok_bits.simps)
    ultimately obtain w2 where w2: "putlit (inp ! (s + 1)) w1 = Some w2"
      "writes w2 (?B1 @ tok_bits (Lit (inp ! (s + 1))))" "room w2 N r"
      using putlit_ok [of w1 ?B1 N r "inp ! (s + 1)"] 3 by (auto simp del: tok_bits.simps)
    then show ?thesis
      using 3 w1 B1 length_tok_bits(1) [of "inp ! (s + 1)"] lit [of s] lit [of "Suc s"]
      by (intro exI [of _ "[Lit (inp ! s), Lit (inp ! (s + 1))]"]) (simp add: match_tail_def del: tok_bits.simps)
  qed
qed

text \<open>The padded stream: whole bytes that start with the bits of the tokens.\<close>

lemma putpad_writes:
  assumes "writes (mem, pos, l) B" "room (mem, pos, l) N r" "length B \<le> 9 * r"
  shows "\<exists>mem' n. putpad (mem, pos, l) = Some (mem', n, 0) \<and> holds mem' 0 B \<and> length mem' = length mem
     \<and> 8 * n < length B + 8 \<and> length B \<le> 8 * n"
proof -
  have B: "length B = 8 * pos + l" "l < 8" using assms(1) by (simp_all add: writes_def)
  show ?thesis
  proof (cases "l = 0")
    case True
    then show ?thesis using assms(1) B by (auto simp: putpad_def writes_def holds_def)
  next
    case False
    have "pos \<le> 9 * r div 8" using B assms(3) by (simp add: less_eq_div_iff_mult_less_eq)
    then have cap: "pos + 4 \<le> length mem" using assms(2) by (simp add: room_def)
    have "0 < 8 - l" "8 - l \<le> 24" using B(2) by linarith+
    from putbits_writes [OF assms(1) cap this, of 0] obtain mem'
      where "putbits 0 (8 - l) (mem, pos, l) = Some (mem', pos + (l + (8 - l)) div 8, (l + (8 - l)) mod 8)"
        "length mem' = length mem"
        "writes (mem', pos + (l + (8 - l)) div 8, (l + (8 - l)) mod 8) (B @ bits_of (8 - l) 0)"
      by auto
    moreover have "l + (8 - l) = 8" using B by simp
    ultimately show ?thesis
      using False B by (auto simp: putpad_def writes_def holds_def nth_append split: if_splits)
  qed
qed

lemma mppc_compress_spec:
  assumes "isize \<le> length inp" "isize \<le> 8192" "9 * isize div 8 + 4 \<le> length mem"
  shows "\<exists>ts mem' n. mppc_compress h inp isize mem = Some (mem', n)
     \<and> holds mem' 0 (stream_bits ts) \<and> length mem' = length mem \<and> 8 * n < length (stream_bits ts) + 8
     \<and> length (stream_bits ts) \<le> 8 * n \<and> length (stream_bits ts) \<le> 9 * isize
     \<and> play [] ts = take isize inp \<and> good_tokens 0 ts"
proof -
  have mem: "mem \<noteq> []" using assms(3) by auto
  let ?w = "(mem[0 := 0], 0, 0)"
  have "room ?w (length mem) isize" using assms(3) by (simp add: room_def)
  from match_loop_writes [OF writes_start [OF mem] this, of 0 inp "mppc_find inp" h] assms
  obtain ts s h' w1 where l: "match_loop (mppc_find inp) inp isize h 0 ?w = Some (s, h', w1)"
    "writes w1 (stream_bits ts)" "room w1 (length mem) isize" "length (stream_bits ts) \<le> 9 * s"
    "s \<le> isize" "isize \<le> s + 2" "play [] ts = take s inp" "good_tokens 0 ts" by auto
  from match_tail_writes [OF l(2-6) assms(1)]
  obtain us w2 where t: "match_tail inp isize s w1 = Some w2" "writes w2 (stream_bits (ts @ us))" "room w2 (length mem) isize"
    "length (stream_bits (ts @ us)) \<le> 9 * isize" "play (take s inp) us = take isize inp" "good_tokens s us"
    by auto
  obtain m p b where w2: "w2 = (m, p, b)" by (cases w2)
  from putpad_writes [OF t(2,3,4) [unfolded w2]]
  obtain mem' n where p: "putpad w2 = Some (mem', n, 0)" "holds mem' 0 (stream_bits (ts @ us))"
    "length mem' = length m" "8 * n < length (stream_bits (ts @ us)) + 8" "length (stream_bits (ts @ us)) \<le> 8 * n"
    by (auto simp: w2)
  have "length m = length mem" using t(3) by (simp add: w2 room_def)
  moreover have "play [] (ts @ us) = take isize inp" using l(7) t(5) by (simp add: play_append)
  moreover have "good_tokens 0 (ts @ us)"
    using good_tokens_append [of "[]" ts us] l(5,7,8) t(6) assms(1) by simp
  ultimately show ?thesis
    using mem l(1) t p by (intro exI [of _ "ts @ us"]) (simp add: mppc_compress_def)
qed

end
