(* ===== verification/MppcDecode.thy ===== *)
theory MppcDecode
  imports Mppc
begin

text \<open>
  Correctness of the decompressor of \<open>Mppc\<close>: \<open>lamecopy\<close> is a byte-wise copy, every code word
  the compressor writes is recognised by the comparison ladders (directly or after the second
  \<open>fetch\<close>), and the loop plays the tokens of a stream and stops before its padding. The round
  trip of \<open>mppc_compress\<close> and \<open>mppc_decompress\<close>, and the memory safety of the decompressor on
  arbitrary input, close the theory.
\<close>

subsection \<open>What the decompressor reads\<close>

lemma lame_bytes_spec:
  "src < dst \<Longrightarrow> dst + len \<le> length mem \<Longrightarrow>
     \<exists>mem'. lame_bytes mem dst src len = Some mem' \<and> length mem' = length mem
       \<and> take (dst + len) mem' = lz_copy (take dst mem) (dst - src) len"
proof (induction len arbitrary: mem dst src)
  case (Suc len)
  define m where "m = mem[dst := mem ! src]"
  have "take (Suc dst) m = take dst mem @ [mem ! src]"
    using Suc.prems by (simp add: m_def take_Suc_conv_app_nth)
  moreover have "take dst mem ! (length (take dst mem) - (dst - src)) = mem ! src"
    using Suc.prems by simp
  moreover have "\<exists>mem'. lame_bytes m (Suc dst) (Suc src) len = Some mem' \<and> length mem' = length m
      \<and> take (Suc dst + len) mem' = lz_copy (take (Suc dst) m) (Suc dst - Suc src) len"
    using Suc.prems by (intro Suc.IH) (simp_all add: m_def)
  ultimately show ?case using Suc.prems by (auto simp: m_def)
qed simp

lemma lame_bytes_self:
  "src \<le> dst \<Longrightarrow> dst + len \<le> length mem \<Longrightarrow>
     \<exists>mem'. lame_bytes mem dst src len = Some mem' \<and> length mem' = length mem"
proof (induction len arbitrary: mem dst src)
  case (Suc len)
  then show ?case using Suc.IH [of "Suc src" "Suc dst" "mem[dst := mem ! src]"] by simp
qed simp

lemma le32_bytes_load:
  assumes "load32 mem src = Some w"
  shows "le32_bytes w = [mem ! src, mem ! (src + 1), mem ! (src + 2), mem ! (src + 3)]"
proof -
  have len: "src + 4 \<le> length mem" and w: "w = of_le32 (drop src mem)"
    using assms by (auto simp: load32_def split: if_splits)
  have "drop src mem = mem ! src # mem ! (src + 1) # mem ! (src + 2) # mem ! (src + 3) # drop (src + 4) mem"
    using len by (simp add: Cons_nth_drop_Suc eval_nat_numeral)
  then show ?thesis by (simp add: w le32_bytes_def)
qed

lemma lame_words_step:
  assumes "load32 mem src = Some w" "store32 mem dst w = Some mem'" "src + 3 < dst"
  shows "lame_bytes mem dst src (n + 4) = lame_bytes mem' (dst + 4) (src + 4) n"
proof -
  have len: "dst + 4 \<le> length mem" and mem': "mem' = take dst mem @ le32_bytes w @ drop (dst + 4) mem"
    using assms(2) by (auto simp: store32_def split: if_splits)
  have four: "mem' = mem[dst := mem ! src, Suc dst := mem ! Suc src, Suc (Suc dst) := mem ! Suc (Suc src),
      Suc (Suc (Suc dst)) := mem ! Suc (Suc (Suc src))]"
    (is "_ = ?m")
  proof (rule nth_equalityI)
    show "length mem' = length ?m" using len by (simp add: mem')
    fix i assume i: "i < length mem'"
    consider "i < dst" | "i = dst" | "i = dst + 1" | "i = dst + 2" | "i = dst + 3" | "dst + 4 \<le> i" by linarith
    then show "mem' ! i = ?m ! i"
      using i len unfolding mem' le32_bytes_load [OF assms(1)]
      by cases (auto simp: nth_append nth_Cons' nth_list_update numeral_2_eq_2 numeral_3_eq_3)
  qed
  have num: "n + 4 = Suc (Suc (Suc (Suc n)))" "dst + 4 = Suc (Suc (Suc (Suc dst)))"
    "src + 4 = Suc (Suc (Suc (Suc src)))" by simp_all
  show ?thesis
    unfolding num four using len assms(3) by (simp add: nth_list_update)
qed

lemma lamecopy_bytes:
  assumes "src \<le> dst" "dst + len \<le> length mem"
  shows "lamecopy mem dst src len = lame_bytes mem dst src len"
proof -
  have "\<exists>m d s n. lame_words mem dst src len = Some (m, d, s, n)
      \<and> lame_bytes m d s n = lame_bytes mem dst src len" if "src + 3 < dst"
    using that assms(2)
  proof (induction mem dst src len rule: lame_words.induct)
    case (1 mem dst src len)
    show ?case
    proof (cases "3 < len")
      case True
      obtain w where w: "load32 mem src = Some w" using "1.prems" True by (simp add: load32_def)
      obtain m where m: "store32 mem dst w = Some m" using "1.prems" True by (simp add: store32_def)
      have "length m = length mem" using store32_mem_bit(1) [OF m] .
      then obtain m' d s n where "lame_words m (dst + 4) (src + 4) (len - 4) = Some (m', d, s, n)"
        "lame_bytes m' d s n = lame_bytes m (dst + 4) (src + 4) (len - 4)"
        using "1.IH" [OF True w m] "1.prems" True by auto
      then show ?thesis
        using True lame_words_step [OF w m "1.prems"(1), of "len - 4"]
        by (subst lame_words.simps) (simp add: w m)
    next
      case False
      then show ?thesis by (subst lame_words.simps) simp
    qed
  qed
  then show ?thesis by (auto simp: lamecopy_def)
qed

lemma bits_of_split: "bits_of (a + b) c = bits_of a (drop_bit b c) @ bits_of b c"
proof (rule nth_equalityI)
  show "length (bits_of (a + b) c) = length (bits_of a (drop_bit b c) @ bits_of b c)" by simp
  fix i assume i: "i < length (bits_of (a + b) c)"
  show "bits_of (a + b) c ! i = (bits_of a (drop_bit b c) @ bits_of b c) ! i"
  proof (cases "i < a")
    case True
    moreover have "a + b - 1 - i = b + (a - 1 - i)" using True by linarith
    ultimately show ?thesis using i by (simp add: nth_append nth_bits_of bit_drop_bit_eq)
  next
    case False
    moreover have "a + b - 1 - i = b - 1 - (i - a)" using False by linarith
    ultimately show ?thesis using i by (simp add: nth_append nth_bits_of)
  qed
qed

lemma len_code_ones:
  assumes "3 \<le> unat len" "unat len < 8192" "len_code len = (c, n)"
  shows "14 < n \<Longrightarrow> drop_bit (n - 7) c = 127" "12 < n \<Longrightarrow> drop_bit (n - 6) c = 63" "8 < n \<Longrightarrow> drop_bit (n - 4) c = 15"
proof -
  have lower: "(14 < n \<longrightarrow> 2 ^ (n - 7) * 127 \<le> unat c) \<and> (12 < n \<longrightarrow> 2 ^ (n - 6) * 63 \<le> unat c)
    \<and> (8 < n \<longrightarrow> 2 ^ (n - 4) * 15 \<le> unat c)"
    by (cases rule: len_code_cases [OF assms(1,2)]) (use assms(3) in auto)
  have upper: "unat c < 2 ^ n" using len_code_bound [OF assms(1,2)] assms(3) by simp
  have top: "unat (drop_bit (n - a) c) = 2 ^ a - 1" if a: "a < n" "a < 32" "2 ^ (n - a) * (2 ^ a - 1) \<le> unat c" for a
  proof -
    have pow: "2 ^ (n - a) * 2 ^ a = (2 :: nat) ^ n" using a(1) by (simp flip: power_add)
    have "unat (drop_bit (n - a) c) = unat c div 2 ^ (n - a)" by (simp only: unat_drop_bit_eq) (simp only: drop_bit_eq_div)
    also have "\<dots> = 2 ^ a - 1"
      using a(3) upper pow by (intro div_nat_eqI) (simp_all add: mult.commute)
    finally show ?thesis .
  qed
  show "14 < n \<Longrightarrow> drop_bit (n - 7) c = 127" "12 < n \<Longrightarrow> drop_bit (n - 6) c = 63" "8 < n \<Longrightarrow> drop_bit (n - 4) c = 15"
    using top [of 7] top [of 6] top [of 4] lower by (simp_all add: word_unat_eq_iff)
qed

lemma dec_len_ones:
  "drop_bit 25 val = 127 \<Longrightarrow> dec_len (take 7 len_classes) val = None"
  "drop_bit 26 val = 63 \<Longrightarrow> dec_len (take 6 len_classes) val = None"
  "drop_bit 28 val = 15 \<Longrightarrow> dec_len (take 4 len_classes) val = None"
  using drop_bit_bounds(1) [of 25 val 127] drop_bit_bounds(1) [of 26 val 63] drop_bit_bounds(1) [of 28 val 15]
  by (simp_all add: len_classes_def word_less_nat_alt)

lemma dec_len_append: "dec_len (xs @ ys) val = (case dec_len xs val of None \<Rightarrow> dec_len ys val | Some r \<Rightarrow> Some r)"
  by (induction xs val rule: dec_len.induct) simp_all

text \<open>The two ways a length is read: from the rest of the word, or after a second fetch.\<close>

lemma dec_len_prefix:
  assumes "3 \<le> unat len" "unat len < 8192" "len_code len = (c, m)" "sees val (bits_of m c @ S) v"
    and "(k, v) \<in> {(7, 15), (6, 13), (4, 9)}"
  shows "dec_len (take k len_classes) val = Some (len, m) \<or> dec_len (take k len_classes) val = None
       \<and> (\<forall>val2 S2. sees val2 (bits_of m c @ S2) 25 \<longrightarrow> dec_len (drop k len_classes) val2 = Some (len, m))"
proof -
  have c: "unat c < 2 ^ m" "m \<le> 24" "0 < m" using len_code_bound [OF assms(1,2)] len_code_bits [of len] assms(3) by simp_all
  define a where "a = (if k = 7 then 7 else if k = 6 then 6 else 4 :: nat)"
  have av: "a < v" using assms(5) by (auto simp: a_def)
  consider "m < v" | "2 * a < m" using assms(5) assms(1-3)
    by (cases rule: len_code_cases [OF assms(1,2)]) (auto simp: a_def)
  then show ?thesis
  proof cases
    case 1
    then have "drop_bit (32 - m) val = c" using c by (intro sees_prefix [OF assms(4)]) auto
    note d = dec_len_code [OF assms(1-3) this]
    show ?thesis using d(2-4) 1 assms(5) by auto
  next
    case 2
    have m: "m = a + (m - a)" using 2 by simp
    have "bits_of m c = bits_of a (drop_bit (m - a) c) @ bits_of (m - a) c"
      by (subst m) (simp only: bits_of_split)
    then have sa: "sees val (bits_of a (drop_bit (m - a) c) @ (bits_of (m - a) c @ S)) v" using assms(4) by simp
    have ones: "drop_bit (m - a) c = (if k = 7 then 127 else if k = 6 then 63 else 15)"
      using len_code_ones [OF assms(1-3)] 2 assms(5) by (auto simp: a_def)
    have "drop_bit (32 - a) val = drop_bit (m - a) c"
      using av ones by (intro sees_prefix [OF sa]) (auto simp: a_def)
    then have none: "dec_len (take k len_classes) val2 = None" if "drop_bit (32 - a) val2 = drop_bit (m - a) c" for val2
      using that dec_len_ones [of val2] ones assms(5) by (auto simp: a_def)
    have "dec_len (drop k len_classes) val2 = Some (len, m)" if s2: "sees val2 (bits_of m c @ S2) 25" for val2 S2
    proof -
      have "drop_bit (32 - m) val2 = c" using c by (intro sees_prefix [OF s2]) auto
      then have full: "dec_len len_classes val2 = Some (len, m)" by (rule dec_len_code [OF assms(1-3)])
      have "sees val2 (bits_of a (drop_bit (m - a) c) @ (bits_of (m - a) c @ S2)) 25"
        using s2 \<open>bits_of m c = _\<close> by simp
      then have "drop_bit (32 - a) val2 = drop_bit (m - a) c"
        using ones by (intro sees_prefix) (auto simp: a_def)
      then have "dec_len (take k len_classes) val2 = None" by (rule none)
      then show ?thesis
        using full dec_len_append [of "take k len_classes" "drop k len_classes" val2] by simp
    qed
    then show ?thesis using none \<open>drop_bit (32 - a) val = drop_bit (m - a) c\<close> by blast
  qed
qed

definition rpos :: "dec_state \<Rightarrow> nat" where
  "rpos d = 8 * d_buf d + d_l d"

text \<open>Normalising the cursor, as \<open>fetch\<close> does, keeps the bit position.\<close>

lemma rpos_fetch: "rpos (d\<lparr>d_buf := d_buf d + d_l d div 8, d_l := d_l d mod 8\<rparr>) = rpos d"
  by (simp add: rpos_def)

lemma fetch_state:
  assumes "holds input (rpos d) S" "rpos d div 8 + 4 \<le> length input"
  shows "\<exists>val. fetch input (d_buf d, d_l d) = Some (val, d_buf d + d_l d div 8, d_l d mod 8) \<and> sees val S 25"
  using assms fetch_sees [of "d_buf d" "d_l d" "rpos d" input S] by (simp add: rpos_def)

lemma dec_copy_ok:
  assumes "0 < unat off" "unat off \<le> d_out d" "d_out d + unat len \<le> osize" "osize \<le> length (d_mem d)"
  shows "\<exists>mem'. dec_copy osize off len d = Some (Next (d\<lparr>d_mem := mem', d_out := d_out d + unat len\<rparr>))
     \<and> length mem' = length (d_mem d)
     \<and> take (d_out d + unat len) mem' = lz_copy (take (d_out d) (d_mem d)) (unat off) (unat len)"
  using assms lame_bytes_spec [of "d_out d - unat off" "d_out d" "unat len" "d_mem d"]
  by (auto simp: dec_copy_def lamecopy_bytes)

lemma dec_length_ok:
  assumes len: "3 \<le> unat len" "unat len < 8192" "len_code len = (c, m)"
    and s: "sees val (xs @ bits_of m c @ S) 25" and k: "(k, length xs) \<in> {(7, 10), (6, 12), (4, 16)}"
    and h: "holds input (rpos d) (xs @ bits_of m c @ S)" and r: "rpos d div 8 + 6 \<le> length input"
  shows "\<exists>b l. dec_length input osize off val (length xs) k d
           = dec_copy osize off len (d\<lparr>d_buf := b, d_l := l, d_blen := d_blen d + length xs + m\<rparr>)
         \<and> 8 * b + l = rpos d + length xs + m"
proof -
  define v where "v = 25 - length xs"
  have kv: "(k, v) \<in> {(7, 15), (6, 13), (4, 9)}" using k by (auto simp: v_def)
  have "sees (push_bit (length xs) val) (bits_of m c @ S) v"
    using k by (intro sees_shift [OF s]) (auto simp: v_def)
  from dec_len_prefix [OF len this kv] show ?thesis
  proof (elim disjE conjE)
    assume "dec_len (take k len_classes) (push_bit (length xs) val) = Some (len, m)"
    then show ?thesis
      by (intro exI [of _ "d_buf d"] exI [of _ "d_l d + (length xs + m)"])
        (simp add: dec_length_def passbits_def rpos_def ac_simps)
  next
    assume two: "dec_len (take k len_classes) (push_bit (length xs) val) = None"
      "\<forall>val2 S2. sees val2 (bits_of m c @ S2) 25 \<longrightarrow> dec_len (drop k len_classes) val2 = Some (len, m)"
    let ?d = "passbits (length xs) d"
    have rp: "rpos ?d = rpos d + length xs" by (simp add: rpos_def passbits_def)
    have "holds input (rpos ?d) (bits_of m c @ S)" using holds_drop [OF h] by (simp add: rp)
    moreover have "rpos ?d div 8 + 4 \<le> length input"
    proof -
      have "length xs \<le> 16" using k by auto
      then have "rpos ?d div 8 \<le> rpos d div 8 + 2" by (simp add: rp)
      then show ?thesis using r by linarith
    qed
    ultimately obtain val2 where f: "fetch input (d_buf ?d, d_l ?d) = Some (val2, d_buf ?d + d_l ?d div 8, d_l ?d mod 8)"
      "sees val2 (bits_of m c @ S) 25" using fetch_state [of input ?d] by blast
    then have "dec_len (drop k len_classes) val2 = Some (len, m)" using two by blast
    then have "dec_length input osize off val (length xs) k d
        = dec_copy osize off len (passbits m (?d\<lparr>d_buf := d_buf ?d + d_l ?d div 8, d_l := d_l ?d mod 8\<rparr>))"
      using two(1) f(1) by (simp add: dec_length_def Let_def)
    then show ?thesis
      by (intro exI [of _ "d_buf ?d + d_l ?d div 8"] exI [of _ "d_l ?d mod 8 + m"])
        (simp add: passbits_def rpos_def)
  qed
qed

lemma dec_step_copy:
  assumes off: "0 < off" "off < 8512" "off \<le> d_out d" and len: "3 \<le> len" "len < 8192"
    and cap: "d_out d + len \<le> osize" "osize \<le> length (d_mem d)"
    and h: "holds input (rpos d) (tok_bits (Copy off len) @ S)" and r: "rpos d div 8 + 6 \<le> length input"
  shows "\<exists>d'. dec_step input osize d = Some (Next d') \<and> rpos d' = rpos d + length (tok_bits (Copy off len))
     \<and> d_blen d' = d_blen d + length (tok_bits (Copy off len)) \<and> d_out d' = d_out d + len
     \<and> length (d_mem d') = length (d_mem d)
     \<and> take (d_out d') (d_mem d') = play (take (d_out d) (d_mem d)) [Copy off len]"
proof -
  let ?o = "of_nat off :: u32" and ?n = "of_nat len :: u32"
  have un: "unat ?o = off" "unat ?n = len" using off len by (simp_all add: unsigned_of_nat take_bit_nat_eq_self)
  obtain c m where cm: "len_code ?n = (c, m)" by fastforce
  have len': "3 \<le> unat ?n" "unat ?n < 8192" using len un by simp_all
  obtain oc on where o: "off_code ?o = (oc, on)" by fastforce
  have tb: "tok_bits (Copy off len) = bits_of on oc @ bits_of m c" by (simp add: o cm)
  define xs where "xs = bits_of on oc"
  define d1 where "d1 = d\<lparr>d_buf := d_buf d + d_l d div 8, d_l := d_l d mod 8\<rparr>"
  have h1: "holds input (rpos d) (xs @ bits_of m c @ S)" using h unfolding tb xs_def by simp
  obtain val where val: "fetch input (d_buf d, d_l d) = Some (val, d_buf d1, d_l d1)" "sees val (xs @ bits_of m c @ S) 25"
    using fetch_state [OF h1] r by (auto simp: d1_def)
  have ob: "unat oc < 2 ^ on" "on \<le> 16" using off_code_bound [of ?o] off_code_bits [of ?o] un off o by simp_all
  have oc: "drop_bit (32 - on) val = oc"
    using ob sees_prefix [of val on oc "bits_of m c @ S" 25] val(2) by (simp add: xs_def)
  have r1: "rpos d1 = rpos d" by (simp add: d1_def rpos_fetch)
  have step: "\<exists>k. dec_step input osize d = dec_length input osize ?o val (length xs) k d1
      \<and> (k, length xs) \<in> {(7, 10), (6, 12), (4, 16)}"
  proof -
    have off': "unat ?o < 8512" using off un by simp
    from off' show ?thesis
    proof (cases rule: off_code_cases)
      case (short x)
      then have "on = 10" "oc = 0x3c0 OR x" using o by simp_all
      then show ?thesis
        using drop_bit_bounds [OF oc] short oc
        by (intro exI [of _ 7])
          (simp add: dec_step_def val(1) Let_def word_less_nat_alt word_le_nat_alt len_masks xs_def d1_def)
    next
      case (middle x)
      then have "on = 12" "oc = 0xe00 OR x" using o by simp_all
      then show ?thesis
        using drop_bit_bounds [OF oc] middle oc
        by (intro exI [of _ 6])
          (simp add: dec_step_def val(1) Let_def word_less_nat_alt word_le_nat_alt len_masks xs_def d1_def)
    next
      case (long x)
      then have "on = 16" "oc = 0xc000 OR x" using o by simp_all
      moreover have "drop_bit 16 val AND 0x1fff = take_bit 13 (drop_bit 16 val)"
        by (simp add: take_bit_eq_mask mask_eq_exp_minus_1)
      ultimately show ?thesis
        using drop_bit_bounds [OF oc] long oc
        by (intro exI [of _ 4])
          (simp add: dec_step_def val(1) Let_def word_less_nat_alt word_le_nat_alt xs_def d1_def)
    qed
  qed
  then obtain k where k: "dec_step input osize d = dec_length input osize ?o val (length xs) k d1"
    "(k, length xs) \<in> {(7, 10), (6, 12), (4, 16)}" by blast
  obtain b l where bl: "dec_length input osize ?o val (length xs) k d1
      = dec_copy osize ?o ?n (d1\<lparr>d_buf := b, d_l := l, d_blen := d_blen d1 + length xs + m\<rparr>)"
    "8 * b + l = rpos d + length xs + m"
    using dec_length_ok [OF len' cm val(2) k(2), of input d1 osize ?o] h1 r unfolding r1 by blast
  let ?d2 = "d1\<lparr>d_buf := b, d_l := l, d_blen := d_blen d1 + length xs + m\<rparr>"
  have "\<exists>mem'. dec_copy osize ?o ?n ?d2 = Some (Next (?d2\<lparr>d_mem := mem', d_out := d_out ?d2 + unat ?n\<rparr>))
     \<and> length mem' = length (d_mem ?d2)
     \<and> take (d_out ?d2 + unat ?n) mem' = lz_copy (take (d_out ?d2) (d_mem ?d2)) (unat ?o) (unat ?n)"
    by (rule dec_copy_ok) (use off cap un in \<open>simp_all add: d1_def\<close>)
  then obtain mem' where "dec_copy osize ?o ?n ?d2 = Some (Next (?d2\<lparr>d_mem := mem', d_out := d_out d + len\<rparr>))"
    "length mem' = length (d_mem d)" "take (d_out d + len) mem' = lz_copy (take (d_out d) (d_mem d)) off len"
    using un by (auto simp: d1_def)
  then show ?thesis
    using k(1) bl by (intro exI [of _ "?d2\<lparr>d_mem := mem', d_out := d_out d + len\<rparr>"])
      (simp add: o cm xs_def rpos_def d1_def)
qed


lemma byte_of_bits:
  assumes "bit (c :: byte) 7" "v = (0x100 :: u32) OR take_bit 7 (ucast c)"
  shows "ucast ((v OR 0x80) AND 0xff) = c"
proof -
  have "(0x100 :: u32) = 2 ^ 8" "(0x80 :: u32) = 2 ^ 7" by simp_all
  then have "bit (ucast ((v OR 0x80) AND 0xff) :: byte) n = bit c n" if "n < 8" for n
    using that assms(1) unfolding assms(2)
    by (cases "n = 7")
      (simp_all only: len_masks bit_ucast_iff bit_take_bit_iff bit_or_iff bit_exp_iff possible_bit_word, auto)
  then show ?thesis by (intro bit_word_eqI) simp
qed

lemma dec_step_lit:
  assumes cap: "d_out d < osize" "osize \<le> length (d_mem d)"
    and h: "holds input (rpos d) (tok_bits (Lit c) @ S)" and r: "rpos d div 8 + 4 \<le> length input"
  shows "\<exists>d'. dec_step input osize d = Some (Next d') \<and> rpos d' = rpos d + length (tok_bits (Lit c))
     \<and> d_blen d' = d_blen d + length (tok_bits (Lit c)) \<and> d_out d' = d_out d + 1
     \<and> length (d_mem d') = length (d_mem d)
     \<and> take (d_out d') (d_mem d') = play (take (d_out d) (d_mem d)) [Lit c]"
proof -
  define n where "n = snd (lit_code c)"
  define d1 where "d1 = d\<lparr>d_buf := d_buf d + d_l d div 8, d_l := d_l d mod 8\<rparr>"
  obtain val where val: "fetch input (d_buf d, d_l d) = Some (val, d_buf d1, d_l d1)"
    "sees val (bits_of n (fst (lit_code c)) @ S) 25"
    using fetch_state [of input d] h r by (auto simp: d1_def n_def)
  have code: "drop_bit (32 - n) val = fst (lit_code c)"
    using lit_code_bound [of c] lit_code_bits [of c] by (intro sees_prefix [OF val(2)]) (simp_all add: n_def)
  have step: "dec_step input osize d = dec_literal osize c n d1"
  proof (cases "c < 0x80")
    case True
    then have lc: "lit_code c = (ucast c, 8)" by (simp add: lit_code_def)
    have "unat c < 128" using True by (simp add: word_less_nat_alt)
    moreover have "unat (ucast c :: u32) = unat c"
      using \<open>unat c < 128\<close> by (simp add: unsigned_ucast_eq take_bit_nat_eq_self)
    moreover have "ucast (ucast c :: u32) = c" by (rule bit_word_eqI) (simp add: bit_ucast_iff)
    ultimately show ?thesis
      using drop_bit_bounds [OF code] code val(1) lc
      by (simp add: dec_step_def n_def d1_def word_less_nat_alt)
  next
    case False
    define v where "v = (ucast c AND 0x7f) OR (0x100 :: u32)"
    have lc: "lit_code c = (v, 9)" using False by (simp add: lit_code_def v_def)
    have c7: "128 \<le> unat c" using False by (simp add: word_less_nat_alt)
    have pre: "take_bit 7 (0x100 :: u32) = 0" by code_simp
    have v: "v = 0x100 OR take_bit 7 (ucast c)" by (simp add: v_def len_masks or.commute)
    define x where "x = unat (ucast c :: u32) mod 128"
    have "unat v = 256 + x" unfolding v x_def using unat_or_low [OF pre, of "ucast c"] by simp
    moreover have "x < 128" by (simp add: x_def)
    ultimately have "0x80000000 \<le> unat val" "unat val < 0xc0000000"
      using drop_bit_bounds [OF code] lc by (simp_all add: n_def)
    moreover have "ucast ((v OR 0x80) AND 0xff) = c"
    proof (rule byte_of_bits)
      show "bit c 7"
      proof -
        have "unat c < 2 ^ LENGTH(8)" by (rule unsigned_less)
        then have "unat c div 2 ^ 7 = 1" using c7 by (intro div_nat_eqI) simp_all
        then have "bit (unat c) 7" by (simp add: bit_iff_odd)
        then show ?thesis by (simp add: bit_unsigned_iff)
      qed
    qed (simp add: v)
    ultimately show ?thesis
      using code val(1) lc
      by (simp add: dec_step_def n_def d1_def word_less_nat_alt Let_def)
  qed
  have "tok_bits (Lit c) = bits_of n (fst (lit_code c))" by (simp add: n_def)
  then have len: "length (tok_bits (Lit c)) = n" by simp
  have "take (Suc (d_out d)) ((d_mem d)[d_out d := c]) = take (d_out d) (d_mem d) @ [c]"
    using cap by (simp add: take_Suc_conv_app_nth)
  then show ?thesis
    using cap unfolding step len by (simp add: dec_literal_def passbits_def rpos_def d1_def)
qed

text \<open>The loop plays all tokens and then stops: what is left is less than a byte of padding.\<close>

lemma tok_bits_min: "8 \<le> length (tok_bits t)" if "good_tokens n (t # ts)"
proof (cases t)
  case (Lit c)
  then show ?thesis by (simp add: lit_code_def)
next
  case (Copy off len)
  then show ?thesis by (simp add: off_code_def)
qed

lemma length_play: "length out \<le> length (play out ts)"
  by (induction out ts rule: play.induct) (auto intro: le_trans [rotated])

lemma dec_loop_plays:
  assumes "good_tokens (d_out d) ts" "holds input (rpos d) (stream_bits ts)"
    and "d_blen d = 7 + rpos d" "rpos d + length (stream_bits ts) \<le> tot" "tot < rpos d + length (stream_bits ts) + 8"
    and "tot div 8 + 6 \<le> length input" "osize \<le> length (d_mem d)" "d_out d \<le> length (d_mem d)"
    and "length (play (take (d_out d) (d_mem d)) ts) \<le> osize"
  shows "\<exists>mem'. dec_loop input osize tot d = Some (mem', int (length (play (take (d_out d) (d_mem d)) ts)))
     \<and> length mem' = length (d_mem d)
     \<and> take (length (play (take (d_out d) (d_mem d)) ts)) mem' = play (take (d_out d) (d_mem d)) ts"
  using assms
proof (induction ts arbitrary: d)
  case Nil
  then have "\<not> d_blen d < tot" by simp
  then show ?case using Nil by (subst dec_loop.simps) simp
next
  case (Cons t ts)
  have eight: "8 \<le> length (tok_bits t)" using tok_bits_min Cons.prems(1) by blast
  have go: "d_blen d < tot" using eight Cons.prems(3,4) by simp
  have inp: "rpos d div 8 + 6 \<le> length input"
  proof -
    have "rpos d div 8 \<le> tot div 8" using Cons.prems(4) by (intro div_le_mono) simp
    then show ?thesis using Cons.prems(6) by linarith
  qed
  let ?out = "take (d_out d) (d_mem d)"
  have cap: "length (play ?out [t]) \<le> osize"
    using length_play [of "play ?out [t]" ts] Cons.prems(9) play_append [of ?out "[t]" ts] by simp
  have "\<exists>d'. dec_step input osize d = Some (Next d') \<and> rpos d' = rpos d + length (tok_bits t)
     \<and> d_blen d' = d_blen d + length (tok_bits t) \<and> d_out d' = length (play ?out [t])
     \<and> length (d_mem d') = length (d_mem d) \<and> take (d_out d') (d_mem d') = play ?out [t]"
  proof (cases t)
    case (Lit c)
    then show ?thesis
      using dec_step_lit [of d osize input c "stream_bits ts"] Cons.prems cap inp by (auto simp del: tok_bits.simps)
  next
    case (Copy off len)
    then show ?thesis
      using dec_step_copy [of off d len osize input "stream_bits ts"] Cons.prems cap inp by (auto simp del: tok_bits.simps)
  qed
  then obtain d' where d': "dec_step input osize d = Some (Next d')" "rpos d' = rpos d + length (tok_bits t)"
    "d_blen d' = d_blen d + length (tok_bits t)" "d_out d' = length (play ?out [t])"
    "length (d_mem d') = length (d_mem d)" "take (d_out d') (d_mem d') = play ?out [t]" by blast
  have play: "play (take (d_out d') (d_mem d')) ts = play ?out (t # ts)"
    using play_append [of ?out "[t]" ts] d'(6) by simp
  have good: "good_tokens (d_out d') ts"
    using good_tokens_append [of ?out "[t]" ts] Cons.prems(1,8) d'(4) by simp
  have "\<exists>mem'. dec_loop input osize tot d' = Some (mem', int (length (play (take (d_out d') (d_mem d')) ts)))
     \<and> length mem' = length (d_mem d')
     \<and> take (length (play (take (d_out d') (d_mem d')) ts)) mem' = play (take (d_out d') (d_mem d')) ts"
    using Cons.prems d' good holds_drop [of input "rpos d" "tok_bits t" "stream_bits ts"] cap play
    by (intro Cons.IH) (simp_all del: tok_bits.simps play.simps)
  then show ?case
    using go d'(1,5) play by (subst dec_loop.simps) simp
qed

text \<open>The memory the loop reads: the source, then 16384 bytes in all.\<close>

lemma mppc_decompress_plays:
  assumes "good_tokens 0 ts" "holds src 0 (stream_bits ts)" "isize \<le> length src" "isize \<le> 9217"
    and "length (stream_bits ts) \<le> 8 * isize" "8 * isize < length (stream_bits ts) + 8"
    and "length junk = 16384" "osize \<le> length mem" "length (play [] ts) \<le> osize"
  shows "\<exists>mem'. mppc_decompress junk src isize mem osize = Some (mem', int (length (play [] ts)))
     \<and> length mem' = length mem \<and> take (length (play [] ts)) mem' = play [] ts"
proof -
  let ?input = "take isize src @ drop isize (take 16384 junk)"
  let ?d = "\<lparr>d_buf = 0, d_l = 0, d_blen = 7, d_mem = mem, d_out = 0\<rparr>"
  have "holds ?input 0 (stream_bits ts)"
    unfolding holds_def
  proof (intro allI impI)
    fix i assume i: "i < length (stream_bits ts)"
    then have "i div 8 < isize" using assms(5) by auto
    then have "mem_bit ?input i = mem_bit src i" using assms(3) by (simp add: mem_bit_def nth_append)
    then show "mem_bit ?input (0 + i) = stream_bits ts ! i" using assms(2) i by (simp add: holds_def)
  qed
  then have "\<exists>mem'. dec_loop ?input osize (isize * 8) ?d
      = Some (mem', int (length (play (take (d_out ?d) (d_mem ?d)) ts)))
     \<and> length mem' = length (d_mem ?d)
     \<and> take (length (play (take (d_out ?d) (d_mem ?d)) ts)) mem' = play (take (d_out ?d) (d_mem ?d)) ts"
    using assms by (intro dec_loop_plays) (simp_all add: rpos_def)
  then show ?thesis using assms(4) by (simp add: mppc_decompress_def Let_def)
qed

text \<open>Compression followed by decompression.\<close>

lemma mppc_roundtrip:
  assumes "isize \<le> length inp" "isize \<le> 8192" "9 * isize div 8 + 4 \<le> length mem"
    and "length junk = 16384" "isize \<le> osize" "osize \<le> length dst"
  shows "\<exists>mem' n. mppc_compress h inp isize mem = Some (mem', n) \<and> length mem' = length mem \<and> n \<le> length mem
     \<and> n \<le> 9217 \<and> (0 < isize \<longrightarrow> 0 < n)
     \<and> (\<forall>src. take n src = take n mem' \<longrightarrow>
          (\<exists>dst'. mppc_decompress junk src n dst osize = Some (dst', int isize) \<and> length dst' = length dst
             \<and> take isize dst' = take isize inp))"
proof -
  obtain ts mem' n where c: "mppc_compress h inp isize mem = Some (mem', n)" "holds mem' 0 (stream_bits ts)"
    "length mem' = length mem" "8 * n < length (stream_bits ts) + 8" "length (stream_bits ts) \<le> 8 * n"
    "length (stream_bits ts) \<le> 9 * isize" "play [] ts = take isize inp" "good_tokens 0 ts"
    using mppc_compress_spec [OF assms(1-3), of h] by blast
  have n: "n \<le> 9217" using c(4,6) assms(2) by linarith
  have "8 * n < 9 * isize + 8" using c(4,6) by linarith
  then have nm: "n \<le> length mem" using assms(3) by linarith
  have pos: "0 < n" if "0 < isize"
  proof -
    have "play [] ts \<noteq> []" using c(7) assms(1) that by auto
    then obtain t us where "ts = t # us" by (cases ts) auto
    then have "8 \<le> length (stream_bits ts)" using tok_bits_min [of 0 t us] c(8) by simp
    then show ?thesis using c(5) by linarith
  qed
  have "\<exists>dst'. mppc_decompress junk src n dst osize = Some (dst', int isize) \<and> length dst' = length dst
      \<and> take isize dst' = take isize inp" if "take n src = take n mem'" for src
  proof -
    have "length (take n src) = length (take n mem')" using that by simp
    then have ls: "n \<le> length src" using nm c(3) by simp
    have "holds src 0 (stream_bits ts)"
      unfolding holds_def
    proof (intro allI impI)
      fix i assume i: "i < length (stream_bits ts)"
      then have "i div 8 < n" using c(5) by auto
      then have "src ! (i div 8) = mem' ! (i div 8)" using that nth_take by metis
      then show "mem_bit src (0 + i) = stream_bits ts ! i" using c(2) i by (simp add: holds_def mem_bit_def)
    qed
    from mppc_decompress_plays [OF c(8) this ls n c(5,4) assms(4,6)]
    show ?thesis using c(7) assms(1,5) by simp
  qed
  then show ?thesis using c(1,3) n nm pos by blast
qed

subsection \<open>Memory safety on arbitrary input\<close>

definition dec_safe :: "byte list \<Rightarrow> nat \<Rightarrow> dec_state \<Rightarrow> bool" where
  "dec_safe input osize d \<longleftrightarrow>
     d_out d \<le> osize \<and> osize \<le> length (d_mem d) \<and> d_blen d = 7 + rpos d"

lemma fetch_total: "rpos d div 8 + 4 \<le> length input \<Longrightarrow>
    \<exists>val. fetch input (d_buf d, d_l d) = Some (val, d_buf d + d_l d div 8, d_l d mod 8)"
  using fetch_state [of input d "[]"] by (auto simp: holds_def)

lemma dec_copy_safe:
  assumes "dec_safe input osize d"
  shows "\<exists>r. dec_copy osize off len d = Some r
     \<and> (\<forall>d'. r = Next d' \<longrightarrow> dec_safe input osize d' \<and> length (d_mem d') = length (d_mem d))"
proof (cases "d_out d < unat off \<or> osize < d_out d + unat len")
  case False
  then have "d_out d + unat len \<le> length (d_mem d)" using assms by (simp add: dec_safe_def)
  then obtain mem' where "lamecopy (d_mem d) (d_out d) (d_out d - unat off) (unat len) = Some mem'"
    "length mem' = length (d_mem d)"
    using lame_bytes_self [of "d_out d - unat off" "d_out d" "unat len" "d_mem d"]
      lamecopy_bytes [of "d_out d - unat off" "d_out d" "unat len" "d_mem d"] by auto
  then show ?thesis using False assms by (auto simp: dec_copy_def dec_safe_def rpos_def)
qed (auto simp: dec_copy_def)

lemma dec_safe_passbits: "dec_safe input osize d \<Longrightarrow> dec_safe input osize (passbits n d)"
  by (simp add: dec_safe_def passbits_def rpos_def)

lemma dec_safe_fetch:
  "dec_safe input osize d \<Longrightarrow> dec_safe input osize (d\<lparr>d_buf := d_buf d + d_l d div 8, d_l := d_l d mod 8\<rparr>)"
  by (simp add: dec_safe_def rpos_def)

lemma dec_length_safe:
  assumes "dec_safe input osize d" "rpos d div 8 + 6 \<le> length input" "n \<le> 16"
  shows "\<exists>r. dec_length input osize off val n k d = Some r
     \<and> (\<forall>d'. r = Next d' \<longrightarrow> dec_safe input osize d' \<and> length (d_mem d') = length (d_mem d))"
proof -
  let ?d = "passbits n d"
  let ?e = "?d\<lparr>d_buf := d_buf ?d + d_l ?d div 8, d_l := d_l ?d mod 8\<rparr>"
  have copy: "\<exists>r. dec_copy osize off len (passbits m d1) = Some r
     \<and> (\<forall>d'. r = Next d' \<longrightarrow> dec_safe input osize d' \<and> length (d_mem d') = length (d_mem d))"
    if "dec_safe input osize d1" "length (d_mem d1) = length (d_mem d)" for len m d1
    using dec_copy_safe [OF dec_safe_passbits [OF that(1)], of off len m] that(2) by (simp add: passbits_def)
  have "rpos ?d div 8 \<le> rpos d div 8 + 2" using assms(3) by (simp add: rpos_def passbits_def)
  then obtain val2 where f: "fetch input (d_buf ?d, d_l ?d) = Some (val2, d_buf ?d + d_l ?d div 8, d_l ?d mod 8)"
    using fetch_total [of ?d input] assms(2) by fastforce
  have "dec_safe input osize ?e" "length (d_mem ?e) = length (d_mem d)"
    using assms(1) dec_safe_fetch dec_safe_passbits by (blast, simp add: passbits_def)
  note second = copy [OF this]
  show ?thesis
  proof (cases "dec_len (take k len_classes) (push_bit n val)")
    case None
    then show ?thesis using f second
      by (cases "dec_len (drop k len_classes) val2") (auto simp: dec_length_def Let_def)
  next
    case (Some lm)
    then show ?thesis using copy [OF assms(1) refl] by (cases lm) (auto simp: dec_length_def)
  qed
qed

lemma dec_step_safe:
  assumes "dec_safe input osize d" "rpos d div 8 + 6 \<le> length input"
  shows "\<exists>r. dec_step input osize d = Some r
     \<and> (\<forall>d'. r = Next d' \<longrightarrow> dec_safe input osize d' \<and> length (d_mem d') = length (d_mem d))"
proof -
  define d1 where "d1 = d\<lparr>d_buf := d_buf d + d_l d div 8, d_l := d_l d mod 8\<rparr>"
  obtain val where f: "fetch input (d_buf d, d_l d) = Some (val, d_buf d1, d_l d1)"
    using fetch_total [of d input] assms(2) by (auto simp: d1_def)
  have safe: "dec_safe input osize d1" "rpos d1 div 8 + 6 \<le> length input" "length (d_mem d1) = length (d_mem d)"
    using dec_safe_fetch [OF assms(1)] assms(2) by (simp_all add: d1_def rpos_fetch)
  have lit: "\<exists>r. dec_literal osize c n d1 = Some r
     \<and> (\<forall>d'. r = Next d' \<longrightarrow> dec_safe input osize d' \<and> length (d_mem d') = length (d_mem d))" for c n
    using safe by (auto simp: dec_literal_def dec_safe_def passbits_def rpos_def)
  have len: "\<exists>r. dec_length input osize off val n k d1 = Some r
     \<and> (\<forall>d'. r = Next d' \<longrightarrow> dec_safe input osize d' \<and> length (d_mem d') = length (d_mem d))"
    if "n \<le> 16" for off n k
    using dec_length_safe [OF safe(1,2) that] safe(3) by simp
  have "d\<lparr>d_buf := d_buf d1, d_l := d_l d1\<rparr> = d1" by (simp add: d1_def)
  then show ?thesis
    using lit len by (simp add: dec_step_def f Let_def)
qed

lemma dec_loop_safe:
  "dec_safe input osize d \<Longrightarrow> tot div 8 + 6 \<le> length input \<Longrightarrow>
     \<exists>mem' r. dec_loop input osize tot d = Some (mem', r) \<and> length mem' = length (d_mem d)
       \<and> (r = -1 \<or> 0 \<le> r \<and> r \<le> int osize)"
proof (induction input osize tot d rule: dec_loop.induct)
  case (1 input osize tot d)
  show ?case
  proof (cases "d_blen d < tot")
    case False
    then show ?thesis using "1.prems" by (subst dec_loop.simps) (simp add: dec_safe_def)
  next
    case True
    then have "rpos d \<le> tot" using "1.prems"(1) by (simp add: dec_safe_def)
    then have "rpos d div 8 \<le> tot div 8" by (rule div_le_mono)
    then have "rpos d div 8 + 6 \<le> length input" using "1.prems"(2) by linarith
    from dec_step_safe [OF "1.prems"(1) this] obtain r where r: "dec_step input osize d = Some r"
      "\<And>d'. r = Next d' \<Longrightarrow> dec_safe input osize d' \<and> length (d_mem d') = length (d_mem d)" by blast
    show ?thesis
    proof (cases r)
      case Error
      then show ?thesis using r(1) True by (subst dec_loop.simps) simp
    next
      case (Next d')
      then show ?thesis
        using "1.IH" [OF True r(1) Next] r(2) "1.prems"(2) r(1) True by (subst dec_loop.simps) auto
    qed
  qed
qed

lemma mppc_decompress_safe:
  assumes "isize \<le> length src" "length junk = 16384" "osize \<le> length mem"
  shows "\<exists>mem' r. mppc_decompress junk src isize mem osize = Some (mem', r) \<and> length mem' = length mem
     \<and> (r = -1 \<or> 0 \<le> r \<and> r \<le> int osize)"
proof (cases "9217 < isize")
  case False
  let ?input = "take isize src @ drop isize (take 16384 junk)"
  have "isize * 8 div 8 + 6 \<le> length ?input" using False assms by simp
  from dec_loop_safe [OF _ this, of osize "\<lparr>d_buf = 0, d_l = 0, d_blen = 7, d_mem = mem, d_out = 0\<rparr>"]
  show ?thesis using False assms by (simp add: mppc_decompress_def Let_def dec_safe_def rpos_def)
qed (simp add: mppc_decompress_def)

end
