(* ===== verification/MppcBlocks.thy ===== *)
theory MppcBlocks
  imports MppcDecode
begin

text \<open>
  The block interface of \<open>src/cnet/io/mppc.h\<close>: \<open>compressBound\<close>, the single-block
  \<open>compress\<close>/\<open>uncompress\<close> and the multi-block \<open>compress2\<close>/\<open>uncompress2\<close>, which cut the source
  into pieces of 8192 bytes with a two-byte header each and store a piece unchanged when it does
  not shrink. \<open>mem\<close> is the memory from \<open>dest\<close> on; the result is the memory, the new \<open>*destLen\<close>
  and the return code.
\<close>

subsection \<open>Definitions\<close>

definition compressBound :: "nat \<Rightarrow> nat" where
  "compressBound sourcelen = sourcelen * 9 div 8 + 1 + 2 + 3"

definition compress_block ::
  "(u16 \<Rightarrow> int) \<Rightarrow> byte list \<Rightarrow> nat \<Rightarrow> byte list \<Rightarrow> nat \<Rightarrow> (byte list \<times> nat \<times> int) option" where
  "compress_block h mem destLen source sourceLen =
     (case mppc_compress h source sourceLen mem of
        None \<Rightarrow> None
      | Some (mem, len) \<Rightarrow>
          if 0 < len \<and> len \<le> destLen then Some (mem, len, 0) else Some (mem, destLen, -1))"

definition uncompress_block ::
  "byte list \<Rightarrow> byte list \<Rightarrow> nat \<Rightarrow> byte list \<Rightarrow> nat \<Rightarrow> (byte list \<times> nat \<times> int) option" where
  "uncompress_block junk mem destLen source sourceLen =
     (case mppc_decompress junk source sourceLen mem destLen of
        None \<Rightarrow> None
      | Some (mem, len) \<Rightarrow>
          if 0 < len \<and> len \<le> int destLen then Some (mem, nat len, 0) else Some (mem, destLen, -1))"

text \<open>\<open>*((unsigned short*)dest) = v\<close>\<close>

definition put_u16 :: "u16 \<Rightarrow> byte list \<Rightarrow> byte list" where
  "put_u16 v mem = [ucast v, ucast (drop_bit 8 v)] @ drop 2 mem"

text \<open>
  One piece of \<open>compress2\<close>: the memory and the number of bytes stored after the header, or
  \<open>Inl\<close> the memory when neither form fits. Each call of \<open>mppc_compress\<close> has its own table.
\<close>

definition compress2_piece ::
  "(u16 \<Rightarrow> int) \<Rightarrow> byte list \<Rightarrow> nat \<Rightarrow> byte list \<Rightarrow> nat \<Rightarrow> (byte list + byte list \<times> nat) option" where
  "compress2_piece h mem dleft source slen =
     (case mppc_compress h source slen (drop 2 mem) of
        None \<Rightarrow> None
      | Some (m, dlen) \<Rightarrow>
          (let mem = take 2 mem @ m in
           if 0 < dlen \<and> dlen < slen \<and> dlen \<le> dleft - 2 then
             Some (Inr (put_u16 (of_nat dlen OR 0x8000) mem, dlen))
           else if 0 < slen \<and> slen \<le> dleft - 2 then
             (if slen + 2 \<le> length mem \<and> slen \<le> length source then
                Some (Inr (put_u16 (of_nat slen) (take 2 mem @ take slen source @ drop (slen + 2) mem), slen))
              else None)
           else Some (Inl mem)))"

function compress2_loop ::
  "(nat \<Rightarrow> u16 \<Rightarrow> int) \<Rightarrow> nat \<Rightarrow> byte list \<Rightarrow> nat \<Rightarrow> byte list \<Rightarrow> nat \<Rightarrow> (byte list \<times> nat \<times> int) option" where
  "compress2_loop h k mem dleft source sourceLen =
     (if 0 < sourceLen \<and> 2 < dleft then
        let slen = (if 8192 < sourceLen then 8192 else sourceLen) in
        (case compress2_piece (h k) mem dleft source slen of
           None \<Rightarrow> None
         | Some (Inl mem) \<Rightarrow> Some (mem, 0, -1)
         | Some (Inr (mem, dlen)) \<Rightarrow>
             (case compress2_loop h (k + 1) (drop (dlen + 2) mem) (dleft - (dlen + 2)) (drop slen source) (sourceLen - slen) of
                None \<Rightarrow> None
              | Some (rest, n, ret) \<Rightarrow> Some (take (dlen + 2) mem @ rest, dlen + 2 + n, ret)))
      else Some (mem, 0, if sourceLen = 0 then 0 else -1))"
  by pat_completeness auto
termination by (relation "measure (\<lambda>(_, _, _, _, _, n). n)") (auto split: if_splits)

declare compress2_loop.simps [simp del]

definition compress2 ::
  "(nat \<Rightarrow> u16 \<Rightarrow> int) \<Rightarrow> byte list \<Rightarrow> nat \<Rightarrow> byte list \<Rightarrow> nat \<Rightarrow> (byte list \<times> nat \<times> int) option" where
  "compress2 h mem destLen source sourceLen = compress2_loop h 0 mem destLen source sourceLen"

text \<open>One piece of \<open>uncompress2\<close>: its size in the source and the bytes restored, or \<open>Inl\<close> the
  memory on a bad header, a decoder error or a piece that does not fit.\<close>

definition uncompress2_piece ::
  "byte list \<Rightarrow> byte list \<Rightarrow> nat \<Rightarrow> byte list \<Rightarrow> nat \<Rightarrow> (byte list + nat \<times> byte list \<times> nat) option" where
  "uncompress2_piece junk mem dleft source sourceLen =
     (let hd = u16_at source 0; slen = unat (hd AND 0x7FFF) in
      if slen = 0 \<or> sourceLen < slen + 2 \<or> 8192 < slen then Some (Inl mem)
      else if hd AND 0x8000 \<noteq> 0 then
        (case mppc_decompress junk (drop 2 source) slen mem dleft of
           None \<Rightarrow> None
         | Some (mem, dlen) \<Rightarrow>
             if dlen \<le> 0 \<or> int dleft < dlen \<or> 8192 < dlen then Some (Inl mem)
             else Some (Inr (slen, mem, nat dlen)))
      else if dleft < slen then Some (Inl mem)
      else if slen \<le> length mem \<and> slen + 2 \<le> length source then
        Some (Inr (slen, take slen (drop 2 source) @ drop slen mem, slen))
      else None)"

function uncompress2_loop ::
  "(nat \<Rightarrow> byte list) \<Rightarrow> nat \<Rightarrow> byte list \<Rightarrow> nat \<Rightarrow> byte list \<Rightarrow> nat \<Rightarrow> (byte list \<times> nat \<times> int) option" where
  "uncompress2_loop junk k mem dleft source sourceLen =
     (if 2 < sourceLen \<and> 0 < dleft then
        (case uncompress2_piece (junk k) mem dleft source sourceLen of
           None \<Rightarrow> None
         | Some (Inl mem) \<Rightarrow> Some (mem, 0, -1)
         | Some (Inr (slen, mem, dlen)) \<Rightarrow>
             (case uncompress2_loop junk (k + 1) (drop dlen mem) (dleft - dlen) (drop (slen + 2) source) (sourceLen - (slen + 2)) of
                None \<Rightarrow> None
              | Some (rest, n, ret) \<Rightarrow> Some (take dlen mem @ rest, dlen + n, ret)))
      else Some (mem, 0, if sourceLen = 0 then 0 else -1))"
  by pat_completeness auto
termination by (relation "measure (\<lambda>(_, _, _, _, _, n). n)") auto

declare uncompress2_loop.simps [simp del]

definition uncompress2 ::
  "(nat \<Rightarrow> byte list) \<Rightarrow> byte list \<Rightarrow> nat \<Rightarrow> byte list \<Rightarrow> nat \<Rightarrow> (byte list \<times> nat \<times> int) option" where
  "uncompress2 junk mem destLen source sourceLen = uncompress2_loop junk 0 mem destLen source sourceLen"

subsection \<open>Single blocks\<close>

lemma compress_block_ok:
  assumes "sourceLen \<le> length source" "0 < sourceLen" "sourceLen \<le> 8192"
    and "compressBound sourceLen \<le> destLen" "destLen \<le> length mem"
    and "length junk = 16384" "sourceLen \<le> osize" "osize \<le> length dst"
  shows "\<exists>mem' n. compress_block h mem destLen source sourceLen = Some (mem', n, 0) \<and> length mem' = length mem
     \<and> 0 < n \<and> n \<le> destLen
     \<and> (\<forall>src. take n src = take n mem' \<longrightarrow>
          (\<exists>dst'. uncompress_block junk dst osize src n = Some (dst', sourceLen, 0) \<and> length dst' = length dst
             \<and> take sourceLen dst' = take sourceLen source))"
proof -
  have cap: "9 * sourceLen div 8 + 4 \<le> length mem"
    using assms(4,5) by (simp add: compressBound_def mult.commute)
  let ?restores = "\<lambda>mem' n. \<forall>src. take n src = take n mem' \<longrightarrow>
          (\<exists>dst'. mppc_decompress junk src n dst osize = Some (dst', int sourceLen) \<and> length dst' = length dst
             \<and> take sourceLen dst' = take sourceLen source)"
  obtain mem' n where c: "mppc_compress h source sourceLen mem = Some (mem', n)" "length mem' = length mem"
    "0 < n" "?restores mem' n"
    using mppc_roundtrip [OF assms(1,3) cap assms(6-8), of h] assms(2) by (elim exE conjE) (rule that; simp)
  have n: "n \<le> destLen"
    using mppc_compress_spec [OF assms(1,3) cap, of h] c(1) assms(4) by (auto simp: compressBound_def)
  have "\<exists>dst'. uncompress_block junk dst osize src n = Some (dst', sourceLen, 0) \<and> length dst' = length dst
             \<and> take sourceLen dst' = take sourceLen source" if src: "take n src = take n mem'" for src
  proof -
    obtain dst' where "mppc_decompress junk src n dst osize = Some (dst', int sourceLen)" "length dst' = length dst"
      "take sourceLen dst' = take sourceLen source" using c(4) src by auto
    then show ?thesis using assms(2,7) by (simp add: uncompress_block_def)
  qed
  then show ?thesis using c(1-3) n by (simp add: compress_block_def)
qed

subsection \<open>Block headers\<close>

lemma u16_header:
  assumes "n < 2 ^ 15"
  shows "(of_nat n OR (0x8000 :: u16)) AND 0x7FFF = of_nat n" "(of_nat n OR (0x8000 :: u16)) AND 0x8000 \<noteq> 0"
    "(of_nat n :: u16) AND 0x7FFF = of_nat n" "(of_nat n :: u16) AND 0x8000 = 0"
proof -
  have m: "bit (0x7FFF :: u16) i \<longleftrightarrow> i < 15" for i
  proof -
    have "bit (mask 15 :: u16) i \<longleftrightarrow> i < 15" by (auto simp: bit_mask_iff)
    then show ?thesis by (simp add: mask_eq_exp_minus_1)
  qed
  have t: "bit (0x8000 :: u16) i \<longleftrightarrow> i = 15" for i
  proof -
    have "bit (2 ^ 15 :: u16) i \<longleftrightarrow> i = 15" by (auto simp: bit_exp_iff possible_bit_word simp del: power_numeral)
    then show ?thesis by simp
  qed
  have low: "bit (of_nat n :: u16) i \<Longrightarrow> i < 15" for i
  proof (rule ccontr)
    assume "bit (of_nat n :: u16) i" "\<not> i < 15"
    then have "bit n i" by (simp add: bit_of_nat_iff)
    moreover have "n < 2 ^ i" using assms \<open>\<not> i < 15\<close> by (meson less_le_trans not_less one_le_numeral power_increasing)
    ultimately show False by (simp add: bit_iff_odd)
  qed
  show "(of_nat n OR (0x8000 :: u16)) AND 0x7FFF = of_nat n" "(of_nat n :: u16) AND 0x7FFF = of_nat n"
    using low by (rule_tac bit_word_eqI, simp only: bit_and_iff bit_or_iff m t, blast)+
  show "(of_nat n :: u16) AND 0x8000 = 0"
    using low [of 15] by (intro bit_word_eqI) (simp only: bit_and_iff t bit_0_eq bot_apply bot_bool_def, blast)
  have "bit ((of_nat n OR (0x8000 :: u16)) AND 0x8000) 15"
    by (simp add: bit_and_iff bit_or_iff t)
  then show "(of_nat n OR (0x8000 :: u16)) AND 0x8000 \<noteq> 0" by (metis bit_0_eq bot_apply bot_bool_def)
qed

lemma u16_at_put:
  assumes "take (n + 2) src = take (n + 2) (put_u16 v mem)"
  shows "u16_at src 0 = v" "take n (drop 2 src) = take n (drop 2 mem)"
proof -
  have "take 2 (take (n + 2) src) = take 2 (take (n + 2) (put_u16 v mem))" using assms by simp
  moreover have "take 2 (take (n + 2) src) = take 2 src" "take 2 (take (n + 2) (put_u16 v mem)) = take 2 (put_u16 v mem)"
    by (simp_all add: min_def)
  ultimately have two: "take 2 src = [ucast v, ucast (drop_bit 8 v)]" by (simp add: put_u16_def)
  then have "src = [ucast v, ucast (drop_bit 8 v)] @ drop 2 src" by (metis append_take_drop_id)
  then have "src ! 0 = ucast v" "src ! 1 = ucast (drop_bit 8 v)" by (metis nth_Cons_0 append_Cons, metis nth_Cons_0 append_Cons nth_Cons_Suc One_nat_def)
  moreover have "ucast (ucast v :: byte) OR push_bit 8 (ucast (ucast (drop_bit 8 v) :: byte)) = v"
    by (rule bit_word_eqI) (auto simp: bit_or_iff bit_ucast_iff bit_push_bit_iff bit_drop_bit_eq)
  ultimately show "u16_at src 0 = v" by (simp add: u16_at_def)
  have "drop 2 (take (n + 2) src) = drop 2 (take (n + 2) (put_u16 v mem))" using assms by simp
  then show "take n (drop 2 src) = take n (drop 2 mem)" by (simp add: drop_take put_u16_def)
qed

lemma length_put_u16: "2 \<le> length mem \<Longrightarrow> length (put_u16 v mem) = length mem"
  by (simp add: put_u16_def)

text \<open>What a stored piece restores, given at least its bytes.\<close>

definition piece_back :: "byte list \<Rightarrow> byte list \<Rightarrow> nat \<Rightarrow> byte list \<Rightarrow> nat \<Rightarrow> byte list \<Rightarrow> nat \<Rightarrow> bool" where
  "piece_back junk dst dl source slen mem' dlen \<longleftrightarrow>
     (\<forall>src n. take (dlen + 2) src = take (dlen + 2) mem' \<and> dlen + 2 \<le> n \<longrightarrow>
        (\<exists>dst'. uncompress2_piece junk dst dl src n = Some (Inr (dlen, dst', slen)) \<and> length dst' = length dst
           \<and> take slen dst' = take slen source))"

lemma compress2_piece_ok:
  assumes "slen \<le> length source" "0 < slen" "slen \<le> 8192"
    and "9 * slen div 8 + 6 \<le> dleft" "dleft \<le> length mem"
    and "length junk = 16384" "slen \<le> dl" "dl \<le> length dst"
  shows "\<exists>mem' dlen. compress2_piece h mem dleft source slen = Some (Inr (mem', dlen)) \<and> length mem' = length mem
     \<and> 0 < dlen \<and> dlen \<le> slen \<and> dlen + 2 \<le> dleft \<and> piece_back junk dst dl source slen mem' dlen"
proof -
  have cap: "9 * slen div 8 + 4 \<le> length (drop 2 mem)" using assms(4,5) by simp
  let ?restores = "\<lambda>m n. \<forall>src. take n src = take n m \<longrightarrow>
          (\<exists>dst'. mppc_decompress junk src n dst dl = Some (dst', int slen) \<and> length dst' = length dst
             \<and> take slen dst' = take slen source)"
  obtain m n where c: "mppc_compress h source slen (drop 2 mem) = Some (m, n)" "length m = length (drop 2 mem)"
    "n \<le> length (drop 2 mem)" "0 < n" "?restores m n"
    using mppc_roundtrip [OF assms(1,3) cap assms(6-8), of h] assms(2) by (elim exE conjE) (rule that; simp)
  have mem2: "2 \<le> length mem" using assms(4,5) by linarith
  show ?thesis
  proof (cases "n < slen \<and> n \<le> dleft - 2")
    case True
    let ?mem = "put_u16 (of_nat n OR 0x8000) (take 2 mem @ m)"
    have n15: "n < 2 ^ 15" using True assms(3) by simp
    have "piece_back junk dst dl source slen ?mem n"
      unfolding piece_back_def
    proof (intro allI impI)
      fix src k
      assume src: "take (n + 2) src = take (n + 2) ?mem \<and> n + 2 \<le> k"
      note hd = u16_at_put [OF src [THEN conjunct1]]
      have "drop 2 (take 2 mem @ m) = m" using mem2 by simp
      then obtain dst' where "mppc_decompress junk (drop 2 src) n dst dl = Some (dst', int slen)"
        "length dst' = length dst" "take slen dst' = take slen source" using c(5) hd(2) by auto
      moreover have "unat ((u16_at src 0) AND 0x7FFF) = n"
        using n15 by (simp add: hd(1) u16_header unsigned_of_nat take_bit_nat_eq_self)
      ultimately show "\<exists>dst'. uncompress2_piece junk dst dl src k = Some (Inr (n, dst', slen))
          \<and> length dst' = length dst \<and> take slen dst' = take slen source"
        using src c(4) True assms(2,3,7) u16_header(2) [OF n15] by (simp add: uncompress2_piece_def Let_def hd(1))
    qed
    then show ?thesis
    proof -
      have "length (take 2 mem @ m) = length mem" "n + 2 \<le> dleft" using c(2) mem2 True assms(4) by auto
      then show ?thesis
        using c(1,4) True mem2 \<open>piece_back junk dst dl source slen ?mem n\<close>
        by (simp add: compress2_piece_def length_put_u16)
    qed
  next
    case False
    let ?mem = "put_u16 (of_nat slen) (take 2 mem @ take slen source @ drop (slen + 2) (take 2 mem @ m))"
    have s15: "slen < 2 ^ 15" using assms(3) by simp
    have fit: "slen \<le> dleft - 2" "slen + 2 \<le> length mem" using assms(4,5) by linarith+
    have len: "length ?mem = length mem" using fit c(2) assms(1) mem2 by (simp add: put_u16_def)
    have "piece_back junk dst dl source slen ?mem slen"
      unfolding piece_back_def
    proof (intro allI impI)
      fix src k
      assume src: "take (slen + 2) src = take (slen + 2) ?mem \<and> slen + 2 \<le> k"
      note hd = u16_at_put [OF src [THEN conjunct1]]
      have body: "take slen (drop 2 src) = take slen source" using hd(2) mem2 assms(1) by simp
      have "length (take (slen + 2) src) = slen + 2" using src len fit by simp
      then have "slen + 2 \<le> length src" by (simp add: min_def split: if_splits)
      moreover have "unat ((u16_at src 0) AND 0x7FFF) = slen"
        using s15 by (simp add: hd(1) u16_header unsigned_of_nat take_bit_nat_eq_self)
      ultimately show "\<exists>dst'. uncompress2_piece junk dst dl src k = Some (Inr (slen, dst', slen))
          \<and> length dst' = length dst \<and> take slen dst' = take slen source"
        using src assms u16_header(4) [OF s15] body by (simp add: uncompress2_piece_def Let_def hd(1))
    qed
    then show ?thesis
      using c False mem2 assms fit len
      by (intro exI [of _ ?mem] exI [of _ slen]) (auto simp: compress2_piece_def Let_def)
  qed
qed

text \<open>The two loops in step.\<close>

lemma take_joined: "a \<le> length xs \<Longrightarrow> a \<le> b \<Longrightarrow> take b (take a xs @ ys) = take a xs @ take (b - a) ys"
  by simp

lemma compress2_loop_ok:
  assumes "sourceLen \<le> length source" "sourceLen = 0 \<or> 9 * sourceLen div 8 + 6 \<le> dleft" "dleft \<le> length mem"
    and "\<forall>k. length (junk k) = 16384" "sourceLen \<le> length dst"
  shows "\<exists>mem' n. compress2_loop h k mem dleft source sourceLen = Some (mem', n, 0) \<and> length mem' = length mem
     \<and> n \<le> dleft \<and> (\<forall>src. take n src = take n mem' \<longrightarrow>
          (\<exists>dst'. uncompress2_loop junk k dst sourceLen src n = Some (dst', sourceLen, 0)
             \<and> length dst' = length dst \<and> take sourceLen dst' = take sourceLen source))"
  using assms
proof (induction h k mem dleft source sourceLen arbitrary: dst rule: compress2_loop.induct)
  case (1 h k mem dleft source sourceLen)
  show ?case
  proof (cases "0 < sourceLen")
    case False
    then show ?thesis using "1.prems" by (subst compress2_loop.simps) (simp add: uncompress2_loop.simps)
  next
    case True
    define slen where "slen = (if 8192 < sourceLen then 8192 else sourceLen)"
    have sl: "0 < slen" "slen \<le> 8192" "slen \<le> sourceLen" using True by (auto simp: slen_def)
    have cap: "9 * sourceLen div 8 + 6 \<le> dleft" using "1.prems"(2) True by simp
    have "9 * slen div 8 \<le> 9 * sourceLen div 8" using sl by (intro div_le_mono) simp
    then have cap1: "9 * slen div 8 + 6 \<le> dleft" using cap by linarith
    have go: "0 < sourceLen \<and> 2 < dleft" using True cap1 by simp
    have "length (junk k) = 16384" using "1.prems"(4) by blast
    with compress2_piece_ok [of slen source dleft mem "junk k" sourceLen dst "h k"] sl cap1 "1.prems"
    obtain m dlen where p: "compress2_piece (h k) mem dleft source slen = Some (Inr (m, dlen))" "length m = length mem"
      "0 < dlen" "dlen \<le> slen" "dlen + 2 \<le> dleft" "piece_back (junk k) dst sourceLen source slen m dlen"
      by auto
    have src1: "sourceLen - slen \<le> length (drop slen source)" using "1.prems"(1) by simp
    have cap2: "sourceLen - slen = 0 \<or> 9 * (sourceLen - slen) div 8 + 6 \<le> dleft - (dlen + 2)"
    proof (cases "8192 < sourceLen")
      case True
      then have "9 * sourceLen = 9 * (sourceLen - slen) + 9216 * 8" by (simp add: slen_def)
      then have "9 * sourceLen div 8 = 9 * (sourceLen - slen) div 8 + 9216" by simp
      then show ?thesis using cap p(4) sl(2) by linarith
    qed (simp add: slen_def)
    have cap3: "dleft - (dlen + 2) \<le> length (drop (dlen + 2) m)" using "1.prems"(3) p(2) by simp
    have ih: "\<exists>mem' n. compress2_loop h (k + 1) (drop (dlen + 2) m) (dleft - (dlen + 2)) (drop slen source) (sourceLen - slen)
          = Some (mem', n, 0) \<and> length mem' = length (drop (dlen + 2) m) \<and> n \<le> dleft - (dlen + 2)
       \<and> (\<forall>src. take n src = take n mem' \<longrightarrow>
          (\<exists>dst'. uncompress2_loop junk (k + 1) dst2 (sourceLen - slen) src n = Some (dst', sourceLen - slen, 0)
             \<and> length dst' = length dst2 \<and> take (sourceLen - slen) dst' = take (sourceLen - slen) (drop slen source)))"
      if "sourceLen - slen \<le> length dst2" for dst2
      using "1.IH" [OF go slen_def p(1) refl refl src1 cap2 cap3 "1.prems"(4) that] .
    obtain rest n where r: "compress2_loop h (k + 1) (drop (dlen + 2) m) (dleft - (dlen + 2)) (drop slen source) (sourceLen - slen)
          = Some (rest, n, 0)" "length rest = length (drop (dlen + 2) m)" "n \<le> dleft - (dlen + 2)"
      using ih [of "replicate (sourceLen - slen) 0"] by auto
    let ?mem = "take (dlen + 2) m @ rest"
    have restore: "\<exists>dst'. uncompress2_loop junk k dst sourceLen src (dlen + 2 + n) = Some (dst', sourceLen, 0)
        \<and> length dst' = length dst \<and> take sourceLen dst' = take sourceLen source"
      if src: "take (dlen + 2 + n) src = take (dlen + 2 + n) ?mem" for src
    proof -
      have lm: "dlen + 2 \<le> length m" using p(2,5) "1.prems"(3) by simp
      have "take (dlen + 2) (take (dlen + 2 + n) src) = take (dlen + 2) (take (dlen + 2 + n) ?mem)" using src by simp
      then have s1: "take (dlen + 2) src = take (dlen + 2) m" using lm by simp
      have "drop (dlen + 2) (take (dlen + 2 + n) src) = drop (dlen + 2) (take (dlen + 2 + n) ?mem)" using src by simp
      then have s2: "take n (drop (dlen + 2) src) = take n rest" using lm by (simp add: drop_take)
      have "take (dlen + 2) src = take (dlen + 2) m \<and> dlen + 2 \<le> dlen + 2 + n" using s1 by simp
      from p(6) [unfolded piece_back_def, rule_format, OF this]
      obtain dst' where d: "uncompress2_piece (junk k) dst sourceLen src (dlen + 2 + n) = Some (Inr (dlen, dst', slen))"
        "length dst' = length dst" "take slen dst' = take slen source" by blast
      have "sourceLen - slen \<le> length (drop slen dst')" using d(2) "1.prems"(5) by simp
      from ih [OF this] r(1) s2 obtain d2 where
        d2: "uncompress2_loop junk (k + 1) (drop slen dst') (sourceLen - slen) (drop (dlen + 2) src) n
          = Some (d2, sourceLen - slen, 0)" "length d2 = length (drop slen dst')"
        "take (sourceLen - slen) d2 = take (sourceLen - slen) (drop slen source)" by auto
      have slen: "slen \<le> length dst'" using sl(3) d(2) "1.prems"(5) by linarith
      have "take sourceLen (take slen dst' @ d2) = take slen source @ take (sourceLen - slen) (drop slen source)"
        using take_joined [OF slen sl(3), of d2] d(3) d2(3) by (simp only:)
      also have "\<dots> = take sourceLen source" using sl(3) by (metis le_add_diff_inverse take_add)
      finally have "take sourceLen (take slen dst' @ d2) = take sourceLen source" .
      moreover have "length (take slen dst' @ d2) = length dst" using d2(2) d(2) slen by simp
      moreover have "uncompress2_loop junk k dst sourceLen src (dlen + 2 + n) = Some (take slen dst' @ d2, sourceLen, 0)"
        using d(1) d2(1) True p(3) sl(3) by (subst uncompress2_loop.simps) simp
      ultimately show ?thesis by blast
    qed
    have "compress2_loop h k mem dleft source sourceLen = Some (?mem, dlen + 2 + n, 0)"
      using go p(1) r(1) by (subst compress2_loop.simps) (simp flip: slen_def)
    moreover have "length ?mem = length mem"
    proof -
      have "dlen + 2 \<le> length m" using p(2,5) "1.prems"(3) by linarith
      then have "length (take (dlen + 2) m) = dlen + 2" by simp
      then show ?thesis using r(2) p(2) \<open>dlen + 2 \<le> length m\<close> by simp
    qed
    moreover have "dlen + 2 + n \<le> dleft" using p(5) r(3) by linarith
    ultimately show ?thesis using restore by blast
  qed
qed

subsection \<open>Properties\<close>

text \<open>
  (C10) For a block of up to 8192 bytes and a destination of \<open>compressBound\<close> bytes, \<open>compress\<close>
  succeeds without leaving the buffer, whatever its uninitialised table holds, and
  \<open>uncompress\<close> restores the block from the bytes written, whatever follows them and whatever
  its local array held.
\<close>

theorem mppc_block_roundtrip:
  assumes "0 < sourceLen" "sourceLen \<le> 8192" "sourceLen \<le> length source"
    and "compressBound sourceLen \<le> destLen" "destLen \<le> length mem"
    and "length junk = 16384" "sourceLen \<le> osize" "osize \<le> length dst"
  shows "\<exists>mem' n dst'. compress_block h mem destLen source sourceLen = Some (mem', n, 0) \<and> n \<le> destLen
     \<and> uncompress_block junk dst osize (take n mem' @ rest) n = Some (dst', sourceLen, 0)
     \<and> take sourceLen dst' = take sourceLen source"
proof -
  obtain mem' n where c: "compress_block h mem destLen source sourceLen = Some (mem', n, 0)"
    "length mem' = length mem" "n \<le> destLen"
    and restores: "\<forall>src. take n src = take n mem' \<longrightarrow> (\<exists>dst'. uncompress_block junk dst osize src n = Some (dst', sourceLen, 0)
      \<and> length dst' = length dst \<and> take sourceLen dst' = take sourceLen source)"
    using compress_block_ok [OF assms(3,1,2,4-8), of h] by (elim exE conjE) (rule that; assumption)
  have "take n (take n mem' @ rest) = take n mem'" using c(2,3) assms(5) by simp
  from restores [rule_format, OF this] c(1,3) show ?thesis by blast
qed

theorem mppc_block_roundtrip_witness:
  "\<exists>mem' n dst'. compress_block (\<lambda>k. int (unat k) - 7) (replicate 100 9) 100 (replicate 40 5) 40 = Some (mem', n, 0)
     \<and> n \<le> 100 \<and> uncompress_block (replicate 16384 1) (replicate 40 0) 40 (take n mem' @ [1, 2, 3]) n = Some (dst', 40, 0)
     \<and> take 40 dst' = take 40 (replicate 40 5)"
  by (rule mppc_block_roundtrip) (simp_all add: compressBound_def)

text \<open>
  (C11) \<open>compress2\<close> into a destination of \<open>compressBound\<close> bytes succeeds for a source of any
  length, stays inside the buffer and within \<open>*destLen\<close>, and \<open>uncompress2\<close> restores the
  source block by block from its output.
\<close>

theorem mppc_stream_roundtrip:
  assumes "sourceLen \<le> length source" "compressBound sourceLen \<le> destLen" "destLen \<le> length mem"
    and "\<forall>k. length (junk k) = 16384" "sourceLen \<le> length dst"
  shows "\<exists>mem' n dst'. compress2 h mem destLen source sourceLen = Some (mem', n, 0) \<and> n \<le> destLen
     \<and> uncompress2 junk dst sourceLen (take n mem') n = Some (dst', sourceLen, 0)
     \<and> take sourceLen dst' = take sourceLen source"
proof -
  have cap: "sourceLen = 0 \<or> 9 * sourceLen div 8 + 6 \<le> destLen"
    using assms(2) by (simp add: compressBound_def mult.commute)
  obtain mem' n where c: "compress2 h mem destLen source sourceLen = Some (mem', n, 0)" "n \<le> destLen"
    and restores: "\<forall>src. take n src = take n mem' \<longrightarrow> (\<exists>dst'. uncompress2 junk dst sourceLen src n = Some (dst', sourceLen, 0)
      \<and> length dst' = length dst \<and> take sourceLen dst' = take sourceLen source)"
    using compress2_loop_ok [OF assms(1) cap assms(3-5), of h 0, folded compress2_def uncompress2_def]
    by (elim exE conjE) (rule that; assumption)
  have "take n (take n mem') = take n mem'" by simp
  from restores [rule_format, OF this] c show ?thesis by blast
qed

theorem mppc_stream_roundtrip_witness:
  "\<exists>mem' n dst'. compress2 (\<lambda>_ k. int (unat k)) (replicate 12000 9) 12000 (replicate 10000 5) 10000 = Some (mem', n, 0)
     \<and> n \<le> 12000
     \<and> uncompress2 (\<lambda>_. replicate 16384 1) (replicate 10000 0) 10000 (take n mem') n = Some (dst', 10000, 0)
     \<and> take 10000 dst' = take 10000 (replicate 10000 5)"
  by (rule mppc_stream_roundtrip) (simp_all add: compressBound_def)

text \<open>
  (C12) On any input, however malformed, \<open>mppc_decompress\<close> reads and writes only inside its local
  array and the \<open>osize\<close> bytes of the destination, and returns either \<open>DECOMP_ERROR\<close> or a size
  between 0 and \<open>osize\<close>.
\<close>

theorem mppc_decompress_memory_safe:
  assumes "isize \<le> length src" "length junk = 16384" "length mem = osize"
  shows "\<exists>mem' r. mppc_decompress junk src isize mem osize = Some (mem', r) \<and> length mem' = osize
     \<and> (r = -1 \<or> 0 \<le> r \<and> r \<le> int osize)"
  using mppc_decompress_safe [OF assms(1,2), of osize mem] assms(3) by auto

theorem mppc_decompress_memory_safe_witness:
  "\<exists>mem' r. mppc_decompress (replicate 16384 0) [0xFF, 0xFF, 0xC1] 3 [7, 7] 2 = Some (mem', r) \<and> length mem' = 2
     \<and> (r = -1 \<or> 0 \<le> r \<and> r \<le> int 2)"
  by (rule mppc_decompress_memory_safe) simp_all

end
