(* ===== verification/MarshalStream.thy ===== *)
theory MarshalStream
  imports Prelude
begin

text \<open>
  \<open>src/cnet/common/marshal_x86_64.h\<close>, class \<open>Marshal::OctetsStream\<close>: network-order integers,
  the variable-length \<open>CompactUINT\<close>/\<open>CompactSINT\<close> codes, octet strings, pairs and containers,
  and the transaction marks. A thrown \<open>Marshal::Exception\<close> is \<open>Inl Exception\<close>; a read of the
  octet after the end, which \<open>uncompact_uint32\<close> does on an empty rest, is \<open>Inl Overrun\<close>.
  The lemmas show that every value is read back from the octets it was written as, whatever
  follows, and the codec interface lifts this to nested containers.
\<close>

subsection \<open>Byte order\<close>

definition le16_bytes :: "u16 \<Rightarrow> byte list" where
  "le16_bytes w = [ucast w, ucast (drop_bit 8 w)]"

definition le64_bytes :: "u64 \<Rightarrow> byte list" where
  "le64_bytes w = le32_bytes (ucast w) @ le32_bytes (ucast (drop_bit 32 w))"

fun of_le16 :: "byte list \<Rightarrow> u16" where
  "of_le16 (a # b # _) = ucast a OR push_bit 8 (ucast b)"
| "of_le16 _ = 0"

definition of_le64 :: "byte list \<Rightarrow> u64" where
  "of_le64 bs = ucast (of_le32 bs) OR push_bit 32 (ucast (of_le32 (drop 4 bs)))"

definition byteorder_16 :: "u16 \<Rightarrow> u16" where
  "byteorder_16 x = of_le16 (rev (le16_bytes x))"

definition byteorder_64 :: "u64 \<Rightarrow> u64" where
  "byteorder_64 x = of_le64 (rev (le64_bytes x))"

subsection \<open>The stream\<close>

record octets_stream =
  data :: "byte list"
  pos :: nat
  tranpos :: nat

datatype marshal_error = Exception | Overrun

type_synonym 'a reader = "octets_stream \<Rightarrow> marshal_error + 'a \<times> octets_stream"

definition os_new :: "byte list \<Rightarrow> octets_stream" where
  "os_new o1 = \<lparr>data = o1, pos = 0, tranpos = 0\<rparr>"

text \<open>\<open>push_byte(x, len)\<close> and \<open>push_byte(t)\<close>: append the bytes of the object.\<close>

definition push_bytes :: "byte list \<Rightarrow> octets_stream \<Rightarrow> octets_stream" where
  "push_bytes bs os = os\<lparr>data := data os @ bs\<rparr>"

definition pop_bytes :: "nat \<Rightarrow> byte list reader" where
  "pop_bytes n os =
     (if length (data os) < pos os + n then Inl Exception
      else Inr (take n (drop (pos os) (data os)), os\<lparr>pos := pos os + n\<rparr>))"

definition put8 :: "byte \<Rightarrow> octets_stream \<Rightarrow> octets_stream" where
  "put8 x = push_bytes [x]"

definition put16 :: "u16 \<Rightarrow> octets_stream \<Rightarrow> octets_stream" where
  "put16 x = push_bytes (le16_bytes (byteorder_16 x))"

definition put32 :: "u32 \<Rightarrow> octets_stream \<Rightarrow> octets_stream" where
  "put32 x = push_bytes (le32_bytes (byteorder_32 x))"

definition put64 :: "u64 \<Rightarrow> octets_stream \<Rightarrow> octets_stream" where
  "put64 x = push_bytes (le64_bytes (byteorder_64 x))"

definition pop8 :: "byte reader" where
  "pop8 os = (case pop_bytes 1 os of Inl e \<Rightarrow> Inl e | Inr (bs, os) \<Rightarrow> Inr (hd bs, os))"

definition pop16 :: "u16 reader" where
  "pop16 os = (case pop_bytes 2 os of Inl e \<Rightarrow> Inl e | Inr (bs, os) \<Rightarrow> Inr (byteorder_16 (of_le16 bs), os))"

definition pop32 :: "u32 reader" where
  "pop32 os = (case pop_bytes 4 os of Inl e \<Rightarrow> Inl e | Inr (bs, os) \<Rightarrow> Inr (byteorder_32 (of_le32 bs), os))"

definition pop64 :: "u64 reader" where
  "pop64 os = (case pop_bytes 8 os of Inl e \<Rightarrow> Inl e | Inr (bs, os) \<Rightarrow> Inr (byteorder_64 (of_le64 bs), os))"

text \<open>\<open>compact_uint32(size_t x)\<close>\<close>

definition compact_uint32 :: "nat \<Rightarrow> octets_stream \<Rightarrow> marshal_error + octets_stream" where
  "compact_uint32 x os =
     (if 0xFFFFFFFF < x then Inl Exception
      else if x < 0x80 then Inr (put8 (of_nat x) os)
      else if x < 0x4000 then Inr (put16 (of_nat x OR 0x8000) os)
      else if x < 0x20000000 then Inr (put32 (of_nat x OR 0xc0000000) os)
      else Inr (put32 (of_nat x) (put8 0xe0 os)))"

text \<open>
  \<open>compact_sint32(int x)\<close>; \<open>-x\<close> of the least integer is itself, so it takes the last branch.
  The argument of \<open>push_byte((unsigned char)x|0x40)\<close> has type \<open>int\<close>, so four octets go out.
\<close>

definition compact_sint32 :: "u32 \<Rightarrow> octets_stream \<Rightarrow> octets_stream" where
  "compact_sint32 x os =
     (if 0 \<le> sint x then
        (if x < 0x40 then put8 (ucast x) os
         else if x < 0x2000 then put16 (ucast x OR 0x8000) os
         else if x < 0x10000000 then put32 (x OR 0xc0000000) os
         else put32 x (put8 0xe0 os))
      else if 0 < sint (- x) then
        (let x = - x in
         if x < 0x40 then push_bytes (le32_bytes (ucast (ucast x :: byte) OR 0x40)) os
         else if x < 0x2000 then put16 (ucast x OR 0xa000) os
         else if x < 0x10000000 then put32 (x OR 0xd0000000) os
         else put32 x (put8 0xf0 os))
      else put32 x (put8 0xf0 os))"

text \<open>\<open>uncompact_uint32\<close> looks at the next octet without checking that there is one.\<close>

definition uncompact_uint32 :: "u32 reader" where
  "uncompact_uint32 os =
     (if length (data os) \<le> pos os then Inl Overrun
      else let k = data os ! pos os AND 0xe0 in
        if k = 0xe0 then
          (case pop8 os of Inl e \<Rightarrow> Inl e | Inr (_, os) \<Rightarrow> pop32 os)
        else if k = 0xc0 then
          (case pop32 os of Inl e \<Rightarrow> Inl e | Inr (x, os) \<Rightarrow> Inr (x AND NOT 0xc0000000, os))
        else if k = 0xa0 \<or> k = 0x80 then
          (case pop16 os of Inl e \<Rightarrow> Inl e | Inr (x, os) \<Rightarrow> Inr (ucast x AND NOT 0x8000, os))
        else (case pop8 os of Inl e \<Rightarrow> Inl e | Inr (x, os) \<Rightarrow> Inr (ucast x, os)))"

definition uncompact_sint32 :: "u32 reader" where
  "uncompact_sint32 os =
     (if pos os = length (data os) then Inl Exception
      else if length (data os) < pos os then Inl Overrun
      else let k = data os ! pos os AND 0xf0 in
        if k = 0xf0 then
          (case pop8 os of Inl e \<Rightarrow> Inl e | Inr (_, os) \<Rightarrow>
             (case pop32 os of Inl e \<Rightarrow> Inl e | Inr (x, os) \<Rightarrow> Inr (- x, os)))
        else if k = 0xe0 then
          (case pop8 os of Inl e \<Rightarrow> Inl e | Inr (_, os) \<Rightarrow> pop32 os)
        else if k = 0xd0 then
          (case pop32 os of Inl e \<Rightarrow> Inl e | Inr (x, os) \<Rightarrow> Inr (- (x AND NOT 0xd0000000), os))
        else if k = 0xc0 then
          (case pop32 os of Inl e \<Rightarrow> Inl e | Inr (x, os) \<Rightarrow> Inr (x AND NOT 0xc0000000, os))
        else if k = 0xb0 \<or> k = 0xa0 then
          (case pop16 os of Inl e \<Rightarrow> Inl e | Inr (x, os) \<Rightarrow> Inr (- (ucast x AND NOT 0xa000), os))
        else if k = 0x90 \<or> k = 0x80 then
          (case pop16 os of Inl e \<Rightarrow> Inl e | Inr (x, os) \<Rightarrow> Inr (ucast x AND NOT 0x8000, os))
        else if k = 0x70 \<or> k = 0x60 \<or> k = 0x50 \<or> k = 0x40 then
          (case pop8 os of Inl e \<Rightarrow> Inl e | Inr (x, os) \<Rightarrow> Inr (- (ucast x AND NOT 0x40), os))
        else (case pop8 os of Inl e \<Rightarrow> Inl e | Inr (x, os) \<Rightarrow> Inr (ucast x, os)))"

text \<open>\<open>operator <<\<close> and \<open>operator >>\<close> for \<open>Octets\<close>.\<close>

definition put_octets :: "byte list \<Rightarrow> octets_stream \<Rightarrow> marshal_error + octets_stream" where
  "put_octets x os =
     (case compact_uint32 (length x) os of Inl e \<Rightarrow> Inl e | Inr os \<Rightarrow> Inr (push_bytes x os))"

definition get_octets :: "byte list reader" where
  "get_octets os =
     (case uncompact_uint32 os of
        Inl e \<Rightarrow> Inl e
      | Inr (len, os) \<Rightarrow>
          if length (data os) - pos os < unat len then Inl Exception
          else Inr (take (unat len) (drop (pos os) (data os)), os\<lparr>pos := pos os + unat len\<rparr>))"

text \<open>\<open>STLContainer\<close>: the size, then the elements; reading stops at the first error.\<close>

fun put_all :: "('a \<Rightarrow> octets_stream \<Rightarrow> marshal_error + octets_stream) \<Rightarrow> 'a list \<Rightarrow> octets_stream \<Rightarrow> marshal_error + octets_stream" where
  "put_all put [] os = Inr os"
| "put_all put (x # xs) os = (case put x os of Inl e \<Rightarrow> Inl e | Inr os \<Rightarrow> put_all put xs os)"

text \<open>\<open>CompactUINT(pc->size())\<close> binds the size to an \<open>unsigned int\<close>.\<close>

definition put_container :: "('a \<Rightarrow> octets_stream \<Rightarrow> marshal_error + octets_stream) \<Rightarrow> 'a list \<Rightarrow> octets_stream \<Rightarrow> marshal_error + octets_stream" where
  "put_container put xs os =
     (case compact_uint32 (length xs mod 2 ^ 32) os of Inl e \<Rightarrow> Inl e | Inr os \<Rightarrow> put_all put xs os)"

fun get_all :: "'a reader \<Rightarrow> nat \<Rightarrow> 'a list reader" where
  "get_all get 0 os = Inr ([], os)"
| "get_all get (Suc n) os =
     (case get os of
        Inl e \<Rightarrow> Inl e
      | Inr (x, os) \<Rightarrow> (case get_all get n os of Inl e \<Rightarrow> Inl e | Inr (xs, os) \<Rightarrow> Inr (x # xs, os)))"

definition get_container :: "'a reader \<Rightarrow> 'a list reader" where
  "get_container get os =
     (case uncompact_uint32 os of Inl e \<Rightarrow> Inl e | Inr (n, os) \<Rightarrow> get_all get (unat n) os)"

definition put_pair where
  "put_pair put1 put2 x os = (case put1 (fst x) os of Inl e \<Rightarrow> Inl e | Inr os \<Rightarrow> put2 (snd x) os)"

definition get_pair :: "'a reader \<Rightarrow> 'b reader \<Rightarrow> ('a \<times> 'b) reader" where
  "get_pair get1 get2 os =
     (case get1 os of
        Inl e \<Rightarrow> Inl e
      | Inr (x, os) \<Rightarrow> (case get2 os of Inl e \<Rightarrow> Inl e | Inr (y, os) \<Rightarrow> Inr ((x, y), os)))"

text \<open>The transaction marks; \<open>Commit\<close> drops what was read once it reaches \<open>MAXSPARE\<close>.\<close>

datatype transaction = Begin | Commit | Rollback

definition os_transaction :: "transaction \<Rightarrow> octets_stream \<Rightarrow> octets_stream" where
  "os_transaction t os =
     (case t of
        Begin \<Rightarrow> os\<lparr>tranpos := pos os\<rparr>
      | Rollback \<Rightarrow> os\<lparr>pos := tranpos os\<rparr>
      | Commit \<Rightarrow> if 16384 \<le> pos os then os\<lparr>data := drop (pos os) (data os), pos := 0\<rparr> else os)"

subsection \<open>Byte order lemmas\<close>

lemma of_le16_le16 [simp]: "of_le16 (le16_bytes w) = w"
  by (rule bit_word_eqI) (auto simp: le16_bytes_def bit_or_iff bit_ucast_iff bit_push_bit_iff bit_drop_bit_eq)

lemma le16_of_le16: "le16_bytes (of_le16 [a, b]) = [a, b]"
proof -
  have "ucast (ucast a OR push_bit 8 (ucast b) :: u16) = a"
    by (rule bit_word_eqI) (auto simp: bit_or_iff bit_ucast_iff bit_push_bit_iff)
  moreover have "ucast (drop_bit 8 (ucast a OR push_bit 8 (ucast b) :: u16)) = b"
    by (rule bit_word_eqI) (auto simp: bit_or_iff bit_ucast_iff bit_push_bit_iff bit_drop_bit_eq bit_byte_high)
  ultimately show ?thesis by (simp add: le16_bytes_def)
qed

lemma le16_byteorder: "le16_bytes (byteorder_16 w) = [ucast (drop_bit 8 w), ucast w]"
  using le16_of_le16 [of "ucast (drop_bit 8 w)" "ucast w"] by (simp add: byteorder_16_def le16_bytes_def [of w])

lemma byteorder_16_involutive [simp]: "byteorder_16 (byteorder_16 w) = w"
  by (simp add: byteorder_16_def [of "byteorder_16 w"] le16_byteorder flip: le16_bytes_def)

lemma le32_byteorder: "le32_bytes (byteorder_32 w) = rev (le32_bytes w)"
  by (simp add: byteorder_32_def le32_bytes_of_le32_length)

lemma length_le16_bytes [simp]: "length (le16_bytes w) = 2"
  by (simp add: le16_bytes_def)

lemma length_le64_bytes [simp]: "length (le64_bytes w) = 8"
  by (simp add: le64_bytes_def)

lemma of_le64_le64 [simp]: "of_le64 (le64_bytes w) = w"
  by (rule bit_word_eqI)
    (auto simp: of_le64_def le64_bytes_def bit_or_iff bit_ucast_iff bit_push_bit_iff bit_drop_bit_eq)

lemma le64_of_le64: "length bs = 8 \<Longrightarrow> le64_bytes (of_le64 bs) = bs"
proof -
  assume len: "length bs = 8"
  have lo: "ucast (ucast a OR push_bit 32 (ucast b) :: u64) = a" for a b :: u32
    by (rule bit_word_eqI) (auto simp: bit_or_iff bit_ucast_iff bit_push_bit_iff)
  have hi: "ucast (drop_bit 32 (ucast a OR push_bit 32 (ucast b) :: u64)) = b" for a b :: u32
    by (rule bit_word_eqI)
      (auto simp: bit_or_iff bit_ucast_iff bit_push_bit_iff bit_drop_bit_eq dest: bit_imp_le_length)
  have "le32_bytes (of_le32 bs) = take 4 bs"
  proof -
    have "of_le32 bs = of_le32 (take 4 bs)"
      using len by (cases bs rule: of_le32.cases) (auto simp: take_Cons')
    then show ?thesis using len by (simp add: le32_bytes_of_le32_length)
  qed
  moreover have "le32_bytes (of_le32 (drop 4 bs)) = drop 4 bs" using len by (simp add: le32_bytes_of_le32_length)
  ultimately show ?thesis unfolding le64_bytes_def of_le64_def lo hi by simp
qed

lemma byteorder_64_involutive [simp]: "byteorder_64 (byteorder_64 w) = w"
  by (simp add: byteorder_64_def le64_of_le64)

subsection \<open>Reading back what was pushed\<close>

text \<open>The stream stands at \<open>bs\<close>, with anything before and after.\<close>

definition at :: "byte list \<Rightarrow> octets_stream \<Rightarrow> bool" where
  "at bs os \<longleftrightarrow> pos os \<le> length (data os) \<and> take (length bs) (drop (pos os) (data os)) = bs"

definition skip :: "nat \<Rightarrow> octets_stream \<Rightarrow> octets_stream" where
  "skip n os = os\<lparr>pos := pos os + n\<rparr>"

lemma at_length: "at bs os \<Longrightarrow> pos os + length bs \<le> length (data os)"
proof -
  assume "at bs os"
  then have "length (take (length bs) (drop (pos os) (data os))) = length bs" "pos os \<le> length (data os)"
    by (simp_all add: at_def)
  then show ?thesis by simp
qed

lemma pop_bytes_at: "at bs os \<Longrightarrow> pop_bytes (length bs) os = Inr (bs, skip (length bs) os)"
  using at_length [of bs os] by (auto simp: pop_bytes_def at_def skip_def)

lemma at_append: "at (xs @ ys) os \<Longrightarrow> at xs os \<and> at ys (skip (length xs) os)"
proof -
  assume a: "at (xs @ ys) os"
  note len = at_length [OF a]
  have t: "take (length xs + length ys) (drop (pos os) (data os)) = xs @ ys" using a by (simp add: at_def)
  have "take (length xs) (take (length xs + length ys) (drop (pos os) (data os))) = take (length xs) (xs @ ys)"
    unfolding t ..
  moreover have "drop (length xs) (take (length xs + length ys) (drop (pos os) (data os))) = drop (length xs) (xs @ ys)"
    unfolding t ..
  ultimately show ?thesis using len by (simp add: at_def skip_def drop_take add.commute)
qed

lemma at_nth: "at (b # bs) os \<Longrightarrow> data os ! pos os = b"
proof -
  assume a: "at (b # bs) os"
  have "take (length (b # bs)) (drop (pos os) (data os)) ! 0 = (b # bs) ! 0" using a by (simp only: at_def)
  then show ?thesis using at_length [OF a] by simp
qed

lemma at_not_end: "at (b # bs) os \<Longrightarrow> pos os < length (data os)"
  using at_length [of "b # bs" os] by simp

lemma skip_skip [simp]: "skip m (skip n os) = skip (n + m) os"
  by (simp add: skip_def)

lemma pop8_at: "at [b] os \<Longrightarrow> pop8 os = Inr (b, skip 1 os)"
  using pop_bytes_at [of "[b]" os] by (simp add: pop8_def)

lemma pop16_at: "at (le16_bytes (byteorder_16 x)) os \<Longrightarrow> pop16 os = Inr (x, skip 2 os)"
  using pop_bytes_at [of "le16_bytes (byteorder_16 x)" os] by (simp add: pop16_def)

lemma pop32_at: "at (le32_bytes (byteorder_32 x)) os \<Longrightarrow> pop32 os = Inr (x, skip 4 os)"
  using pop_bytes_at [of "le32_bytes (byteorder_32 x)" os] by (simp add: pop32_def)

lemma pop64_at: "at (le64_bytes (byteorder_64 x)) os \<Longrightarrow> pop64 os = Inr (x, skip 8 os)"
  using pop_bytes_at [of "le64_bytes (byteorder_64 x)" os] by (simp add: pop64_def)

subsection \<open>The codec interface\<close>

text \<open>What the containers need of their element type: writing appends the encoding of a legal
  value, and reading at that encoding returns the value and moves behind it.\<close>

locale codec =
  fixes put :: "'a \<Rightarrow> octets_stream \<Rightarrow> marshal_error + octets_stream"
    and get :: "'a reader"
    and enc :: "'a \<Rightarrow> byte list"
    and legal :: "'a \<Rightarrow> bool"
  assumes put_enc: "legal x \<Longrightarrow> put x os = Inr (push_bytes (enc x) os)"
    and get_enc: "legal x \<Longrightarrow> at (enc x) os \<Longrightarrow> get os = Inr (x, skip (length (enc x)) os)"
begin

lemma put_all_enc: "list_all legal xs \<Longrightarrow> put_all put xs os = Inr (push_bytes (concat (map enc xs)) os)"
  by (induction xs arbitrary: os) (simp_all add: put_enc push_bytes_def)

lemma get_all_enc:
  "list_all legal xs \<Longrightarrow> at (concat (map enc xs)) os \<Longrightarrow>
     get_all get (length xs) os = Inr (xs, skip (length (concat (map enc xs))) os)"
proof (induction xs arbitrary: os)
  case (Cons x xs)
  have "at (enc x) os" "at (concat (map enc xs)) (skip (length (enc x)) os)"
    using Cons.prems(2) at_append [of "enc x" "concat (map enc xs)" os] by simp_all
  then show ?case using Cons.IH Cons.prems(1) get_enc [of x os] by simp
qed (simp add: skip_def)

text \<open>Writing to the end of any stream and reading from there restores the value.\<close>

lemma roundtrip:
  assumes "legal x" "pos os \<le> length (data os)"
  shows "\<exists>os'. put x os = Inr os' \<and> get (os'\<lparr>pos := length (data os)\<rparr>) = Inr (x, os'\<lparr>pos := length (data os')\<rparr>)"
  using put_enc [OF assms(1), of os] get_enc [OF assms(1)] by (auto simp: push_bytes_def at_def skip_def)

end

locale codec_pair = first: codec put1 get1 enc1 legal1 + second: codec put2 get2 enc2 legal2
  for put1 :: "'a \<Rightarrow> octets_stream \<Rightarrow> marshal_error + octets_stream" and get1 enc1 legal1
    and put2 :: "'b \<Rightarrow> octets_stream \<Rightarrow> marshal_error + octets_stream" and get2 enc2 legal2
begin

sublocale pair: codec "put_pair put1 put2" "get_pair get1 get2"
    "\<lambda>x. enc1 (fst x) @ enc2 (snd x)" "\<lambda>x. legal1 (fst x) \<and> legal2 (snd x)"
proof
  fix x os
  assume l: "legal1 (fst x) \<and> legal2 (snd x)"
  then show "put_pair put1 put2 x os = Inr (push_bytes (enc1 (fst x) @ enc2 (snd x)) os)"
    by (simp add: put_pair_def first.put_enc second.put_enc push_bytes_def)
  assume "at (enc1 (fst x) @ enc2 (snd x)) os"
  then show "get_pair get1 get2 os = Inr (x, skip (length (enc1 (fst x) @ enc2 (snd x))) os)"
    using l at_append [of "enc1 (fst x)" "enc2 (snd x)" os] first.get_enc [of "fst x" os] second.get_enc [of "snd x"]
    by (simp add: get_pair_def)
qed

end

subsection \<open>The basic codecs\<close>

lemma top_bits_e0: "unat ((b :: byte) AND 0xe0) = 32 * (unat b div 32)"
proof -
  have "b AND 0xe0 = push_bit 5 (drop_bit 5 b)"
    by (rule byte_eqI) (simp_all add: bit_and_iff bit_push_bit_iff bit_drop_bit_eq)
  moreover have "unat (drop_bit 5 b) = unat b div 32"
    by (simp only: unat_drop_bit_eq) (simp add: drop_bit_eq_div)
  moreover have "unat b < 2 ^ LENGTH(8)" by (rule unsigned_less)
  moreover have "unat (push_bit 5 (drop_bit 5 b)) = take_bit 8 (push_bit 5 (unat (drop_bit 5 b)))"
    by (simp only: unsigned_push_bit_eq) simp
  ultimately show ?thesis
    by (simp only:) (simp add: push_bit_eq_mult take_bit_nat_eq_self)
qed

lemma top_bits_f0: "unat ((b :: byte) AND 0xf0) = 16 * (unat b div 16)"
proof -
  have "b AND 0xf0 = push_bit 4 (drop_bit 4 b)"
    by (rule byte_eqI) (simp_all add: bit_and_iff bit_push_bit_iff bit_drop_bit_eq)
  moreover have "unat (drop_bit 4 b) = unat b div 16"
    by (simp only: unat_drop_bit_eq) (simp add: drop_bit_eq_div)
  moreover have "unat b < 2 ^ LENGTH(8)" by (rule unsigned_less)
  moreover have "unat (push_bit 4 (drop_bit 4 b)) = take_bit 8 (push_bit 4 (unat (drop_bit 4 b)))"
    by (simp only: unsigned_push_bit_eq) simp
  ultimately show ?thesis
    by (simp only:) (simp add: push_bit_eq_mult take_bit_nat_eq_self)
qed

text \<open>The first octet of a value in network order holds its top bits.\<close>

lemma hi16: "unat (ucast (drop_bit 8 (w :: u16)) :: byte) = unat w div 256"
proof -
  have "unat w < 2 ^ LENGTH(16)" by (rule unsigned_less)
  moreover have "unat (drop_bit 8 w) = unat w div 256" by (simp only: unat_drop_bit_eq) (simp add: drop_bit_eq_div)
  ultimately show ?thesis by (simp add: unsigned_ucast_eq take_bit_nat_eq_self)
qed

lemma hi32: "unat (ucast (drop_bit 24 (w :: u32)) :: byte) = unat w div 16777216"
proof -
  have "unat w < 2 ^ LENGTH(32)" by (rule unsigned_less)
  moreover have "unat (drop_bit 24 w) = unat w div 16777216" by (simp only: unat_drop_bit_eq) (simp add: drop_bit_eq_div)
  ultimately show ?thesis by (simp add: unsigned_ucast_eq take_bit_nat_eq_self)
qed

lemma net16: "le16_bytes (byteorder_16 w) = [ucast (drop_bit 8 w), ucast w]"
  by (rule le16_byteorder)

lemma net32: "le32_bytes (byteorder_32 w) = [ucast (drop_bit 24 w), ucast (drop_bit 16 w), ucast (drop_bit 8 w), ucast w]"
  unfolding le32_byteorder by (simp add: le32_bytes_def)

definition enc_uint32 :: "nat \<Rightarrow> byte list" where
  "enc_uint32 x =
     (if x < 0x80 then [of_nat x]
      else if x < 0x4000 then le16_bytes (byteorder_16 (of_nat x OR 0x8000))
      else if x < 0x20000000 then le32_bytes (byteorder_32 (of_nat x OR 0xc0000000))
      else 0xe0 # le32_bytes (byteorder_32 (of_nat x)))"

lemma compact_uint32_enc: "x < 2 ^ 32 \<Longrightarrow> compact_uint32 x os = Inr (push_bytes (enc_uint32 x) os)"
  by (simp add: compact_uint32_def enc_uint32_def put8_def put16_def put32_def push_bytes_def)

lemma uncompact_uint32_steps:
  assumes "pos os < length (data os)"
  defines "K \<equiv> unat (data os ! pos os AND 0xe0)"
  shows "K < 128 \<Longrightarrow> pop8 os = Inr (b, os') \<Longrightarrow> uncompact_uint32 os = Inr (ucast b, os')"
    and "K = 128 \<or> K = 160 \<Longrightarrow> pop16 os = Inr (h, os') \<Longrightarrow> uncompact_uint32 os = Inr (ucast h AND NOT 0x8000, os')"
    and "K = 192 \<Longrightarrow> pop32 os = Inr (w, os') \<Longrightarrow> uncompact_uint32 os = Inr (w AND NOT 0xc0000000, os')"
    and "K = 224 \<Longrightarrow> pop8 os = Inr (b, os1) \<Longrightarrow> pop32 os1 = r \<Longrightarrow> uncompact_uint32 os = r"
  using assms(1) unfolding uncompact_uint32_def K_def
  by (auto simp: Let_def word_unat_eq_iff)

lemma unat_of_nat_small: "n < 2 ^ LENGTH('a) \<Longrightarrow> unat (of_nat n :: 'a :: len word) = n"
  by (simp add: unsigned_of_nat take_bit_nat_eq_self)

lemma ucast_or_high16:
  assumes "unat (x :: u16) < 2 ^ k" "take_bit k (c :: u16) = 0" "k \<le> 16"
  shows "ucast (x OR c) AND NOT (ucast c) = (ucast x :: u32)"
proof -
  have "bit x i \<Longrightarrow> \<not> bit c i" for i
  proof
    assume "bit x i" "bit c i"
    then have "i < k" using bit_val_bound [OF assms(1), of i] by linarith
    then have "bit (take_bit k c) i" using \<open>bit c i\<close> by (simp add: bit_take_bit_iff)
    then show False using assms(2) by simp
  qed
  then show ?thesis
    by (auto simp: bit_eq_iff bit_ucast_iff bit_or_iff bit_and_iff bit_not_iff)
qed

lemma ucast_of_nat16: "n < 2 ^ 16 \<Longrightarrow> ucast (of_nat n :: u16) = (of_nat n :: u32)"
  by (rule word_unat_eq_iff [THEN iffD2]) (simp add: unsigned_ucast_eq unat_of_nat_small take_bit_nat_eq_self)

lemma ucast_of_nat8: "n < 2 ^ 8 \<Longrightarrow> ucast (of_nat n :: byte) = (of_nat n :: u32)"
  by (rule word_unat_eq_iff [THEN iffD2]) (simp add: unsigned_ucast_eq unat_of_nat_small take_bit_nat_eq_self)

lemma uncompact_uint32_enc:
  assumes "x < 2 ^ 32" "at (enc_uint32 x) os"
  shows "uncompact_uint32 os = Inr (of_nat x, skip (length (enc_uint32 x)) os)"
proof -
  consider "x < 0x80" | "0x80 \<le> x" "x < 0x4000" | "0x4000 \<le> x" "x < 0x20000000" | "0x20000000 \<le> x" by linarith
  then show ?thesis
  proof cases
    case 1
    then have a: "at [of_nat x] os" using assms(2) by (simp add: enc_uint32_def)
    have "unat (data os ! pos os AND 0xe0) = 32 * (x div 32)"
      using 1 by (simp only: at_nth [OF a] top_bits_e0) (simp add: unat_of_nat_small)
    then have "unat (data os ! pos os AND 0xe0) < 128" using 1 by simp
    from uncompact_uint32_steps(1) [OF at_not_end [OF a] this pop8_at [OF a]]
    show ?thesis using 1 ucast_of_nat8 [of x] by (simp add: enc_uint32_def)
  next
    case 2
    let ?v = "of_nat x OR (0x8000 :: u16)"
    have a: "at (le16_bytes (byteorder_16 ?v)) os" using assms(2) 2 by (simp add: enc_uint32_def)
    have ux: "unat (of_nat x :: u16) < 2 ^ 14" using 2 by (simp add: unat_of_nat_small)
    have tb: "take_bit 14 (0x8000 :: u16) = 0" by code_simp
    have uv: "unat ?v = x + 0x8000" using unat_or_high [OF ux tb] 2 by (simp add: unat_of_nat_small)
    have "unat (data os ! pos os AND 0xe0) = 32 * ((x + 0x8000) div 8192)"
      by (simp only: at_nth [OF a [unfolded net16]] top_bits_e0 hi16 uv) (simp add: div_mult2_eq [symmetric])
    moreover have "(x + 0x8000) div 8192 = 4 \<or> (x + 0x8000) div 8192 = 5" using 2 by linarith
    ultimately have "unat (data os ! pos os AND 0xe0) = 128 \<or> unat (data os ! pos os AND 0xe0) = 160" by auto
    from uncompact_uint32_steps(2) [OF at_not_end [OF a [unfolded net16]] this pop16_at [OF a]]
    show ?thesis
      using 2 ucast_or_high16 [OF ux tb] ucast_of_nat16 [of x] by (simp add: enc_uint32_def)
  next
    case 3
    let ?v = "of_nat x OR (0xc0000000 :: u32)"
    have a: "at (le32_bytes (byteorder_32 ?v)) os" using assms(2) 3 by (simp add: enc_uint32_def)
    have ux: "unat (of_nat x :: u32) < 2 ^ 29" using 3 by (simp add: unat_of_nat_small)
    have tb: "take_bit 29 (0xc0000000 :: u32) = 0" by code_simp
    have uv: "unat ?v = x + 0xc0000000" using unat_or_high [OF ux tb] 3 by (simp add: unat_of_nat_small)
    have "unat (data os ! pos os AND 0xe0) = 32 * ((x + 0xc0000000) div 536870912)"
      by (simp only: at_nth [OF a [unfolded net32]] top_bits_e0 hi32 uv) (simp add: div_mult2_eq [symmetric])
    moreover have "(x + 0xc0000000) div 536870912 = 6" using 3 by linarith
    ultimately have "unat (data os ! pos os AND 0xe0) = 192" by simp
    from uncompact_uint32_steps(3) [OF at_not_end [OF a [unfolded net32]] this pop32_at [OF a]]
    show ?thesis
      using 3 or_and_not_cancel [OF and_zero_low [OF take_bit_small [OF ux] tb]] by (simp add: enc_uint32_def)
  next
    case 4
    have a: "at ([0xe0] @ le32_bytes (byteorder_32 (of_nat x))) os" using assms(2) 4 by (simp add: enc_uint32_def)
    note b = at_append [OF a]
    have p8: "pop8 os = Inr (0xe0, skip 1 os)" using b by (intro pop8_at) simp
    have p32: "pop32 (skip 1 os) = Inr (of_nat x, skip 5 os)" using pop32_at [of "of_nat x" "skip 1 os"] b by simp
    have "at [0xe0] os" using b by blast
    then have "unat (data os ! pos os AND 0xe0) = 224" "pos os < length (data os)"
      by (simp_all add: at_nth at_not_end)
    from uncompact_uint32_steps(4) [OF this(2,1) p8 p32]
    show ?thesis using 4 by (simp add: enc_uint32_def)
  qed
qed

text \<open>The signed code: positive values keep their magnitude below the prefix, negative ones their
  absolute value.\<close>

definition enc_sint32 :: "u32 \<Rightarrow> byte list" where
  "enc_sint32 x =
     (if 0 \<le> sint x then
        (if x < 0x40 then [ucast x]
         else if x < 0x2000 then le16_bytes (byteorder_16 (ucast x OR 0x8000))
         else if x < 0x10000000 then le32_bytes (byteorder_32 (x OR 0xc0000000))
         else 0xe0 # le32_bytes (byteorder_32 x))
      else if 0 < sint (- x) then
        (let x = - x in
         if x < 0x40 then le32_bytes (ucast (ucast x :: byte) OR 0x40)
         else if x < 0x2000 then le16_bytes (byteorder_16 (ucast x OR 0xa000))
         else if x < 0x10000000 then le32_bytes (byteorder_32 (x OR 0xd0000000))
         else 0xf0 # le32_bytes (byteorder_32 x))
      else 0xf0 # le32_bytes (byteorder_32 x))"

lemma compact_sint32_enc: "compact_sint32 x os = push_bytes (enc_sint32 x) os"
  by (simp add: compact_sint32_def enc_sint32_def put8_def put16_def put32_def push_bytes_def Let_def)

lemma uncompact_sint32_steps:
  assumes "pos os < length (data os)"
  defines "K \<equiv> unat (data os ! pos os AND 0xf0)"
  shows "K < 64 \<Longrightarrow> pop8 os = Inr (b, os') \<Longrightarrow> uncompact_sint32 os = Inr (ucast b, os')"
    and "K = 128 \<or> K = 144 \<Longrightarrow> pop16 os = Inr (h, os') \<Longrightarrow> uncompact_sint32 os = Inr (ucast h AND NOT 0x8000, os')"
    and "K = 192 \<Longrightarrow> pop32 os = Inr (w, os') \<Longrightarrow> uncompact_sint32 os = Inr (w AND NOT 0xc0000000, os')"
    and "K = 224 \<Longrightarrow> pop8 os = Inr (b, os1) \<Longrightarrow> pop32 os1 = r \<Longrightarrow> uncompact_sint32 os = r"
    and "K \<in> {64, 80, 96, 112} \<Longrightarrow> pop8 os = Inr (b, os') \<Longrightarrow> uncompact_sint32 os = Inr (- (ucast b AND NOT 0x40), os')"
    and "K = 160 \<or> K = 176 \<Longrightarrow> pop16 os = Inr (h, os') \<Longrightarrow> uncompact_sint32 os = Inr (- (ucast h AND NOT 0xa000), os')"
    and "K = 208 \<Longrightarrow> pop32 os = Inr (w, os') \<Longrightarrow> uncompact_sint32 os = Inr (- (w AND NOT 0xd0000000), os')"
    and "K = 240 \<Longrightarrow> pop8 os = Inr (b, os1) \<Longrightarrow> pop32 os1 = Inr (w, os2) \<Longrightarrow> uncompact_sint32 os = Inr (- w, os2)"
  using assms(1) unfolding uncompact_sint32_def K_def
  by (auto simp: Let_def word_unat_eq_iff)

lemma first_octet_f0:
  "at [b] os \<Longrightarrow> unat (data os ! pos os AND 0xf0) = 16 * (unat b div 16)"
  "at (le16_bytes (byteorder_16 h)) os \<Longrightarrow> unat (data os ! pos os AND 0xf0) = 16 * (unat h div 4096)"
  "at (le32_bytes (byteorder_32 w)) os \<Longrightarrow> unat (data os ! pos os AND 0xf0) = 16 * (unat w div 268435456)"
proof -
  show "at [b] os \<Longrightarrow> unat (data os ! pos os AND 0xf0) = 16 * (unat b div 16)"
    by (simp only: at_nth top_bits_f0)
  assume "at (le16_bytes (byteorder_16 h)) os"
  then show "unat (data os ! pos os AND 0xf0) = 16 * (unat h div 4096)"
    unfolding net16 by (simp only: at_nth top_bits_f0 hi16) (simp add: div_mult2_eq [symmetric])
next
  assume "at (le32_bytes (byteorder_32 w)) os"
  then show "unat (data os ! pos os AND 0xf0) = 16 * (unat w div 268435456)"
    unfolding net32 by (simp only: at_nth top_bits_f0 hi32) (simp add: div_mult2_eq [symmetric])
qed

lemma at_long: "at (le16_bytes (byteorder_16 h)) os \<Longrightarrow> pos os < length (data os)"
  "at (le32_bytes (byteorder_32 w)) os \<Longrightarrow> pos os < length (data os)"
  unfolding net16 net32 by (rule at_not_end, assumption)+

lemma ucast_small:
  "unat (x :: u32) < 2 ^ 16 \<Longrightarrow> ucast (ucast x :: u16) = x" "unat (x :: u32) < 2 ^ 16 \<Longrightarrow> unat (ucast x :: u16) = unat x"
  "unat (x :: u32) < 2 ^ 8 \<Longrightarrow> ucast (ucast x :: byte) = x" "unat (x :: u32) < 2 ^ 8 \<Longrightarrow> unat (ucast x :: byte) = unat x"
  using take_bit_small [of x 16] take_bit_small [of x 8]
  by (simp_all add: word_unat_eq_iff unsigned_ucast_eq take_bit_nat_eq_self)

text \<open>The three long forms, with the prefix of either sign.\<close>

lemma code16_read:
  assumes "unat (x :: u32) < 0x2000" "take_bit 13 (c :: u16) = 0" "at (le16_bytes (byteorder_16 (ucast x OR c))) os"
  shows "unat (data os ! pos os AND 0xf0) = 16 * ((unat x + unat c) div 4096)"
    and "ucast (ucast x OR c) AND NOT (ucast c) = x"
proof -
  have x: "unat (ucast x :: u16) < 2 ^ 13" using assms(1) ucast_small(2) [of x] by simp
  have "unat (ucast x OR c) = unat x + unat c" using unat_or_high [OF x assms(2)] ucast_small(2) [of x] assms(1) by simp
  then show "unat (data os ! pos os AND 0xf0) = 16 * ((unat x + unat c) div 4096)"
    using first_octet_f0(2) [OF assms(3)] by simp
  show "ucast (ucast x OR c) AND NOT (ucast c) = x"
    using ucast_or_high16 [OF x assms(2)] ucast_small(1) [of x] assms(1) by simp
qed

lemma code32_read:
  assumes "unat (x :: u32) < 0x10000000" "take_bit 28 (c :: u32) = 0" "at (le32_bytes (byteorder_32 (x OR c))) os"
  shows "unat (data os ! pos os AND 0xf0) = 16 * ((unat x + unat c) div 268435456)"
    and "(x OR c) AND NOT c = x"
proof -
  have x: "unat x < 2 ^ 28" using assms(1) by simp
  show "unat (data os ! pos os AND 0xf0) = 16 * ((unat x + unat c) div 268435456)"
    using first_octet_f0(3) [OF assms(3)] unat_or_high [OF x assms(2)] by simp
  show "(x OR c) AND NOT c = x" by (rule or_and_not_cancel [OF and_zero_low [OF take_bit_small [OF x] assms(2)]])
qed

lemma code40_read:
  assumes "at (c # le32_bytes (byteorder_32 x)) os"
  shows "pop8 os = Inr (c, skip 1 os)" "pop32 (skip 1 os) = Inr (x, skip 5 os)" "pos os < length (data os)"
    "unat (data os ! pos os AND 0xf0) = 16 * (unat c div 16)"
proof -
  have a: "at [c] os" "at (le32_bytes (byteorder_32 x)) (skip 1 os)"
    using at_append [of "[c]" "le32_bytes (byteorder_32 x)" os] assms by simp_all
  show "pop8 os = Inr (c, skip 1 os)" by (rule pop8_at [OF a(1)])
  show "pop32 (skip 1 os) = Inr (x, skip 5 os)" using pop32_at [OF a(2)] by simp
  show "pos os < length (data os)" by (rule at_not_end [OF a(1)])
  show "unat (data os ! pos os AND 0xf0) = 16 * (unat c div 16)" by (rule first_octet_f0(1) [OF a(1)])
qed

text \<open>Every value outside -63 .. -1 is read back; for those the reader takes the value and leaves
  three octets.\<close>

lemma uncompact_sint32_nonneg:
  assumes "0 \<le> sint x" "at (enc_sint32 x) os"
  shows "uncompact_sint32 os = Inr (x, skip (length (enc_sint32 x)) os)"
proof -
  consider "unat x < 0x40" | "0x40 \<le> unat x" "unat x < 0x2000" | "0x2000 \<le> unat x" "unat x < 0x10000000"
    | "0x10000000 \<le> unat x" by linarith
  then show ?thesis
  proof cases
    case 1
    then have e: "enc_sint32 x = [ucast x]" using assms(1) by (simp add: enc_sint32_def word_less_nat_alt)
    have a: "at [ucast x] os" using assms(2) e by simp
    have "unat (ucast x :: byte) = unat x" "ucast (ucast x :: byte) = x" using ucast_small(3,4) [of x] 1 by simp_all
    moreover have "unat (data os ! pos os AND 0xf0) < 64" using first_octet_f0(1) [OF a] calculation(1) 1 by simp
    ultimately show ?thesis
      using uncompact_sint32_steps(1) [OF at_not_end [OF a] _ pop8_at [OF a]] e by simp
  next
    case 2
    then have e: "enc_sint32 x = le16_bytes (byteorder_16 (ucast x OR 0x8000))"
      using assms(1) by (simp add: enc_sint32_def word_less_nat_alt)
    have tb: "take_bit 13 (0x8000 :: u16) = 0" by code_simp
    have a: "at (le16_bytes (byteorder_16 (ucast x OR 0x8000))) os" using assms(2) e by simp
    note c = code16_read [OF 2(2) tb a]
    have "(unat x + 0x8000) div 4096 = 8 \<or> (unat x + 0x8000) div 4096 = 9" using 2 by linarith
    then have "unat (data os ! pos os AND 0xf0) = 128 \<or> unat (data os ! pos os AND 0xf0) = 144" using c(1) by auto
    from uncompact_sint32_steps(2) [OF at_long(1) [OF a] this pop16_at [OF a]] show ?thesis using e c(2) by simp
  next
    case 3
    then have e: "enc_sint32 x = le32_bytes (byteorder_32 (x OR 0xc0000000))"
      using assms(1) by (simp add: enc_sint32_def word_less_nat_alt)
    have tb: "take_bit 28 (0xc0000000 :: u32) = 0" by code_simp
    have a: "at (le32_bytes (byteorder_32 (x OR 0xc0000000))) os" using assms(2) e by simp
    note c = code32_read [OF 3(2) tb a]
    have "(unat x + 0xc0000000) div 268435456 = 12" using 3 by linarith
    then have "unat (data os ! pos os AND 0xf0) = 192" using c(1) by simp
    from uncompact_sint32_steps(3) [OF at_long(2) [OF a] this pop32_at [OF a]] show ?thesis using e c(2) by simp
  next
    case 4
    then have e: "enc_sint32 x = 0xe0 # le32_bytes (byteorder_32 x)"
      using assms(1) by (simp add: enc_sint32_def word_less_nat_alt)
    note c = code40_read [OF assms(2) [unfolded e]]
    have "unat (data os ! pos os AND 0xf0) = 224" using c(4) by simp
    from uncompact_sint32_steps(4) [OF c(3) this c(1) c(2)] show ?thesis using e by simp
  qed
qed

lemma sint_uminus_take: "sint (- (x :: u32)) = signed_take_bit 31 (- sint x)"
  by (simp add: sint_word_ariths)

lemma uncompact_sint32_neg:
  assumes "sint x < 0" "unat (- x) \<ge> 0x40" "at (enc_sint32 x) os"
  shows "uncompact_sint32 os = Inr (x, skip (length (enc_sint32 x)) os)"
proof -
  define m where "m = - x"
  have x: "x = - m" by (simp add: m_def)
  consider "0 < sint m" "unat m < 0x2000" | "0 < sint m" "0x2000 \<le> unat m" "unat m < 0x10000000"
    | "0 < sint m" "0x10000000 \<le> unat m" | "\<not> 0 < sint m" by linarith
  then show ?thesis
  proof cases
    case 1
    then have e: "enc_sint32 x = le16_bytes (byteorder_16 (ucast m OR 0xa000))"
      using assms(1,2) by (simp add: enc_sint32_def word_less_nat_alt Let_def flip: m_def)
    have tb: "take_bit 13 (0xa000 :: u16) = 0" by code_simp
    have a: "at (le16_bytes (byteorder_16 (ucast m OR 0xa000))) os" using assms(3) e by simp
    note c = code16_read [OF 1(2) tb a]
    have "(unat m + 0xa000) div 4096 = 10 \<or> (unat m + 0xa000) div 4096 = 11" using 1 by linarith
    then have "unat (data os ! pos os AND 0xf0) = 160 \<or> unat (data os ! pos os AND 0xf0) = 176" using c(1) by auto
    from uncompact_sint32_steps(6) [OF at_long(1) [OF a] this pop16_at [OF a]] show ?thesis using e c(2) x by simp
  next
    case 2
    then have e: "enc_sint32 x = le32_bytes (byteorder_32 (m OR 0xd0000000))"
      using assms(1) by (simp add: enc_sint32_def word_less_nat_alt Let_def flip: m_def)
    have tb: "take_bit 28 (0xd0000000 :: u32) = 0" by code_simp
    have a: "at (le32_bytes (byteorder_32 (m OR 0xd0000000))) os" using assms(3) e by simp
    note c = code32_read [OF 2(3) tb a]
    have "(unat m + 0xd0000000) div 268435456 = 13" using 2 by linarith
    then have "unat (data os ! pos os AND 0xf0) = 208" using c(1) by simp
    from uncompact_sint32_steps(7) [OF at_long(2) [OF a] this pop32_at [OF a]] show ?thesis using e c(2) x by simp
  next
    case 3
    then have e: "enc_sint32 x = 0xf0 # le32_bytes (byteorder_32 m)"
      using assms(1) by (simp add: enc_sint32_def word_less_nat_alt Let_def flip: m_def)
    note c = code40_read [OF assms(3) [unfolded e]]
    have "unat (data os ! pos os AND 0xf0) = 240" using c(4) by simp
    from uncompact_sint32_steps(8) [OF c(3) this c(1) c(2)] show ?thesis using e x by simp
  next
    case 4
    then have e: "enc_sint32 x = 0xf0 # le32_bytes (byteorder_32 x)"
      using assms(1) by (simp add: enc_sint32_def flip: m_def)
    have least: "m = x"
    proof -
      have m: "sint m = signed_take_bit 31 (- sint x)" by (simp add: m_def sint_uminus_take)
      have lo: "- (2 ^ 31) \<le> sint x" using sint_ge [of x] by simp
      have "sint x = - (2 ^ 31)"
      proof (rule ccontr)
        assume "sint x \<noteq> - (2 ^ 31)"
        then have "signed_take_bit 31 (- sint x) = - sint x" using lo assms(1) by (intro signed_take_bit_int_eq_self) auto
        then show False using m 4 assms(1) by simp
      qed
      moreover have "word_of_int (sint x) = x" by simp
      ultimately have "x = word_of_int (- (2 ^ 31))" by simp
      then show ?thesis by (simp add: m_def)
    qed
    note c = code40_read [OF assms(3) [unfolded e]]
    have "unat (data os ! pos os AND 0xf0) = 240" using c(4) by simp
    from uncompact_sint32_steps(8) [OF c(3) this c(1) c(2)] show ?thesis using e least by (simp add: m_def)
  qed
qed

lemma uncompact_sint32_small_neg:
  assumes "sint x < 0" "unat (- x) < 0x40" "at (enc_sint32 x) os"
  shows "uncompact_sint32 os = Inr (x, skip 1 os) \<and> length (enc_sint32 x) = 4"
proof -
  define m where "m = - x"
  have x: "x = - m" by (simp add: m_def)
  have um: "unat m < 64" using assms(2) by (simp add: m_def)
  have "0 < sint m"
  proof -
    have "m \<noteq> 0" using x assms(1) by auto
    then have "unat m \<noteq> 0" by (simp add: unat_eq_0)
    moreover have "uint m = int (unat m)" by simp
    moreover have "signed_take_bit 31 (uint m) = uint m"
    proof -
      have "int (unat m) < 64" "0 \<le> int (unat m)" using um by linarith+
      then have "uint m < 64" by simp
      then show ?thesis by (intro signed_take_bit_int_eq_self) (simp_all add: order_trans [OF _ uint_ge_0])
    qed
    moreover have "0 < int (unat m)" using \<open>unat m \<noteq> 0\<close> by linarith
    ultimately show ?thesis by (simp only: sint_uint) simp
  qed
  then have e: "enc_sint32 x = le32_bytes (ucast (ucast m :: byte) OR 0x40)"
    using assms(1) um by (simp add: enc_sint32_def word_less_nat_alt Let_def flip: m_def)
  have mm: "ucast (ucast m :: byte) = m" "take_bit 6 m = m" using ucast_small(3) [of m] take_bit_small [of m 6] um by simp_all
  have tb: "take_bit 6 (0x40 :: u32) = 0" by code_simp
  define b where "b = (ucast (m OR 0x40) :: byte)"
  have "at ([b] @ tl (enc_sint32 x)) os" using assms(3) e mm by (simp add: le32_bytes_def b_def)
  then have a: "at [b] os" using at_append by blast
  have uo: "unat (m OR 0x40) = unat m + 0x40" using unat_or_high [OF _ tb, of m] um by simp
  have ub: "unat b = unat m + 0x40" using ucast_small(4) [of "m OR 0x40"] uo um by (simp add: b_def)
  have "(unat m + 0x40) div 16 \<in> {4, 5, 6, 7}" using um by auto
  then have "unat (data os ! pos os AND 0xf0) \<in> {64, 80, 96, 112}" using first_octet_f0(1) [OF a] ub by auto
  moreover have "ucast b AND NOT 0x40 = m"
    using ucast_small(3) [of "m OR 0x40"] uo um or_and_not_cancel [OF and_zero_low [OF mm(2) tb]] by (simp add: b_def)
  ultimately show ?thesis
    using uncompact_sint32_steps(5) [OF at_not_end [OF a] _ pop8_at [OF a]] e x by simp
qed

definition enc_octets :: "byte list \<Rightarrow> byte list" where
  "enc_octets x = enc_uint32 (length x) @ x"

lemma get_octets_at:
  assumes "length x < 2 ^ 32" "at (enc_octets x) os"
  shows "get_octets os = Inr (x, skip (length (enc_octets x)) os)"
proof -
  have a: "at (enc_uint32 (length x)) os" "at x (skip (length (enc_uint32 (length x))) os)"
    using at_append [of "enc_uint32 (length x)" x os] assms(2) by (simp_all add: enc_octets_def)
  have "unat (of_nat (length x) :: u32) = length x" using assms(1) by (simp add: unat_of_nat_small)
  then show ?thesis
    using uncompact_uint32_enc [OF assms(1) a(1)] at_length [OF a(2)] a(2)
    by (simp add: get_octets_def enc_octets_def at_def skip_def)
qed

text \<open>The codecs of the stream operators.\<close>

interpretation c8: codec "\<lambda>x os. Inr (put8 x os)" pop8 "\<lambda>x. [x]" "\<lambda>_. True"
  by unfold_locales (simp_all add: put8_def pop8_at)

interpretation c16: codec "\<lambda>x os. Inr (put16 x os)" pop16 "\<lambda>x. le16_bytes (byteorder_16 x)" "\<lambda>_. True"
  by unfold_locales (simp_all add: put16_def pop16_at)

interpretation c32: codec "\<lambda>x os. Inr (put32 x os)" pop32 "\<lambda>x. le32_bytes (byteorder_32 x)" "\<lambda>_. True"
  by unfold_locales (simp_all add: put32_def pop32_at)

interpretation c64: codec "\<lambda>x os. Inr (put64 x os)" pop64 "\<lambda>x. le64_bytes (byteorder_64 x)" "\<lambda>_. True"
  by unfold_locales (simp_all add: put64_def pop64_at)

interpretation csint: codec "\<lambda>x os. Inr (compact_sint32 x os)" uncompact_sint32 enc_sint32
    "\<lambda>x. 0 \<le> sint x \<or> 0x40 \<le> unat (- x)"
proof
  show "Inr (compact_sint32 x os) = (Inr (push_bytes (enc_sint32 x) os) :: marshal_error + octets_stream)" for x os
    by (simp add: compact_sint32_enc)
  show "uncompact_sint32 os = Inr (x, skip (length (enc_sint32 x)) os)"
    if "0 \<le> sint x \<or> 0x40 \<le> unat (- x)" "at (enc_sint32 x) os" for x os
    using that uncompact_sint32_nonneg uncompact_sint32_neg by (cases "0 \<le> sint x") auto
qed

interpretation coct: codec put_octets get_octets enc_octets "\<lambda>x. length x < 2 ^ 32"
  by unfold_locales (simp_all add: put_octets_def compact_uint32_enc get_octets_at enc_octets_def push_bytes_def)

context codec
begin

text \<open>Containers of a codec's values: \<open>vector\<close>, \<open>list\<close>, \<open>deque\<close> and the keys of \<open>set\<close> and
  \<open>map\<close> all go through \<open>STLContainer\<close>.\<close>

lemma container_put:
  "list_all legal xs \<Longrightarrow> length xs < 2 ^ 32 \<Longrightarrow>
     put_container put xs os = Inr (push_bytes (enc_uint32 (length xs) @ concat (map enc xs)) os)"
  by (simp add: put_container_def compact_uint32_enc put_all_enc push_bytes_def)

lemma container_get:
  assumes "list_all legal xs" "length xs < 2 ^ 32" "at (enc_uint32 (length xs) @ concat (map enc xs)) os"
  shows "get_container get os = Inr (xs, skip (length (enc_uint32 (length xs) @ concat (map enc xs))) os)"
proof -
  note a = at_append [OF assms(3)]
  have "unat (of_nat (length xs) :: u32) = length xs" using assms(2) by (simp add: unat_of_nat_small)
  then show ?thesis
    using uncompact_uint32_enc [OF assms(2)] get_all_enc [OF assms(1)] a by (simp add: get_container_def)
qed

lemma container_codec:
  "codec (put_container put) (get_container get) (\<lambda>xs. enc_uint32 (length xs) @ concat (map enc xs))
     (\<lambda>xs. list_all legal xs \<and> length xs < 2 ^ 32)"
  by (rule codec.intro) (blast intro: container_put container_get)+

end

text \<open>Two nestings the protocols use: a vector of octet strings, and a map from 32-bit keys to
  octet strings.\<close>

interpretation vec_oct: codec "put_container put_octets" "get_container get_octets"
    "\<lambda>xs. enc_uint32 (length xs) @ concat (map enc_octets xs)"
    "\<lambda>xs. list_all (\<lambda>x. length x < 2 ^ 32) xs \<and> length xs < 2 ^ 32"
  by (rule coct.container_codec)

interpretation key_oct: codec_pair "\<lambda>x os. Inr (put32 x os)" pop32 "\<lambda>x. le32_bytes (byteorder_32 x)" "\<lambda>_. True"
    put_octets get_octets enc_octets "\<lambda>x. length x < 2 ^ 32"
  by unfold_locales

interpretation map_oct: codec "put_container (put_pair (\<lambda>x os. Inr (put32 x os)) put_octets)"
    "get_container (get_pair pop32 get_octets)"
    "\<lambda>xs. enc_uint32 (length xs) @ concat (map (\<lambda>x. le32_bytes (byteorder_32 (fst x)) @ enc_octets (snd x)) xs)"
    "\<lambda>xs. list_all (\<lambda>x. True \<and> length (snd x) < 2 ^ 32) xs \<and> length xs < 2 ^ 32"
  by (rule key_oct.pair.container_codec)

text \<open>
  Reading never looks behind what it consumes: more data after the end changes nothing. A read
  that stopped inside a strict prefix of an encoding is therefore impossible.
\<close>

definition local_reader :: "'a reader \<Rightarrow> bool" where
  "local_reader get \<longleftrightarrow> (\<forall>os x os' ys. pos os \<le> length (data os) \<longrightarrow> get os = Inr (x, os') \<longrightarrow>
     data os' = data os \<and> pos os' \<le> length (data os) \<and>
     get (os\<lparr>data := data os @ ys\<rparr>) = Inr (x, os'\<lparr>data := data os @ ys\<rparr>))"

lemma local_readerD:
  assumes "local_reader get" "pos os \<le> length (data os)" "get os = Inr (x, os')"
  shows "data os' = data os" "pos os' \<le> length (data os)"
    "get (os\<lparr>data := data os @ ys\<rparr>) = Inr (x, os'\<lparr>data := data os @ ys\<rparr>)"
  using assms unfolding local_reader_def by blast+

lemma local_bind:
  assumes "local_reader get" "\<And>x. local_reader (f x)"
  shows "local_reader (\<lambda>os. case get os of Inl e \<Rightarrow> Inl e | Inr (x, os) \<Rightarrow> f x os)"
  unfolding local_reader_def
proof (intro allI impI)
  fix os y os' ys
  assume p: "pos os \<le> length (data os)"
    and g: "(case get os of Inl e \<Rightarrow> Inl e | Inr (x, os) \<Rightarrow> f x os) = Inr (y, os')"
  then obtain x os1 where 1: "get os = Inr (x, os1)" "f x os1 = Inr (y, os')"
    by (auto split: sum.splits)
  note a = local_readerD [OF assms(1) p 1(1)]
  have "pos os1 \<le> length (data os1)" using a(1,2) by simp
  note b = local_readerD [OF assms(2) this 1(2)]
  show "data os' = data os \<and> pos os' \<le> length (data os)
    \<and> (case get (os\<lparr>data := data os @ ys\<rparr>) of Inl e \<Rightarrow> Inl e | Inr (x, os) \<Rightarrow> f x os)
        = Inr (y, os'\<lparr>data := data os @ ys\<rparr>)"
    using a(1,2) a(3) [of ys] b(1,2) b(3) [of ys] by simp
qed

lemma local_return: "local_reader (\<lambda>os. Inr (x, os))"
  by (simp add: local_reader_def)

lemma local_pop: "local_reader (pop_bytes n)"
  by (auto simp: local_reader_def pop_bytes_def)

lemma local_pops: "local_reader pop8" "local_reader pop16" "local_reader pop32" "local_reader pop64"
proof -
  have "local_reader (\<lambda>os. case pop_bytes n os of Inl e \<Rightarrow> Inl e | Inr (bs, os) \<Rightarrow> Inr (f bs, os))" for n and f :: "byte list \<Rightarrow> 'x"
    by (rule local_bind [OF local_pop]) (rule local_return)
  then show "local_reader pop8" "local_reader pop16" "local_reader pop32" "local_reader pop64"
    by (simp_all add: pop8_def [abs_def] pop16_def [abs_def] pop32_def [abs_def] pop64_def [abs_def])
qed

text \<open>A reader that looks at the next octet to choose how to go on.\<close>

lemma local_peek:
  assumes "\<And>b. local_reader (f b)"
  shows "local_reader (\<lambda>os. if length (data os) \<le> pos os then Inl Overrun else f (data os ! pos os) os)"
  unfolding local_reader_def
proof (intro allI impI)
  fix os x os' ys
  assume p: "pos os \<le> length (data os)"
    and g: "(if length (data os) \<le> pos os then Inl Overrun else f (data os ! pos os) os) = Inr (x, os')"
  have lt: "pos os < length (data os)" and g': "f (data os ! pos os) os = Inr (x, os')"
    using g by (simp_all split: if_splits)
  note l = local_readerD [OF assms p g']
  show "data os' = data os \<and> pos os' \<le> length (data os) \<and>
    (if length (data (os\<lparr>data := data os @ ys\<rparr>)) \<le> pos (os\<lparr>data := data os @ ys\<rparr>) then Inl Overrun
     else f (data (os\<lparr>data := data os @ ys\<rparr>) ! pos (os\<lparr>data := data os @ ys\<rparr>)) (os\<lparr>data := data os @ ys\<rparr>))
      = Inr (x, os'\<lparr>data := data os @ ys\<rparr>)"
    using lt l(1,2) l(3) [of ys] by (simp add: nth_append)
qed

lemma local_if: "local_reader f \<Longrightarrow> local_reader g \<Longrightarrow> local_reader (\<lambda>os. if c then f os else g os)"
  by (cases c) simp_all

lemma local_uncompact_uint32: "local_reader uncompact_uint32"
proof -
  have w: "local_reader (\<lambda>os. case pop32 os of Inl e \<Rightarrow> Inl e | Inr (x, os) \<Rightarrow> Inr (f x, os))" for f :: "u32 \<Rightarrow> u32"
    by (rule local_bind [OF local_pops(3)]) (rule local_return)
  have h: "local_reader (\<lambda>os. case pop16 os of Inl e \<Rightarrow> Inl e | Inr (x, os) \<Rightarrow> Inr (f x, os))" for f :: "u16 \<Rightarrow> u32"
    by (rule local_bind [OF local_pops(2)]) (rule local_return)
  have b: "local_reader (\<lambda>os. case pop8 os of Inl e \<Rightarrow> Inl e | Inr (x, os) \<Rightarrow> Inr (f x, os))" for f :: "byte \<Rightarrow> u32"
    by (rule local_bind [OF local_pops(1)]) (rule local_return)
  have e: "local_reader (\<lambda>os. case pop8 os of Inl e \<Rightarrow> Inl e | Inr (_, os) \<Rightarrow> pop32 os)"
    by (rule local_bind [OF local_pops(1)]) (rule local_pops(3))
  show ?thesis
    unfolding uncompact_uint32_def [abs_def] Let_def
    by (intro local_peek local_if w h b e)
qed

lemma local_get_octets: "local_reader get_octets"
  unfolding get_octets_def [abs_def]
proof (rule local_bind [OF local_uncompact_uint32])
  fix len :: u32
  show "local_reader (\<lambda>os. if length (data os) - pos os < unat len then Inl Exception
      else Inr (take (unat len) (drop (pos os) (data os)), os\<lparr>pos := pos os + unat len\<rparr>))"
    unfolding local_reader_def
  proof (intro allI impI, goal_cases)
    case (1 os x os' ys)
    then have "\<not> length (data os) - pos os < unat len" "x = take (unat len) (drop (pos os) (data os))"
      "os' = os\<lparr>pos := pos os + unat len\<rparr>" by (simp_all split: if_splits)
    moreover from this(1) 1(1) have "pos os + unat len \<le> length (data os)" by linarith
    ultimately show ?case by simp
  qed
qed

lemma local_get_all:
  assumes "local_reader get"
  shows "local_reader (get_all get n)"
proof (induction n)
  case 0
  have "get_all get 0 = (\<lambda>os. Inr ([], os))" by (rule ext) simp
  then show ?case by (simp only: local_return)
next
  case (Suc n)
  have "get_all get (Suc n) = (\<lambda>os. case get os of Inl e \<Rightarrow> Inl e | Inr (x, os) \<Rightarrow>
      (case get_all get n os of Inl e \<Rightarrow> Inl e | Inr (xs, os) \<Rightarrow> Inr (x # xs, os)))"
    by (rule ext) (rule get_all.simps(2))
  then show ?case
    by (simp only:) (rule local_bind [OF assms], rule local_bind [OF Suc.IH], rule local_return)
qed

lemma local_get_container: "local_reader get \<Longrightarrow> local_reader (get_container get)"
  unfolding get_container_def [abs_def] by (rule local_bind [OF local_uncompact_uint32]) (rule local_get_all)

lemma local_get_pair: "local_reader get1 \<Longrightarrow> local_reader get2 \<Longrightarrow> local_reader (get_pair get1 get2)"
  unfolding get_pair_def [abs_def] by (rule local_bind, assumption, rule local_bind, assumption, rule local_return)

context codec
begin

text \<open>A stream cut short anywhere is refused.\<close>

lemma truncated:
  assumes "local_reader get" "legal x" "n < length (enc x)"
  shows "\<exists>e. get (os_new (take n (enc x))) = Inl e"
proof (cases "get (os_new (take n (enc x)))")
  case (Inr r)
  obtain y os' where r: "r = (y, os')" by (cases r)
  have "pos (os_new (take n (enc x))) \<le> length (data (os_new (take n (enc x))))" by (simp add: os_new_def)
  note l = local_readerD [OF assms(1) this Inr [unfolded r]]
  have "get (os_new (enc x)) = Inr (y, os'\<lparr>data := enc x\<rparr>)" using l(3) [of "drop n (enc x)"] by (simp add: os_new_def)
  moreover have "get (os_new (enc x)) = Inr (x, skip (length (enc x)) (os_new (enc x)))"
    by (rule get_enc) (use assms(2) in \<open>simp_all add: at_def os_new_def\<close>)
  ultimately have "(y, os'\<lparr>data := enc x\<rparr>) = (x, skip (length (enc x)) (os_new (enc x)))" by (metis Inr_inject)
  then have "pos (os'\<lparr>data := enc x\<rparr>) = pos (skip (length (enc x)) (os_new (enc x)))" by (metis snd_conv)
  then show ?thesis using l(2) assms(3) by (simp add: skip_def os_new_def)
qed simp

end

subsection \<open>Properties\<close>

text \<open>
  (C13) Every 32-bit value written by \<open>compact_uint32\<close> at the end of a stream is read back by
  \<open>uncompact_uint32\<close>, which stops exactly behind it, and larger values are refused with an
  exception instead of being cut.
\<close>

theorem compact_uint32_roundtrip:
  assumes "pos os \<le> length (data os)"
  shows "if x < 2 ^ 32
     then \<exists>os'. compact_uint32 x os = Inr os' \<and> take (length (data os)) (data os') = data os
       \<and> uncompact_uint32 (os'\<lparr>pos := length (data os)\<rparr>) = Inr (of_nat x, os'\<lparr>pos := length (data os')\<rparr>)
     else compact_uint32 x os = Inl Exception"
proof (cases "x < 2 ^ 32")
  case True
  then show ?thesis
    using compact_uint32_enc [OF True, of os] uncompact_uint32_enc [OF True]
    by (simp add: push_bytes_def at_def skip_def)
qed (simp add: compact_uint32_def)

theorem compact_uint32_roundtrip_witness:
  "if (0x3fff :: nat) < 2 ^ 32
     then \<exists>os'. compact_uint32 0x3fff (os_new [1, 2]) = Inr os' \<and> take (length (data (os_new [1, 2]))) (data os') = data (os_new [1, 2])
       \<and> uncompact_uint32 (os'\<lparr>pos := length (data (os_new [1, 2]))\<rparr>) = Inr (of_nat 0x3fff, os'\<lparr>pos := length (data os')\<rparr>)
     else compact_uint32 0x3fff (os_new [1, 2]) = Inl Exception"
  by (rule compact_uint32_roundtrip) (simp add: os_new_def)

text \<open>
  (C14) A map from 32-bit keys to octet strings written by the container operators and read back
  gives the same entries in the same order, and every strict prefix of its encoding is refused
  with an error rather than read as another map.
\<close>

theorem marshal_map_roundtrip:
  assumes "\<forall>(k, v) \<in> set xs. length v < 2 ^ 32" "length xs < 2 ^ 32"
  shows "\<exists>bs. put_container (put_pair (\<lambda>x os. Inr (put32 x os)) put_octets) xs (os_new []) = Inr (os_new bs)
     \<and> get_container (get_pair pop32 get_octets) (os_new bs) = Inr (xs, (os_new bs)\<lparr>pos := length bs\<rparr>)
     \<and> (\<forall>n < length bs. \<exists>e. get_container (get_pair pop32 get_octets) (os_new (take n bs)) = Inl e)"
proof -
  let ?bs = "enc_uint32 (length xs) @ concat (map (\<lambda>x. le32_bytes (byteorder_32 (fst x)) @ enc_octets (snd x)) xs)"
  have legal: "list_all (\<lambda>x. True \<and> length (snd x) < 2 ^ 32) xs \<and> length xs < 2 ^ 32"
    using assms by (auto simp: list_all_iff)
  have l: "local_reader (get_container (get_pair pop32 get_octets))"
    by (intro local_get_container local_get_pair local_pops local_get_octets)
  have "put_container (put_pair (\<lambda>x os. Inr (put32 x os)) put_octets) xs (os_new []) = Inr (os_new ?bs)"
    using map_oct.put_enc [OF legal, of "os_new []"] by (simp add: push_bytes_def os_new_def)
  moreover have "get_container (get_pair pop32 get_octets) (os_new ?bs) = Inr (xs, (os_new ?bs)\<lparr>pos := length ?bs\<rparr>)"
    using map_oct.get_enc [OF legal, of "os_new ?bs"] by (simp add: at_def skip_def os_new_def)
  moreover have "\<forall>n < length ?bs. \<exists>e. get_container (get_pair pop32 get_octets) (os_new (take n ?bs)) = Inl e"
    using map_oct.truncated [OF l legal] by blast
  ultimately show ?thesis by blast
qed

theorem marshal_map_roundtrip_witness:
  "\<exists>bs. put_container (put_pair (\<lambda>x os. Inr (put32 x os)) put_octets) [(7, [1, 2]), (9, [])] (os_new []) = Inr (os_new bs)
     \<and> get_container (get_pair pop32 get_octets) (os_new bs) = Inr ([(7, [1, 2]), (9, [])], (os_new bs)\<lparr>pos := length bs\<rparr>)
     \<and> (\<forall>n < length bs. \<exists>e. get_container (get_pair pop32 get_octets) (os_new (take n bs)) = Inl e)"
  by (rule marshal_map_roundtrip) simp_all

text \<open>
  (C15) \<open>CompactSINT\<close> returns every 32-bit value it was given, but only values outside
  \<open>-63 .. -1\<close> are consumed completely: for those \<open>compact_sint32\<close> writes four octets and
  \<open>uncompact_sint32\<close> takes one, so three octets are left in front of the next field.
\<close>

theorem compact_sint32_leftover:
  assumes "pos os \<le> length (data os)" "os' = compact_sint32 x os"
  shows "uncompact_sint32 (os'\<lparr>pos := length (data os)\<rparr>)
     = Inr (x, os'\<lparr>pos := length (data os') - (if sint x < 0 \<and> unat (- x) < 64 then 3 else 0)\<rparr>)"
proof -
  have a: "at (enc_sint32 x) (os'\<lparr>pos := length (data os)\<rparr>)" "length (data os') = length (data os) + length (enc_sint32 x)"
    using assms(2) by (simp_all add: compact_sint32_enc push_bytes_def at_def)
  show ?thesis
  proof (cases "sint x < 0 \<and> unat (- x) < 64")
    case True
    then show ?thesis using uncompact_sint32_small_neg [of x, OF _ _ a(1)] a(2) by (simp add: skip_def)
  next
    case False
    then have "0 \<le> sint x \<or> 0x40 \<le> unat (- x)" by auto
    from csint.get_enc [OF this a(1)] show ?thesis using a(2) False by (auto simp: skip_def)
  qed
qed

theorem compact_sint32_leftover_witness:
  "uncompact_sint32 ((compact_sint32 (-5) (os_new [9]))\<lparr>pos := 1\<rparr>)
     = Inr (-5, (compact_sint32 (-5) (os_new [9]))\<lparr>pos := 2\<rparr>)"
proof -
  have "uncompact_sint32 ((compact_sint32 (-5) (os_new [9]))\<lparr>pos := length (data (os_new [9]))\<rparr>)
     = Inr (-5, (compact_sint32 (-5) (os_new [9]))\<lparr>pos := length (data (compact_sint32 (-5) (os_new [9])))
          - (if sint (-5 :: u32) < 0 \<and> unat (- (-5 :: u32)) < 64 then 3 else 0)\<rparr>)"
    by (rule compact_sint32_leftover) (simp_all add: os_new_def)
  moreover have "length (data (compact_sint32 (-5) (os_new [9]))) = 5" by code_simp
  moreover have "sint (-5 :: u32) < 0" "unat (- (-5 :: u32)) < 64" by code_simp+
  ultimately show ?thesis by (simp add: os_new_def)
qed

end
