(* ===== verification/Item.thy ===== *)
theory Item
  imports Prelude
begin

text \<open>
  \<open>src/cgame/gs/item.h\<close>, \<open>item.cpp\<close> and \<open>itemdata.h\<close>: the item slot \<open>struct item\<close>, its
  masks, and the operations that allocate, hand over and free its \<open>item_body\<close>. Bodies live in
  an explicit heap, so that sharing, leaks and double frees are visible; copying an \<open>item\<close>
  copies the pointer, as the implicit copy of the struct does. The virtual methods of
  \<open>item_body\<close> and the callbacks on the owner are the fields of a record. A failed \<open>ASSERT\<close>, a
  dangling pointer and an index outside the list set \<open>fault\<close>.
\<close>

subsection \<open>Conversions\<close>

text \<open>The value of an integer converted to \<open>size_t\<close>, and to \<open>int\<close>.\<close>

definition sz :: "int \<Rightarrow> nat" where
  "sz i = nat (i mod 2 ^ 64)"

definition int32 :: "int \<Rightarrow> int" where
  "int32 i = signed_take_bit 31 i"

lemma sz_id [simp]: "0 \<le> i \<Longrightarrow> i < 2 ^ 64 \<Longrightarrow> sz i = nat i"
  by (simp add: sz_def)

lemma int32_id [simp]: "- (2 ^ 31) \<le> i \<Longrightarrow> i < 2 ^ 31 \<Longrightarrow> int32 i = i"
  unfolding int32_def by (rule signed_take_bit_int_eq_self) simp_all

subsection \<open>Equipment masks\<close>

definition Equipmask64To32 :: "u64 \<Rightarrow> u32" where
  "Equipmask64To32 mask64 =
     (if mask64 AND 0xFFFFFFFF00000000 \<noteq> 0
      then (ucast (drop_bit 32 mask64) AND NOT 0xC0000000) OR 0x80000000
      else ucast (mask64 AND 0x00000000FFFFFFFF) AND NOT 0xC0000000)"

definition Equipmask32To64 :: "u32 \<Rightarrow> u64" where
  "Equipmask32To64 m32 =
     (if m32 AND 0x80000000 \<noteq> 0 then push_bit 32 (ucast (m32 AND NOT 0xC0000000))
      else ucast (m32 AND NOT 0xC0000000))"

definition CheckEquipPostion :: "u32 \<Rightarrow> nat \<Rightarrow> bool" where
  "CheckEquipPostion equip_mask equip_index \<longleftrightarrow> Equipmask32To64 equip_mask AND push_bit equip_index 1 \<noteq> 0"

definition CheckEquipCanBind :: "u32 \<Rightarrow> bool" where
  "CheckEquipCanBind equip_mask \<longleftrightarrow> Equipmask32To64 equip_mask AND 0x220DF7FF \<noteq> 0"

definition CheckEquipProtected :: "u32 \<Rightarrow> bool" where
  "CheckEquipProtected equip_mask \<longleftrightarrow> Equipmask32To64 equip_mask AND 0x2205F7FF \<noteq> 0"

definition CheckEquipDynSkill :: "u32 \<Rightarrow> bool" where
  "CheckEquipDynSkill equip_mask \<longleftrightarrow> Equipmask32To64 equip_mask AND 0x18000000 \<noteq> 0"

definition Proctype2State :: "u32 \<Rightarrow> int" where
  "Proctype2State proc_type =
     (if proc_type AND 0x0040 \<noteq> 0 then 2 else if proc_type AND 0x8000 \<noteq> 0 then 1 else 0)"

subsection \<open>Items\<close>

datatype location = INVENTORY | BODY | TASK_INVENTORY | BACKPACK | TEMP_INV

record item =
  itype :: int
  icount :: nat
  pile_limit :: nat
  equip_mask :: u32
  proc_type :: u32
  price :: nat
  expire_date :: int
  guid1 :: int
  guid2 :: int
  ibody :: "nat option"

text \<open>The constructor leaves \<open>expire_date\<close> and \<open>guid\<close> as they are in memory.\<close>

definition item_new :: "int \<Rightarrow> int \<Rightarrow> int \<Rightarrow> item" where
  "item_new e g1 g2 = \<lparr>itype = -1, icount = 0, pile_limit = 0, equip_mask = 0, proc_type = 0, price = 0,
     expire_date = e, guid1 = g1, guid2 = g2, ibody = None\<rparr>"

definition item_Clear :: "item \<Rightarrow> item" where
  "item_Clear it = it\<lparr>itype := -1, icount := 0, pile_limit := 0, equip_mask := 0, ibody := None,
     price := 0, expire_date := 0\<rparr>"

text \<open>
  The virtual methods of \<open>item_body\<close> and the owner's callbacks; a \<open>'b\<close> is the object behind a
  body pointer and an \<open>'o\<close> the owner. \<open>body_load\<close> is \<open>CreateInstance\<close>, the class check and
  \<open>Load\<close>, with \<open>None\<close> for each way to fail.
\<close>

record ('b, 'o) body_class =
  body_load :: "int \<Rightarrow> int \<Rightarrow> byte list \<Rightarrow> 'b option"
  body_clone :: "'b \<Rightarrow> 'b"
  body_guid :: "'b \<Rightarrow> int"
  body_crc :: "'b \<Rightarrow> u16"
  body_data :: "'b \<Rightarrow> byte list"
  body_can_use :: "location \<Rightarrow> 'b \<Rightarrow> bool"
  body_use :: "location \<Rightarrow> nat \<Rightarrow> nat \<Rightarrow> 'b \<Rightarrow> 'o \<Rightarrow> int \<times> 'b \<times> 'o"
  body_dec_durability :: "int \<Rightarrow> 'b \<Rightarrow> bool \<times> 'b"
  body_repair :: "'b \<Rightarrow> 'b"
  body_status_value :: "'b \<Rightarrow> int"
  body_addon_expire :: "'b \<Rightarrow> int"
  body_put_in :: "location \<Rightarrow> item list \<Rightarrow> nat \<Rightarrow> nat \<Rightarrow> 'b \<Rightarrow> 'o \<Rightarrow> 'b \<times> 'o"
  body_take_out :: "location \<Rightarrow> nat \<Rightarrow> nat \<Rightarrow> 'b \<Rightarrow> 'o \<Rightarrow> 'b \<times> 'o"
  own_expire_item :: "int \<Rightarrow> 'o \<Rightarrow> 'o"
  own_elf_status :: "int \<Rightarrow> 'o \<Rightarrow> 'o"
  own_addon_expire :: "int \<Rightarrow> 'o \<Rightarrow> 'o"

record ('b, 'o) world =
  bodies :: "nat \<rightharpoonup> 'b"
  brk :: nat
  fault :: bool
  owner :: 'o

definition w_assert :: "bool \<Rightarrow> ('b, 'o) world \<Rightarrow> ('b, 'o) world" where
  "w_assert c w = (if c then w else w\<lparr>fault := True\<rparr>)"

definition new_body :: "'b \<Rightarrow> ('b, 'o) world \<Rightarrow> nat \<times> ('b, 'o) world" where
  "new_body b w = (brk w, w\<lparr>bodies := (bodies w)(brk w \<mapsto> b), brk := brk w + 1\<rparr>)"

definition delete_body :: "nat \<Rightarrow> ('b, 'o) world \<Rightarrow> ('b, 'o) world" where
  "delete_body a w =
     (if bodies w a = None then w\<lparr>fault := True\<rparr> else w\<lparr>bodies := (bodies w)(a := None)\<rparr>)"

text \<open>A call through the body pointer; a missing body gives the default.\<close>

definition with_body :: "'c \<Rightarrow> ('b \<Rightarrow> 'o \<Rightarrow> 'c \<times> 'b \<times> 'o) \<Rightarrow> item \<Rightarrow> ('b, 'o) world \<Rightarrow> 'c \<times> ('b, 'o) world" where
  "with_body d f it w =
     (case ibody it of
        None \<Rightarrow> (d, w)
      | Some a \<Rightarrow>
          (case bodies w a of
             None \<Rightarrow> (d, w\<lparr>fault := True\<rparr>)
           | Some b \<Rightarrow> (let (r, b, o1) = f b (owner w) in (r, w\<lparr>bodies := (bodies w)(a \<mapsto> b), owner := o1\<rparr>))))"

definition body_query :: "'c \<Rightarrow> ('b \<Rightarrow> 'c) \<Rightarrow> item \<Rightarrow> ('b, 'o) world \<Rightarrow> 'c" where
  "body_query d f it w =
     (case ibody it of None \<Rightarrow> d | Some a \<Rightarrow> (case bodies w a of None \<Rightarrow> d | Some b \<Rightarrow> f b))"

definition item_Release :: "item \<Rightarrow> ('b, 'o) world \<Rightarrow> item \<times> ('b, 'o) world" where
  "item_Release it w = (item_Clear it, case ibody it of None \<Rightarrow> w | Some a \<Rightarrow> delete_body a w)"

definition item_dtor :: "item \<Rightarrow> ('b, 'o) world \<Rightarrow> ('b, 'o) world" where
  "item_dtor it w = w_assert (ibody it = None) w"

definition item_PutIn ::
  "('b, 'o) body_class \<Rightarrow> location \<Rightarrow> item list \<Rightarrow> nat \<Rightarrow> item \<Rightarrow> ('b, 'o) world \<Rightarrow> ('b, 'o) world" where
  "item_PutIn cls l list1 i it w =
     (let w = (if l \<noteq> TEMP_INV then
                 let w = (if 0 < expire_date it then w\<lparr>owner := own_expire_item cls (expire_date it) (owner w)\<rparr> else w);
                     v = body_query 0 (body_status_value cls) it w;
                     w = (if 0 < v then w\<lparr>owner := own_elf_status cls v (owner w)\<rparr> else w);
                     e = body_query 0 (body_addon_expire cls) it w
                 in if 0 < e then w\<lparr>owner := own_addon_expire cls e (owner w)\<rparr> else w
               else w)
      in if l \<noteq> BACKPACK \<and> l \<noteq> TEMP_INV
         then snd (with_body () (\<lambda>b o1. ((), body_put_in cls l list1 i (icount it) b o1)) it w)
         else w)"

definition item_TakeOut ::
  "('b, 'o) body_class \<Rightarrow> location \<Rightarrow> nat \<Rightarrow> item \<Rightarrow> ('b, 'o) world \<Rightarrow> ('b, 'o) world" where
  "item_TakeOut cls l i it w =
     (if l \<noteq> BACKPACK \<and> l \<noteq> TEMP_INV
      then snd (with_body () (\<lambda>b o1. ((), body_take_out cls l i (icount it) b o1)) it w)
      else w)"

definition item_CanUse :: "('b, 'o) body_class \<Rightarrow> location \<Rightarrow> item \<Rightarrow> ('b, 'o) world \<Rightarrow> bool" where
  "item_CanUse cls l it w \<longleftrightarrow> proc_type it AND 0x2000 = 0 \<and> body_query False (body_can_use cls l) it w"

definition item_Use ::
  "('b, 'o) body_class \<Rightarrow> location \<Rightarrow> nat \<Rightarrow> nat \<Rightarrow> item \<Rightarrow> ('b, 'o) world \<Rightarrow> int \<times> ('b, 'o) world" where
  "item_Use cls l i n it w = with_body 0 (body_use cls l i n) it w"

definition item_ArmorDecDurability ::
  "('b, 'o) body_class \<Rightarrow> int \<Rightarrow> item \<Rightarrow> ('b, 'o) world \<Rightarrow> bool \<times> ('b, 'o) world" where
  "item_ArmorDecDurability cls amount it w =
     with_body False (\<lambda>b o1. let (r, b) = body_dec_durability cls amount b in (r, b, o1)) it w"

definition item_Repair :: "('b, 'o) body_class \<Rightarrow> item \<Rightarrow> ('b, 'o) world \<Rightarrow> ('b, 'o) world" where
  "item_Repair cls it w = snd (with_body () (\<lambda>b o1. ((), body_repair cls b, o1)) it w)"

subsection \<open>Item data and the construction of items\<close>

record item_data =
  d_type :: int
  d_count :: nat
  d_pile_limit :: nat
  d_equip_mask :: u32
  d_proc_type :: u32
  d_classid :: int
  d_guid1 :: int
  d_guid2 :: int
  d_price :: nat
  d_expire_date :: int
  d_content :: "byte list"

definition LoadBody ::
  "('b, 'o) body_class \<Rightarrow> int \<Rightarrow> byte list \<Rightarrow> item \<Rightarrow> ('b, 'o) world \<Rightarrow> bool \<times> item \<times> ('b, 'o) world" where
  "LoadBody cls classid ar it w =
     (let w = w_assert (ibody it = None) w in
      case body_load cls classid (itype it) ar of
        None \<Rightarrow> (False, it, w)
      | Some b \<Rightarrow> (let (a, w) = new_body b w in (True, it\<lparr>ibody := Some a\<rparr>, w)))"

definition MakeItemEntry ::
  "('b, 'o) body_class \<Rightarrow> item_data \<Rightarrow> item \<Rightarrow> ('b, 'o) world \<Rightarrow> bool \<times> item \<times> ('b, 'o) world" where
  "MakeItemEntry cls d entry w =
     (let entry = entry\<lparr>itype := d_type d, icount := d_count d, pile_limit := d_pile_limit d,
        equip_mask := d_equip_mask d, proc_type := d_proc_type d, price := d_price d,
        expire_date := d_expire_date d, guid1 := d_guid1 d, guid2 := d_guid2 d\<rparr>
      in if 0 < d_classid d then LoadBody cls (d_classid d) (d_content d) entry w
         else (True, entry\<lparr>ibody := None\<rparr>, w))"

definition ItemToData :: "('b, 'o) body_class \<Rightarrow> item \<Rightarrow> ('b, 'o) world \<Rightarrow> item_data" where
  "ItemToData cls it w =
     \<lparr>d_type = itype it, d_count = icount it, d_pile_limit = pile_limit it, d_equip_mask = equip_mask it,
      d_proc_type = proc_type it, d_classid = body_query (-1) (body_guid cls) it w,
      d_guid1 = guid1 it, d_guid2 = guid2 it, d_price = price it, d_expire_date = expire_date it,
      d_content = body_query [] (body_data cls) it w\<rparr>"
end
