(* ===== verification/ItemList.thy ===== *)
theory ItemList
  imports Item
begin

text \<open>
  \<open>src/cgame/gs/item_list.h\<close> and \<open>item_list.cpp\<close>: the slot table of an inventory, with its
  cached number of empty slots. Every operation takes the heap of bodies and the owner along.
\<close>

record item_list =
  location_of :: location
  slots :: "item list"
  empties :: nat

text \<open>\<open>item_list(location, size)\<close>: copies of one freshly constructed item.\<close>

definition list_new :: "location \<Rightarrow> nat \<Rightarrow> item \<Rightarrow> item_list" where
  "list_new l n it = \<lparr>location_of = l, slots = replicate n it, empties = n\<rparr>"

definition list_Swap :: "item_list \<Rightarrow> item_list \<Rightarrow> item_list \<times> item_list" where
  "list_Swap x y = (y, x)"

definition set_slot :: "nat \<Rightarrow> item \<Rightarrow> item_list \<Rightarrow> item_list" where
  "set_slot i it L = L\<lparr>slots := (slots L)[i := it]\<rparr>"

definition dec_empty :: "item_list \<Rightarrow> item_list" where
  "dec_empty L = L\<lparr>empties := sz (int (empties L) - 1)\<rparr>"

definition inc_empty :: "item_list \<Rightarrow> item_list" where
  "inc_empty L = L\<lparr>empties := sz (int (empties L) + 1)\<rparr>"

subsection \<open>Looking for a slot\<close>

text \<open>
  \<open>__try_pile\<close> over the slots from \<open>i\<close> on: the slots, the count left, the first empty slot
  seen, and the last slot piled on. \<open>int tmp = __count\<close> and the \<open>size_t\<close> sum are written out.
\<close>

primrec try_pile :: "int \<Rightarrow> nat \<Rightarrow> item list \<Rightarrow> nat \<Rightarrow> nat option \<Rightarrow> int \<Rightarrow> item list \<times> nat \<times> nat option \<times> int" where
  "try_pile t i [] n pe last1 = ([], n, pe, last1)"
| "try_pile t i (it # xs) n pe last1 =
     (if itype it = -1 then
        let (ys, r) = try_pile t (i + 1) xs n (if pe = None then Some i else pe) last1 in (it # ys, r)
      else if itype it = t \<and> icount it < pile_limit it then
        let tmp = int32 (int n);
            tmp = (if pile_limit it < sz (tmp + int (icount it)) then int32 (int (pile_limit it) - int (icount it)) else tmp);
            it = it\<lparr>icount := sz (int (icount it) + tmp)\<rparr>;
            n = sz (int n - tmp)
        in if 0 < n then let (ys, r) = try_pile t (i + 1) xs n pe (int i) in (it # ys, r)
           else (it # xs, n, pe, int i)
      else let (ys, r) = try_pile t (i + 1) xs n pe last1 in (it # ys, r))"

fun find_empty :: "nat \<Rightarrow> item list \<Rightarrow> nat option" where
  "find_empty i [] = None"
| "find_empty i (it # xs) = (if itype it = -1 then Some i else find_empty (i + 1) xs)"

fun find_type :: "int \<Rightarrow> nat \<Rightarrow> item list \<Rightarrow> int" where
  "find_type t i [] = -1"
| "find_type t i (it # xs) = (if itype it = t then int32 (int i) else find_type t (i + 1) xs)"

definition list_Find :: "nat \<Rightarrow> int \<Rightarrow> item_list \<Rightarrow> int" where
  "list_Find start t L = find_type t start (drop start (slots L))"

fun list_FindEmpty_from :: "int \<Rightarrow> nat \<Rightarrow> item list \<Rightarrow> int" where
  "list_FindEmpty_from t i [] = -1"
| "list_FindEmpty_from t i (it # xs) =
     (if itype it = -1 \<or> itype it = t \<and> icount it < pile_limit it then int32 (int i)
      else list_FindEmpty_from t (i + 1) xs)"

definition list_FindEmpty :: "int \<Rightarrow> item_list \<Rightarrow> int" where
  "list_FindEmpty t L = list_FindEmpty_from t 0 (slots L)"

definition list_HasSlot :: "int \<Rightarrow> item_list \<Rightarrow> bool" where
  "list_HasSlot t L \<longleftrightarrow> empties L \<noteq> 0 \<or> list_ex (\<lambda>it. itype it = t \<and> icount it < pile_limit it) (slots L)"

text \<open>\<open>HasSlot(type, count)\<close>: \<open>count -= pile_limit - count\<close> goes through \<open>size_t\<close> and back.\<close>

fun slot_room :: "int \<Rightarrow> item list \<Rightarrow> int \<Rightarrow> int" where
  "slot_room t [] n = n"
| "slot_room t (it # xs) n =
     (if 0 < n then slot_room t xs (if itype it = t then int32 (n - (int (pile_limit it) - int (icount it))) else n)
      else n)"

definition list_HasSlot_count :: "int \<Rightarrow> int \<Rightarrow> item_list \<Rightarrow> bool" where
  "list_HasSlot_count t n L \<longleftrightarrow> empties L \<noteq> 0 \<or> slot_room t (slots L) n \<le> 0"

definition list_IsFull :: "item_list \<Rightarrow> bool" where
  "list_IsFull L \<longleftrightarrow> empties L = 0"

definition list_IsItemExist_at :: "nat \<Rightarrow> int \<Rightarrow> nat \<Rightarrow> item_list \<Rightarrow> bool" where
  "list_IsItemExist_at i t n L \<longleftrightarrow>
     i < length (slots L) \<and> (let it = slots L ! i in itype it \<noteq> -1 \<and> itype it = t \<and> n \<le> icount it)"

text \<open>The loop over \<open>Find\<close>: some slot holds the type with at least \<open>count\<close>.\<close>

definition list_IsItemExist :: "int \<Rightarrow> nat \<Rightarrow> item_list \<Rightarrow> bool" where
  "list_IsItemExist t n L \<longleftrightarrow> list_ex (\<lambda>it. itype it = t \<and> n \<le> icount it) (slots L)"

subsection \<open>Putting items in\<close>

text \<open>\<open>*pEmpty = it\<close>, \<open>PutIn\<close> and \<open>_empty_slot_count --\<close>, the end of every insertion.\<close>

definition place ::
  "('b, 'o) body_class \<Rightarrow> nat \<Rightarrow> item \<Rightarrow> item_list \<Rightarrow> ('b, 'o) world \<Rightarrow> item_list \<times> ('b, 'o) world" where
  "place cls i it L w =
     (let L = set_slot i it L;
          w = item_PutIn cls (location_of L) (slots L) i it w
      in (dec_empty L, w))"

definition Push_data ::
  "('b, 'o) body_class \<Rightarrow> item \<Rightarrow> item_data \<Rightarrow> item_list \<Rightarrow> ('b, 'o) world
     \<Rightarrow> int \<times> item_data \<times> item_list \<times> ('b, 'o) world" where
  "Push_data cls raw d L w =
     (if d_type d = -1 then (-1, d, L, w\<lparr>fault := True\<rparr>)
      else
        let (xs, n, pe, rst) = (if 1 < d_pile_limit d then try_pile (d_type d) 0 (slots L) (d_count d) None (-1)
                                else (slots L, d_count d, find_empty 0 (slots L), -1));
            oldcount = d_count d; d = d\<lparr>d_count := n\<rparr>; L = L\<lparr>slots := xs\<rparr>
        in if 1 < d_pile_limit d \<and> (n = 0 \<or> n \<noteq> oldcount \<and> pe = None) then (rst, d, L, w)
           else case pe of
             None \<Rightarrow> (-1, d, L, w)
           | Some i \<Rightarrow>
               (case MakeItemEntry cls d raw w of
                  (False, it, w) \<Rightarrow> (-1, d, L, item_dtor (item_Clear it) w)
                | (True, it, w) \<Rightarrow>
                    (let (L, w) = place cls i it L w in (int32 (int i), d\<lparr>d_count := 0\<rparr>, L, w))))"

text \<open>\<open>Push(const item_data &, int & count, int expire_date)\<close>\<close>

definition Push_count ::
  "('b, 'o) body_class \<Rightarrow> item \<Rightarrow> item_data \<Rightarrow> int \<Rightarrow> int \<Rightarrow> item_list \<Rightarrow> ('b, 'o) world
     \<Rightarrow> int \<times> int \<times> item_list \<times> ('b, 'o) world" where
  "Push_count cls raw d n e L w =
     (let (rst, d, L, w) = Push_data cls raw (d\<lparr>d_count := sz n, d_expire_date := e\<rparr>) L (w_assert (0 < n) w)
      in (rst, int32 (int (d_count d)), L, w))"

definition Push_item ::
  "('b, 'o) body_class \<Rightarrow> item \<Rightarrow> item_list \<Rightarrow> ('b, 'o) world \<Rightarrow> int \<times> item \<times> item_list \<times> ('b, 'o) world" where
  "Push_item cls it L w =
     (if itype it = -1 then (-1, it, L, w\<lparr>fault := True\<rparr>)
      else if empties L = 0 \<and> pile_limit it \<le> 1 then (-1, it, L, w)
      else
        let (xs, n, pe, rst) = (if 1 < pile_limit it then try_pile (itype it) 0 (slots L) (icount it) None (-1)
                                else (slots L, icount it, find_empty 0 (slots L), -1));
            oldcount = icount it; it = it\<lparr>icount := n\<rparr>; L = L\<lparr>slots := xs\<rparr>
        in if 1 < pile_limit it \<and> n = 0 then (let (it, w) = item_Release it w in (rst, it, L, w))
           else if 1 < pile_limit it \<and> n \<noteq> oldcount \<and> pe = None then (-1, it, L, w)
           else case pe of
             None \<Rightarrow> (-1, it, L, w)
           | Some i \<Rightarrow> (let (L, w) = place cls i it L w in (int32 (int i), item_Clear it, L, w)))"

definition PushInEmpty_data ::
  "('b, 'o) body_class \<Rightarrow> item \<Rightarrow> nat \<Rightarrow> item_data \<Rightarrow> int \<Rightarrow> item_list \<Rightarrow> ('b, 'o) world
     \<Rightarrow> int \<times> item_list \<times> ('b, 'o) world" where
  "PushInEmpty_data cls raw start d n L w =
     (let w = w_assert (sz n \<le> d_pile_limit d) w in
      case find_empty start (drop start (slots L)) of
        None \<Rightarrow> (-1, L, w)
      | Some i \<Rightarrow>
          (case MakeItemEntry cls d raw w of
             (False, it, w) \<Rightarrow> (-1, L, item_dtor (item_Clear it) w)
           | (True, it, w) \<Rightarrow>
               (let (L, w) = place cls i (it\<lparr>icount := sz n\<rparr>) L w in (int32 (int i), L, w))))"

definition PushInEmpty_item ::
  "('b, 'o) body_class \<Rightarrow> nat \<Rightarrow> item \<Rightarrow> item_list \<Rightarrow> ('b, 'o) world \<Rightarrow> int \<times> item \<times> item_list \<times> ('b, 'o) world" where
  "PushInEmpty_item cls start it L w =
     (case find_empty start (drop start (slots L)) of
        None \<Rightarrow> (-1, it, L, w)
      | Some i \<Rightarrow> (let (L, w) = place cls i it L w in (int32 (int i), item_Clear it, L, w)))"

text \<open>The operations below do not check their index; outside the table they set \<open>fault\<close>.\<close>

definition list_Put ::
  "('b, 'o) body_class \<Rightarrow> nat \<Rightarrow> item \<Rightarrow> item_list \<Rightarrow> ('b, 'o) world \<Rightarrow> bool \<times> item \<times> item_list \<times> ('b, 'o) world" where
  "list_Put cls i it L w =
     (if length (slots L) \<le> i then (False, it, L, w\<lparr>fault := True\<rparr>)
      else let old = slots L ! i in
        if itype old = -1 then
          if itype it = -1 then (True, it, L, w)
          else let (L, w) = place cls i it L w in (True, item_Clear it, L, w)
        else if itype old = itype it \<and> sz (int (icount old) + int (icount it)) \<le> pile_limit old then
          let w = w_assert (pile_limit it = pile_limit old) w;
              L = set_slot i (old\<lparr>icount := sz (int (icount old) + int (icount it))\<rparr>) L;
              (it, w) = item_Release it w
          in (True, it, L, w)
        else (False, it, L, w))"

text \<open>\<open>item tmp = it; it = src; src = tmp; tmp.Clear()\<close>: \<open>tmp\<close> shares the body until cleared.\<close>

definition list_Exchange ::
  "('b, 'o) body_class \<Rightarrow> nat \<Rightarrow> item \<Rightarrow> item_list \<Rightarrow> ('b, 'o) world \<Rightarrow> item \<times> item_list \<times> ('b, 'o) world" where
  "list_Exchange cls i it L w =
     (if length (slots L) \<le> i then (it, L, w\<lparr>fault := True\<rparr>)
      else let L = (if itype it \<noteq> -1 then dec_empty L else L);
               src = slots L ! i;
               w = (if itype src \<noteq> -1 then item_TakeOut cls (location_of L) i src w else w);
               tmp = it; it = src; src = tmp;
               L = set_slot i src L;
               w = item_dtor (item_Clear tmp) w;
               w = (if itype src \<noteq> -1 then item_PutIn cls (location_of L) (slots L) i src w else w);
               L = (if itype it \<noteq> -1 then inc_empty L else L)
           in (it, L, w))"

definition list_ExchangeItem ::
  "('b, 'o) body_class \<Rightarrow> nat \<Rightarrow> nat \<Rightarrow> item_list \<Rightarrow> ('b, 'o) world \<Rightarrow> bool \<times> item_list \<times> ('b, 'o) world" where
  "list_ExchangeItem cls i j L w =
     (if length (slots L) \<le> i \<or> length (slots L) \<le> j then (False, L, w)
      else if i = j then (True, L, w)
      else let src = slots L ! i;
               w = (if itype src \<noteq> -1 then item_TakeOut cls (location_of L) i src w else w);
               dest = slots L ! j;
               w = (if itype dest \<noteq> -1 then item_TakeOut cls (location_of L) j dest w else w);
               L = set_slot j src (set_slot i dest L);
               w = (if itype dest \<noteq> -1 then item_PutIn cls (location_of L) (slots L) i dest w else w);
               w = (if itype src \<noteq> -1 then item_PutIn cls (location_of L) (slots L) j src w else w)
           in (True, L, w))"

definition body_Clone :: "('b, 'o) body_class \<Rightarrow> item \<Rightarrow> ('b, 'o) world \<Rightarrow> item \<times> ('b, 'o) world" where
  "body_Clone cls it w =
     (case ibody it of
        None \<Rightarrow> (it, w)
      | Some a \<Rightarrow>
          (case bodies w a of
             None \<Rightarrow> (it, w\<lparr>fault := True\<rparr>)
           | Some b \<Rightarrow> (let (a, w) = new_body (body_clone cls b) w in (it\<lparr>ibody := Some a\<rparr>, w))))"

definition list_MoveItem ::
  "('b, 'o) body_class \<Rightarrow> nat \<Rightarrow> nat \<Rightarrow> nat \<Rightarrow> item_list \<Rightarrow> ('b, 'o) world \<Rightarrow> bool \<times> nat \<times> item_list \<times> ('b, 'o) world" where
  "list_MoveItem cls i j n L w =
     (if length (slots L) \<le> i \<or> length (slots L) \<le> j then (False, n, L, w)
      else if i = j then (True, n, L, w)
      else if n = 0 then (False, n, L, w)
      else let src = slots L ! i; dest = slots L ! j in
        if itype src = -1 \<or> icount src < n then (True, 0, L, w)
        else if itype dest = -1 then
          let dest = src; src = src\<lparr>icount := icount src - n\<rparr>;
              (dest, w) = (if icount src \<noteq> 0 then body_Clone cls dest w else (dest, w));
              dest = dest\<lparr>icount := n\<rparr>
          in if icount src = 0 then (True, n, set_slot i (item_Clear src) (set_slot j dest L), w)
             else (let (L, w) = place cls j dest (set_slot i src L) w in (True, n, L, w))
        else if itype dest \<noteq> itype src \<or> pile_limit dest < sz (int (icount dest) + int n) then (True, 0, L, w)
        else
          let dest = dest\<lparr>icount := sz (int (icount dest) + int n)\<rparr>;
              src = src\<lparr>icount := icount src - n\<rparr>;
              L = set_slot i src (set_slot j dest L)
          in if icount src = 0 then
               let w = item_TakeOut cls (location_of L) i src w;
                   (src, w) = item_Release src w
               in (True, n, set_slot i src (inc_empty L), w)
             else (True, n, L, w))"

subsection \<open>Taking items out\<close>

text \<open>\<open>Remove(index, it)\<close> hands the item over; \<open>it\<close> is overwritten.\<close>

definition list_Remove_item ::
  "('b, 'o) body_class \<Rightarrow> nat \<Rightarrow> item \<Rightarrow> item_list \<Rightarrow> ('b, 'o) world \<Rightarrow> item \<times> item_list \<times> ('b, 'o) world" where
  "list_Remove_item cls i it L w =
     (if length (slots L) \<le> i then (it, L, w\<lparr>fault := True\<rparr>)
      else let src = slots L ! i in
        if itype src = -1 then (it, L, w)
        else (src, set_slot i (item_Clear src) (inc_empty L), item_TakeOut cls (location_of L) i src w))"

text \<open>\<open>TakeOut\<close>, \<open>Release\<close> and \<open>_empty_slot_count ++\<close>, the end of every removal.\<close>

definition discard :: "('b, 'o) body_class \<Rightarrow> nat \<Rightarrow> item_list \<Rightarrow> ('b, 'o) world \<Rightarrow> item_list \<times> ('b, 'o) world" where
  "discard cls i L w =
     (let it = slots L ! i;
          w = item_TakeOut cls (location_of L) i it w;
          (it, w) = item_Release it w
      in (set_slot i it (inc_empty L), w))"

definition list_Remove ::
  "('b, 'o) body_class \<Rightarrow> nat \<Rightarrow> item_list \<Rightarrow> ('b, 'o) world \<Rightarrow> item_list \<times> ('b, 'o) world" where
  "list_Remove cls i L w =
     (if length (slots L) \<le> i then (L, w\<lparr>fault := True\<rparr>)
      else if itype (slots L ! i) = -1 then (L, w)
      else discard cls i L w)"

definition list_DecAmount ::
  "('b, 'o) body_class \<Rightarrow> nat \<Rightarrow> nat \<Rightarrow> item_list \<Rightarrow> ('b, 'o) world \<Rightarrow> int \<times> item_list \<times> ('b, 'o) world" where
  "list_DecAmount cls i n L w =
     (if length (slots L) \<le> i \<or> itype (slots L ! i) = -1 then (0, L, w\<lparr>fault := True\<rparr>)
      else let it = slots L ! i in
        if icount it \<le> n then (let (L, w) = discard cls i L w in (int32 (int (icount (slots L ! i))), L, w))
        else (int32 (int (icount it - n)), set_slot i (it\<lparr>icount := icount it - n\<rparr>) L, w))"

definition list_IncAmount ::
  "nat \<Rightarrow> nat \<Rightarrow> item_list \<Rightarrow> ('b, 'o) world \<Rightarrow> int \<times> item_list \<times> ('b, 'o) world" where
  "list_IncAmount i n L w =
     (if length (slots L) \<le> i \<or> itype (slots L ! i) = -1 then (-1, L, w\<lparr>fault := True\<rparr>)
      else let it = slots L ! i in
        if pile_limit it \<le> icount it then (0, L, w)
        else let delta = pile_limit it - icount it;
                 delta = (if n < delta then n else delta)
             in (int32 (int delta), set_slot i (it\<lparr>icount := icount it + delta\<rparr>) L, w))"

definition list_DecDurability ::
  "('b, 'o) body_class \<Rightarrow> nat \<Rightarrow> int \<Rightarrow> item_list \<Rightarrow> ('b, 'o) world \<Rightarrow> bool \<times> ('b, 'o) world" where
  "list_DecDurability cls i amount L w =
     (if length (slots L) \<le> i \<or> itype (slots L ! i) = -1 then (False, w\<lparr>fault := True\<rparr>)
      else item_ArmorDecDurability cls amount (slots L ! i) w)"

text \<open>\<open>UseItem\<close>: the number used up comes from the body; it is the type that is returned.\<close>

definition list_UseItem ::
  "('b, 'o) body_class \<Rightarrow> nat \<Rightarrow> nat \<Rightarrow> item_list \<Rightarrow> ('b, 'o) world \<Rightarrow> int \<times> nat \<times> item_list \<times> ('b, 'o) world" where
  "list_UseItem cls i n L w =
     (if length (slots L) \<le> i then (-1, n, L, w\<lparr>fault := True\<rparr>)
      else let it = slots L ! i in
        if itype it = -1 then (-1, n, L, w)
        else if \<not> item_CanUse cls (location_of L) it w then (-2, n, L, w)
        else let n = (if icount it < n then icount it else n);
                 (rst, w) = item_Use cls (location_of L) i n it w
             in if rst < 0 then (-3, n, L, w)
                else let w = w_assert (0 < icount it) w; n = sz rst in
                  if 0 < rst then
                    if icount it \<le> sz rst then (let (L, w) = discard cls i L w in (itype it, n, L, w))
                    else (itype it, n, set_slot i (it\<lparr>icount := icount it - sz rst\<rparr>) L, w)
                  else (itype it, n, L, w))"

fun clear_slots :: "item list \<Rightarrow> ('b, 'o) world \<Rightarrow> item list \<times> ('b, 'o) world" where
  "clear_slots [] w = ([], w)"
| "clear_slots (it # xs) w =
     (let (it, w) = (if itype it \<noteq> -1 then item_Release it w else (it, w));
          (xs, w) = clear_slots xs w
      in (it # xs, w))"

definition list_Clear :: "item_list \<Rightarrow> ('b, 'o) world \<Rightarrow> item_list \<times> ('b, 'o) world" where
  "list_Clear L w =
     (let (xs, w) = clear_slots (slots L) w in (L\<lparr>slots := xs, empties := length xs\<rparr>, w))"

text \<open>\<open>SetSize\<close>: the items move to the larger table; the old one is destroyed.\<close>

definition list_SetSize :: "nat \<Rightarrow> item \<Rightarrow> item_list \<Rightarrow> item_list" where
  "list_SetSize n raw L =
     (if n \<le> length (slots L) then L
      else L\<lparr>slots := slots L @ replicate (n - length (slots L)) raw,
             empties := sz (int (empties L) + int (n - length (slots L)))\<rparr>)"

fun repair_slots :: "('b, 'o) body_class \<Rightarrow> item list \<Rightarrow> ('b, 'o) world \<Rightarrow> ('b, 'o) world" where
  "repair_slots cls [] w = w"
| "repair_slots cls (it # xs) w =
     repair_slots cls xs (if itype it = -1 \<or> proc_type it AND 0x1000 \<noteq> 0 then w else item_Repair cls it w)"

definition list_RepairAll :: "('b, 'o) body_class \<Rightarrow> item_list \<Rightarrow> ('b, 'o) world \<Rightarrow> ('b, 'o) world" where
  "list_RepairAll cls L w = repair_slots cls (slots L) w"

fun clear_proc ::
  "('b, 'o) body_class \<Rightarrow> u32 \<Rightarrow> nat \<Rightarrow> item_list \<Rightarrow> ('b, 'o) world \<Rightarrow> int \<times> item_list \<times> ('b, 'o) world" where
  "clear_proc cls p 0 L w = (0, L, w)"
| "clear_proc cls p (Suc k) L w =
     (let i = length (slots L) - Suc k; it = slots L ! i in
      if itype it = -1 \<or> proc_type it AND p = 0 then clear_proc cls p k L w
      else let (L, w) = discard cls i L w; (n, L, w) = clear_proc cls p k L w in (n + 1, L, w))"

definition list_ClearByProcType ::
  "('b, 'o) body_class \<Rightarrow> u32 \<Rightarrow> item_list \<Rightarrow> ('b, 'o) world \<Rightarrow> int \<times> item_list \<times> ('b, 'o) world" where
  "list_ClearByProcType cls p L w = clear_proc cls p (length (slots L)) L w"

subsection \<open>Between two lists\<close>

definition MoveBetweenItemList ::
  "('b, 'o) body_class \<Rightarrow> item \<Rightarrow> item_list \<Rightarrow> item_list \<Rightarrow> nat \<Rightarrow> nat \<Rightarrow> nat \<Rightarrow> ('b, 'o) world
     \<Rightarrow> int \<times> item_list \<times> item_list \<times> ('b, 'o) world" where
  "MoveBetweenItemList cls raw src dest i j n w =
     (if length (slots src) \<le> i \<or> length (slots dest) \<le> j then (-1, src, dest, w)
      else if n = 0 then (-1, src, dest, w)
      else if itype (slots src ! i) = -1 \<or>
              itype (slots dest ! j) \<noteq> -1 \<and> itype (slots src ! i) \<noteq> itype (slots dest ! j) then (-1, src, dest, w)
      else let it = slots src ! i; n = (if icount it < n then icount it else n) in
        if itype (slots dest ! j) = -1 then
          if n = icount it then
            let (tmp, src, w) = list_Exchange cls i raw src w;
                (tmp, dest, w) = list_Exchange cls j tmp dest w;
                (tmp, src, w) = list_Exchange cls i tmp src w
            in (int32 (int n), src, dest, item_dtor tmp w)
          else
            let (tmp, w) = body_Clone cls (it\<lparr>icount := n\<rparr>) w;
                (bRst, tmp, dest, w) = list_Put cls j tmp dest w;
                (r, src, w) = list_DecAmount cls i n src (w_assert bRst w)
            in (int32 (int n), src, dest, item_dtor tmp w)
        else
          let (delta, dest, w) = list_IncAmount j n dest w in
          if delta < 0 then (-1, src, dest, w\<lparr>fault := True\<rparr>)
          else let (r, src, w) = list_DecAmount cls i (sz delta) src w in (delta, src, dest, w))"
end
