(* ===== verification/ItemListInv.thy ===== *)
theory ItemListInv
  imports ItemList
begin

text \<open>
  What keeps an inventory consistent: the cached number of empty slots is right, every stack
  is within its limit, every body is referenced by exactly one item, and no item is created or
  lost. The lemmas follow the operations of \<open>ItemList\<close> one by one.
\<close>

subsection \<open>Ownership of bodies\<close>

definition iref :: "item \<Rightarrow> nat multiset" where
  "iref it = (case ibody it of None \<Rightarrow> {#} | Some a \<Rightarrow> {#a#})"

abbreviation refs :: "item list \<Rightarrow> nat multiset" where
  "refs xs \<equiv> sum_list (map iref xs)"

text \<open>The live bodies are exactly the references \<open>R\<close>, each held once, and nothing has gone wrong.\<close>

definition owned :: "('b, 'o) world \<Rightarrow> nat multiset \<Rightarrow> bool" where
  "owned w R \<longleftrightarrow> \<not> fault w \<and> finite (dom (bodies w)) \<and> (\<forall>a \<in> dom (bodies w). a < brk w)
     \<and> R = mset_set (dom (bodies w))"

lemma iref_simps [simp]:
  "iref (item_Clear it) = {#}" "iref (it\<lparr>icount := n\<rparr>) = iref it" "iref (item_new e g1 g2) = {#}"
  "iref (it\<lparr>ibody := Some a\<rparr>) = {#a#}" "iref (it\<lparr>ibody := None\<rparr>) = {#}"
  by (simp_all add: iref_def item_Clear_def item_new_def)

lemma iref_Some: "ibody it = Some a \<Longrightarrow> iref it = {#a#}"
  by (simp add: iref_def)

lemma iref_None: "ibody it = None \<Longrightarrow> iref it = {#}"
  by (simp add: iref_def)

lemma owned_fault: "owned w R \<Longrightarrow> \<not> fault w"
  by (simp add: owned_def)

lemma owned_live: "owned w R \<Longrightarrow> iref it \<subseteq># R \<Longrightarrow> ibody it = Some a \<Longrightarrow> \<exists>b. bodies w a = Some b"
  by (auto simp: owned_def iref_def dest: mset_subset_eq_insertD)

lemma owned_owner [simp]: "owned (w\<lparr>owner := x\<rparr>) R \<longleftrightarrow> owned w R"
  by (simp add: owned_def)

lemma owned_assert [simp]: "c \<Longrightarrow> w_assert c w = w"
  by (simp add: w_assert_def)

lemma owned_update: "owned w R \<Longrightarrow> bodies w a = Some b \<Longrightarrow> owned (w\<lparr>bodies := (bodies w)(a \<mapsto> b')\<rparr>) R"
  by (auto simp: owned_def insert_absorb domI)

lemma with_body_owned:
  assumes "owned w R" "iref it \<subseteq># R"
  shows "owned (snd (with_body d f it w)) R"
proof (cases "ibody it")
  case (Some a)
  with owned_live [OF assms] obtain b where b: "bodies w a = Some b" by blast
  obtain r b' o1 where f: "f b (owner w) = (r, b', o1)" by (cases "f b (owner w)")
  have "owned (w\<lparr>bodies := (bodies w)(a \<mapsto> b')\<rparr>) R" by (rule owned_update [OF assms(1) b])
  then show ?thesis using Some b f by (simp add: with_body_def owned_def)
qed (use assms in \<open>simp add: with_body_def\<close>)

lemma PutIn_owned: "owned w R \<Longrightarrow> iref it \<subseteq># R \<Longrightarrow> owned (item_PutIn cls l xs i it w) R"
  by (auto simp: item_PutIn_def Let_def intro!: with_body_owned)

lemma TakeOut_owned: "owned w R \<Longrightarrow> iref it \<subseteq># R \<Longrightarrow> owned (item_TakeOut cls l i it w) R"
  by (auto simp: item_TakeOut_def intro!: with_body_owned)

lemma new_body_owned: "owned w R \<Longrightarrow> new_body b w = (a, w') \<Longrightarrow> owned w' (R + {#a#})"
proof -
  assume w: "owned w R" and n: "new_body b w = (a, w')"
  then have w': "a = brk w" "w' = w\<lparr>bodies := (bodies w)(brk w \<mapsto> b), brk := brk w + 1\<rparr>"
    by (auto simp: new_body_def)
  have fin: "finite (dom (bodies w))" and low: "\<forall>a \<in> dom (bodies w). a < brk w"
    and R: "R = mset_set (dom (bodies w))" and "\<not> fault w" using w by (simp_all add: owned_def)
  have new: "brk w \<notin> dom (bodies w)" using low by blast
  then have "mset_set (dom (bodies w')) = R + {#a#}" using fin R w' by simp
  moreover have "\<forall>a \<in> dom (bodies w'). a < brk w'" using low w' by (auto simp del: fun_upd_apply intro: less_SucI)
  ultimately show ?thesis using w' fin \<open>\<not> fault w\<close> by (simp add: owned_def)
qed

lemma Release_owned:
  assumes "owned w (R + iref it)" "item_Release it w = (it', w')"
  shows "it' = item_Clear it \<and> owned w' R"
proof (cases "ibody it")
  case (Some a)
  then have R: "R + {#a#} = mset_set (dom (bodies w))" using assms(1) by (simp add: owned_def iref_def)
  have fin: "finite (dom (bodies w))" using assms(1) by (simp add: owned_def)
  have "a \<in># mset_set (dom (bodies w))" by (simp flip: R)
  then have a: "a \<in> dom (bodies w)" using fin by simp
  have "R = mset_set (dom (bodies w)) - {#a#}" by (simp flip: R)
  also have "\<dots> = mset_set (dom (bodies w) - {a})" using fin a by (simp add: mset_set_Diff)
  finally have "R = mset_set (dom (bodies w) - {a})" .
  then show ?thesis using assms Some a by (auto simp: item_Release_def delete_body_def owned_def split: if_splits)
qed (use assms in \<open>auto simp: item_Release_def iref_def\<close>)

lemma Clone_owned:
  assumes "owned w R" "iref it \<subseteq># R" "body_Clone cls it w = (it', w')"
  shows "owned w' (R + iref it')" "\<exists>p. it' = it\<lparr>ibody := p\<rparr>"
proof -
  have "owned w' (R + iref it') \<and> (\<exists>p. it' = it\<lparr>ibody := p\<rparr>)"
  proof (cases "ibody it")
    case None
    then have "it' = it" "w' = w" using assms(3) by (simp_all add: body_Clone_def)
    moreover have "it = it\<lparr>ibody := ibody it\<rparr>" by simp
    ultimately show ?thesis using assms(1) None by (metis iref_None add_0_right)
  next
    case (Some a)
    with owned_live [OF assms(1,2)] obtain b where b: "bodies w a = Some b" by blast
    obtain a' w1 where n: "new_body (body_clone cls b) w = (a', w1)" by (cases "new_body (body_clone cls b) w")
    show ?thesis using new_body_owned [OF assms(1) n] assms(3) Some b n by (auto simp: body_Clone_def)
  qed
  then show "owned w' (R + iref it')" "\<exists>p. it' = it\<lparr>ibody := p\<rparr>" by auto
qed

lemma sum_list_update:
  fixes f :: "'a \<Rightarrow> 'c :: comm_monoid_add"
  assumes "i < length xs"
  shows "sum_list (map f (xs[i := x])) + f (xs ! i) = sum_list (map f xs) + f x"
  using assms
proof (induction xs arbitrary: i)
  case (Cons y ys)
  then show ?case
  proof (cases i)
    case (Suc j)
    then have "sum_list (map f (ys[j := x])) + f (ys ! j) = sum_list (map f ys) + f x" using Cons by simp
    then show ?thesis using Suc by (simp add: add.assoc)
  qed (simp add: ac_simps)
qed simp

lemma iref_le_refs: "i < length xs \<Longrightarrow> iref (xs ! i) \<subseteq># refs xs"
  by (induction xs arbitrary: i) (auto simp: nth_Cons' intro: subset_mset.add_increasing subset_mset.order_trans)

subsection \<open>Well-formed items and lists\<close>

text \<open>\<open>lim\<close> is the stack limit of each item type in the templates.\<close>

definition item_ok :: "(int \<Rightarrow> nat) \<Rightarrow> item \<Rightarrow> bool" where
  "item_ok lim it \<longleftrightarrow>
     (if itype it = -1 then ibody it = None
      else 0 < icount it \<and> icount it \<le> pile_limit it \<and> pile_limit it = lim (itype it) \<and> pile_limit it < 2 ^ 31)"

definition list_ok :: "(int \<Rightarrow> nat) \<Rightarrow> item_list \<Rightarrow> bool" where
  "list_ok lim L \<longleftrightarrow> (\<forall>it \<in> set (slots L). item_ok lim it)
     \<and> empties L = length (filter (\<lambda>it. itype it = -1) (slots L)) \<and> length (slots L) < 2 ^ 31"

definition held :: "int \<Rightarrow> item list \<Rightarrow> nat" where
  "held t xs = sum_list (map (\<lambda>it. if itype it = t then icount it else 0) xs)"

definition amount :: "int \<Rightarrow> item \<Rightarrow> nat" where
  "amount t it = (if itype it = t then icount it else 0)"

text \<open>A list, an item in hand and the rest of the world \<open>F\<close>, all in order.\<close>

definition sound :: "(int \<Rightarrow> nat) \<Rightarrow> nat multiset \<Rightarrow> ('b, 'o) world \<Rightarrow> item_list \<Rightarrow> item \<Rightarrow> bool" where
  "sound lim F w L it \<longleftrightarrow> owned w (F + refs (slots L) + iref it) \<and> list_ok lim L \<and> item_ok lim it"

lemma item_ok_Clear [simp]: "item_ok lim (item_Clear it)"
  by (simp add: item_ok_def item_Clear_def)

lemma itype_Clear [simp]: "itype (item_Clear it) = -1" "ibody (item_Clear it) = None"
  by (simp_all add: item_Clear_def)

lemma item_ok_nth: "list_ok lim L \<Longrightarrow> i < length (slots L) \<Longrightarrow> item_ok lim (slots L ! i)"
  by (simp add: list_ok_def)

lemma iref_empty: "item_ok lim it \<Longrightarrow> itype it = -1 \<Longrightarrow> iref it = {#}"
  by (simp add: item_ok_def iref_None)

lemma slots_simps [simp]:
  "slots (set_slot i it L) = (slots L)[i := it]" "slots (dec_empty L) = slots L" "slots (inc_empty L) = slots L"
  "location_of (set_slot i it L) = location_of L" "location_of (dec_empty L) = location_of L"
  "location_of (inc_empty L) = location_of L" "empties (set_slot i it L) = empties L"
  by (simp_all add: set_slot_def dec_empty_def inc_empty_def)

lemma held_update:
  "i < length xs \<Longrightarrow> held t (xs[i := x]) + amount t (xs ! i) = held t xs + amount t x"
  using sum_list_update [of i xs "amount t" x] by (simp add: held_def amount_def [abs_def])

lemma sz_nat [simp]:
  "n < 2 ^ 64 \<Longrightarrow> sz (int n) = n" "m + n < 2 ^ 64 \<Longrightarrow> sz (int m + int n) = m + n"
  "0 < n \<Longrightarrow> n \<le> 2 ^ 64 \<Longrightarrow> sz (int n - 1) = n - 1" "n + 1 < 2 ^ 64 \<Longrightarrow> sz (int n + 1) = n + 1"
  "n \<le> m \<Longrightarrow> m < 2 ^ 64 \<Longrightarrow> sz (int m - int n) = m - n"
  by (simp_all add: sz_def nat_add_distrib nat_diff_distrib)

text \<open>The number of empty slots after one slot is changed and the counter follows.\<close>

lemma list_ok_set:
  assumes "list_ok lim L" "i < length (slots L)" "item_ok lim it" "itype it = -1 \<longleftrightarrow> itype (slots L ! i) = -1"
  shows "list_ok lim (set_slot i it L)"
  using assms filter_update_count [OF assms(2), of "\<lambda>it. itype it = -1" it]
  by (auto simp: list_ok_def dest!: set_update_subset_insert [THEN subsetD] split: if_splits)

lemma filter_small: "list_ok lim L \<Longrightarrow> length (filter P (slots L)) < 2 ^ 31"
  using le_less_trans [OF length_filter_le] by (auto simp: list_ok_def)

lemma list_ok_fill:
  assumes "list_ok lim L" "i < length (slots L)" "item_ok lim it" "itype it \<noteq> -1" "itype (slots L ! i) = -1"
  shows "list_ok lim (dec_empty (set_slot i it L))"
proof -
  let ?n = "length (filter (\<lambda>it. itype it = -1) (slots L))"
  have n: "length (filter (\<lambda>it. itype it = -1) ((slots L)[i := it])) + 1 = ?n"
    using filter_update_count [OF assms(2), of "\<lambda>it. itype it = -1" it] assms(4,5) by simp
  have "sz (int ?n - 1) = ?n - 1" using filter_small [OF assms(1), of "\<lambda>it. itype it = -1"] n by (intro sz_nat(3)) auto
  then show ?thesis
    using assms(1,3) n by (auto simp: list_ok_def dec_empty_def dest!: set_update_subset_insert [THEN subsetD])
qed

lemma list_ok_free:
  assumes "list_ok lim L" "i < length (slots L)" "item_ok lim it" "itype it = -1" "itype (slots L ! i) \<noteq> -1"
  shows "list_ok lim (set_slot i it (inc_empty L))"
proof -
  let ?n = "length (filter (\<lambda>it. itype it = -1) (slots L))"
  have n: "length (filter (\<lambda>it. itype it = -1) ((slots L)[i := it])) = ?n + 1"
    using filter_update_count [OF assms(2), of "\<lambda>it. itype it = -1" it] assms(4,5) by simp
  have "sz (int ?n + 1) = ?n + 1" using filter_small [OF assms(1), of "\<lambda>it. itype it = -1"] by (intro sz_nat(4)) simp
  then show ?thesis
    using assms(1,3) n by (auto simp: list_ok_def inc_empty_def dest!: set_update_subset_insert [THEN subsetD])
qed

subsection \<open>One slot at a time\<close>

lemma refs_fill:
  "i < length xs \<Longrightarrow> iref (xs ! i) = {#} \<Longrightarrow> refs (xs[i := it]) = refs xs + iref it"
  using sum_list_update [of i xs iref it] by simp

lemma refs_free:
  "i < length xs \<Longrightarrow> iref it = {#} \<Longrightarrow> refs (xs[i := it]) + iref (xs ! i) = refs xs"
  using sum_list_update [of i xs iref it] by simp

lemma refs_same:
  "i < length xs \<Longrightarrow> iref it = iref (xs ! i) \<Longrightarrow> refs (xs[i := it]) = refs xs"
  using sum_list_update [of i xs iref it] by simp

text \<open>An item in hand is put into an empty slot.\<close>

lemma place_sound:
  assumes "sound lim F w L it" "i < length (slots L)" "itype (slots L ! i) = -1" "itype it \<noteq> -1"
    and "place cls i it L w = (L', w')"
  shows "sound lim F w' L' (item_Clear it)"
    "slots L' = (slots L)[i := it]" "location_of L' = location_of L"
proof -
  have ok: "list_ok lim L" "item_ok lim it" "owned w (F + refs (slots L) + iref it)"
    using assms(1) by (simp_all add: sound_def)
  have e: "iref (slots L ! i) = {#}" by (rule iref_empty [OF item_ok_nth [OF ok(1) assms(2)] assms(3)])
  have R: "F + refs (slots L) + iref it = F + refs ((slots L)[i := it]) + {#}"
    using refs_fill [OF assms(2) e, of it] by (simp add: add.assoc)
  have "owned (item_PutIn cls l xs i it w) (F + refs (slots L) + iref it)" for l xs
    by (rule PutIn_owned [OF ok(3)]) simp
  moreover have "list_ok lim (dec_empty (set_slot i it L))"
    by (rule list_ok_fill [OF ok(1) assms(2) ok(2) assms(4,3)])
  ultimately show "sound lim F w' L' (item_Clear it)" "slots L' = (slots L)[i := it]" "location_of L' = location_of L"
    using assms(5) unfolding R by (auto simp: place_def Let_def sound_def)
qed

text \<open>An occupied slot is emptied and its item released.\<close>

lemma discard_sound:
  assumes "sound lim F w L h" "i < length (slots L)" "itype (slots L ! i) \<noteq> -1" "discard cls i L w = (L', w')"
  shows "sound lim F w' L' h" "slots L' = (slots L)[i := item_Clear (slots L ! i)]"
proof -
  have ok: "list_ok lim L" "item_ok lim h" "owned w (F + refs (slots L) + iref h)"
    using assms(1) by (simp_all add: sound_def)
  let ?it = "slots L ! i"
  let ?w = "item_TakeOut cls (location_of L) i ?it w"
  have le: "iref ?it \<subseteq># F + refs (slots L) + iref h"
    using iref_le_refs [OF assms(2)] by (simp add: subset_mset.add_increasing2 subset_mset.add_increasing)
  have "owned ?w (F + refs (slots L) + iref h)" by (rule TakeOut_owned [OF ok(3) le])
  then have o: "owned ?w (F + refs ((slots L)[i := item_Clear ?it]) + iref h + iref ?it)"
    using refs_free [OF assms(2), of "item_Clear ?it"] by (simp add: ac_simps)
  obtain it2 w2 where r: "item_Release ?it ?w = (it2, w2)" by (cases "item_Release ?it ?w")
  note rel = Release_owned [OF o r]
  have "list_ok lim (set_slot i (item_Clear ?it) (inc_empty L))"
    by (rule list_ok_free [OF ok(1) assms(2) item_ok_Clear itype_Clear(1) assms(3)])
  then show "sound lim F w' L' h" "slots L' = (slots L)[i := item_Clear ?it]"
    using rel assms(4) r ok(2) by (auto simp: discard_def Let_def sound_def)
qed

text \<open>The count of a stack changes.\<close>

lemma recount_sound:
  assumes "sound lim F w L h" "i < length (slots L)" "itype (slots L ! i) \<noteq> -1"
    and "0 < n" "n \<le> pile_limit (slots L ! i)"
  shows "sound lim F w (set_slot i ((slots L ! i)\<lparr>icount := n\<rparr>) L) h"
proof -
  have ok: "list_ok lim L" "item_ok lim h" "owned w (F + refs (slots L) + iref h)"
    using assms(1) by (simp_all add: sound_def)
  have i: "item_ok lim ((slots L ! i)\<lparr>icount := n\<rparr>)"
    using item_ok_nth [OF ok(1) assms(2)] assms(3-5) by (simp add: item_ok_def)
  have "list_ok lim (set_slot i ((slots L ! i)\<lparr>icount := n\<rparr>) L)"
    by (rule list_ok_set [OF ok(1) assms(2) i]) simp
  then show ?thesis using ok refs_same [OF assms(2), of "(slots L ! i)\<lparr>icount := n\<rparr>"] by (simp add: sound_def)
qed

subsection \<open>Piling\<close>

definition room :: "int \<Rightarrow> item list \<Rightarrow> nat" where
  "room t xs = sum_list (map (\<lambda>it. if itype it = t then pile_limit it - icount it else 0) xs)"

text \<open>What one slot takes: as much as fits.\<close>

lemma pile_amount:
  assumes "n < 2 ^ 31" "icount it < pile_limit it" "pile_limit it < 2 ^ 31"
  shows "(let tmp = int32 (int n) in
      if pile_limit it < sz (tmp + int (icount it)) then int32 (int (pile_limit it) - int (icount it)) else tmp)
    = int (min n (pile_limit it - icount it))"
proof -
  have "int32 (int n) = int n" using assms(1) by simp
  moreover have "sz (int n + int (icount it)) = n + icount it" using assms by simp
  moreover have "int32 (int (pile_limit it) - int (icount it)) = int (pile_limit it) - int (icount it)"
    using assms by simp
  ultimately show ?thesis using assms(2) by (auto simp: Let_def min_def of_nat_diff)
qed

lemma try_pile_Cons:
  assumes "item_ok lim it" "n < 2 ^ 31" "t \<noteq> -1"
  shows "try_pile t i (it # xs) n pe last1 =
     (if itype it = -1 then
        let (ys, r) = try_pile t (i + 1) xs n (if pe = None then Some i else pe) last1 in (it # ys, r)
      else if itype it = t \<and> icount it < pile_limit it then
        let k = min n (pile_limit it - icount it); it = it\<lparr>icount := icount it + k\<rparr>
        in if k < n then let (ys, r) = try_pile t (i + 1) xs (n - k) pe (int i) in (it # ys, r)
           else (it # xs, 0, pe, int i)
      else let (ys, r) = try_pile t (i + 1) xs n pe last1 in (it # ys, r))"
proof (cases "itype it \<noteq> -1 \<and> itype it = t \<and> icount it < pile_limit it")
  case True
  let ?k = "min n (pile_limit it - icount it)"
  have lim: "pile_limit it < 2 ^ 31" using assms(1) True by (auto simp: item_ok_def)
  have k: "sz (int (icount it) + int ?k) = icount it + ?k" "sz (int n - int ?k) = n - ?k"
    using lim True assms(2) by (auto intro!: sz_nat(2,5))
  have pos: "0 < n - ?k \<longleftrightarrow> ?k < n" by auto
  show ?thesis
    using True pile_amount [OF assms(2) _ lim] k assms(3) unfolding Let_def
    by (simp add: pos) (auto simp: min_def)
next
  case False
  then show ?thesis by auto
qed

lemma try_pile_ok:
  assumes "\<forall>it \<in> set xs. item_ok lim it" "n < 2 ^ 31" "t \<noteq> -1" "try_pile t i xs n pe last1 = (ys, m, pe', r)"
  shows "length ys = length xs \<and> (\<forall>it \<in> set ys. item_ok lim it) \<and> refs ys = refs xs \<and> map itype ys = map itype xs
    \<and> held t ys + m = held t xs + n \<and> (\<forall>u. u \<noteq> t \<longrightarrow> held u ys = held u xs) \<and> m = n - room t xs
    \<and> (pe' = pe \<or> pe = None \<and> (\<exists>k < length xs. pe' = Some (i + k) \<and> itype (xs ! k) = -1))
    \<and> (0 < m \<longrightarrow> (\<forall>it \<in> set ys. itype it = t \<longrightarrow> icount it = pile_limit it)
        \<and> (pe' = None \<longrightarrow> (\<forall>it \<in> set ys. itype it \<noteq> -1)))"
  using assms
proof (induction xs arbitrary: i n pe last1 ys m pe' r)
  case Nil
  then show ?case by (simp add: room_def)
next
  case (Cons it xs)
  have ok: "item_ok lim it" "\<forall>it \<in> set xs. item_ok lim it" using Cons.prems(1) by simp_all
  note step = try_pile_Cons [OF ok(1) Cons.prems(2,3), of i xs pe last1]
  note run = Cons.prems(4) [unfolded step]
  note IH = Cons.IH [OF ok(2) _ Cons.prems(3)]
  consider (empty) "itype it = -1" | (pile) "itype it \<noteq> -1" "itype it = t" "icount it < pile_limit it"
    | (other) "itype it \<noteq> -1" "\<not> (itype it = t \<and> icount it < pile_limit it)" by blast
  then show ?case
  proof cases
    case empty
    obtain zs where z: "try_pile t (i + 1) xs n (if pe = None then Some i else pe) last1 = (zs, m, pe', r)" "ys = it # zs"
      using run empty by (auto split: prod.splits)
    note h = IH [OF Cons.prems(2) z(1)]
    have "pe' = pe \<or> pe = None \<and> (\<exists>k < length (it # xs). pe' = Some (i + k) \<and> itype ((it # xs) ! k) = -1)"
      using h empty by (cases pe) auto
    then show ?thesis using h z(2) empty ok(1) Cons.prems(3) by (cases pe) (auto simp: held_def room_def)
  next
    case other
    obtain zs where z: "try_pile t (i + 1) xs n pe last1 = (zs, m, pe', r)" "ys = it # zs"
      using run other by (auto split: prod.splits)
    note h = IH [OF Cons.prems(2) z(1)]
    have "pe' = pe \<or> pe = None \<and> (\<exists>k < length (it # xs). pe' = Some (i + k) \<and> itype ((it # xs) ! k) = -1)"
      using h by (metis add_Suc_right add_Suc_shift Suc_eq_plus1 length_Cons not_less_eq nth_Cons_Suc)
    moreover have "itype it = t \<longrightarrow> icount it = pile_limit it" using other ok(1) by (auto simp: item_ok_def)
    ultimately show ?thesis using h z(2) other ok(1) by (auto simp: held_def room_def item_ok_def)
  next
    case pile
    define k where "k = min n (pile_limit it - icount it)"
    let ?it = "it\<lparr>icount := icount it + k\<rparr>"
    have it: "item_ok lim ?it" "k \<le> n" "icount it + k \<le> pile_limit it"
      using ok(1) pile by (auto simp: item_ok_def k_def)
    show ?thesis
    proof (cases "k < n")
      case True
      obtain zs where z: "try_pile t (i + 1) xs (n - k) pe (int i) = (zs, m, pe', r)" "ys = ?it # zs"
        using run [unfolded Let_def, folded k_def] pile True by (auto split: prod.splits)
      have "n - k < 2 ^ 31" using Cons.prems(2) by simp
      note h = IH [OF this z(1)]
      have "pe' = pe \<or> pe = None \<and> (\<exists>k < length (it # xs). pe' = Some (i + k) \<and> itype ((it # xs) ! k) = -1)"
        using h by (metis add_Suc_right add_Suc_shift Suc_eq_plus1 length_Cons not_less_eq nth_Cons_Suc)
      moreover have "icount it + k = pile_limit it" using True pile by (simp add: k_def min_def split: if_splits)
      ultimately show ?thesis using h z(2) pile it True by (auto simp: held_def room_def)
    next
      case False
      then have "ys = ?it # xs" "m = 0" "pe' = pe" "k = n"
        using run [unfolded Let_def, folded k_def] pile it(2) by auto
      then show ?thesis using pile it(1,3) ok(2) by (auto simp: held_def room_def)
    qed
  qed
qed

lemma find_empty_ok: "find_empty i xs = Some k \<Longrightarrow> i \<le> k \<and> k - i < length xs \<and> itype (xs ! (k - i)) = -1"
proof (induction xs arbitrary: i)
  case (Cons x xs)
  then show ?case by (cases "itype x = -1") (fastforce simp: nth_Cons' Suc_diff_le)+
qed simp

lemma find_empty_None: "find_empty i xs = None \<longleftrightarrow> (\<forall>it \<in> set xs. itype it \<noteq> -1)"
  by (induction xs arbitrary: i) auto


subsection \<open>Insertion\<close>

definition data_ok :: "(int \<Rightarrow> nat) \<Rightarrow> item_data \<Rightarrow> bool" where
  "data_ok lim d \<longleftrightarrow> d_type d \<noteq> -1 \<and> 0 < d_count d \<and> d_count d \<le> d_pile_limit d
     \<and> d_pile_limit d = lim (d_type d) \<and> d_pile_limit d < 2 ^ 31"

text \<open>The body of the item the data describe can be built.\<close>

definition loads :: "('b, 'o) body_class \<Rightarrow> item_data \<Rightarrow> bool" where
  "loads cls d \<longleftrightarrow> (0 < d_classid d \<longrightarrow> body_load cls (d_classid d) (d_type d) (d_content d) \<noteq> None)"

lemma MakeItemEntry_owned:
  assumes "owned w R" "ibody raw = None" "MakeItemEntry cls d raw w = (ok, it, w')"
  shows "if ok then owned w' (R + iref it) \<and> itype it = d_type d \<and> icount it = d_count d \<and> pile_limit it = d_pile_limit d
     else owned w' R \<and> ibody it = None" "ok \<longleftrightarrow> loads cls d"
proof -
  have "(if ok then owned w' (R + iref it) \<and> itype it = d_type d \<and> icount it = d_count d \<and> pile_limit it = d_pile_limit d
     else owned w' R \<and> ibody it = None) \<and> (ok \<longleftrightarrow> loads cls d)"
  proof (cases "0 < d_classid d")
    case False
    then show ?thesis using assms by (auto simp: MakeItemEntry_def loads_def Let_def iref_None)
  next
    case True
    show ?thesis
    proof (cases "body_load cls (d_classid d) (d_type d) (d_content d)")
      case None
      then show ?thesis using assms True by (auto simp: MakeItemEntry_def LoadBody_def loads_def Let_def)
    next
      case (Some b)
      obtain a w1 where n: "new_body b w = (a, w1)" by (cases "new_body b w")
      show ?thesis using new_body_owned [OF assms(1) n] assms(2,3) True Some n
        by (auto simp: MakeItemEntry_def LoadBody_def loads_def Let_def iref_def)
    qed
  qed
  then show "if ok then owned w' (R + iref it) \<and> itype it = d_type d \<and> icount it = d_count d \<and> pile_limit it = d_pile_limit d
     else owned w' R \<and> ibody it = None" "ok \<longleftrightarrow> loads cls d" by simp_all
qed

lemma held_fill:
  assumes "i < length xs" "itype (xs ! i) = -1" "t \<noteq> -1"
  shows "held t (xs[i := it]) = held t xs + amount t it"
  using held_update [OF assms(1), of t it] assms(2,3) by (simp add: amount_def)

text \<open>The shared first half of the insertions: piling, or the search for an empty slot.\<close>

definition pile_or_find :: "nat \<Rightarrow> int \<Rightarrow> nat \<Rightarrow> item list \<Rightarrow> item list \<times> nat \<times> nat option \<times> int" where
  "pile_or_find p t n xs = (if 1 < p then try_pile t 0 xs n None (-1) else (xs, n, find_empty 0 xs, -1))"

lemma pile_or_find_ok:
  assumes "sound lim F w L h" "n < 2 ^ 31" "t \<noteq> -1" "p = lim t" "pile_or_find p t n (slots L) = (xs, m, pe, r)"
  shows "sound lim F w (L\<lparr>slots := xs\<rparr>) h" "length xs = length (slots L)"
    "held t xs + m = held t (slots L) + n" "\<And>u. u \<noteq> t \<Longrightarrow> held u xs = held u (slots L)"
    "m = (if 1 < p then n - room t (slots L) else n)"
    "\<And>k. pe = Some k \<Longrightarrow> k < length (slots L) \<and> itype (xs ! k) = -1 \<and> itype (slots L ! k) = -1"
    "0 < m \<Longrightarrow> pe = None \<Longrightarrow> \<forall>it \<in> set (slots L). itype it \<noteq> -1"
proof -
  have ok: "\<forall>it \<in> set (slots L). item_ok lim it" using assms(1) by (simp add: sound_def list_ok_def)
  have "length xs = length (slots L) \<and> (\<forall>it \<in> set xs. item_ok lim it) \<and> refs xs = refs (slots L) \<and> map itype xs = map itype (slots L)
    \<and> held t xs + m = held t (slots L) + n \<and> (\<forall>u. u \<noteq> t \<longrightarrow> held u xs = held u (slots L))
    \<and> m = (if 1 < p then n - room t (slots L) else n)
    \<and> (\<forall>k. pe = Some k \<longrightarrow> k < length (slots L) \<and> itype (slots L ! k) = -1)
    \<and> (0 < m \<longrightarrow> pe = None \<longrightarrow> (\<forall>it \<in> set xs. itype it \<noteq> -1))"
  proof (cases "1 < p")
    case True
    then have tp: "try_pile t 0 (slots L) n None (-1) = (xs, m, pe, r)" using assms(5) by (simp add: pile_or_find_def)
    show ?thesis using try_pile_ok [OF ok assms(2,3) tp] True by auto
  next
    case False
    then have "xs = slots L" "m = n" "pe = find_empty 0 (slots L)" using assms(5) False by (auto simp: pile_or_find_def)
    then show ?thesis using ok False find_empty_ok [of 0 "slots L"] find_empty_None [of 0 "slots L"] by auto
  qed
  note a = this
  have ty: "map itype xs = map itype (slots L)" using a by blast
  have len: "length (filter (\<lambda>it. itype it = -1) ys) = length (filter (\<lambda>x. x = -1) (map itype ys))" for ys
    by (induction ys) auto
  have "list_ok lim (L\<lparr>slots := xs\<rparr>)" using a assms(1) len [of xs] len [of "slots L"] by (simp add: sound_def list_ok_def)
  then show "sound lim F w (L\<lparr>slots := xs\<rparr>) h" using a assms(1) by (simp add: sound_def)
  have eq: "(\<forall>it \<in> set xs. itype it \<noteq> -1) \<longleftrightarrow> (\<forall>it \<in> set (slots L). itype it \<noteq> -1)"
  proof -
    have "(\<forall>x \<in> set (map itype xs). x \<noteq> -1) \<longleftrightarrow> (\<forall>x \<in> set (map itype (slots L)). x \<noteq> -1)" by (simp only: ty)
    then show ?thesis by simp
  qed
  show "length xs = length (slots L)" "held t xs + m = held t (slots L) + n"
    "\<And>u. u \<noteq> t \<Longrightarrow> held u xs = held u (slots L)" "m = (if 1 < p then n - room t (slots L) else n)" using a by blast+
  show "k < length (slots L) \<and> itype (xs ! k) = -1 \<and> itype (slots L ! k) = -1" if "pe = Some k" for k
    using a that ty by (metis length_map nth_map)
  show "\<forall>it \<in> set (slots L). itype it \<noteq> -1" if "0 < m" "pe = None" using a that eq by blast
qed


text \<open>\<open>Push(item_data &)\<close>\<close>

lemma Push_data_sound:
  assumes "sound lim F w L h" "data_ok lim d" "ibody raw = None" "Push_data cls raw d L w = (rst, d', L', w')"
  shows "sound lim F w' L' h" "held (d_type d) (slots L') + d_count d' = held (d_type d) (slots L) + d_count d"
    "\<And>u. u \<noteq> d_type d \<Longrightarrow> u \<noteq> -1 \<Longrightarrow> held u (slots L') = held u (slots L)"
    "d_count d' = (if loads cls d \<and> empties L \<noteq> 0 then 0
                   else if 1 < d_pile_limit d then d_count d - room (d_type d) (slots L) else d_count d)"
proof -
  have d: "d_type d \<noteq> -1" "d_count d < 2 ^ 31" "d_pile_limit d = lim (d_type d)" "0 < d_count d"
    using assms(2) by (auto simp: data_ok_def)
  obtain xs n pe r where p: "pile_or_find (d_pile_limit d) (d_type d) (d_count d) (slots L) = (xs, n, pe, r)"
    by (metis prod_cases4)
  note P = pile_or_find_ok [OF assms(1) d(2,1,3) p]
  let ?d = "d\<lparr>d_count := n\<rparr>" and ?L = "L\<lparr>slots := xs\<rparr>"
  have run: "Push_data cls raw d L w =
     (if 1 < d_pile_limit d \<and> (n = 0 \<or> n \<noteq> d_count d \<and> pe = None) then (r, ?d, ?L, w)
      else case pe of None \<Rightarrow> (-1, ?d, ?L, w)
        | Some i \<Rightarrow> (case MakeItemEntry cls ?d raw w of
              (False, it, w) \<Rightarrow> (-1, ?d, ?L, item_dtor (item_Clear it) w)
            | (True, it, w) \<Rightarrow> (let (L, w) = place cls i it ?L w in (int32 (int i), ?d\<lparr>d_count := 0\<rparr>, L, w))))"
    using d(1) p unfolding Push_data_def pile_or_find_def by (simp add: Let_def)
  have empt: "empties L \<noteq> 0 \<longleftrightarrow> \<not> (\<forall>it \<in> set (slots L). itype it \<noteq> -1)"
    using assms(1) by (auto simp: sound_def list_ok_def filter_empty_conv)
  have full: "empties L = 0" if "0 < n" "pe = None" using P(7) [OF that] empt by blast
  have "1 < d_pile_limit d" if "n = 0" using P(5) d(4) that by (auto split: if_splits)
  then consider (piled) "1 < d_pile_limit d" "n = 0" | (none) "0 < n" "pe = None" | (slot) i where "0 < n" "pe = Some i"
    by (cases "n = 0"; cases pe) auto
  then have "sound lim F w' L' h \<and> held (d_type d) (slots L') + d_count d' = held (d_type d) (slots L) + d_count d
    \<and> (\<forall>u. u \<noteq> d_type d \<longrightarrow> u \<noteq> -1 \<longrightarrow> held u (slots L') = held u (slots L))
    \<and> d_count d' = (if loads cls d \<and> empties L \<noteq> 0 then 0
                   else if 1 < d_pile_limit d then d_count d - room (d_type d) (slots L) else d_count d)"
  proof cases
    case piled
    then have "d' = ?d" "L' = ?L" "w' = w" using assms(4) run by simp_all
    then show ?thesis using P(1,3,4,5) piled by auto
  next
    case none
    then have "d' = ?d" "L' = ?L" "w' = w" using assms(4) run by (auto split: if_splits)
    then show ?thesis using P(1,3,4,5) none full by auto
  next
    case slot
    have i: "i < length (slots ?L)" "itype (slots ?L ! i) = -1" using P(2) P(6) [OF slot(2)] by simp_all
    have "itype (slots L ! i) = -1" "i < length (slots L)"
      using P(6) [OF slot(2)] by simp_all
    then have "empties L \<noteq> 0" using empt by auto
    obtain ok it w1 where m: "MakeItemEntry cls ?d raw w = (ok, it, w1)" by (metis prod_cases3)
    have own: "owned w (F + iref h + refs (slots ?L))" using P(1) by (simp add: sound_def ac_simps)
    note M = MakeItemEntry_owned [OF own assms(3) m]
    show ?thesis
    proof (cases ok)
      case False
      then have "d' = ?d" "L' = ?L" "w' = w1" using assms(4) run slot m by (auto simp: item_dtor_def)
      moreover have "\<not> loads cls d" using M(2) False by (simp add: loads_def)
      moreover have "sound lim F w1 ?L h" using M(1) False P(1) by (simp add: sound_def ac_simps)
      ultimately show ?thesis using P(3,4,5) by auto
    next
      case True
      obtain L1 w2 where pl: "place cls i it ?L w1 = (L1, w2)" by (cases "place cls i it ?L w1")
      have it: "item_ok lim it" "itype it \<noteq> -1"
        using M(1) True assms(2) P(5) slot(1) by (auto simp: item_ok_def data_ok_def split: if_splits)
      have s: "sound lim (F + iref h) w1 ?L it" using M(1) True P(1) it by (simp add: sound_def ac_simps)
      note S = place_sound [OF s i it(2) pl]
      have "d' = ?d\<lparr>d_count := 0\<rparr>" "L' = L1" "w' = w2" using assms(4) run slot m True pl by auto
      moreover have "held u (slots L1) = held u xs + amount u it" if "u \<noteq> -1" for u
        using held_fill [of i xs u it] i S(2) that by simp
      moreover have "loads cls d" using M(2) True by (simp add: loads_def)
      moreover have "sound lim F w2 L1 h" using S(1) P(1) by (simp add: sound_def ac_simps)
      ultimately show ?thesis using P(3,4) M(1) True d(1) \<open>empties L \<noteq> 0\<close> by (auto simp: amount_def)
    qed
  qed
  then show "sound lim F w' L' h" "held (d_type d) (slots L') + d_count d' = held (d_type d) (slots L) + d_count d"
    "\<And>u. u \<noteq> d_type d \<Longrightarrow> u \<noteq> -1 \<Longrightarrow> held u (slots L') = held u (slots L)"
    "d_count d' = (if loads cls d \<and> empties L \<noteq> 0 then 0
                   else if 1 < d_pile_limit d then d_count d - room (d_type d) (slots L) else d_count d)" by blast+
qed


text \<open>The insertion of an item in hand: what is not placed stays in hand.\<close>

definition conserved :: "item_list \<Rightarrow> item \<Rightarrow> item_list \<Rightarrow> item \<Rightarrow> bool" where
  "conserved L it L' it' \<longleftrightarrow>
     (\<forall>u. u \<noteq> -1 \<longrightarrow> held u (slots L') + amount u it' = held u (slots L) + amount u it)"

lemma amount_simps [simp]:
  "u \<noteq> -1 \<Longrightarrow> amount u (item_Clear it) = 0" "amount u (it\<lparr>icount := n\<rparr>) = (if itype it = u then n else 0)"
  "u \<noteq> -1 \<Longrightarrow> itype it = -1 \<Longrightarrow> amount u it = 0" "amount u (it\<lparr>ibody := x\<rparr>) = amount u it"
  by (simp_all add: amount_def)

lemma item_okD:
  assumes "item_ok lim it" "itype it \<noteq> -1"
  shows "0 < icount it" "icount it \<le> pile_limit it" "pile_limit it = lim (itype it)" "pile_limit it < 2 ^ 31"
  using assms by (simp_all add: item_ok_def)

lemma Push_item_sound:
  assumes "sound lim F w L it" "itype it \<noteq> -1" "Push_item cls it L w = (rst, it', L', w')"
  shows "sound lim F w' L' it'" "conserved L it L' it'"
proof -
  note i = item_okD [OF _ assms(2)]
  have ok: "item_ok lim it" using assms(1) by (simp add: sound_def)
  have small: "icount it < 2 ^ 31" using i(2,4) [OF ok] by simp
  obtain xs n pe r where p: "pile_or_find (pile_limit it) (itype it) (icount it) (slots L) = (xs, n, pe, r)"
    by (metis prod_cases4)
  note P = pile_or_find_ok [OF assms(1) small assms(2) i(3) [OF ok] p]
  let ?it = "it\<lparr>icount := n\<rparr>" and ?L = "L\<lparr>slots := xs\<rparr>"
  have run: "Push_item cls it L w =
     (if empties L = 0 \<and> pile_limit it \<le> 1 then (-1, it, L, w)
      else if 1 < pile_limit it \<and> n = 0 then (let (it, w) = item_Release ?it w in (r, it, ?L, w))
      else if 1 < pile_limit it \<and> n \<noteq> icount it \<and> pe = None then (-1, ?it, ?L, w)
      else case pe of None \<Rightarrow> (-1, ?it, ?L, w)
        | Some i \<Rightarrow> (let (L, w) = place cls i ?it ?L w in (int32 (int i), item_Clear ?it, L, w)))"
    using assms(2) p unfolding Push_item_def pile_or_find_def
    by (cases "1 < pile_limit it") (auto simp: Let_def)
  have n0: "0 < n" if "\<not> 1 < pile_limit it" using P(5) i(1) [OF ok] that by simp
  have held: "held u xs + amount u ?it = held u (slots L) + amount u it" for u
    using P(3,4) by (cases "u = itype it") (auto simp: amount_def)
  have hand: "sound lim F w ?L ?it" if "0 < n"
    using P(1,5) that ok assms(2) by (auto simp: sound_def item_ok_def)
  consider (early) "empties L = 0 \<and> pile_limit it \<le> 1" | (piled) "1 < pile_limit it" "n = 0"
    | (kept) "0 < n" "pe = None" "\<not> (empties L = 0 \<and> pile_limit it \<le> 1)"
    | (slot) k where "0 < n" "pe = Some k" "\<not> (empties L = 0 \<and> pile_limit it \<le> 1)"
    using n0 by (metis gr0I option.exhaust)
  then have "sound lim F w' L' it' \<and> conserved L it L' it'"
  proof cases
    case early
    then show ?thesis using assms(1,3) run by (auto simp: conserved_def)
  next
    case piled
    obtain it2 w2 where r: "item_Release ?it w = (it2, w2)" by (cases "item_Release ?it w")
    have "owned w (F + refs xs + iref ?it)" using P(1) by (simp add: sound_def)
    note rel = Release_owned [OF this r]
    have "\<not> (empties L = 0 \<and> pile_limit it \<le> 1)" using piled by simp
    then have "L' = ?L" "it' = it2" "w' = w2" using assms(3) run piled r by simp_all
    then show ?thesis using rel P(1) held piled by (auto simp: sound_def conserved_def)
  next
    case kept
    then have "L' = ?L" "it' = ?it" "w' = w" using assms(3) run by (auto split: if_splits)
    then show ?thesis using hand kept held by (simp add: conserved_def)
  next
    case slot
    obtain L1 w1 where pl: "place cls k ?it ?L w = (L1, w1)" by (cases "place cls k ?it ?L w")
    have k: "k < length (slots ?L)" "itype (slots ?L ! k) = -1" using P(2) P(6) [OF slot(2)] by simp_all
    have ty: "itype ?it \<noteq> -1" using assms(2) by simp
    note S = place_sound [OF hand [OF slot(1)] k ty pl]
    have "L' = L1" "it' = item_Clear ?it" "w' = w1" using assms(3) run slot pl by (auto split: if_splits)
    moreover have "held u (slots L1) = held u xs + amount u ?it" if "u \<noteq> -1" for u
      using held_fill [of k xs u ?it] k S(2) that by simp
    ultimately show ?thesis using S(1) held by (auto simp: conserved_def)
  qed
  then show "sound lim F w' L' it'" "conserved L it L' it'" by blast+
qed

lemma find_empty_drop:
  "find_empty s (drop s (slots L)) = Some k \<Longrightarrow> k < length (slots L) \<and> itype (slots L ! k) = -1"
  using find_empty_ok [of s "drop s (slots L)" k] by (cases "s \<le> length (slots L)") auto

lemma place_conserved:
  assumes "sound lim F w L it" "i < length (slots L)" "itype (slots L ! i) = -1" "itype it \<noteq> -1"
    and "place cls i it L w = (L', w')"
  shows "conserved L it L' (item_Clear it)"
  using held_fill [OF assms(2,3)] place_sound(2) [OF assms] by (simp add: conserved_def)

lemma PushInEmpty_item_sound:
  assumes "sound lim F w L it" "itype it \<noteq> -1" "PushInEmpty_item cls start it L w = (rst, it', L', w')"
  shows "sound lim F w' L' it'" "conserved L it L' it'"
proof -
  have "sound lim F w' L' it' \<and> conserved L it L' it'"
  proof (cases "find_empty start (drop start (slots L))")
    case None
    then show ?thesis using assms by (simp add: PushInEmpty_item_def conserved_def)
  next
    case (Some k)
    note k = find_empty_drop [OF Some]
    obtain L1 w1 where pl: "place cls k it L w = (L1, w1)" by (cases "place cls k it L w")
    show ?thesis
      using assms(3) Some pl place_sound(1) [OF assms(1) _ _ assms(2) pl] place_conserved [OF assms(1) _ _ assms(2) pl] k
      by (auto simp: PushInEmpty_item_def)
  qed
  then show "sound lim F w' L' it'" "conserved L it L' it'" by blast+
qed

lemma PushInEmpty_data_sound:
  assumes "sound lim F w L h" "data_ok lim (d\<lparr>d_count := sz n\<rparr>)" "ibody raw = None"
    and "PushInEmpty_data cls raw start d n L w = (rst, L', w')"
  shows "sound lim F w' L' h" "u \<noteq> -1 \<Longrightarrow>
      held u (slots L') = held u (slots L) + (if 0 \<le> rst \<and> u = d_type d then sz n else 0)"
proof -
  have n: "sz n \<le> d_pile_limit d" "0 < sz n" "d_type d \<noteq> -1" "d_pile_limit d = lim (d_type d)" "d_pile_limit d < 2 ^ 31"
    using assms(2) by (simp_all add: data_ok_def)
  have "sound lim F w' L' h \<and> (u \<noteq> -1 \<longrightarrow>
      held u (slots L') = held u (slots L) + (if 0 \<le> rst \<and> u = d_type d then sz n else 0))"
  proof (cases "find_empty start (drop start (slots L))")
    case None
    then show ?thesis using assms(1,4) n by (simp add: PushInEmpty_data_def)
  next
    case (Some k)
    note k = find_empty_drop [OF Some]
    obtain ok it w1 where m: "MakeItemEntry cls d raw w = (ok, it, w1)" by (metis prod_cases3)
    have own: "owned w (F + iref h + refs (slots L))" using assms(1) by (simp add: sound_def ac_simps)
    note M = MakeItemEntry_owned [OF own assms(3) m]
    show ?thesis
    proof (cases ok)
      case False
      then show ?thesis using assms(1,4) n Some m M by (simp add: PushInEmpty_data_def item_dtor_def sound_def ac_simps)
    next
      case True
      let ?it = "it\<lparr>icount := sz n\<rparr>"
      obtain L1 w2 where pl: "place cls k ?it L w1 = (L1, w2)" by (cases "place cls k ?it L w1")
      have it: "itype ?it \<noteq> -1" "item_ok lim ?it" using M(1) True n by (simp_all add: item_ok_def)
      have "sound lim (F + iref h) w1 L ?it" using M(1) True it(2) assms(1) by (simp add: sound_def ac_simps)
      note S = place_sound [OF this _ _ it(1) pl]
      have "k < 2 ^ 31" using k assms(1) by (simp add: sound_def list_ok_def)
      moreover have "rst = int32 (int k)" "L' = L1" "w' = w2" using assms(4) n(1) Some m True pl by (auto simp: PushInEmpty_data_def)
      moreover have "held u (slots L1) = held u (slots L) + amount u ?it" if "u \<noteq> -1"
        using held_fill [of k "slots L" u ?it] k S(2) that by simp
      ultimately show ?thesis using S(1) k assms(1) M(1) True by (auto simp: sound_def ac_simps)
    qed
  qed
  then show "sound lim F w' L' h" "u \<noteq> -1 \<Longrightarrow>
      held u (slots L') = held u (slots L) + (if 0 \<le> rst \<and> u = d_type d then sz n else 0)" by blast+
qed


subsection \<open>Replacing and exchanging\<close>

lemma soundD:
  assumes "sound lim F w L h"
  shows "list_ok lim L" "item_ok lim h" "owned w (F + refs (slots L) + iref h)"
  using assms by (simp_all add: sound_def)

lemma ref_le: "i < length (slots L) \<Longrightarrow> iref (slots L ! i) \<subseteq># F + refs (slots L) + R"
  using iref_le_refs [of i "slots L"] by (simp add: subset_mset.add_increasing2 subset_mset.add_increasing)

lemma list_Put_sound:
  assumes "sound lim F w L it" "i < length (slots L)" "list_Put cls i it L w = (b, it', L', w')"
  shows "sound lim F w' L' it'" "conserved L it L' it'"
proof -
  note ok = soundD [OF assms(1)]
  let ?old = "slots L ! i"
  consider (nothing) "itype ?old = -1" "itype it = -1" | (fresh) "itype ?old = -1" "itype it \<noteq> -1"
    | (pile) "itype ?old \<noteq> -1" "itype ?old = itype it" "sz (int (icount ?old) + int (icount it)) \<le> pile_limit ?old"
    | (refuse) "itype ?old \<noteq> -1" "\<not> (itype ?old = itype it \<and> sz (int (icount ?old) + int (icount it)) \<le> pile_limit ?old)"
    by blast
  then have "sound lim F w' L' it' \<and> conserved L it L' it'"
  proof cases
    case nothing
    then show ?thesis using assms by (simp add: list_Put_def conserved_def)
  next
    case refuse
    then show ?thesis using assms by (auto simp: list_Put_def conserved_def)
  next
    case fresh
    obtain L1 w1 where pl: "place cls i it L w = (L1, w1)" by (cases "place cls i it L w")
    then show ?thesis
      using assms fresh place_sound(1) [OF assms(1,2) fresh pl] place_conserved [OF assms(1,2) fresh pl]
      by (auto simp: list_Put_def)
  next
    case pile
    let ?n = "icount ?old + icount it"
    note o = item_okD [OF item_ok_nth [OF ok(1) assms(2)] pile(1)]
    note h = item_okD [OF ok(2)]
    have h': "0 < icount it" "icount it < 2 ^ 31" "pile_limit it = pile_limit ?old"
      using h pile(1,2) o by auto
    have n: "sz (int (icount ?old) + int (icount it)) = ?n" using o h' by simp
    let ?L = "set_slot i (?old\<lparr>icount := ?n\<rparr>) L"
    have s: "sound lim F w ?L it" by (rule recount_sound [OF assms(1,2) pile(1)]) (use n pile(3) h'(1) in simp_all)
    obtain it2 w2 where r: "item_Release it w = (it2, w2)" by (cases "item_Release it w")
    note rel = Release_owned [OF soundD(3) [OF s] r]
    have "L' = ?L" "it' = it2" "w' = w2" using assms(2,3) pile r n h'(3) by (auto simp: list_Put_def Let_def)
    moreover have "held u (slots ?L) = held u (slots L) + amount u it" for u
      using held_update [OF assms(2), of u "?old\<lparr>icount := ?n\<rparr>"] pile(2) by (cases "itype it = u") (simp_all add: amount_def)
    ultimately show ?thesis using rel soundD [OF s] by (auto simp: sound_def conserved_def)
  qed
  then show "sound lim F w' L' it'" "conserved L it L' it'" by blast+
qed

lemma inc_dec_empty: "empties L < 2 ^ 64 \<Longrightarrow> inc_empty (dec_empty L) = L" "empties L < 2 ^ 64 \<Longrightarrow> dec_empty (inc_empty L) = L"
proof -
  assume e: "empties L < 2 ^ 64"
  have "int (sz (int (empties L) - 1)) = (int (empties L) - 1) mod 2 ^ 64" by (simp add: sz_def)
  then have "sz (int (sz (int (empties L) - 1)) + 1) = nat (((int (empties L) - 1) mod 2 ^ 64 + 1) mod 2 ^ 64)"
    by (simp only: sz_def)
  also have "((int (empties L) - 1) mod 2 ^ 64 + 1) mod 2 ^ 64 = int (empties L) mod 2 ^ 64"
    by (simp only: mod_add_left_eq) simp
  finally show "inc_empty (dec_empty L) = L" using e by (simp add: inc_empty_def dec_empty_def)
  have "int (sz (int (empties L) + 1)) = (int (empties L) + 1) mod 2 ^ 64" by (simp add: sz_def)
  then have "sz (int (sz (int (empties L) + 1)) - 1) = nat (((int (empties L) + 1) mod 2 ^ 64 - 1) mod 2 ^ 64)"
    by (simp only: sz_def)
  also have "((int (empties L) + 1) mod 2 ^ 64 - 1) mod 2 ^ 64 = int (empties L) mod 2 ^ 64"
    by (simp only: mod_diff_left_eq) simp
  finally show "dec_empty (inc_empty L) = L" using e by (simp add: inc_empty_def dec_empty_def)
qed

lemma empties_small: "list_ok lim L \<Longrightarrow> empties L < 2 ^ 64"
  using filter_small [of lim L "\<lambda>it. itype it = -1"] by (simp add: list_ok_def)

lemma set_slot_count_swap [simp]:
  "set_slot i it (inc_empty L) = inc_empty (set_slot i it L)" "set_slot i it (dec_empty L) = dec_empty (set_slot i it L)"
  by (simp_all add: set_slot_def inc_empty_def dec_empty_def)

text \<open>Any item in place of any other, with the counter adjusted as \<open>Exchange\<close> does.\<close>

lemma list_ok_replace:
  assumes "list_ok lim L" "i < length (slots L)" "item_ok lim it"
  shows "list_ok lim ((if itype (slots L ! i) \<noteq> -1 then inc_empty else id)
     ((if itype it \<noteq> -1 then dec_empty else id) (set_slot i it L)))"
proof -
  have e: "empties (set_slot i it L) < 2 ^ 64" using empties_small [OF assms(1)] by simp
  show ?thesis
    using list_ok_set [OF assms] list_ok_fill [OF assms] list_ok_free [OF assms] inc_dec_empty(1) [OF e] by auto
qed

lemma list_Exchange_sound:
  assumes "sound lim F w L it" "i < length (slots L)" "list_Exchange cls i it L w = (it', L', w')"
  shows "sound lim F w' L' it'" "conserved L it L' it'" "it' = slots L ! i" "slots L' = (slots L)[i := it]"
proof -
  note ok = soundD [OF assms(1)]
  let ?src = "slots L ! i" and ?R = "F + refs (slots L) + iref it"
  let ?w = "if itype ?src \<noteq> -1 then item_TakeOut cls (location_of L) i ?src w else w"
  have o1: "owned ?w ?R" using TakeOut_owned [OF ok(3) ref_le [OF assms(2)]] ok(3) by simp
  have "owned (if itype it \<noteq> -1 then item_PutIn cls l xs i it ?w else ?w) ?R" for l xs
    using PutIn_owned [OF o1, of it] o1 by simp
  moreover have "?R = F + refs ((slots L)[i := it]) + iref ?src"
    using sum_list_update [OF assms(2), of iref it] by (simp add: ac_simps)
  moreover have L': "L' = (if itype ?src \<noteq> -1 then inc_empty else id) ((if itype it \<noteq> -1 then dec_empty else id) (set_slot i it L))"
    "it' = ?src"
    and w': "w' = (if itype it \<noteq> -1 then item_PutIn cls (location_of L) ((slots L)[i := it]) i it ?w else ?w)"
    using assms(2,3) by (auto simp: list_Exchange_def Let_def item_dtor_def split: if_splits)
  moreover have "slots L' = (slots L)[i := it]" by (simp add: L')
  ultimately show "sound lim F w' L' it'" "conserved L it L' it'" "it' = slots L ! i" "slots L' = (slots L)[i := it]"
    using list_ok_replace [OF ok(1) assms(2) ok(2)] item_ok_nth [OF ok(1) assms(2)] held_update [OF assms(2), of _ it]
    by (auto simp: sound_def conserved_def)
qed

lemma list_ExchangeItem_sound:
  assumes "sound lim F w L h" "list_ExchangeItem cls i j L w = (b, L', w')"
  shows "sound lim F w' L' h" "mset (slots L') = mset (slots L)"
proof -
  note ok = soundD [OF assms(1)]
  have "sound lim F w' L' h \<and> mset (slots L') = mset (slots L)"
  proof (cases "i < length (slots L) \<and> j < length (slots L) \<and> i \<noteq> j")
    case False
    then show ?thesis using assms by (auto simp: list_ExchangeItem_def split: if_splits)
  next
    case True
    let ?R = "F + refs (slots L) + iref h"
    let ?xs = "(slots L)[i := slots L ! j, j := slots L ! i]"
    let ?p = "\<lambda>k m w. if itype (slots L ! k) \<noteq> -1 then item_TakeOut cls m k (slots L ! k) w else w"
    let ?q = "\<lambda>k n m xs w. if itype (slots L ! k) \<noteq> -1 then item_PutIn cls m xs n (slots L ! k) w else w"
    have le: "iref (slots L ! i) \<subseteq># ?R" "iref (slots L ! j) \<subseteq># ?R" using True ref_le by blast+
    have p: "owned w ?R \<Longrightarrow> owned (?p k m w) ?R" if "k = i \<or> k = j" for k m w
      using that le TakeOut_owned by auto
    have q: "owned w ?R \<Longrightarrow> owned (?q k n m xs w) ?R" if "k = i \<or> k = j" for k n m xs w
      using that le PutIn_owned by auto
    have "owned w' ?R" "L' = set_slot j (slots L ! i) (set_slot i (slots L ! j) L)"
      using assms(2) True ok(3) by (auto simp: list_ExchangeItem_def Let_def intro!: PutIn_owned TakeOut_owned le)
    moreover have ms: "mset ?xs = mset (slots L)" using True by (simp add: mset_swap)
    moreover have "refs ?xs = refs (slots L)" using ms by (metis mset_map sum_mset_sum_list)
    moreover have "length (filter (\<lambda>it. itype it = -1) ?xs) = length (filter (\<lambda>it. itype it = -1) (slots L))"
      using ms by (metis mset_filter size_mset)
    moreover have "set ?xs = set (slots L)" using ms by (metis set_mset_mset)
    ultimately show ?thesis using ok by (auto simp: sound_def list_ok_def)
  qed
  then show "sound lim F w' L' h" "mset (slots L') = mset (slots L)" by blast+
qed

end
