(* ===== verification/ItemMoves.thy ===== *)
theory ItemMoves
  imports ItemListInv
begin

text \<open>
  The operations of \<open>item_list\<close> that move, use and remove items, and the transfer between two
  lists: each keeps the invariants of \<open>ItemListInv\<close>. The steps of two lists and an item in hand
  form a transition system whose reachable states are shown to be in order.
\<close>

subsection \<open>Counting down and removing\<close>

lemma held_recount:
  assumes "i < length xs"
  shows "held u (xs[i := (xs ! i)\<lparr>icount := n\<rparr>]) + amount u (xs ! i) = held u xs + (if itype (xs ! i) = u then n else 0)"
  using held_update [OF assms, of u "(xs ! i)\<lparr>icount := n\<rparr>"] by simp

lemma held_clear:
  "i < length xs \<Longrightarrow> u \<noteq> -1 \<Longrightarrow> held u (xs[i := item_Clear it]) + amount u (xs ! i) = held u xs"
  using held_update [of i xs u "item_Clear it"] by simp

text \<open>\<open>DecAmount\<close> and the tails of the \<open>UseItem\<close> family: \<open>n\<close> of the stack go, all of it at most.\<close>

lemma dec_sound:
  assumes "sound lim F w L h" "i < length (slots L)" "itype (slots L ! i) \<noteq> -1"
    and "(L', w') = (if icount (slots L ! i) \<le> n then discard cls i L w
                     else (set_slot i ((slots L ! i)\<lparr>icount := icount (slots L ! i) - n\<rparr>) L, w))"
  shows "sound lim F w' L' h"
    "u \<noteq> -1 \<Longrightarrow> held u (slots L') + (if itype (slots L ! i) = u then min n (icount (slots L ! i)) else 0) = held u (slots L)"
    "length (slots L') = length (slots L)"
proof -
  note s = soundD [OF assms(1)]
  note o = item_okD [OF item_ok_nth [OF s(1) assms(2)] assms(3)]
  have "sound lim F w' L' h \<and> length (slots L') = length (slots L) \<and> (u \<noteq> -1 \<longrightarrow>
      held u (slots L') + (if itype (slots L ! i) = u then min n (icount (slots L ! i)) else 0) = held u (slots L))"
  proof (cases "icount (slots L ! i) \<le> n")
    case True
    then have d: "discard cls i L w = (L', w')" using assms(4) by simp
    show ?thesis using discard_sound [OF assms(1-3) d] held_clear [OF assms(2), of u] True
      by (auto simp: amount_def)
  next
    case False
    then have e: "L' = set_slot i ((slots L ! i)\<lparr>icount := icount (slots L ! i) - n\<rparr>) L" "w' = w" using assms(4) by simp_all
    have "sound lim F w L' h" unfolding e by (rule recount_sound [OF assms(1-3)]) (use False o in simp_all)
    then show ?thesis using held_recount [OF assms(2), of u "icount (slots L ! i) - n"] False e by (auto simp: amount_def)
  qed
  then show "sound lim F w' L' h" "length (slots L') = length (slots L)"
    "u \<noteq> -1 \<Longrightarrow> held u (slots L') + (if itype (slots L ! i) = u then min n (icount (slots L ! i)) else 0) = held u (slots L)"
    by blast+
qed

lemma list_DecAmount_sound:
  assumes "sound lim F w L h" "i < length (slots L)" "itype (slots L ! i) \<noteq> -1" "list_DecAmount cls i n L w = (r, L', w')"
  shows "sound lim F w' L' h"
    "u \<noteq> -1 \<Longrightarrow> held u (slots L') + (if itype (slots L ! i) = u then min n (icount (slots L ! i)) else 0) = held u (slots L)"
    "length (slots L') = length (slots L)"
proof -
  have e: "(L', w') = (if icount (slots L ! i) \<le> n then discard cls i L w
                     else (set_slot i ((slots L ! i)\<lparr>icount := icount (slots L ! i) - n\<rparr>) L, w))"
    using assms(2-4) by (auto simp: list_DecAmount_def Let_def split: prod.splits if_splits)
  from dec_sound [OF assms(1-3) e] show "sound lim F w' L' h" "length (slots L') = length (slots L)"
    "u \<noteq> -1 \<Longrightarrow> held u (slots L') + (if itype (slots L ! i) = u then min n (icount (slots L ! i)) else 0) = held u (slots L)"
    by blast+
qed

lemma list_IncAmount_sound:
  assumes "sound lim F w L h" "i < length (slots L)" "itype (slots L ! i) \<noteq> -1" "list_IncAmount i n L w = (r, L', w')"
  shows "sound lim F w' L' h" "0 \<le> r" "r \<le> int n" "w' = w" "length (slots L') = length (slots L)"
    "held u (slots L') = held u (slots L) + (if itype (slots L ! i) = u then nat r else 0)"
proof -
  let ?it = "slots L ! i"
  define delta where "delta = min n (pile_limit ?it - icount ?it)"
  note s = soundD [OF assms(1)]
  note o = item_okD [OF item_ok_nth [OF s(1) assms(2)] assms(3)]
  have small: "delta < 2 ^ 31" using o(4) by (simp add: delta_def)
  have e: "r = int delta" "w' = w" "delta = 0 \<or> L' = set_slot i (?it\<lparr>icount := icount ?it + delta\<rparr>) L" "delta = 0 \<Longrightarrow> L' = L \<or> L' = set_slot i (?it\<lparr>icount := icount ?it + delta\<rparr>) L"
    using assms(2-4) small by (auto simp: list_IncAmount_def Let_def delta_def min_def split: if_splits)
  have "sound lim F w (set_slot i (?it\<lparr>icount := icount ?it + delta\<rparr>) L) h"
    by (rule recount_sound [OF assms(1-3)]) (use o in \<open>auto simp: delta_def\<close>)
  then show "sound lim F w' L' h" "0 \<le> r" "r \<le> int n" "w' = w" "length (slots L') = length (slots L)"
    "held u (slots L') = held u (slots L) + (if itype (slots L ! i) = u then nat r else 0)"
    using e assms(1) held_recount [OF assms(2), of u "icount ?it + delta"]
    by (auto simp: amount_def delta_def)
qed

lemma list_Remove_sound:
  assumes "sound lim F w L h" "i < length (slots L)" "list_Remove cls i L w = (L', w')"
  shows "sound lim F w' L' h" "u \<noteq> -1 \<Longrightarrow> held u (slots L') + amount u (slots L ! i) = held u (slots L)"
proof -
  have "sound lim F w' L' h \<and> (u \<noteq> -1 \<longrightarrow> held u (slots L') + amount u (slots L ! i) = held u (slots L))"
  proof (cases "itype (slots L ! i) = -1")
    case True
    then show ?thesis using assms by (auto simp: list_Remove_def)
  next
    case False
    then have d: "discard cls i L w = (L', w')" using assms by (auto simp: list_Remove_def)
    show ?thesis using discard_sound [OF assms(1,2) False d] held_clear [OF assms(2), of u] by auto
  qed
  then show "sound lim F w' L' h" "u \<noteq> -1 \<Longrightarrow> held u (slots L') + amount u (slots L ! i) = held u (slots L)" by blast+
qed

lemma list_Remove_item_sound:
  assumes "sound lim F w L h" "itype h = -1" "i < length (slots L)" "list_Remove_item cls i h L w = (it, L', w')"
  shows "sound lim F w' L' it" "conserved L h L' it" "it = (if itype (slots L ! i) = -1 then h else slots L ! i)"
proof -
  note ok = soundD [OF assms(1)]
  let ?src = "slots L ! i"
  have "sound lim F w' L' it \<and> conserved L h L' it \<and> it = (if itype ?src = -1 then h else ?src)"
  proof (cases "itype ?src = -1")
    case True
    then show ?thesis using assms by (auto simp: list_Remove_item_def conserved_def)
  next
    case False
    have e: "it = ?src" "L' = set_slot i (item_Clear ?src) (inc_empty L)" "w' = item_TakeOut cls (location_of L) i ?src w"
      using assms(3,4) False by (auto simp: list_Remove_item_def Let_def)
    have "owned w' (F + refs (slots L) + iref h)" unfolding e by (rule TakeOut_owned [OF ok(3) ref_le [OF assms(3)]])
    moreover have "F + refs (slots L) + iref h = F + refs ((slots L)[i := item_Clear ?src]) + iref ?src"
      using refs_free [OF assms(3), of "item_Clear ?src"] iref_empty [OF ok(2) assms(2)] by (simp add: ac_simps)
    ultimately have "owned w' (F + refs (slots L') + iref it)" using e by simp
    moreover have "list_ok lim L'" unfolding e(2) by (rule list_ok_free [OF ok(1) assms(3) item_ok_Clear itype_Clear(1) False])
    ultimately show ?thesis using e item_ok_nth [OF ok(1) assms(3)] held_clear [OF assms(3)] False assms(2)
      by (auto simp: sound_def conserved_def)
  qed
  then show "sound lim F w' L' it" "conserved L h L' it" "it = (if itype (slots L ! i) = -1 then h else slots L ! i)" by blast+
qed

lemma owned_sound: "sound lim F w L h \<Longrightarrow> owned w' (F + refs (slots L) + iref h) \<Longrightarrow> sound lim F w' L h"
  by (simp add: sound_def)

lemma list_UseItem_sound:
  assumes "sound lim F w L h" "i < length (slots L)" "list_UseItem cls i n L w = (t, m, L', w')"
  shows "sound lim F w' L' h"
    "u \<noteq> -1 \<Longrightarrow> held u (slots L') + (if 0 \<le> t \<and> itype (slots L ! i) = u then min m (icount (slots L ! i)) else 0) = held u (slots L)
      \<or> itype (slots L ! i) < 0"
proof -
  let ?it = "slots L ! i"
  have "sound lim F w' L' h \<and> (u \<noteq> -1 \<longrightarrow>
    held u (slots L') + (if 0 \<le> t \<and> itype ?it = u then min m (icount ?it) else 0) = held u (slots L) \<or> itype ?it < 0)"
  proof (cases "itype ?it = -1 \<or> \<not> item_CanUse cls (location_of L) ?it w")
    case True
    then show ?thesis using assms by (auto simp: list_UseItem_def Let_def split: if_splits)
  next
    case False
    let ?n = "if icount ?it < n then icount ?it else n"
    obtain rst w1 where use: "item_Use cls (location_of L) i ?n ?it w = (rst, w1)" by (cases "item_Use cls (location_of L) i ?n ?it w")
    have "owned w1 (F + refs (slots L) + iref h)"
      using with_body_owned [OF soundD(3) [OF assms(1)] ref_le [OF assms(2)], of 0 "body_use cls (location_of L) i ?n"] use
      by (simp add: item_Use_def)
    then have s: "sound lim F w1 L h" by (rule owned_sound [OF assms(1)])
    have pos: "0 < icount ?it" using item_okD(1) [OF item_ok_nth [OF soundD(1) [OF assms(1)] assms(2)]] False by simp
    have run: "list_UseItem cls i n L w =
       (if rst < 0 then (-3, ?n, L, w1)
        else if 0 < rst then
          (if icount ?it \<le> sz rst then (let (L, w) = discard cls i L w1 in (itype ?it, sz rst, L, w))
           else (itype ?it, sz rst, set_slot i (?it\<lparr>icount := icount ?it - sz rst\<rparr>) L, w1))
        else (itype ?it, sz rst, L, w1))"
      using False assms(2) use pos by (simp add: list_UseItem_def Let_def)
    show ?thesis
    proof (cases "0 < rst")
      case True
      then have e: "(L', w') = (if icount ?it \<le> sz rst then discard cls i L w1
                     else (set_slot i (?it\<lparr>icount := icount ?it - sz rst\<rparr>) L, w1))" "t = itype ?it" "m = sz rst"
        using assms(3) run by (auto split: prod.splits if_splits)
      have ne: "itype ?it \<noteq> -1" using False by simp
      note d = dec_sound [OF s assms(2) ne e(1)]
      show ?thesis using d(1) d(2) [of u] e(2,3) by (cases "u = -1") auto
    next
      case False
      then have "L' = L" "w' = w1" "rst < 0 \<and> t = -3 \<or> rst = 0 \<and> m = 0" using assms(3) run by (auto split: if_splits)
      then show ?thesis using s by auto
    qed
  qed
  then show "sound lim F w' L' h"
    "u \<noteq> -1 \<Longrightarrow> held u (slots L') + (if 0 \<le> t \<and> itype (slots L ! i) = u then min m (icount (slots L ! i)) else 0) = held u (slots L)
      \<or> itype (slots L ! i) < 0" by blast+
qed

subsection \<open>Moving within a list\<close>

lemma slot_swap: "i \<noteq> j \<Longrightarrow> set_slot i x (set_slot j y L) = set_slot j y (set_slot i x L)"
  by (simp add: set_slot_def list_update_swap)

text \<open>A whole stack goes to an empty slot.\<close>

lemma move_all_sound:
  assumes "sound lim F w L h" "i < length (slots L)" "j < length (slots L)" "i \<noteq> j"
    and "itype (slots L ! i) \<noteq> -1" "itype (slots L ! j) = -1"
  shows "sound lim F w (set_slot i (item_Clear (slots L ! i)) (set_slot j (slots L ! i) L)) h"
    "u \<noteq> -1 \<Longrightarrow> held u ((slots L)[j := slots L ! i, i := item_Clear (slots L ! i)]) = held u (slots L)"
proof -
  note ok = soundD [OF assms(1)]
  let ?src = "slots L ! i" and ?L = "set_slot j (slots L ! i) L"
  have src: "item_ok lim ?src" by (rule item_ok_nth [OF ok(1) assms(2)])
  have i: "slots ?L ! i = ?src" "i < length (slots ?L)" using assms(2,4) by simp_all
  have "list_ok lim (dec_empty ?L)" by (rule list_ok_fill [OF ok(1) assms(3) src assms(5,6)])
  then have "list_ok lim (set_slot i (item_Clear ?src) (inc_empty (dec_empty ?L)))"
    by (rule list_ok_free) (use i assms(5) in simp_all)
  then have "list_ok lim (set_slot i (item_Clear ?src) ?L)"
    using inc_dec_empty(1) [of "set_slot i (item_Clear ?src) ?L"] empties_small [OF ok(1)] by simp
  moreover have "refs ((slots L)[j := ?src, i := item_Clear ?src]) = refs (slots L)"
    using sum_list_update [OF i(2), of iref "item_Clear ?src"] refs_fill [OF assms(3) iref_empty [OF item_ok_nth [OF ok(1) assms(3)] assms(6)], of ?src] i
    by simp
  ultimately show "sound lim F w (set_slot i (item_Clear ?src) ?L) h" using ok by (simp add: sound_def)
  show "held u ((slots L)[j := ?src, i := item_Clear ?src]) = held u (slots L)" if "u \<noteq> -1"
    using held_clear [OF i(2) that, of ?src] held_fill [OF assms(3,6) that, of ?src] i(1) by simp
qed

text \<open>A stack counted down to nothing is removed.\<close>

lemma discard_recount_sound:
  assumes "sound lim F w L h" "i < length (slots L)" "itype (slots L ! i) \<noteq> -1"
    and "discard cls i (set_slot i ((slots L ! i)\<lparr>icount := k\<rparr>) L) w = (L', w')"
  shows "sound lim F w' L' h" "slots L' = (slots L)[i := item_Clear (slots L ! i)]"
proof -
  note ok = soundD [OF assms(1)]
  let ?it = "(slots L ! i)\<lparr>icount := k\<rparr>"
  let ?w = "item_TakeOut cls (location_of L) i ?it w"
  have le: "iref ?it \<subseteq># F + refs (slots L) + iref h" using ref_le [OF assms(2)] by simp
  have "owned ?w (F + refs (slots L) + iref h)" by (rule TakeOut_owned [OF ok(3) le])
  then have o: "owned ?w (F + refs ((slots L)[i := item_Clear ?it]) + iref h + iref ?it)"
    using refs_free [OF assms(2), of "item_Clear ?it"] by (simp add: ac_simps)
  obtain it2 w2 where r: "item_Release ?it ?w = (it2, w2)" by (cases "item_Release ?it ?w")
  note rel = Release_owned [OF o r]
  have l: "list_ok lim (set_slot i (item_Clear ?it) (inc_empty L))"
    by (rule list_ok_free [OF ok(1) assms(2) item_ok_Clear itype_Clear(1) assms(3)])
  have "slots (set_slot i ?it L) ! i = ?it" using assms(2) by simp
  then have e: "L' = set_slot i (item_Clear ?it) (inc_empty (set_slot i ?it L))" "w' = w2"
    using assms(4) r rel by (auto simp: discard_def Let_def)
  have "L' = set_slot i (item_Clear ?it) (inc_empty L)" unfolding e by (simp add: set_slot_def inc_empty_def)
  moreover have "item_Clear ?it = item_Clear (slots L ! i)" by (simp add: item_Clear_def)
  ultimately show "sound lim F w' L' h" "slots L' = (slots L)[i := item_Clear (slots L ! i)]"
    using l rel ok(2) e(2) by (auto simp: sound_def)
qed

lemma MoveItem_run:
  assumes "i < length (slots L)" "j < length (slots L)" "i \<noteq> j" "0 < n" "itype (slots L ! i) \<noteq> -1" "n \<le> icount (slots L ! i)"
  shows "list_MoveItem cls i j n L w =
    (let src = slots L ! i; dest = slots L ! j; rest = src\<lparr>icount := icount src - n\<rparr> in
     if itype dest = -1 then
       if icount src = n then (True, n, set_slot i (item_Clear src) (set_slot j src L), w)
       else (case body_Clone cls src w of (c, w) \<Rightarrow>
               (case place cls j (c\<lparr>icount := n\<rparr>) (set_slot i rest L) w of (L, w) \<Rightarrow> (True, n, L, w)))
     else if itype dest \<noteq> itype src \<or> pile_limit dest < sz (int (icount dest) + int n) then (True, 0, L, w)
     else let L = set_slot j (dest\<lparr>icount := sz (int (icount dest) + int n)\<rparr>) L in
       if icount src = n then (case discard cls i (set_slot i rest L) w of (L, w) \<Rightarrow> (True, n, L, w))
       else (True, n, set_slot i rest L, w))"
proof -
  let ?src = "slots L ! i" and ?dest = "slots L ! j"
  have g: "\<not> length (slots L) \<le> i" "\<not> length (slots L) \<le> j" "n \<noteq> 0" "\<not> icount ?src < n" using assms by simp_all
  have z: "icount ?src - n = 0 \<longleftrightarrow> icount ?src = n" using assms(6) by auto
  have c: "item_Clear (?src\<lparr>icount := k\<rparr>) = item_Clear ?src" for k by (simp add: item_Clear_def)
  have s: "icount ?src = n \<Longrightarrow> ?src\<lparr>icount := n\<rparr> = ?src" by simp
  have d: "slots (set_slot i x (set_slot j y L)) ! i = x" for x y using assms(1) by simp
  show ?thesis
    unfolding list_MoveItem_def discard_def Let_def
    using g assms(3,5) z c s d by (auto simp: set_slot_def inc_empty_def split: prod.split)
qed

lemma MoveItem_none:
  assumes "\<not> (i < length (slots L) \<and> j < length (slots L) \<and> i \<noteq> j \<and> 0 < n \<and> itype (slots L ! i) \<noteq> -1 \<and> n \<le> icount (slots L ! i))"
    and "list_MoveItem cls i j n L w = (b, m, L', w')"
  shows "L' = L" "w' = w"
proof -
  have "L' = L \<and> w' = w"
    using assms unfolding list_MoveItem_def
    by (cases "length (slots L) \<le> i \<or> length (slots L) \<le> j"; cases "i = j"; cases "n = 0";
        cases "itype (slots L ! i) = -1 \<or> icount (slots L ! i) < n") auto
  then show "L' = L" "w' = w" by simp_all
qed

text \<open>Part of a stack goes to an empty slot: the body is cloned.\<close>

lemma move_split_sound:
  assumes "sound lim F w L h" "i < length (slots L)" "j < length (slots L)" "i \<noteq> j" "0 < n" "n < icount (slots L ! i)"
    and "itype (slots L ! i) \<noteq> -1" "itype (slots L ! j) = -1"
    and "body_Clone cls (slots L ! i) w = (c, w1)"
    and "place cls j (c\<lparr>icount := n\<rparr>) (set_slot i ((slots L ! i)\<lparr>icount := icount (slots L ! i) - n\<rparr>) L) w1 = (L', w')"
  shows "sound lim F w' L' h" "u \<noteq> -1 \<Longrightarrow> held u (slots L') = held u (slots L)" "length (slots L') = length (slots L)"
proof -
  note ok = soundD [OF assms(1)]
  let ?src = "slots L ! i" and ?c = "c\<lparr>icount := n\<rparr>"
  let ?rest = "?src\<lparr>icount := icount ?src - n\<rparr>"
  let ?L = "set_slot i ?rest L"
  note s = item_okD [OF item_ok_nth [OF ok(1) assms(2)] assms(7)]
  note C = Clone_owned [OF ok(3) ref_le [OF assms(2)] assms(9)]
  obtain p where "c = ?src\<lparr>ibody := p\<rparr>" using C(2) by blast
  then have c: "itype ?c \<noteq> -1" "item_ok lim ?c" "itype c = itype ?src" using assms(5-7) s by (auto simp: item_ok_def)
  have "sound lim F w ?L h" by (rule recount_sound [OF assms(1,2,7)]) (use assms(6) s in simp_all)
  then have "list_ok lim ?L" by (rule soundD)
  then have o: "sound lim (F + iref h) w1 ?L ?c" using C(1) c(2) refs_same [OF assms(2), of ?rest]
    by (simp add: sound_def ac_simps)
  have j: "j < length (slots ?L)" "itype (slots ?L ! j) = -1" using assms(3,4,8) by simp_all
  note P = place_sound [OF o j c(1) assms(10)]
  show "sound lim F w' L' h" using P(1) ok(2) by (simp add: sound_def ac_simps)
  show "length (slots L') = length (slots L)" using P(2) by simp
  show "held u (slots L') = held u (slots L)" if "u \<noteq> -1"
    using held_fill [OF j that, of ?c] held_recount [OF assms(2), of u "icount ?src - n"] P(2) c(3) assms(6)
    by (cases "itype ?src = u") (simp_all add: amount_def)
qed

text \<open>Part or all of a stack goes onto another of the same type.\<close>

lemma move_pile_sound:
  assumes "sound lim F w L h" "i < length (slots L)" "j < length (slots L)" "i \<noteq> j" "0 < n" "n \<le> icount (slots L ! i)"
    and "itype (slots L ! i) \<noteq> -1" "itype (slots L ! j) = itype (slots L ! i)"
    and "icount (slots L ! j) + n \<le> pile_limit (slots L ! j)"
    and "L1 = set_slot i ((slots L ! i)\<lparr>icount := icount (slots L ! i) - n\<rparr>)
               (set_slot j ((slots L ! j)\<lparr>icount := icount (slots L ! j) + n\<rparr>) L)"
    and "(L', w') = (if icount (slots L ! i) = n then discard cls i L1 w else (L1, w))"
  shows "sound lim F w' L' h" "u \<noteq> -1 \<Longrightarrow> held u (slots L') = held u (slots L)" "length (slots L') = length (slots L)"
proof -
  note ok = soundD [OF assms(1)]
  let ?src = "slots L ! i" and ?dest = "slots L ! j"
  let ?L = "set_slot j (?dest\<lparr>icount := icount ?dest + n\<rparr>) L"
  have dt: "itype ?dest \<noteq> -1" using assms(7,8) by simp
  note s = item_okD [OF item_ok_nth [OF ok(1) assms(2)] assms(7)]
  have s1: "sound lim F w ?L h" by (rule recount_sound [OF assms(1,3) dt]) (use assms(5,9) in simp_all)
  have i: "slots ?L ! i = ?src" "i < length (slots ?L)" "itype (slots ?L ! i) \<noteq> -1" using assms(2,4,7) by simp_all
  have L1: "L1 = set_slot i ((slots ?L ! i)\<lparr>icount := icount ?src - n\<rparr>) ?L" using assms(10) i(1) by simp
  have hd: "held u (slots ?L) = held u (slots L) + (if itype ?src = u then n else 0)" for u
    using held_recount [OF assms(3), of u "icount ?dest + n"] assms(8) by (cases "itype ?src = u") (simp_all add: amount_def)
  have "sound lim F w' L' h \<and> length (slots L') = length (slots L) \<and> (u \<noteq> -1 \<longrightarrow> held u (slots L') = held u (slots L))"
  proof (cases "icount ?src = n")
    case False
    have "sound lim F w L1 h" unfolding L1 by (rule recount_sound [OF s1 i(2,3)]) (use False assms(6) s i(1) in simp_all)
    moreover have "L' = L1" "w' = w" using assms(11) False by simp_all
    ultimately show ?thesis
      using held_recount [OF i(2), of u "icount ?src - n"] i(1) hd [of u] assms(6) L1
      by (cases "itype ?src = u") (simp_all add: amount_def)
  next
    case True
    then have D: "discard cls i (set_slot i ((slots ?L ! i)\<lparr>icount := icount ?src - n\<rparr>) ?L) w = (L', w')"
      using assms(11) L1 by simp
    show ?thesis
      using discard_recount_sound [OF s1 i(2,3) D] held_clear [OF i(2), of u "slots ?L ! i"] i(1) hd [of u] True
      by (cases "itype ?src = u") (auto simp: amount_def)
  qed
  then show "sound lim F w' L' h" "length (slots L') = length (slots L)" "u \<noteq> -1 \<Longrightarrow> held u (slots L') = held u (slots L)" by blast+
qed

lemma list_MoveItem_sound:
  assumes "sound lim F w L h" "n < 2 ^ 31" "list_MoveItem cls i j n L w = (b, m, L', w')"
  shows "sound lim F w' L' h" "u \<noteq> -1 \<Longrightarrow> held u (slots L') = held u (slots L)" "length (slots L') = length (slots L)"
proof -
  note ok = soundD [OF assms(1)]
  let ?src = "slots L ! i" and ?dest = "slots L ! j"
  let ?rest = "?src\<lparr>icount := icount ?src - n\<rparr>"
  have "sound lim F w' L' h \<and> length (slots L') = length (slots L) \<and> (u \<noteq> -1 \<longrightarrow> held u (slots L') = held u (slots L))"
  proof (cases "i < length (slots L) \<and> j < length (slots L) \<and> i \<noteq> j \<and> 0 < n \<and> itype ?src \<noteq> -1 \<and> n \<le> icount ?src")
    case False
    from MoveItem_none [OF this assms(3)] show ?thesis using assms(1) by simp
  next
    case True
    then have ij: "i < length (slots L)" "j < length (slots L)" "i \<noteq> j" "0 < n" "itype ?src \<noteq> -1" "n \<le> icount ?src"
      by auto
    note run = assms(3) [unfolded MoveItem_run [OF ij] Let_def]
    consider (all) "itype ?dest = -1" "icount ?src = n" | (part) "itype ?dest = -1" "icount ?src \<noteq> n"
      | (refuse) "itype ?dest \<noteq> -1" "itype ?dest \<noteq> itype ?src \<or> pile_limit ?dest < sz (int (icount ?dest) + int n)"
      | (pile) "itype ?dest \<noteq> -1" "itype ?dest = itype ?src" "\<not> pile_limit ?dest < sz (int (icount ?dest) + int n)"
      by blast
    then show ?thesis
    proof cases
      case all
      then have "L' = set_slot i (item_Clear ?src) (set_slot j ?src L)" "w' = w" using run by simp_all
      then show ?thesis using move_all_sound [OF assms(1) ij(1-3,5) all(1)] by simp
    next
      case part
      obtain c w1 where cl: "body_Clone cls ?src w = (c, w1)" by (cases "body_Clone cls ?src w")
      obtain L1 w2 where pl: "place cls j (c\<lparr>icount := n\<rparr>) (set_slot i ?rest L) w1 = (L1, w2)"
        by (cases "place cls j (c\<lparr>icount := n\<rparr>) (set_slot i ?rest L) w1")
      have "L' = L1" "w' = w2" using run part cl pl by simp_all
      moreover have "n < icount ?src" using part ij(6) by simp
      ultimately show ?thesis using move_split_sound [OF assms(1) ij(1-4) _ ij(5) part(1) cl pl] by blast
    next
      case refuse
      then have "L' = L" "w' = w" using run by simp_all
      then show ?thesis using assms(1) by simp
    next
      case pile
      note d = item_okD [OF item_ok_nth [OF ok(1) ij(2)] pile(1)]
      have n: "sz (int (icount ?dest) + int n) = icount ?dest + n" using d assms(2) by simp
      let ?L1 = "set_slot i ?rest (set_slot j (?dest\<lparr>icount := icount ?dest + n\<rparr>) L)"
      have "(L', w') = (if icount ?src = n then discard cls i ?L1 w else (?L1, w))"
        using run pile n by (cases "icount ?src = n") (auto split: prod.splits)
      from move_pile_sound [OF assms(1) ij(1-4,6,5) pile(2) _ refl this] pile(3) n show ?thesis by simp
    qed
  qed
  then show "sound lim F w' L' h" "length (slots L') = length (slots L)" "u \<noteq> -1 \<Longrightarrow> held u (slots L') = held u (slots L)" by blast+
qed

subsection \<open>Between two lists\<close>

text \<open>Two lists, an item in hand and the rest of the world in order.\<close>

definition sound2 :: "(int \<Rightarrow> nat) \<Rightarrow> nat multiset \<Rightarrow> ('b, 'o) world \<Rightarrow> item_list \<Rightarrow> item_list \<Rightarrow> item \<Rightarrow> bool" where
  "sound2 lim F w S D h \<longleftrightarrow>
     owned w (F + refs (slots S) + refs (slots D) + iref h) \<and> list_ok lim S \<and> list_ok lim D \<and> item_ok lim h"

lemma sound2_left: "sound2 lim F w S D h \<longleftrightarrow> sound lim (F + refs (slots D)) w S h \<and> list_ok lim D"
  by (auto simp: sound2_def sound_def ac_simps)

lemma sound2_right: "sound2 lim F w S D h \<longleftrightarrow> sound lim (F + refs (slots S)) w D h \<and> list_ok lim S"
  by (auto simp: sound2_def sound_def ac_simps)

text \<open>A second item in hand joins the frame.\<close>

lemma sound2_hand:
  "sound2 lim F w S D h \<Longrightarrow> item_ok lim it \<Longrightarrow> owned w' (F + refs (slots S) + refs (slots D) + iref h + iref it) \<Longrightarrow>
     sound2 lim (F + iref h) w' S D it"
  by (auto simp: sound2_def ac_simps)

lemma sound2_unhand: "sound2 lim (F + iref h) w S D it \<Longrightarrow> iref it = {#} \<Longrightarrow> item_ok lim h \<Longrightarrow> sound2 lim F w S D h"
  by (auto simp: sound2_def ac_simps)

definition held2 :: "int \<Rightarrow> item_list \<Rightarrow> item_list \<Rightarrow> nat" where
  "held2 u S D = held u (slots S) + held u (slots D)"

text \<open>The whole stack moves by three exchanges through a local item.\<close>

lemma move_exchange_sound:
  assumes "sound2 lim F w S D h" "i < length (slots S)" "j < length (slots D)" "itype (slots D ! j) = -1"
    and "itype raw = -1" "ibody raw = None"
    and "list_Exchange cls i raw S w = (tmp1, S1, w1)" "list_Exchange cls j tmp1 D w1 = (tmp2, D2, w2)"
    and "list_Exchange cls i tmp2 S1 w2 = (tmp3, S3, w3)"
  shows "sound2 lim F w3 S3 D2 h" "u \<noteq> -1 \<Longrightarrow> held2 u S3 D2 = held2 u S D" "ibody tmp3 = None"
proof -
  have raw: "item_ok lim raw" "iref raw = {#}" using assms(5,6) by (simp_all add: item_ok_def iref_None)
  have h: "item_ok lim h" using assms(1) by (simp add: sound2_def)
  have "sound2 lim (F + iref h) w S D raw"
    using sound2_hand [OF assms(1) raw(1), of w] assms(1) raw(2) by (simp add: sound2_def)
  then have s1: "sound lim (F + iref h + refs (slots D)) w S raw" "list_ok lim D" by (simp_all add: sound2_left)
  note e1 = list_Exchange_sound [OF s1(1) assms(2,7)]
  have "sound2 lim (F + iref h) w1 S1 D tmp1" using e1(1) s1(2) by (simp add: sound2_left)
  then have s2: "sound lim (F + iref h + refs (slots S1)) w1 D tmp1" "list_ok lim S1" by (simp_all add: sound2_right)
  note e2 = list_Exchange_sound [OF s2(1) assms(3,8)]
  have "sound2 lim (F + iref h) w2 S1 D2 tmp2" using e2(1) s2(2) by (simp add: sound2_right)
  then have s3: "sound lim (F + iref h + refs (slots D2)) w2 S1 tmp2" "list_ok lim D2" by (simp_all add: sound2_left)
  have i1: "i < length (slots S1)" using e1(4) assms(2) by simp
  note e3 = list_Exchange_sound [OF s3(1) i1 assms(9)]
  have t3: "tmp3 = raw" using e3(3) e1(4) assms(2) by simp
  then show "ibody tmp3 = None" using assms(6) by simp
  have "sound2 lim (F + iref h) w3 S3 D2 tmp3" using e3(1) s3(2) by (simp add: sound2_left)
  then show "sound2 lim F w3 S3 D2 h" using sound2_unhand h raw(2) t3 by blast
  show "held2 u S3 D2 = held2 u S D" if "u \<noteq> -1"
  proof -
    have "held u (slots S1) + amount u tmp1 = held u (slots S)" "held u (slots S3) = held u (slots S1) + amount u tmp2"
      "held u (slots D2) + amount u tmp2 = held u (slots D) + amount u tmp1"
      using e1(2) e2(2) e3(2) that t3 assms(5) by (simp_all add: conserved_def)
    then show ?thesis by (simp add: held2_def)
  qed
qed

text \<open>A part of the stack moves to an empty slot of the other list.\<close>

lemma move_put_sound:
  assumes "sound2 lim F w S D h" "i < length (slots S)" "j < length (slots D)" "itype (slots D ! j) = -1"
    and "itype (slots S ! i) \<noteq> -1" "0 < n" "n < icount (slots S ! i)"
    and "body_Clone cls ((slots S ! i)\<lparr>icount := n\<rparr>) w = (tmp, w1)" "list_Put cls j tmp D w1 = (b, tmp2, D2, w2)"
    and "list_DecAmount cls i n S (w_assert b w2) = (r, S3, w3)"
  shows "sound2 lim F w3 S3 D2 h" "u \<noteq> -1 \<Longrightarrow> held2 u S3 D2 = held2 u S D" "ibody tmp2 = None"
proof -
  let ?src = "slots S ! i"
  have h: "item_ok lim h" "list_ok lim S" "list_ok lim D" "owned w (F + refs (slots S) + refs (slots D) + iref h)"
    using assms(1) by (simp_all add: sound2_def)
  note s = item_okD [OF item_ok_nth [OF h(2) assms(2)] assms(5)]
  have "iref (?src\<lparr>icount := n\<rparr>) \<subseteq># F + refs (slots S) + (refs (slots D) + iref h)" using ref_le [OF assms(2)] by simp
  then have le: "iref (?src\<lparr>icount := n\<rparr>) \<subseteq># F + refs (slots S) + refs (slots D) + iref h" by (simp add: add.assoc)
  note C = Clone_owned [OF h(4) le assms(8)]
  obtain p where "tmp = ?src\<lparr>icount := n\<rparr>\<lparr>ibody := p\<rparr>" using C(2) by blast
  then have t: "item_ok lim tmp" "itype tmp = itype ?src" "icount tmp = n" using assms(5-7) s by (simp_all add: item_ok_def)
  have "sound2 lim (F + iref h) w1 S D tmp" by (rule sound2_hand [OF assms(1) t(1) C(1)])
  then have s1: "sound lim (F + iref h + refs (slots S)) w1 D tmp" by (simp add: sound2_right)
  note P = list_Put_sound [OF s1 assms(3,9)]
  have b: "b" "tmp2 = item_Clear tmp"
    using assms(3-5,9) t(2) by (auto simp: list_Put_def Let_def split: prod.splits)
  have "sound2 lim (F + iref h) w2 S D2 tmp2" using P(1) h(2) by (simp add: sound2_right)
  then have s2: "sound2 lim F w2 S D2 h" using sound2_unhand h(1) b(2) by (metis iref_simps(1))
  then have s3: "sound lim (F + refs (slots D2)) w2 S h" "list_ok lim D2" by (simp_all add: sound2_left)
  have d: "list_DecAmount cls i n S w2 = (r, S3, w3)" using assms(10) b(1) by simp
  note Q = list_DecAmount_sound [OF s3(1) assms(2,5) d]
  show "sound2 lim F w3 S3 D2 h" using Q(1) s3(2) by (simp add: sound2_left)
  show "ibody tmp2 = None" using b by simp
  show "held2 u S3 D2 = held2 u S D" if "u \<noteq> -1"
    using P(2) Q(2) [OF that] that b t assms(7) by (cases "itype ?src = u") (auto simp: conserved_def held2_def amount_def)
qed

lemma MoveBetween_sound:
  assumes "sound2 lim F w S D h" "itype raw = -1" "ibody raw = None" "MoveBetweenItemList cls raw S D i j n w = (r, S', D', w')"
  shows "sound2 lim F w' S' D' h" "u \<noteq> -1 \<Longrightarrow> held2 u S' D' = held2 u S D" "r \<le> int n"
proof -
  let ?it = "slots S ! i" and ?dest = "slots D ! j"
  let ?n = "if icount ?it < n then icount ?it else n"
  let ?bad = "length (slots S) \<le> i \<or> length (slots D) \<le> j \<or> n = 0 \<or> itype ?it = -1 \<or> itype ?dest \<noteq> -1 \<and> itype ?it \<noteq> itype ?dest"
  have ok: "list_ok lim S" "list_ok lim D" using assms(1) by (simp_all add: sound2_def)
  consider (bad) "?bad" | (whole) "\<not> ?bad" "itype ?dest = -1" "?n = icount ?it"
    | (part) "\<not> ?bad" "itype ?dest = -1" "?n \<noteq> icount ?it" | (pile) "\<not> ?bad" "itype ?dest \<noteq> -1" by blast
  then have "sound2 lim F w' S' D' h \<and> (u \<noteq> -1 \<longrightarrow> held2 u S' D' = held2 u S D) \<and> r \<le> int n"
  proof cases
    case bad
    then have "S' = S" "D' = D" "w' = w" "r = -1" using assms(4) by (auto simp: MoveBetweenItemList_def Let_def split: if_splits)
    then show ?thesis using assms(1) by simp
  next
    case whole
    obtain t1 S1 w1 where e1: "list_Exchange cls i raw S w = (t1, S1, w1)" by (metis prod_cases3)
    obtain t2 D2 w2 where e2: "list_Exchange cls j t1 D w1 = (t2, D2, w2)" by (metis prod_cases3)
    obtain t3 S3 w3 where e3: "list_Exchange cls i t2 S1 w2 = (t3, S3, w3)" by (metis prod_cases3)
    have ij: "i < length (slots S)" "j < length (slots D)" "itype ?it \<noteq> -1" using whole by auto
    note X = move_exchange_sound [OF assms(1) ij(1,2) whole(2) assms(2,3) e1 e2 e3]
    have "S' = S3" "D' = D2" "w' = w3" "r = int32 (int ?n)"
      using assms(4) whole e1 e2 e3 X(3) by (simp_all add: MoveBetweenItemList_def Let_def item_dtor_def)
    moreover have "int32 (int ?n) = int ?n" using item_okD [OF item_ok_nth [OF ok(1) ij(1)] ij(3)] whole(3) by simp
    ultimately show ?thesis using X(1,2) by simp
  next
    case part
    obtain tmp w1 where c: "body_Clone cls (?it\<lparr>icount := ?n\<rparr>) w = (tmp, w1)" by (metis prod.exhaust)
    obtain b tmp2 D2 w2 where p: "list_Put cls j tmp D w1 = (b, tmp2, D2, w2)" by (metis prod_cases4)
    obtain q S3 w3 where d: "list_DecAmount cls i ?n S (w_assert b w2) = (q, S3, w3)" by (metis prod_cases3)
    have ij: "i < length (slots S)" "j < length (slots D)" "itype ?it \<noteq> -1" "0 < ?n" "?n < icount ?it"
      using part by (auto split: if_splits)
    note X = move_put_sound [OF assms(1) ij(1,2) part(2) ij(3-5) c p d]
    have "S' = S3" "D' = D2" "w' = w3" "r = int32 (int ?n)"
      using assms(4) part c p d X(3) by (simp_all add: MoveBetweenItemList_def Let_def item_dtor_def)
    moreover have "int32 (int ?n) = int ?n" using item_okD [OF item_ok_nth [OF ok(1) ij(1)] ij(3)] ij(5) by simp
    ultimately show ?thesis using X(1,2) by simp
  next
    case pile
    obtain delta D2 w2 where e: "list_IncAmount j ?n D w = (delta, D2, w2)" by (metis prod_cases3)
    have ij: "i < length (slots S)" "j < length (slots D)" "itype ?it \<noteq> -1" "itype ?it = itype ?dest" using pile by auto
    have "sound lim (F + refs (slots S)) w D h" using assms(1) by (simp add: sound2_right)
    note I = list_IncAmount_sound [OF this ij(2) pile(2) e]
    have "sound2 lim F w2 S D2 h" using I(1,4) ok(1) by (simp add: sound2_right)
    then have s: "sound lim (F + refs (slots D2)) w2 S h" "list_ok lim D2" by (simp_all add: sound2_left)
    obtain q S3 w3 where d: "list_DecAmount cls i (sz delta) S w2 = (q, S3, w3)" by (metis prod_cases3)
    note Q = list_DecAmount_sound [OF s(1) ij(1,3) d]
    have "\<not> delta < 0" using I(2) by simp
    then have "S' = S3" "D' = D2" "w' = w3" "r = delta"
      using assms(4) pile e d by (simp_all add: MoveBetweenItemList_def Let_def)
    moreover have "icount ?it < 2 ^ 31" using item_okD [OF item_ok_nth [OF ok(1) ij(1)] ij(3)] by simp
    moreover have "sz delta = nat delta" "nat delta \<le> icount ?it" using I(2,3) calculation(5) by (auto split: if_splits)
    moreover have "u \<noteq> -1 \<Longrightarrow> held2 u S3 D2 = held2 u S D"
      using Q(2) [of u] I(6) [of u] ij(4) calculation by (cases "itype ?it = u") (simp_all add: held2_def)
    moreover have "r \<le> int n" using I(3) calculation(4) by (auto split: if_splits)
    ultimately show ?thesis using Q(1) s(2) by (simp add: sound2_left)
  qed
  then show "sound2 lim F w' S' D' h" "u \<noteq> -1 \<Longrightarrow> held2 u S' D' = held2 u S D" "r \<le> int n" by blast+
qed

subsection \<open>Whole-list operations\<close>

lemma clear_slots_owned:
  assumes "\<forall>it \<in> set xs. item_ok lim it" "owned w (R + refs xs)" "clear_slots xs w = (ys, w')"
  shows "owned w' R \<and> length ys = length xs \<and> (\<forall>it \<in> set ys. itype it = -1 \<and> ibody it = None)"
  using assms
proof (induction xs arbitrary: w ys w')
  case (Cons it xs)
  obtain it1 w1 where r: "(if itype it \<noteq> -1 then item_Release it w else (it, w)) = (it1, w1)"
    by (metis prod.exhaust)
  obtain zs w2 where c: "clear_slots xs w1 = (zs, w2)" by (metis prod.exhaust)
  have o: "owned w (R + refs xs + iref it)" using Cons.prems(2) by (simp add: ac_simps)
  have one: "owned w1 (R + refs xs) \<and> itype it1 = -1 \<and> ibody it1 = None"
  proof (cases "itype it = -1")
    case True
    then show ?thesis using r o Cons.prems(1) by (auto simp: item_ok_def iref_None)
  next
    case False
    then show ?thesis using r Release_owned [OF o, of it1 w1] by simp
  qed
  have "\<forall>it \<in> set xs. item_ok lim it" using Cons.prems(1) by simp
  from Cons.IH [OF this _ c] one show ?case using Cons.prems(3) r c by (auto simp: Let_def)
qed simp

lemma refs_none: "\<forall>it \<in> set xs. ibody it = None \<Longrightarrow> refs xs = {#}"
  by (induction xs) (simp_all add: iref_None)

lemma list_Clear_sound:
  assumes "sound lim F w L h" "list_Clear L w = (L', w')"
  shows "sound lim F w' L' h" "\<forall>it \<in> set (slots L'). itype it = -1" "length (slots L') = length (slots L)"
proof -
  note ok = soundD [OF assms(1)]
  obtain xs w1 where c: "clear_slots (slots L) w = (xs, w1)" by (metis prod.exhaust)
  have o: "owned w (F + iref h + refs (slots L))" using ok(3) by (simp add: ac_simps)
  have items: "\<forall>it \<in> set (slots L). item_ok lim it" using ok(1) by (simp add: list_ok_def)
  note C = clear_slots_owned [OF items o c]
  have e: "L' = L\<lparr>slots := xs, empties := length xs\<rparr>" "w' = w1" using assms(2) c by (simp_all add: list_Clear_def)
  have "refs xs = {#}" using C by (intro refs_none) simp
  moreover have "filter (\<lambda>it. itype it = -1) xs = xs" using C by (simp add: filter_id_conv)
  ultimately show "sound lim F w' L' h" "\<forall>it \<in> set (slots L'). itype it = -1" "length (slots L') = length (slots L)"
    using C e ok by (auto simp: sound_def list_ok_def item_ok_def)
qed

lemma list_SetSize_sound:
  assumes "sound lim F w L h" "n < 2 ^ 31" "itype raw = -1" "ibody raw = None"
  shows "sound lim F w (list_SetSize n raw L) h"
proof (cases "n \<le> length (slots L)")
  case False
  note ok = soundD [OF assms(1)]
  let ?k = "n - length (slots L)"
  have r: "refs (replicate ?k raw) = {#}" using assms(4) by (intro refs_none) simp
  have "empties L \<le> length (slots L)" using ok(1) by (simp add: list_ok_def)
  then have "sz (int (empties L) + int ?k) = empties L + ?k" using assms(2) False by (intro sz_nat(2)) simp
  then show ?thesis using False ok assms(2,3,4) r
    by (auto simp: list_SetSize_def sound_def list_ok_def item_ok_def)
qed (use assms in \<open>simp add: list_SetSize_def\<close>)

lemma repair_owned:
  assumes "\<forall>it \<in> set xs. iref it \<subseteq># R" "owned w R"
  shows "owned (repair_slots cls xs w) R"
  using assms
proof (induction xs arbitrary: w)
  case (Cons it xs)
  have "owned (item_Repair cls it w) R" using Cons.prems by (simp add: item_Repair_def with_body_owned)
  then show ?case using Cons by simp
qed simp

lemma list_RepairAll_sound: "sound lim F w L h \<Longrightarrow> sound lim F (list_RepairAll cls L w) L h"
  unfolding list_RepairAll_def
  by (rule owned_sound, assumption, rule repair_owned)
    (auto simp: in_set_conv_nth soundD(3) intro!: ref_le)

lemma list_DecDurability_sound:
  assumes "sound lim F w L h" "i < length (slots L)" "itype (slots L ! i) \<noteq> -1" "list_DecDurability cls i a L w = (b, w')"
  shows "sound lim F w' L h"
proof -
  have "w' = snd (item_ArmorDecDurability cls a (slots L ! i) w)" using assms by (simp add: list_DecDurability_def)
  then have "owned w' (F + refs (slots L) + iref h)"
    using with_body_owned [OF soundD(3) [OF assms(1)] ref_le [OF assms(2)]] by (simp add: item_ArmorDecDurability_def)
  then show ?thesis by (rule owned_sound [OF assms(1)])
qed

lemma clear_proc_sound:
  assumes "sound lim F w L h" "k \<le> length (slots L)" "clear_proc cls p k L w = (n, L', w')"
  shows "sound lim F w' L' h \<and> length (slots L') = length (slots L) \<and> 0 \<le> n
    \<and> (\<forall>i < length (slots L). slots L' ! i = (if length (slots L) - k \<le> i \<and> itype (slots L ! i) \<noteq> -1
           \<and> proc_type (slots L ! i) AND p \<noteq> 0 then item_Clear (slots L ! i) else slots L ! i))"
  using assms
proof (induction k arbitrary: L w n L' w')
  case (Suc k)
  define i where "i = length (slots L) - Suc k"
  have i: "i < length (slots L)" "\<And>j. length (slots L) - k \<le> j \<longleftrightarrow> i < j" "\<And>j. length (slots L) - Suc k \<le> j \<longleftrightarrow> i \<le> j"
    using Suc.prems(2) by (auto simp: i_def)
  show ?case
  proof (cases "itype (slots L ! i) = -1 \<or> proc_type (slots L ! i) AND p = 0")
    case True
    then have "clear_proc cls p k L w = (n, L', w')" using Suc.prems(3) by (simp add: Let_def flip: i_def)
    from Suc.IH [OF Suc.prems(1) _ this] Suc.prems(2) True show ?thesis unfolding i by (metis Suc_leD le_neq_implies_less less_imp_le_nat)
  next
    case False
    obtain L1 w1 where d: "discard cls i L w = (L1, w1)" by (metis prod.exhaust)
    obtain m L2 w2 where c: "clear_proc cls p k L1 w1 = (m, L2, w2)" by (metis prod_cases3)
    have e: "n = m + 1" "L' = L2" "w' = w2" using Suc.prems(3) False d c by (simp_all add: Let_def flip: i_def)
    have ne: "itype (slots L ! i) \<noteq> -1" using False by simp
    note D = discard_sound [OF Suc.prems(1) i(1) ne d]
    have len: "length (slots L1) = length (slots L)" using D(2) by simp
    have "k \<le> length (slots L1)" using Suc.prems(2) len by simp
    note C = Suc.IH [OF D(1) this c, unfolded len i]
    have "slots L2 ! j = (if length (slots L) - Suc k \<le> j \<and> itype (slots L ! j) \<noteq> -1
        \<and> proc_type (slots L ! j) AND p \<noteq> 0 then item_Clear (slots L ! j) else slots L ! j)" if "j < length (slots L)" for j
      using C that D(2) False unfolding i by (cases "j = i") (auto simp: nth_list_update)
    then show ?thesis using C e by simp
  qed
qed simp

subsection \<open>Histories of two lists\<close>

text \<open>
  Two lists and an item in hand. A step is one call of an operation, in any order and with any
  arguments the callers pass: positions inside the table where the code does not check them,
  data whose count fits its limit, an empty hand where an item is taken out.
\<close>

type_synonym ('b, 'o) store = "('b, 'o) world \<times> item_list \<times> item_list \<times> item"

inductive store_step :: "('b, 'o) body_class \<Rightarrow> (int \<Rightarrow> nat) \<Rightarrow> ('b, 'o) store \<Rightarrow> ('b, 'o) store \<Rightarrow> bool"
  for cls lim where
  make: "itype h = -1 \<Longrightarrow> data_ok lim d \<Longrightarrow> MakeItemEntry cls d h w = (ok, it, w') \<Longrightarrow>
    store_step cls lim (w, S, D, h) (w', S, D, if ok then it else item_Clear it)"
| release: "item_Release h w = (it, w') \<Longrightarrow> store_step cls lim (w, S, D, h) (w', S, D, it)"
| swap: "list_Swap S D = (S', D') \<Longrightarrow> store_step cls lim (w, S, D, h) (w, S', D', h)"
| push_data: "data_ok lim d \<Longrightarrow> ibody raw = None \<Longrightarrow> Push_data cls raw d S w = (r, d', S', w') \<Longrightarrow>
    store_step cls lim (w, S, D, h) (w', S', D, h)"
| push_item: "itype h \<noteq> -1 \<Longrightarrow> Push_item cls h S w = (r, h', S', w') \<Longrightarrow> store_step cls lim (w, S, D, h) (w', S', D, h')"
| push_empty_data: "data_ok lim (d\<lparr>d_count := sz n\<rparr>) \<Longrightarrow> ibody raw = None \<Longrightarrow>
    PushInEmpty_data cls raw i d n S w = (r, S', w') \<Longrightarrow> store_step cls lim (w, S, D, h) (w', S', D, h)"
| push_empty_item: "itype h \<noteq> -1 \<Longrightarrow> PushInEmpty_item cls i h S w = (r, h', S', w') \<Longrightarrow>
    store_step cls lim (w, S, D, h) (w', S', D, h')"
| put: "i < length (slots S) \<Longrightarrow> list_Put cls i h S w = (b, h', S', w') \<Longrightarrow> store_step cls lim (w, S, D, h) (w', S', D, h')"
| exchange: "i < length (slots S) \<Longrightarrow> list_Exchange cls i h S w = (h', S', w') \<Longrightarrow>
    store_step cls lim (w, S, D, h) (w', S', D, h')"
| exchange_item: "list_ExchangeItem cls i j S w = (b, S', w') \<Longrightarrow> store_step cls lim (w, S, D, h) (w', S', D, h)"
| move_item: "n < 2 ^ 31 \<Longrightarrow> list_MoveItem cls i j n S w = (b, m, S', w') \<Longrightarrow>
    store_step cls lim (w, S, D, h) (w', S', D, h)"
| move_between: "itype raw = -1 \<Longrightarrow> ibody raw = None \<Longrightarrow>
    MoveBetweenItemList cls raw S D i j n w = (r, S', D', w') \<Longrightarrow> store_step cls lim (w, S, D, h) (w', S', D', h)"
| remove_item: "itype h = -1 \<Longrightarrow> i < length (slots S) \<Longrightarrow> list_Remove_item cls i h S w = (h', S', w') \<Longrightarrow>
    store_step cls lim (w, S, D, h) (w', S', D, h')"
| remove: "i < length (slots S) \<Longrightarrow> list_Remove cls i S w = (S', w') \<Longrightarrow> store_step cls lim (w, S, D, h) (w', S', D, h)"
| dec_amount: "i < length (slots S) \<Longrightarrow> itype (slots S ! i) \<noteq> -1 \<Longrightarrow> list_DecAmount cls i n S w = (r, S', w') \<Longrightarrow>
    store_step cls lim (w, S, D, h) (w', S', D, h)"
| inc_amount: "i < length (slots S) \<Longrightarrow> itype (slots S ! i) \<noteq> -1 \<Longrightarrow> list_IncAmount i n S w = (r, S', w') \<Longrightarrow>
    store_step cls lim (w, S, D, h) (w', S', D, h)"
| dec_durability: "i < length (slots S) \<Longrightarrow> itype (slots S ! i) \<noteq> -1 \<Longrightarrow> list_DecDurability cls i a S w = (b, w') \<Longrightarrow>
    store_step cls lim (w, S, D, h) (w', S, D, h)"
| use_item: "i < length (slots S) \<Longrightarrow> list_UseItem cls i n S w = (t, m, S', w') \<Longrightarrow>
    store_step cls lim (w, S, D, h) (w', S', D, h)"
| repair: "store_step cls lim (w, S, D, h) (list_RepairAll cls S w, S, D, h)"
| clear: "list_Clear S w = (S', w') \<Longrightarrow> store_step cls lim (w, S, D, h) (w', S', D, h)"
| set_size: "n < 2 ^ 31 \<Longrightarrow> itype raw = -1 \<Longrightarrow> ibody raw = None \<Longrightarrow>
    store_step cls lim (w, S, D, h) (w, list_SetSize n raw S, D, h)"
| clear_by_proc: "list_ClearByProcType cls p S w = (n, S', w') \<Longrightarrow> store_step cls lim (w, S, D, h) (w', S', D, h)"

definition store_ok :: "(int \<Rightarrow> nat) \<Rightarrow> ('b, 'o) store \<Rightarrow> bool" where
  "store_ok lim s = (case s of (w, S, D, h) \<Rightarrow> sound2 lim {#} w S D h)"

lemma store_okI:
  assumes "sound lim (refs (slots D)) w S h" "list_ok lim D"
  shows "store_ok lim (w, S, D, h)"
  using assms by (simp add: store_ok_def sound2_left)

lemma store_step_ok: "store_step cls lim s t \<Longrightarrow> store_ok lim s \<Longrightarrow> store_ok lim t"
proof (induction rule: store_step.induct)
  case (make h d w ok it w' S D)
  then have s: "sound2 lim {#} w S D h" by (simp add: store_ok_def)
  then have h: "ibody h = None" "owned w (refs (slots S) + refs (slots D))"
    using make.hyps(1) by (auto simp: sound2_def item_ok_def iref_None)
  note m = MakeItemEntry_owned [OF h(2,1) make.hyps(3)]
  show ?case using m(1) s make.hyps(2) by (auto simp: store_ok_def sound2_def data_ok_def item_ok_def item_Clear_def iref_def)
next
  case (release h w it w' S D)
  then have s: "sound2 lim {#} w S D h" by (simp add: store_ok_def)
  then have "owned w (refs (slots S) + refs (slots D) + iref h)" by (simp add: sound2_def)
  from Release_owned [OF this release.hyps] s show ?case by (auto simp: store_ok_def sound2_def)
next
  case (swap S D S' D' w h)
  then show ?case by (auto simp: store_ok_def sound2_def list_Swap_def ac_simps)
next
  case (move_between raw S D i j n w r S' D' w' h)
  then show ?case using MoveBetween_sound(1) [of lim "{#}" w S D h raw] by (simp add: store_ok_def)
next
  case push_data
  then show ?case unfolding store_ok_def prod.case sound2_left using Push_data_sound(1) by blast
next
  case push_item
  then show ?case unfolding store_ok_def prod.case sound2_left using Push_item_sound(1) by blast
next
  case push_empty_data
  then show ?case unfolding store_ok_def prod.case sound2_left using PushInEmpty_data_sound(1) by blast
next
  case push_empty_item
  then show ?case unfolding store_ok_def prod.case sound2_left using PushInEmpty_item_sound(1) by blast
next
  case put
  then show ?case unfolding store_ok_def prod.case sound2_left using list_Put_sound(1) by blast
next
  case exchange
  then show ?case unfolding store_ok_def prod.case sound2_left using list_Exchange_sound(1) by blast
next
  case exchange_item
  then show ?case unfolding store_ok_def prod.case sound2_left using list_ExchangeItem_sound(1) by blast
next
  case move_item
  then show ?case unfolding store_ok_def prod.case sound2_left using list_MoveItem_sound(1) by blast
next
  case remove_item
  then show ?case unfolding store_ok_def prod.case sound2_left using list_Remove_item_sound(1) by blast
next
  case remove
  then show ?case unfolding store_ok_def prod.case sound2_left using list_Remove_sound(1) by blast
next
  case dec_amount
  then show ?case unfolding store_ok_def prod.case sound2_left using list_DecAmount_sound(1) by blast
next
  case inc_amount
  then show ?case unfolding store_ok_def prod.case sound2_left using list_IncAmount_sound(1) by blast
next
  case dec_durability
  then show ?case unfolding store_ok_def prod.case sound2_left using list_DecDurability_sound by blast
next
  case use_item
  then show ?case unfolding store_ok_def prod.case sound2_left using list_UseItem_sound(1) by blast
next
  case repair
  then show ?case unfolding store_ok_def prod.case sound2_left using list_RepairAll_sound by blast
next
  case clear
  then show ?case unfolding store_ok_def prod.case sound2_left using list_Clear_sound(1) by blast
next
  case set_size
  then show ?case unfolding store_ok_def prod.case sound2_left using list_SetSize_sound by blast
next
  case (clear_by_proc p S w n S' w' D h)
  then show ?case unfolding store_ok_def prod.case sound2_left list_ClearByProcType_def using clear_proc_sound by blast
qed

end
