(* ===== verification/ItemDB.thy ===== *)
theory ItemDB
  imports ItemMoves
begin

text \<open>
  The database form of an item list: \<open>MakeDBData\<close>, \<open>GetDBData\<close> and \<open>InitFromDBData\<close> of
  \<open>item_list.h\<close> and the \<open>MakeItemEntry\<close> for database records of \<open>item.cpp\<close>, with the template
  data as a record of functions. Restoring records into an empty list and saving it again gives
  the same records.
\<close>

record db_item =
  db_id :: int
  db_index :: int
  db_count :: nat
  db_max_count :: nat
  db_guid1 :: int
  db_guid2 :: int
  db_mask :: u32
  db_proctype :: u32
  db_expire_date :: int
  db_data :: "byte list"

text \<open>What \<open>itemdataman\<close> and \<open>world_manager\<close> tell of an item id; \<open>tpl_pile_limit\<close> is an \<open>int\<close>.\<close>

record item_templates =
  tpl_sell_price :: "int \<Rightarrow> nat"
  tpl_pile_limit :: "int \<Rightarrow> int"
  tpl_proc_type :: "int \<Rightarrow> u32"
  tpl_expires :: "int \<Rightarrow> bool"
  tpl_classid :: "int \<Rightarrow> int"

subsection \<open>Saving\<close>

definition db_entry :: "('b, 'o) body_class \<Rightarrow> ('b, 'o) world \<Rightarrow> nat \<Rightarrow> item \<Rightarrow> db_item" where
  "db_entry cls w i it =
     \<lparr>db_id = itype it, db_index = int32 (int i), db_count = icount it, db_max_count = pile_limit it,
      db_guid1 = guid1 it, db_guid2 = guid2 it, db_mask = equip_mask it, db_proctype = proc_type it,
      db_expire_date = expire_date it, db_data = body_query [] (body_data cls) it w\<rparr>"

fun db_entries :: "('b, 'o) body_class \<Rightarrow> ('b, 'o) world \<Rightarrow> nat \<Rightarrow> item list \<Rightarrow> db_item list" where
  "db_entries cls w i [] = []"
| "db_entries cls w i (it # xs) =
     (if itype it = -1 then db_entries cls w (i + 1) xs else db_entry cls w i it # db_entries cls w (i + 1) xs)"

text \<open>The array is allocated for \<open>_list.size() - _empty_slot_count\<close> records and filled by the loop.\<close>

definition MakeDBData :: "('b, 'o) body_class \<Rightarrow> item_list \<Rightarrow> ('b, 'o) world \<Rightarrow> db_item list \<times> ('b, 'o) world" where
  "MakeDBData cls L w =
     (let n = sz (int (length (slots L)) - int (empties L)); es = db_entries cls w 0 (slots L)
      in if n = 0 then ([], w) else (es, w_assert (length es = n) w))"

text \<open>\<open>GetDBData\<close> fills an array of the caller and returns the number of records.\<close>

definition GetDBData ::
  "('b, 'o) body_class \<Rightarrow> nat \<Rightarrow> item_list \<Rightarrow> ('b, 'o) world \<Rightarrow> int \<times> db_item list \<times> ('b, 'o) world" where
  "GetDBData cls size1 L w =
     (if size1 < length (slots L) then (-1, [], w\<lparr>fault := True\<rparr>)
      else if sz (int (length (slots L)) - int (empties L)) = 0 then (0, [], w)
      else let es = db_entries cls w 0 (slots L) in (int32 (int (length es)), es, w))"

subsection \<open>Restoring\<close>

definition MakeItemEntry_db ::
  "('b, 'o) body_class \<Rightarrow> item_templates \<Rightarrow> db_item \<Rightarrow> item \<Rightarrow> ('b, 'o) world \<Rightarrow> bool \<times> item \<times> ('b, 'o) world" where
  "MakeItemEntry_db cls tpl e entry w =
     (let np = tpl_proc_type tpl (db_id e);
          p = (if np AND 0x0040 \<noteq> 0 \<and> db_proctype e AND (0x0040 OR 0x8000) = 0
               then db_proctype e OR 0x0040 else db_proctype e);
          p = (p AND NOT 0x4000) OR (np AND 0x4000);
          lim = tpl_pile_limit tpl (db_id e)
      in if int32 lim \<le> 0 \<or> db_count e = 0 then (False, entry, w)
         else if db_expire_date e = 0 \<and> tpl_expires tpl (db_id e) then (False, entry, w)
         else MakeItemEntry cls
           \<lparr>d_type = db_id e, d_count = (if sz lim < db_count e then sz lim else db_count e), d_pile_limit = sz lim,
            d_equip_mask = db_mask e, d_proc_type = p, d_classid = tpl_classid tpl (db_id e),
            d_guid1 = db_guid1 e, d_guid2 = db_guid2 e, d_price = tpl_sell_price tpl (db_id e),
            d_expire_date = db_expire_date e, d_content = db_data e\<rparr> entry w)"

fun init_entries ::
  "('b, 'o) body_class \<Rightarrow> item_templates \<Rightarrow> db_item list \<Rightarrow> item_list \<Rightarrow> ('b, 'o) world \<Rightarrow> item_list \<times> ('b, 'o) world" where
  "init_entries cls tpl [] L w = (L, w)"
| "init_entries cls tpl (e # es) L w =
     (let i = sz (db_index e) in
      if length (slots L) \<le> i then init_entries cls tpl es L w
      else case MakeItemEntry_db cls tpl e (slots L ! i) w of
             (False, it, w) \<Rightarrow> init_entries cls tpl es (set_slot i (item_Clear it) L) w
           | (True, it, w) \<Rightarrow>
               (let L = set_slot i it L;
                    w = item_PutIn cls (location_of L) (slots L) i it w
                in init_entries cls tpl es (dec_empty L) w))"

definition InitFromDBData ::
  "('b, 'o) body_class \<Rightarrow> item_templates \<Rightarrow> db_item list \<Rightarrow> item_list \<Rightarrow> ('b, 'o) world \<Rightarrow> item_list \<times> ('b, 'o) world" where
  "InitFromDBData cls tpl es L w = init_entries cls tpl es L (w_assert (empties L = length (slots L)) w)"

subsection \<open>Records that survive\<close>

text \<open>A record that saving an item of the current templates gives.\<close>

definition entry_ok :: "('b, 'o) body_class \<Rightarrow> item_templates \<Rightarrow> db_item \<Rightarrow> bool" where
  "entry_ok cls tpl e \<longleftrightarrow>
     db_id e \<noteq> -1 \<and> 0 < db_count e \<and> int (db_count e) \<le> tpl_pile_limit tpl (db_id e)
     \<and> tpl_pile_limit tpl (db_id e) < 2 ^ 31 \<and> int (db_max_count e) = tpl_pile_limit tpl (db_id e)
     \<and> (db_expire_date e = 0 \<longrightarrow> \<not> tpl_expires tpl (db_id e))
     \<and> (tpl_proc_type tpl (db_id e) AND 0x0040 \<noteq> 0 \<longrightarrow> db_proctype e AND (0x0040 OR 0x8000) \<noteq> 0)
     \<and> db_proctype e AND 0x4000 = tpl_proc_type tpl (db_id e) AND 0x4000
     \<and> (if 0 < tpl_classid tpl (db_id e)
        then \<exists>b. body_load cls (tpl_classid tpl (db_id e)) (db_id e) (db_data e) = Some b \<and> body_data cls b = db_data e
        else db_data e = [])"

text \<open>Putting an item in does not change the data it is saved with.\<close>

definition stable_data :: "('b, 'o) body_class \<Rightarrow> bool" where
  "stable_data cls \<longleftrightarrow> (\<forall>l xs i n b o1. body_data cls (fst (body_put_in cls l xs i n b o1)) = body_data cls b)"

lemma mask_keep: "p AND m = q AND m \<Longrightarrow> (p AND NOT m) OR (q AND m) = (p :: u32)"
proof -
  assume e: "p AND m = q AND m"
  have "(p AND NOT m) OR (p AND m) = p" by (rule bit_word_eqI) (auto simp: bit_or_iff bit_and_iff bit_not_iff)
  then show ?thesis by (simp only: e)
qed

text \<open>The saved form of a body, by address.\<close>

definition saved :: "('b, 'o) body_class \<Rightarrow> ('b, 'o) world \<Rightarrow> nat \<Rightarrow> byte list option" where
  "saved cls w a = map_option (body_data cls) (bodies w a)"

lemma body_query_saved:
  "body_query [] (body_data cls) it w = (case ibody it of None \<Rightarrow> [] | Some a \<Rightarrow> (case saved cls w a of None \<Rightarrow> [] | Some d \<Rightarrow> d))"
  by (simp add: body_query_def saved_def split: option.split)

lemma db_entry_saved: "saved cls w = saved cls w' \<Longrightarrow> db_entry cls w i it = db_entry cls w' i it"
  by (simp add: db_entry_def body_query_saved split: option.split)

lemma saved_owner [simp]: "saved cls (w\<lparr>owner := x\<rparr>) = saved cls w"
  by (simp add: saved_def fun_eq_iff)

lemma PutIn_saved:
  assumes "stable_data cls"
  shows "saved cls (item_PutIn cls l xs i it w) = saved cls w"
proof -
  have "saved cls (snd (with_body () (\<lambda>b o1. ((), body_put_in cls l xs i n b o1)) it w)) = saved cls w" for n w
  proof (cases "ibody it")
    case (Some a)
    show ?thesis
    proof (cases "bodies w a")
      case (Some b)
      obtain b2 o2 where h: "body_put_in cls l xs i n b (owner w) = (b2, o2)" by (metis prod.exhaust)
      then have "body_data cls b2 = body_data cls b" using assms unfolding stable_data_def by (metis fst_conv)
      then show ?thesis using Some h \<open>ibody it = Some a\<close> by (auto simp: with_body_def saved_def fun_eq_iff)
    qed (use Some in \<open>simp add: with_body_def saved_def fun_eq_iff\<close>)
  qed (simp add: with_body_def)
  then show ?thesis by (simp add: item_PutIn_def Let_def)
qed

lemma db_entries_saved:
  "(\<forall>it \<in> set xs. \<forall>a. ibody it = Some a \<longrightarrow> saved cls w a = saved cls w' a) \<Longrightarrow>
     db_entries cls w i xs = db_entries cls w' i xs"
  by (induction xs arbitrary: i) (auto simp: db_entry_def body_query_saved split: option.split)

lemma db_entries_append: "db_entries cls w i (xs @ ys) = db_entries cls w i xs @ db_entries cls w (i + length xs) ys"
  by (induction xs arbitrary: i) simp_all

lemma db_entries_empty: "\<forall>it \<in> set xs. itype it = -1 \<Longrightarrow> db_entries cls w i xs = []"
  by (induction xs arbitrary: i) simp_all

lemma db_entries_fill:
  assumes "k < length xs" "\<forall>it \<in> set (drop k xs). itype it = -1" "itype it \<noteq> -1"
  shows "db_entries cls w 0 (xs[k := it]) = db_entries cls w 0 xs @ [db_entry cls w k it]"
proof -
  have e: "xs[k := it] = take k xs @ it # drop (k + 1) xs" using assms(1) by (simp add: upd_conv_take_nth_drop)
  have "\<forall>it \<in> set (drop (k + 1) xs). itype it = -1"
    using assms(2) set_drop_subset_set_drop [of k "k + 1" xs] by auto
  then have "db_entries cls w 0 (xs[k := it]) = db_entries cls w 0 (take k xs) @ [db_entry cls w k it]"
    using assms(1,3) by (simp add: e db_entries_append db_entries_empty)
  moreover have "db_entries cls w 0 xs = db_entries cls w 0 (take k xs)"
    using db_entries_append [of cls w 0 "take k xs" "drop k xs"] assms(2) by (simp add: db_entries_empty)
  ultimately show ?thesis by simp
qed

text \<open>The item made of such a record.\<close>

lemma MakeItemEntry_db_ok:
  assumes "entry_ok cls tpl e" "ibody raw = None" "owned w R" "db_index e = int i" "i < 2 ^ 31"
  obtains it w' where "MakeItemEntry_db cls tpl e raw w = (True, it, w')" "owned w' (R + iref it)"
    "item_ok (\<lambda>t. nat (tpl_pile_limit tpl t)) it" "itype it \<noteq> -1" "db_entry cls w' i it = e"
    "\<And>a. a \<noteq> brk w \<Longrightarrow> saved cls w' a = saved cls w a"
proof -
  let ?id = "db_id e"
  have e: "?id \<noteq> -1" "0 < db_count e" "int (db_count e) \<le> tpl_pile_limit tpl ?id" "tpl_pile_limit tpl ?id < 2 ^ 31"
    "int (db_max_count e) = tpl_pile_limit tpl ?id" "db_expire_date e = 0 \<longrightarrow> \<not> tpl_expires tpl ?id"
    "tpl_proc_type tpl ?id AND 0x0040 \<noteq> 0 \<longrightarrow> db_proctype e AND (0x0040 OR 0x8000) \<noteq> 0"
    "db_proctype e AND 0x4000 = tpl_proc_type tpl ?id AND 0x4000"
    using assms(1) by (simp_all add: entry_ok_def)
  have lim: "sz (tpl_pile_limit tpl ?id) = db_max_count e" "int32 (tpl_pile_limit tpl ?id) = tpl_pile_limit tpl ?id"
    "\<not> tpl_pile_limit tpl ?id \<le> 0" using e(2-5) by auto
  let ?d = "\<lparr>d_type = ?id, d_count = db_count e, d_pile_limit = db_max_count e, d_equip_mask = db_mask e,
      d_proc_type = db_proctype e, d_classid = tpl_classid tpl ?id, d_guid1 = db_guid1 e, d_guid2 = db_guid2 e,
      d_price = tpl_sell_price tpl ?id, d_expire_date = db_expire_date e, d_content = db_data e\<rparr>"
  have p: "(db_proctype e AND NOT 0x4000) OR (tpl_proc_type tpl ?id AND 0x4000) = db_proctype e"
    by (rule mask_keep [OF e(8)])
  have le: "\<not> db_max_count e < db_count e" using e(3,5) by linarith
  have run: "MakeItemEntry_db cls tpl e raw w = MakeItemEntry cls ?d raw w"
  proof -
    have "\<not> (tpl_proc_type tpl ?id AND 0x0040 \<noteq> 0 \<and> db_proctype e AND (0x0040 OR 0x8000) = 0)" using e(7) by blast
    moreover have "\<not> (db_expire_date e = 0 \<and> tpl_expires tpl ?id)" "\<not> (int32 (tpl_pile_limit tpl ?id) \<le> 0 \<or> db_count e = 0)"
      using e(2,6) lim by auto
    ultimately show ?thesis unfolding MakeItemEntry_db_def Let_def using p lim(1) le by (simp only: if_False if_cancel refl)
  qed
  obtain ok it w' where m: "MakeItemEntry cls ?d raw w = (ok, it, w')" by (metis prod_cases3)
  note M = MakeItemEntry_owned [OF assms(3,2) m]
  have ok: ok using M(2) assms(1) by (auto simp: loads_def entry_ok_def split: if_splits)
  have i: "int32 (int i) = int i" using assms(5) by simp
  have entry: "db_entry cls w' i it = e \<and> (\<forall>a. a \<noteq> brk w \<longrightarrow> saved cls w' a = saved cls w a)"
  proof (cases "0 < tpl_classid tpl ?id")
    case True
    then obtain b where b: "body_load cls (tpl_classid tpl ?id) ?id (db_data e) = Some b" "body_data cls b = db_data e"
      using assms(1) by (auto simp: entry_ok_def)
    then show ?thesis using m True assms(2,4) i
      by (auto simp: MakeItemEntry_def LoadBody_def Let_def new_body_def db_entry_def body_query_def saved_def)
  next
    case False
    then have "db_data e = []" using assms(1) by (simp add: entry_ok_def)
    then show ?thesis using m False assms(4) i by (auto simp: MakeItemEntry_def Let_def db_entry_def body_query_def)
  qed
  have pl: "nat (tpl_pile_limit tpl ?id) = db_max_count e" using e(5) by simp
  have small: "db_max_count e < 2 ^ 31" using e(4,5) by simp
  have "item_ok (\<lambda>t. nat (tpl_pile_limit tpl t)) it" using M(1) ok e(1,2) le pl small by (simp add: item_ok_def)
  moreover have "MakeItemEntry_db cls tpl e raw w = (True, it, w')" using run m ok by simp
  ultimately show ?thesis using that [of it w'] M(1) ok entry e(1) by simp
qed

lemma init_entries_ok:
  assumes "sound (\<lambda>t. nat (tpl_pile_limit tpl t)) F w L h" "stable_data cls"
    and "\<forall>e \<in> set es. entry_ok cls tpl e \<and> int k \<le> db_index e \<and> db_index e < int (length (slots L))"
    and "sorted_wrt (<) (map db_index es)" "\<forall>it \<in> set (drop k (slots L)). itype it = -1"
    and "init_entries cls tpl es L w = (L', w')"
  shows "sound (\<lambda>t. nat (tpl_pile_limit tpl t)) F w' L' h \<and> db_entries cls w' 0 (slots L') = db_entries cls w 0 (slots L) @ es"
  using assms
proof (induction es arbitrary: L w k)
  case (Cons e es)
  let ?lim = "\<lambda>t. nat (tpl_pile_limit tpl t)"
  define i where "i = nat (db_index e)"
  note ok = soundD [OF Cons.prems(1)]
  have ie: "db_index e = int i" "k \<le> i" "i < length (slots L)" "i < 2 ^ 31"
    using Cons.prems(3) ok(1) by (auto simp: i_def list_ok_def)
  have si: "sz (db_index e) = i" using ie by simp
  have drop_i: "\<forall>it \<in> set (drop i (slots L)). itype it = -1"
    using Cons.prems(5) set_drop_subset_set_drop [OF ie(2), of "slots L"] by blast
  then have emp: "itype (slots L ! i) = -1" using ie(3) by (metis Cons_nth_drop_Suc list.set_intros(1))
  then have raw: "ibody (slots L ! i) = None" using item_ok_nth [OF ok(1) ie(3)] by (simp add: item_ok_def)
  have own: "owned w (F + iref h + refs (slots L))" using ok(3) by (simp add: ac_simps)
  have "entry_ok cls tpl e" using Cons.prems(3) by simp
  then obtain it w1 where
    m: "MakeItemEntry_db cls tpl e (slots L ! i) w = (True, it, w1)" "owned w1 (F + iref h + refs (slots L) + iref it)"
    "item_ok ?lim it" "itype it \<noteq> -1" "db_entry cls w1 i it = e" "\<And>a. a \<noteq> brk w \<Longrightarrow> saved cls w1 a = saved cls w a"
    by (rule MakeItemEntry_db_ok [OF _ raw own ie(1,4)]) blast
  obtain L2 w2 where pl: "place cls i it L w1 = (L2, w2)" by (metis prod.exhaust)
  have s1: "sound ?lim (F + iref h) w1 L it" using m(2,3) ok(1) by (simp add: sound_def)
  note P = place_sound [OF s1 ie(3) emp m(4) pl]
  have s2: "sound ?lim F w2 L2 h" using P(1) ok(2) by (simp add: sound_def ac_simps)
  have run: "init_entries cls tpl es L2 w2 = (L', w')"
    using Cons.prems(6) si ie(3) m(1) pl by (auto simp: place_def Let_def split: prod.splits)
  have w2: "saved cls w2 = saved cls w1"
    using pl PutIn_saved [OF Cons.prems(2)] by (auto simp: place_def Let_def)
  have keep: "\<forall>x \<in> set (slots L). \<forall>a. ibody x = Some a \<longrightarrow> saved cls w2 a = saved cls w a"
  proof (intro ballI allI impI)
    fix x a
    assume x: "x \<in> set (slots L)" "ibody x = Some a"
    then obtain n where n: "n < length (slots L)" "slots L ! n = x" by (auto simp: in_set_conv_nth)
    have "\<exists>b. bodies w a = Some b" using owned_live [OF ok(3) ref_le [OF n(1)]] n(2) x(2) by simp
    then have "a < brk w" using ok(3) by (auto simp: owned_def)
    then show "saved cls w2 a = saved cls w a" using w2 m(6) by simp
  qed
  have e2: "db_entry cls w2 i it = e" using m(5) db_entry_saved [OF w2] by simp
  have entries: "db_entries cls w2 0 (slots L2) = db_entries cls w 0 (slots L) @ [e]"
    using db_entries_fill [OF ie(3) drop_i m(4), of cls w2] db_entries_saved [OF keep, of 0] P(2) e2 by simp
  have "\<forall>x \<in> set (drop (i + 1) (slots L2)). itype x = -1"
    using drop_i set_drop_subset_set_drop [of i "i + 1" "slots L"] P(2) by auto
  moreover have "\<forall>e' \<in> set es. entry_ok cls tpl e' \<and> int (i + 1) \<le> db_index e' \<and> db_index e' < int (length (slots L2))"
    using Cons.prems(3,4) P(2) ie(1) by auto
  moreover have "sorted_wrt (<) (map db_index es)" using Cons.prems(4) by simp
  ultimately show ?case using Cons.IH [where k = "i + 1", OF s2 Cons.prems(2) _ _ _ run] entries by simp
qed simp

lemma length_db_entries: "length (db_entries cls w i xs) = length xs - length (filter (\<lambda>it. itype it = -1) xs)"
  by (induction xs arbitrary: i) (auto simp: Suc_diff_le)

lemma MakeDBData_sound:
  assumes "list_ok lim L"
  shows "MakeDBData cls L w = (db_entries cls w 0 (slots L), w)"
proof -
  have le: "empties L \<le> length (slots L)" "length (slots L) < 2 ^ 64" using assms by (simp_all add: list_ok_def)
  then have "sz (int (length (slots L)) - int (empties L)) = length (slots L) - empties L" by (rule sz_nat(5))
  moreover have "length (db_entries cls w 0 (slots L)) = length (slots L) - empties L"
    using assms by (simp add: length_db_entries list_ok_def)
  moreover have "db_entries cls w 0 (slots L) = [] \<longleftrightarrow> length (db_entries cls w 0 (slots L)) = 0" by simp
  ultimately show ?thesis by (auto simp: MakeDBData_def Let_def)
qed

end
