(* ===== verification/Inventory.thy ===== *)
theory Inventory
  imports ItemDB
begin

text \<open>
  The properties of items and item lists, over the invariants of \<open>ItemListInv\<close>,
  \<open>ItemMoves\<close> and \<open>ItemDB\<close>.
\<close>

subsection \<open>Equipment masks\<close>

lemma equip_bits:
  "bit (0xC0000000 :: u32) n \<longleftrightarrow> n = 30 \<or> n = 31" "bit (0x80000000 :: u32) n \<longleftrightarrow> n = 31"
  "bit (0xFFFFFFFF00000000 :: u64) n \<longleftrightarrow> 32 \<le> n \<and> n < 64" "bit (0x00000000FFFFFFFF :: u64) n \<longleftrightarrow> n < 32"
  "bit (0x3FFFFFFF00000000 :: u64) n \<longleftrightarrow> 32 \<le> n \<and> n < 62" "bit (0x3FFFFFFF :: u64) n \<longleftrightarrow> n < 30"
proof -
  have "(0xC0000000 :: u32) = push_bit 30 (Bit_Operations.mask 2)" "(0x80000000 :: u32) = push_bit 31 1"
    "(0xFFFFFFFF00000000 :: u64) = push_bit 32 (Bit_Operations.mask 32)"
    "(0x00000000FFFFFFFF :: u64) = Bit_Operations.mask 32"
    "(0x3FFFFFFF00000000 :: u64) = push_bit 32 (Bit_Operations.mask 30)"
    "(0x3FFFFFFF :: u64) = Bit_Operations.mask 30"
    by (simp_all add: mask_eq_exp_minus_1)
  then show "bit (0xC0000000 :: u32) n \<longleftrightarrow> n = 30 \<or> n = 31" "bit (0x80000000 :: u32) n \<longleftrightarrow> n = 31"
    "bit (0xFFFFFFFF00000000 :: u64) n \<longleftrightarrow> 32 \<le> n \<and> n < 64" "bit (0x00000000FFFFFFFF :: u64) n \<longleftrightarrow> n < 32"
    "bit (0x3FFFFFFF00000000 :: u64) n \<longleftrightarrow> 32 \<le> n \<and> n < 62" "bit (0x3FFFFFFF :: u64) n \<longleftrightarrow> n < 30"
    by (simp_all only: bit_push_bit_iff bit_mask_iff bit_1_iff possible_bit_word) auto
qed

lemmas equip_simps = equip_bits bit_and_iff bit_or_iff bit_not_iff bit_push_bit_iff bit_ucast_iff bit_drop_bit_eq

lemma high_flag: "((x AND NOT 0xC0000000) OR 0x80000000 :: u32) AND 0x80000000 \<noteq> 0"
proof
  assume "((x AND NOT 0xC0000000) OR 0x80000000 :: u32) AND 0x80000000 = 0"
  then have "bit (((x AND NOT 0xC0000000) OR 0x80000000 :: u32) AND 0x80000000) 31 \<longleftrightarrow> bit (0 :: u32) 31" by (simp only:)
  then show False by (simp only: equip_simps bit_0_eq) simp
qed

lemma low_flag: "(x AND NOT 0xC0000000 :: u32) AND 0x80000000 = 0"
  by (rule bit_word_eqI) (simp only: equip_simps bit_0_eq, auto)

text \<open>
  (C21) Packing a 64-bit equipment mask into the 32 bits of an item and unpacking it returns the
  mask without its two top bits of each half; as soon as one of the upper 32 positions is set,
  the lower 32 are lost.
\<close>

theorem equip_mask_roundtrip:
  "Equipmask32To64 (Equipmask64To32 m) =
     (if m AND 0xFFFFFFFF00000000 \<noteq> 0 then m AND 0x3FFFFFFF00000000 else m AND 0x3FFFFFFF)"
proof (cases "m AND 0xFFFFFFFF00000000 \<noteq> 0")
  case True
  have "push_bit 32 (ucast (((ucast (drop_bit 32 m) AND NOT 0xC0000000) OR 0x80000000 :: u32) AND NOT 0xC0000000)) = m AND 0x3FFFFFFF00000000"
    by (rule bit_word_eqI) (simp only: equip_simps, auto)
  then show ?thesis using True high_flag by (simp add: Equipmask64To32_def Equipmask32To64_def)
next
  case False
  have "ucast ((ucast (m AND 0x00000000FFFFFFFF) AND NOT 0xC0000000 :: u32) AND NOT 0xC0000000) = m AND 0x3FFFFFFF"
    by (rule bit_word_eqI) (simp only: equip_simps, auto)
  then show ?thesis using False low_flag by (simp add: Equipmask64To32_def Equipmask32To64_def)
qed

subsection \<open>Item lists\<close>

lemma slot_room_ok:
  assumes "\<forall>it \<in> set xs. item_ok lim it" "t \<noteq> -1" "n < 2 ^ 31" "- (2 ^ 31) \<le> n"
  shows "slot_room t xs n \<le> 0 \<longleftrightarrow> n \<le> int (room t xs)"
  using assms
proof (induction xs arbitrary: n)
  case (Cons it xs)
  have ok: "item_ok lim it" "\<forall>it \<in> set xs. item_ok lim it" using Cons.prems(1) by simp_all
  show ?case
  proof (cases "0 < n")
    case True
    let ?n = "if itype it = t then int32 (n - (int (pile_limit it) - int (icount it))) else n"
    let ?r = "if itype it = t then pile_limit it - icount it else 0"
    have n: "?n = n - int ?r"
      using item_okD [OF ok(1)] Cons.prems(2,3) True by (auto simp: of_nat_diff)
    have "int ?r < 2 ^ 31" using item_okD [OF ok(1)] Cons.prems(2) by auto
    then have "?n < 2 ^ 31" "- (2 ^ 31) \<le> ?n" using n Cons.prems(3) True by linarith+
    note ih = Cons.IH [OF ok(2) Cons.prems(2) this, unfolded n]
    have "slot_room t (it # xs) n = slot_room t xs (n - int ?r)" using True n by simp
    moreover have "room t (it # xs) = ?r + room t xs" by (simp add: room_def)
    ultimately show ?thesis using ih by linarith
  next
    case False
    then show ?thesis by simp
  qed
qed (simp add: room_def)

lemma room_one: "\<forall>it \<in> set xs. item_ok lim it \<Longrightarrow> t \<noteq> -1 \<Longrightarrow> lim t \<le> 1 \<Longrightarrow> room t xs = 0"
  by (induction xs) (auto simp: room_def item_ok_def)

definition plain_class :: "(byte list, nat) body_class" where
  "plain_class = \<lparr>body_load = \<lambda>c t bs. Some bs, body_clone = id, body_guid = \<lambda>b. 1, body_crc = \<lambda>b. 0, body_data = id,
     body_can_use = \<lambda>l b. True, body_use = \<lambda>l i n b o1. (1, b, o1 + 1), body_dec_durability = \<lambda>n b. (True, b),
     body_repair = id, body_status_value = \<lambda>b. 0, body_addon_expire = \<lambda>b. 0,
     body_put_in = \<lambda>l xs i n b o1. (b, o1 + 1), body_take_out = \<lambda>l i n b o1. (b, o1 - 1),
     own_expire_item = \<lambda>n o1. o1, own_elf_status = \<lambda>n o1. o1, own_addon_expire = \<lambda>n o1. o1\<rparr>"

lemma plain_class_simps [simp]: "body_load plain_class c t bs = Some bs" "stable_data plain_class"
  by (simp_all add: plain_class_def stable_data_def)

text \<open>Concrete states for the witnesses.\<close>

definition w_start :: "(byte list, nat) world" where
  "w_start = \<lparr>bodies = Map.empty, brk = 0, fault = False, owner = 0\<rparr>"

definition raw_item :: item where
  "raw_item = item_new 7 8 9"

definition stack_item :: "nat \<Rightarrow> item" where
  "stack_item n = raw_item\<lparr>itype := 42, icount := n, pile_limit := 20\<rparr>"

definition stack_data :: item_data where
  "stack_data = \<lparr>d_type = 42, d_count = 15, d_pile_limit = 20, d_equip_mask = 0, d_proc_type = 0, d_classid = 5,
     d_guid1 = 1, d_guid2 = 2, d_price = 3, d_expire_date = 0, d_content = [1, 2]\<rparr>"

definition small_list :: item_list where
  "small_list = \<lparr>location_of = INVENTORY, slots = [stack_item 12, raw_item], empties = 1\<rparr>"

lemma witness_simps [simp]:
  "itype raw_item = -1" "ibody raw_item = None" "ibody (stack_item n) = None" "itype (stack_item n) = 42"
  "\<not> fault w_start" "bodies w_start = Map.empty" "data_ok (\<lambda>_. 20) stack_data" "loads plain_class stack_data"
  "0 < n \<Longrightarrow> n \<le> 20 \<Longrightarrow> item_ok (\<lambda>_. 20) (stack_item n)" "item_ok (\<lambda>_. 20) raw_item" "proc_type (stack_item n) = 0"
  by (simp_all add: raw_item_def item_new_def stack_item_def w_start_def data_ok_def stack_data_def loads_def item_ok_def)

lemma small_list_sound [simp]: "sound (\<lambda>_. 20) {#} w_start small_list raw_item"
  by (simp add: sound_def owned_def list_ok_def small_list_def iref_None)



text \<open>
  (C17) \<open>Push\<close> places the whole amount exactly when \<open>HasSlot(type, count)\<close> says so, and the amount
  that is left plus the amount the list has gained is what was given: nothing is lost or made.
\<close>

theorem push_hasslot:
  assumes "sound lim F w L h" "data_ok lim d" "loads cls d" "ibody raw = None"
    and "Push_data cls raw d L w = (r, d', L', w')"
  shows "(d_count d' = 0 \<longleftrightarrow> list_HasSlot_count (d_type d) (int (d_count d)) L)
     \<and> held (d_type d) (slots L') + d_count d' = held (d_type d) (slots L) + d_count d
     \<and> (\<forall>u. u \<noteq> d_type d \<longrightarrow> u \<noteq> -1 \<longrightarrow> held u (slots L') = held u (slots L))"
proof -
  note P = Push_data_sound [OF assms(1,2,4,5)]
  have d: "d_type d \<noteq> -1" "0 < d_count d" "int (d_count d) < 2 ^ 31" "d_count d \<le> lim (d_type d)"
    "d_pile_limit d = lim (d_type d)" using assms(2) by (auto simp: data_ok_def)
  have ok: "\<forall>it \<in> set (slots L). item_ok lim it" using assms(1) by (simp add: sound_def list_ok_def)
  have "slot_room (d_type d) (slots L) (int (d_count d)) \<le> 0 \<longleftrightarrow> d_count d \<le> room (d_type d) (slots L)"
    using slot_room_ok [OF ok d(1,3)] by simp
  moreover have "room (d_type d) (slots L) = 0" if "\<not> 1 < d_pile_limit d"
    using room_one [OF ok d(1)] that d(5) by simp
  ultimately have "d_count d' = 0 \<longleftrightarrow> list_HasSlot_count (d_type d) (int (d_count d)) L"
    using P(4) d(2) assms(3) by (auto simp: list_HasSlot_count_def)
  then show ?thesis using P(2,3) by blast
qed

theorem push_hasslot_witness:
  "case Push_data plain_class raw_item stack_data small_list w_start of (r, d, L, w) \<Rightarrow>
     (d_count d = 0 \<longleftrightarrow> list_HasSlot_count 42 15 small_list) \<and> held 42 (slots L) + d_count d = held 42 (slots small_list) + 15"
proof -
  obtain r d L w where p: "Push_data plain_class raw_item stack_data small_list w_start = (r, d, L, w)"
    by (metis prod_cases4)
  have "d_type stack_data = 42" "d_count stack_data = 15" by (simp_all add: stack_data_def)
  then show ?thesis using push_hasslot [OF small_list_sound _ _ _ p] p by simp
qed

text \<open>
  (C18) \<open>MoveBetweenItemList\<close> never changes the amount of any item type in the two lists together,
  whatever the indices and the count, and keeps both lists and the ownership of bodies in order.
\<close>

theorem move_between_conserves:
  assumes "sound2 lim F w S D h" "itype raw = -1" "ibody raw = None"
    and "MoveBetweenItemList cls raw S D i j n w = (r, S', D', w')" "u \<noteq> -1"
  shows "held u (slots S') + held u (slots D') = held u (slots S) + held u (slots D) \<and> sound2 lim F w' S' D' h \<and> r \<le> int n"
  using MoveBetween_sound [OF assms(1-4)] assms(5) by (simp add: held2_def)

theorem move_between_conserves_witness:
  "case MoveBetweenItemList plain_class raw_item small_list (list_new BACKPACK 2 raw_item) 0 1 5 w_start of (r, S, D, w) \<Rightarrow>
     held 42 (slots S) + held 42 (slots D) = held 42 (slots small_list) + held 42 (slots (list_new BACKPACK 2 raw_item)) \<and> r \<le> 5"
proof -
  obtain r S D w where m: "MoveBetweenItemList plain_class raw_item small_list (list_new BACKPACK 2 raw_item) 0 1 5 w_start = (r, S, D, w)"
    by (metis prod_cases4)
  have "sound2 (\<lambda>_. 20) {#} w_start small_list (list_new BACKPACK 2 raw_item) raw_item"
  proof -
    have e: "refs (slots (list_new BACKPACK 2 raw_item)) = {#}" by (intro refs_none) (simp add: list_new_def)
    have "list_ok (\<lambda>_. 20) (list_new BACKPACK 2 raw_item)" by (simp add: list_new_def list_ok_def)
    then show ?thesis using small_list_sound e by (simp add: sound2_left)
  qed
  from move_between_conserves [OF this _ _ m, of 42] m show ?thesis by simp
qed

text \<open>
  (C19) \<open>ClearByProcType\<close> empties exactly the slots whose item carries one of the flags, leaves all
  others as they were, and keeps the count of empty slots and the ownership of bodies right.
\<close>

theorem clear_by_proc_exact:
  assumes "sound lim F w L h" "list_ClearByProcType cls p L w = (n, L', w')"
  shows "sound lim F w' L' h \<and> (\<forall>i < length (slots L). slots L' ! i =
     (if itype (slots L ! i) \<noteq> -1 \<and> proc_type (slots L ! i) AND p \<noteq> 0 then item_Clear (slots L ! i) else slots L ! i))"
  using clear_proc_sound [OF assms(1) order_refl assms(2) [unfolded list_ClearByProcType_def]] by simp

theorem clear_by_proc_exact_witness:
  "case list_ClearByProcType plain_class 0x100 small_list w_start of (n, L, w) \<Rightarrow> slots L ! 0 = stack_item 12 \<and> slots L ! 1 = raw_item"
proof -
  obtain n L w where c: "list_ClearByProcType plain_class 0x100 small_list w_start = (n, L, w)" by (metis prod_cases3)
  from clear_by_proc_exact [OF small_list_sound c] c show ?thesis by (auto simp: small_list_def)
qed

text \<open>
  (C20) Restoring database records into a new list and saving the list again gives the same
  records: each finds its slot, and no record is dropped, for records of current items.
\<close>

theorem db_reload:
  assumes "\<forall>e \<in> set es. entry_ok cls tpl e \<and> 0 \<le> db_index e \<and> db_index e < int n" "sorted_wrt (<) (map db_index es)"
    and "stable_data cls" "n < 2 ^ 31" "itype raw = -1" "ibody raw = None" "\<not> fault w" "bodies w = Map.empty"
    and "InitFromDBData cls tpl es (list_new l n raw) w = (L, w')"
  shows "MakeDBData cls L w' = (es, w') \<and> \<not> fault w'"
proof -
  let ?lim = "\<lambda>t. nat (tpl_pile_limit tpl t)"
  let ?L = "list_new l n raw"
  have e: "refs (replicate n raw) = {#}" using assms(6) by (intro refs_none) simp
  have s: "sound ?lim {#} w ?L raw"
    using assms(4-8) e by (auto simp: sound_def owned_def list_ok_def list_new_def item_ok_def iref_None)
  have run: "init_entries cls tpl es ?L w = (L, w')" using assms(9) by (simp add: InitFromDBData_def list_new_def)
  have "\<forall>e \<in> set es. entry_ok cls tpl e \<and> int 0 \<le> db_index e \<and> db_index e < int (length (slots ?L))"
    using assms(1) by (simp add: list_new_def)
  moreover have "\<forall>it \<in> set (drop 0 (slots ?L)). itype it = -1" using assms(5) by (simp add: list_new_def)
  moreover have "db_entries cls w 0 (slots ?L) = []" using assms(5) by (simp add: list_new_def db_entries_empty)
  ultimately have r: "sound ?lim {#} w' L raw" "db_entries cls w' 0 (slots L) = es"
    using init_entries_ok [where k = 0, OF s assms(3) _ assms(2) _ run] by auto
  then show ?thesis using MakeDBData_sound [of ?lim L cls w'] by (auto simp: sound_def owned_def)
qed

definition small_templates :: item_templates where
  "small_templates = \<lparr>tpl_sell_price = \<lambda>_. 10, tpl_pile_limit = \<lambda>_. 20, tpl_proc_type = \<lambda>_. 0x40, tpl_expires = \<lambda>_. False,
     tpl_classid = \<lambda>_. 5\<rparr>"

definition small_record :: "int \<Rightarrow> db_item" where
  "small_record i = \<lparr>db_id = 42, db_index = i, db_count = 3, db_max_count = 20, db_guid1 = 1, db_guid2 = 2, db_mask = 4,
     db_proctype = 0x8000, db_expire_date = 0, db_data = [1, 2, 3]\<rparr>"

theorem db_reload_witness:
  "case InitFromDBData plain_class small_templates [small_record 1, small_record 3] (list_new INVENTORY 5 raw_item) w_start of
     (L, w) \<Rightarrow> MakeDBData plain_class L w = ([small_record 1, small_record 3], w) \<and> \<not> fault w"
proof -
  obtain L w where i: "InitFromDBData plain_class small_templates [small_record 1, small_record 3] (list_new INVENTORY 5 raw_item) w_start = (L, w)"
    by (metis prod.exhaust)
  have "entry_ok plain_class small_templates (small_record i)" for i
    by (simp add: entry_ok_def small_templates_def small_record_def plain_class_def)
  moreover have "db_index (small_record i) = i" for i by (simp add: small_record_def)
  ultimately show ?thesis using db_reload [OF _ _ _ _ _ _ _ _ i] i by simp
qed

end
