(* ===== verification/Actor.thy ===== *)
theory Actor
  imports Prelude
begin

text \<open>
  The part of an active object (\<open>gactive_imp\<close>, \<open>src/cgame/gs/actobject.h\<close>) that equipment and
  filters work on, with the operations of \<open>src/cgame/gs/obj_interface.cpp\<close>: the accumulated
  enhancements, the counted visible, sealing and immunity states and the states shown to the
  team. The properties computed from the accumulators use \<open>float\<close> arithmetic
  (\<open>property_policy\<close>, \<open>playertemplate.h\<close>); the model keeps, for each group of them, the
  accumulators they were last computed from. A failed \<open>ASSERT\<close> sets \<open>a_fault\<close>.
\<close>

subsection \<open>The state\<close>

type_synonym int32 = "32 word"

text \<open>\<open>enhanced_param\<close> and \<open>scale_enhanced_param\<close>; arrays are functions of the index. The \<open>float\<close> fields are left out, and \<open>base_damage\<close> and \<open>base_magic\<close>, which the property functions compute.\<close>

record enhanced_param =
  ep_max_mp :: int32
  ep_max_hp :: int32
  ep_hp_gen :: int32
  ep_mp_gen :: int32
  ep_vit :: int32
  ep_eng :: int32
  ep_agi :: int32
  ep_str :: int32
  ep_damage_low :: int32
  ep_damage_high :: int32
  ep_attack :: int32
  ep_attack_speed :: int32
  ep_magic_dmg_low :: int32
  ep_magic_dmg_high :: int32
  ep_defense :: int32
  ep_armor :: int32
  ep_addon_damage :: "nat \<Rightarrow> int32"
  ep_resistance :: "nat \<Rightarrow> int32"

record scale_enhanced_param =
  sp_max_mp :: int32
  sp_max_hp :: int32
  sp_hp_gen :: int32
  sp_mp_gen :: int32
  sp_walk_speed :: int32
  sp_run_speed :: int32
  sp_swim_speed :: int32
  sp_flight_speed :: int32
  sp_mount_speed :: int32
  sp_attack_speed :: int32
  sp_damage :: int32
  sp_attack :: int32
  sp_magic_dmg :: int32
  sp_defense :: int32
  sp_armor :: int32
  sp_resistance :: "nat \<Rightarrow> int32"

datatype prop_group = GAttack | GMagic | GDefense | GSpeed | GLife | GMana | GGen | GCrit

datatype client_msg = ExtpropMove | SelfProperty | NotifyRoot nat | DispelRoot nat

record actor =
  en_point :: enhanced_param
  en_percent :: scale_enhanced_param
  attack_degree :: int32
  defend_degree :: int32
  crit_rate :: int32
  crit_damage_bonus :: int32
  crit_damage_reduce :: int32
  crit_resistance :: int32
  damage_dodge_rate :: int32
  debuff_dodge_rate :: int32
  hp_steal_rate :: int32
  heal_cool_time_adj :: int32
  skill_enhance :: int32
  skill_enhance2 :: int32
  penetration :: int32
  resilience :: int32
  vigour_en :: int32
  prayspeed :: int32
  magic_damage_reduce :: "nat \<Rightarrow> int32"
  cur_hp_gen_add :: int32
  cur_mp_gen_add :: int32
  computed :: "prop_group \<Rightarrow> int32 list"
  refresh_state :: bool
  visible_state_list :: "nat \<Rightarrow> int"
  visible_state_flag :: bool
  visible_team_state :: "u16 list"
  visible_team_state_param :: "int32 list"
  team_visible_state_flag :: bool
  idle_seal_mode_counter :: "nat \<Rightarrow> int"
  idle_mode_flag :: "bool \<times> bool"
  seal_mode_flag :: "bool \<times> bool"
  immune_state_adj :: u32
  immune_state_adj_counter :: "nat \<Rightarrow> int"
  sent :: "client_msg list"
  a_fault :: bool

definition a_fail :: "actor \<Rightarrow> actor" where
  "a_fail A = A\<lparr>a_fault := True\<rparr>"

definition a_assert :: "bool \<Rightarrow> actor \<Rightarrow> actor" where
  "a_assert c A = (if c then A else a_fail A)"

subsection \<open>Computed properties\<close>

text \<open>What each function of \<open>property_policy\<close> reads of the accumulators.\<close>

definition inputs :: "actor \<Rightarrow> prop_group \<Rightarrow> int32 list" where
  "inputs A g =
     (let pt = en_point A; pc = en_percent A in
      case g of
        GAttack \<Rightarrow> [ep_damage_low pt, ep_damage_high pt, sp_damage pc, ep_attack pt, sp_attack pc,
          ep_attack_speed pt, sp_attack_speed pc] @ map (ep_addon_damage pt) [0, 1, 2, 3, 4]
      | GMagic \<Rightarrow> [ep_magic_dmg_low pt, ep_magic_dmg_high pt, sp_magic_dmg pc]
          @ map (ep_resistance pt) [0, 1, 2, 3, 4] @ map (sp_resistance pc) [0, 1, 2, 3, 4]
      | GDefense \<Rightarrow> [ep_defense pt, sp_defense pc, ep_armor pt, sp_armor pc]
      | GSpeed \<Rightarrow> [sp_walk_speed pc, sp_run_speed pc, sp_swim_speed pc, sp_flight_speed pc, sp_mount_speed pc]
      | GLife \<Rightarrow> [ep_vit pt, ep_max_hp pt, sp_max_hp pc]
      | GMana \<Rightarrow> [ep_eng pt, ep_max_mp pt, sp_max_mp pc]
      | GGen \<Rightarrow> [ep_hp_gen pt, sp_hp_gen pc, ep_mp_gen pt, sp_mp_gen pc]
      | GCrit \<Rightarrow> [crit_rate A])"

definition recompute :: "prop_group \<Rightarrow> actor \<Rightarrow> actor" where
  "recompute g A = A\<lparr>computed := (computed A)(g := inputs A g)\<rparr>"

definition UpdateCrit :: "actor \<Rightarrow> actor" where
  "UpdateCrit A = recompute GCrit A"

definition UpdateAttackData :: "actor \<Rightarrow> actor" where
  "UpdateAttackData A = UpdateCrit (recompute GAttack A)"

definition UpdateMagicData :: "actor \<Rightarrow> actor" where
  "UpdateMagicData A = recompute GMagic A"

definition UpdateDefenseData :: "actor \<Rightarrow> actor" where
  "UpdateDefenseData A = recompute GDefense A"

definition UpdateSpeedData :: "actor \<Rightarrow> actor" where
  "UpdateSpeedData A = recompute GSpeed A"

definition UpdateLife :: "actor \<Rightarrow> actor" where
  "UpdateLife A = recompute GLife A"

definition UpdateMana :: "actor \<Rightarrow> actor" where
  "UpdateMana A = recompute GMana A"

definition UpdateHPMPGen :: "actor \<Rightarrow> actor" where
  "UpdateHPMPGen A = (recompute GGen A)\<lparr>cur_hp_gen_add := 0, cur_mp_gen_add := 0\<rparr>"

definition SetRefreshState :: "actor \<Rightarrow> actor" where
  "SetRefreshState A = A\<lparr>refresh_state := True\<rparr>"

definition SendClientCurSpeed :: "actor \<Rightarrow> actor" where
  "SendClientCurSpeed A = A\<lparr>sent := sent A @ [ExtpropMove]\<rparr>"

definition SendClientAttackData :: "actor \<Rightarrow> actor" where
  "SendClientAttackData A = A\<lparr>sent := sent A @ [SelfProperty]\<rparr>"

definition SendClientDefenseData :: "actor \<Rightarrow> actor" where
  "SendClientDefenseData A = A\<lparr>sent := sent A @ [SelfProperty]\<rparr>"

subsection \<open>Enhancing and impairing\<close>

text \<open>\<open>cur_hp_gen_add\<close> is what these add to the computed regeneration itself.\<close>

definition EnhanceHPGen :: "int32 \<Rightarrow> actor \<Rightarrow> actor" where
  "EnhanceHPGen hpgen A = A\<lparr>en_point := (en_point A)\<lparr>ep_hp_gen := ep_hp_gen (en_point A) + hpgen\<rparr>, cur_hp_gen_add := cur_hp_gen_add A + hpgen\<rparr>"

definition ImpairHPGen :: "int32 \<Rightarrow> actor \<Rightarrow> actor" where
  "ImpairHPGen hpgen A = A\<lparr>en_point := (en_point A)\<lparr>ep_hp_gen := ep_hp_gen (en_point A) - hpgen\<rparr>, cur_hp_gen_add := cur_hp_gen_add A - hpgen\<rparr>"

definition EnhanceScaleHPGen :: "int32 \<Rightarrow> actor \<Rightarrow> actor" where
  "EnhanceScaleHPGen hpgen A = A\<lparr>en_percent := (en_percent A)\<lparr>sp_hp_gen := sp_hp_gen (en_percent A) + hpgen\<rparr>\<rparr>"

definition ImpairScaleHPGen :: "int32 \<Rightarrow> actor \<Rightarrow> actor" where
  "ImpairScaleHPGen hpgen A = A\<lparr>en_percent := (en_percent A)\<lparr>sp_hp_gen := sp_hp_gen (en_percent A) - hpgen\<rparr>\<rparr>"

definition EnhanceScaleMPGen :: "int32 \<Rightarrow> actor \<Rightarrow> actor" where
  "EnhanceScaleMPGen mpgen A = A\<lparr>en_percent := (en_percent A)\<lparr>sp_mp_gen := sp_mp_gen (en_percent A) + mpgen\<rparr>\<rparr>"

definition ImpairScaleMPGen :: "int32 \<Rightarrow> actor \<Rightarrow> actor" where
  "ImpairScaleMPGen mpgen A = A\<lparr>en_percent := (en_percent A)\<lparr>sp_mp_gen := sp_mp_gen (en_percent A) - mpgen\<rparr>\<rparr>"

definition EnhanceMPGen :: "int32 \<Rightarrow> actor \<Rightarrow> actor" where
  "EnhanceMPGen mpgen A = A\<lparr>en_point := (en_point A)\<lparr>ep_mp_gen := ep_mp_gen (en_point A) + mpgen\<rparr>, cur_mp_gen_add := cur_mp_gen_add A + mpgen\<rparr>"

definition ImpairMPGen :: "int32 \<Rightarrow> actor \<Rightarrow> actor" where
  "ImpairMPGen mpgen A = A\<lparr>en_point := (en_point A)\<lparr>ep_mp_gen := ep_mp_gen (en_point A) - mpgen\<rparr>, cur_mp_gen_add := cur_mp_gen_add A - mpgen\<rparr>"

definition EnhanceMaxHP :: "int32 \<Rightarrow> actor \<Rightarrow> actor" where
  "EnhanceMaxHP hp A = SetRefreshState (UpdateLife (A\<lparr>en_point := (en_point A)\<lparr>ep_max_hp := ep_max_hp (en_point A) + hp\<rparr>\<rparr>))"

definition ImpairMaxHP :: "int32 \<Rightarrow> actor \<Rightarrow> actor" where
  "ImpairMaxHP hp A = SetRefreshState (UpdateLife (A\<lparr>en_point := (en_point A)\<lparr>ep_max_hp := ep_max_hp (en_point A) - hp\<rparr>\<rparr>))"

definition EnhanceMaxMP :: "int32 \<Rightarrow> actor \<Rightarrow> actor" where
  "EnhanceMaxMP mp A = SetRefreshState (UpdateMana (A\<lparr>en_point := (en_point A)\<lparr>ep_max_mp := ep_max_mp (en_point A) + mp\<rparr>\<rparr>))"

definition ImpairMaxMP :: "int32 \<Rightarrow> actor \<Rightarrow> actor" where
  "ImpairMaxMP mp A = SetRefreshState (UpdateMana (A\<lparr>en_point := (en_point A)\<lparr>ep_max_mp := ep_max_mp (en_point A) - mp\<rparr>\<rparr>))"

definition EnhanceScaleMaxHP :: "int32 \<Rightarrow> actor \<Rightarrow> actor" where
  "EnhanceScaleMaxHP hp A = SetRefreshState (UpdateLife (A\<lparr>en_percent := (en_percent A)\<lparr>sp_max_hp := sp_max_hp (en_percent A) + hp\<rparr>\<rparr>))"

definition ImpairScaleMaxHP :: "int32 \<Rightarrow> actor \<Rightarrow> actor" where
  "ImpairScaleMaxHP hp A = SetRefreshState (UpdateLife (A\<lparr>en_percent := (en_percent A)\<lparr>sp_max_hp := sp_max_hp (en_percent A) - hp\<rparr>\<rparr>))"

definition EnhanceScaleMaxMP :: "int32 \<Rightarrow> actor \<Rightarrow> actor" where
  "EnhanceScaleMaxMP mp A = SetRefreshState (UpdateMana (A\<lparr>en_percent := (en_percent A)\<lparr>sp_max_mp := sp_max_mp (en_percent A) + mp\<rparr>\<rparr>))"

definition ImpairScaleMaxMP :: "int32 \<Rightarrow> actor \<Rightarrow> actor" where
  "ImpairScaleMaxMP mp A = SetRefreshState (UpdateMana (A\<lparr>en_percent := (en_percent A)\<lparr>sp_max_mp := sp_max_mp (en_percent A) - mp\<rparr>\<rparr>))"

definition EnhanceDefense :: "int32 \<Rightarrow> actor \<Rightarrow> actor" where
  "EnhanceDefense v A = A\<lparr>en_point := (en_point A)\<lparr>ep_defense := ep_defense (en_point A) + v\<rparr>\<rparr>"

definition ImpairDefense :: "int32 \<Rightarrow> actor \<Rightarrow> actor" where
  "ImpairDefense v A = A\<lparr>en_point := (en_point A)\<lparr>ep_defense := ep_defense (en_point A) - v\<rparr>\<rparr>"

definition EnhanceScaleAttack :: "int32 \<Rightarrow> actor \<Rightarrow> actor" where
  "EnhanceScaleAttack v A = A\<lparr>en_percent := (en_percent A)\<lparr>sp_attack := sp_attack (en_percent A) + v\<rparr>\<rparr>"

definition ImpairScaleAttack :: "int32 \<Rightarrow> actor \<Rightarrow> actor" where
  "ImpairScaleAttack v A = A\<lparr>en_percent := (en_percent A)\<lparr>sp_attack := sp_attack (en_percent A) - v\<rparr>\<rparr>"

definition EnhanceScaleDefense :: "int32 \<Rightarrow> actor \<Rightarrow> actor" where
  "EnhanceScaleDefense v A = A\<lparr>en_percent := (en_percent A)\<lparr>sp_defense := sp_defense (en_percent A) + v\<rparr>\<rparr>"

definition ImpairScaleDefense :: "int32 \<Rightarrow> actor \<Rightarrow> actor" where
  "ImpairScaleDefense v A = A\<lparr>en_percent := (en_percent A)\<lparr>sp_defense := sp_defense (en_percent A) - v\<rparr>\<rparr>"

definition EnhanceArmor :: "int32 \<Rightarrow> actor \<Rightarrow> actor" where
  "EnhanceArmor v A = A\<lparr>en_point := (en_point A)\<lparr>ep_armor := ep_armor (en_point A) + v\<rparr>\<rparr>"

definition ImpairArmor :: "int32 \<Rightarrow> actor \<Rightarrow> actor" where
  "ImpairArmor v A = A\<lparr>en_point := (en_point A)\<lparr>ep_armor := ep_armor (en_point A) - v\<rparr>\<rparr>"

definition EnhanceScaleArmor :: "int32 \<Rightarrow> actor \<Rightarrow> actor" where
  "EnhanceScaleArmor v A = A\<lparr>en_percent := (en_percent A)\<lparr>sp_armor := sp_armor (en_percent A) + v\<rparr>\<rparr>"

definition ImpairScaleArmor :: "int32 \<Rightarrow> actor \<Rightarrow> actor" where
  "ImpairScaleArmor v A = A\<lparr>en_percent := (en_percent A)\<lparr>sp_armor := sp_armor (en_percent A) - v\<rparr>\<rparr>"

definition EnhanceDamage :: "int32 \<Rightarrow> actor \<Rightarrow> actor" where
  "EnhanceDamage dmg A = A\<lparr>en_point := (en_point A)\<lparr>ep_damage_low := ep_damage_low (en_point A) + dmg, ep_damage_high := ep_damage_high (en_point A) + dmg\<rparr>\<rparr>"

definition ImpairDamage :: "int32 \<Rightarrow> actor \<Rightarrow> actor" where
  "ImpairDamage dmg A = A\<lparr>en_point := (en_point A)\<lparr>ep_damage_low := ep_damage_low (en_point A) - dmg, ep_damage_high := ep_damage_high (en_point A) - dmg\<rparr>\<rparr>"

definition EnhanceMagicDamage :: "int32 \<Rightarrow> actor \<Rightarrow> actor" where
  "EnhanceMagicDamage dmg A = A\<lparr>en_point := (en_point A)\<lparr>ep_magic_dmg_low := ep_magic_dmg_low (en_point A) + dmg, ep_magic_dmg_high := ep_magic_dmg_high (en_point A) + dmg\<rparr>\<rparr>"

definition ImpairMagicDamage :: "int32 \<Rightarrow> actor \<Rightarrow> actor" where
  "ImpairMagicDamage dmg A = A\<lparr>en_point := (en_point A)\<lparr>ep_magic_dmg_low := ep_magic_dmg_low (en_point A) - dmg, ep_magic_dmg_high := ep_magic_dmg_high (en_point A) - dmg\<rparr>\<rparr>"

definition EnhanceScaleDamage :: "int32 \<Rightarrow> actor \<Rightarrow> actor" where
  "EnhanceScaleDamage dmg A = A\<lparr>en_percent := (en_percent A)\<lparr>sp_damage := sp_damage (en_percent A) + dmg\<rparr>\<rparr>"

definition ImpairScaleDamage :: "int32 \<Rightarrow> actor \<Rightarrow> actor" where
  "ImpairScaleDamage dmg A = A\<lparr>en_percent := (en_percent A)\<lparr>sp_damage := sp_damage (en_percent A) - dmg\<rparr>\<rparr>"

definition EnhanceScaleMagicDamage :: "int32 \<Rightarrow> actor \<Rightarrow> actor" where
  "EnhanceScaleMagicDamage dmg A = A\<lparr>en_percent := (en_percent A)\<lparr>sp_magic_dmg := sp_magic_dmg (en_percent A) + dmg\<rparr>\<rparr>"

definition ImpairScaleMagicDamage :: "int32 \<Rightarrow> actor \<Rightarrow> actor" where
  "ImpairScaleMagicDamage dmg A = A\<lparr>en_percent := (en_percent A)\<lparr>sp_magic_dmg := sp_magic_dmg (en_percent A) - dmg\<rparr>\<rparr>"

definition EnhanceSpeed :: "int32 \<Rightarrow> actor \<Rightarrow> actor" where
  "EnhanceSpeed speedup A = A\<lparr>en_percent := (en_percent A)\<lparr>sp_walk_speed := sp_walk_speed (en_percent A) + speedup, sp_run_speed := sp_run_speed (en_percent A) + speedup\<rparr>\<rparr>"

definition ImpairSpeed :: "int32 \<Rightarrow> actor \<Rightarrow> actor" where
  "ImpairSpeed speedup A = A\<lparr>en_percent := (en_percent A)\<lparr>sp_walk_speed := sp_walk_speed (en_percent A) - speedup, sp_run_speed := sp_run_speed (en_percent A) - speedup\<rparr>\<rparr>"

definition EnhanceSwimSpeed :: "int32 \<Rightarrow> actor \<Rightarrow> actor" where
  "EnhanceSwimSpeed speedup A = A\<lparr>en_percent := (en_percent A)\<lparr>sp_swim_speed := sp_swim_speed (en_percent A) + speedup\<rparr>\<rparr>"

definition ImpairSwimSpeed :: "int32 \<Rightarrow> actor \<Rightarrow> actor" where
  "ImpairSwimSpeed speedup A = A\<lparr>en_percent := (en_percent A)\<lparr>sp_swim_speed := sp_swim_speed (en_percent A) - speedup\<rparr>\<rparr>"

definition EnhanceScaleFlySpeed :: "int32 \<Rightarrow> actor \<Rightarrow> actor" where
  "EnhanceScaleFlySpeed speedup A = A\<lparr>en_percent := (en_percent A)\<lparr>sp_flight_speed := sp_flight_speed (en_percent A) + speedup\<rparr>\<rparr>"

definition ImpairScaleFlySpeed :: "int32 \<Rightarrow> actor \<Rightarrow> actor" where
  "ImpairScaleFlySpeed speedup A = A\<lparr>en_percent := (en_percent A)\<lparr>sp_flight_speed := sp_flight_speed (en_percent A) - speedup\<rparr>\<rparr>"

definition EnhanceMountSpeed :: "int32 \<Rightarrow> actor \<Rightarrow> actor" where
  "EnhanceMountSpeed speedup A = A\<lparr>en_percent := (en_percent A)\<lparr>sp_mount_speed := sp_mount_speed (en_percent A) + speedup\<rparr>\<rparr>"

definition ImpairMountSpeed :: "int32 \<Rightarrow> actor \<Rightarrow> actor" where
  "ImpairMountSpeed speedup A = A\<lparr>en_percent := (en_percent A)\<lparr>sp_mount_speed := sp_mount_speed (en_percent A) - speedup\<rparr>\<rparr>"

definition ImpairAttackSpeed :: "int32 \<Rightarrow> actor \<Rightarrow> actor" where
  "ImpairAttackSpeed speedup A = A\<lparr>en_point := (en_point A)\<lparr>ep_attack_speed := ep_attack_speed (en_point A) + speedup\<rparr>\<rparr>"

definition EnhanceAttackSpeed :: "int32 \<Rightarrow> actor \<Rightarrow> actor" where
  "EnhanceAttackSpeed speedup A = A\<lparr>en_point := (en_point A)\<lparr>ep_attack_speed := ep_attack_speed (en_point A) - speedup\<rparr>\<rparr>"

definition ImpairScaleAttackSpeed :: "int32 \<Rightarrow> actor \<Rightarrow> actor" where
  "ImpairScaleAttackSpeed speedup A = A\<lparr>en_percent := (en_percent A)\<lparr>sp_attack_speed := sp_attack_speed (en_percent A) + speedup\<rparr>\<rparr>"

definition EnhanceScaleAttackSpeed :: "int32 \<Rightarrow> actor \<Rightarrow> actor" where
  "EnhanceScaleAttackSpeed speedup A = A\<lparr>en_percent := (en_percent A)\<lparr>sp_attack_speed := sp_attack_speed (en_percent A) - speedup\<rparr>\<rparr>"

definition EnhanceAttackDegree :: "int32 \<Rightarrow> actor \<Rightarrow> actor" where
  "EnhanceAttackDegree v A = A\<lparr>attack_degree := attack_degree A + v\<rparr>"

definition ImpairAttackDegree :: "int32 \<Rightarrow> actor \<Rightarrow> actor" where
  "ImpairAttackDegree v A = A\<lparr>attack_degree := attack_degree A - v\<rparr>"

definition EnhanceDefendDegree :: "int32 \<Rightarrow> actor \<Rightarrow> actor" where
  "EnhanceDefendDegree v A = A\<lparr>defend_degree := defend_degree A + v\<rparr>"

definition ImpairDefendDegree :: "int32 \<Rightarrow> actor \<Rightarrow> actor" where
  "ImpairDefendDegree v A = A\<lparr>defend_degree := defend_degree A - v\<rparr>"

definition EnhanceCrit :: "int32 \<Rightarrow> actor \<Rightarrow> actor" where
  "EnhanceCrit v A = UpdateCrit (A\<lparr>crit_rate := crit_rate A + v\<rparr>)"

definition ImpairCrit :: "int32 \<Rightarrow> actor \<Rightarrow> actor" where
  "ImpairCrit v A = UpdateCrit (A\<lparr>crit_rate := crit_rate A - v\<rparr>)"

definition EnhanceCritDamage :: "int32 \<Rightarrow> actor \<Rightarrow> actor" where
  "EnhanceCritDamage v A = A\<lparr>crit_damage_bonus := crit_damage_bonus A + v\<rparr>"

definition ImpairCritDamage :: "int32 \<Rightarrow> actor \<Rightarrow> actor" where
  "ImpairCritDamage v A = A\<lparr>crit_damage_bonus := crit_damage_bonus A - v\<rparr>"

definition EnhanceCritDamageReduce :: "int32 \<Rightarrow> actor \<Rightarrow> actor" where
  "EnhanceCritDamageReduce v A = A\<lparr>crit_damage_reduce := crit_damage_reduce A + v\<rparr>"

definition ImpairCritDamageReduce :: "int32 \<Rightarrow> actor \<Rightarrow> actor" where
  "ImpairCritDamageReduce v A = A\<lparr>crit_damage_reduce := crit_damage_reduce A - v\<rparr>"

definition EnhanceCritResistance :: "int32 \<Rightarrow> actor \<Rightarrow> actor" where
  "EnhanceCritResistance v A = A\<lparr>crit_resistance := crit_resistance A + v\<rparr>"

definition ImpairCritResistance :: "int32 \<Rightarrow> actor \<Rightarrow> actor" where
  "ImpairCritResistance v A = A\<lparr>crit_resistance := crit_resistance A - v\<rparr>"

definition EnhanceDamageDodge :: "int32 \<Rightarrow> actor \<Rightarrow> actor" where
  "EnhanceDamageDodge v A = A\<lparr>damage_dodge_rate := damage_dodge_rate A + v\<rparr>"

definition ImpairDamageDodge :: "int32 \<Rightarrow> actor \<Rightarrow> actor" where
  "ImpairDamageDodge v A = A\<lparr>damage_dodge_rate := damage_dodge_rate A - v\<rparr>"

definition EnhanceDebuffDodge :: "int32 \<Rightarrow> actor \<Rightarrow> actor" where
  "EnhanceDebuffDodge v A = A\<lparr>debuff_dodge_rate := debuff_dodge_rate A + v\<rparr>"

definition ImpairDebuffDodge :: "int32 \<Rightarrow> actor \<Rightarrow> actor" where
  "ImpairDebuffDodge v A = A\<lparr>debuff_dodge_rate := debuff_dodge_rate A - v\<rparr>"

definition EnhanceHpSteal :: "int32 \<Rightarrow> actor \<Rightarrow> actor" where
  "EnhanceHpSteal v A = A\<lparr>hp_steal_rate := hp_steal_rate A + v\<rparr>"

definition ImpairHpSteal :: "int32 \<Rightarrow> actor \<Rightarrow> actor" where
  "ImpairHpSteal v A = A\<lparr>hp_steal_rate := hp_steal_rate A - v\<rparr>"

definition IncHealCoolTime :: "int32 \<Rightarrow> actor \<Rightarrow> actor" where
  "IncHealCoolTime ms A = A\<lparr>heal_cool_time_adj := heal_cool_time_adj A + ms\<rparr>"

definition DecHealCoolTime :: "int32 \<Rightarrow> actor \<Rightarrow> actor" where
  "DecHealCoolTime ms A = A\<lparr>heal_cool_time_adj := heal_cool_time_adj A - ms\<rparr>"

definition EnhanceSkillDamage :: "int32 \<Rightarrow> actor \<Rightarrow> actor" where
  "EnhanceSkillDamage v A = A\<lparr>skill_enhance := skill_enhance A + v\<rparr>"

definition ImpairSkillDamage :: "int32 \<Rightarrow> actor \<Rightarrow> actor" where
  "ImpairSkillDamage v A = A\<lparr>skill_enhance := skill_enhance A - v\<rparr>"

definition EnhanceSkillDamage2 :: "int32 \<Rightarrow> actor \<Rightarrow> actor" where
  "EnhanceSkillDamage2 v A = A\<lparr>skill_enhance2 := skill_enhance2 A + v\<rparr>"

definition ImpairSkillDamage2 :: "int32 \<Rightarrow> actor \<Rightarrow> actor" where
  "ImpairSkillDamage2 v A = A\<lparr>skill_enhance2 := skill_enhance2 A - v\<rparr>"

definition IncPenetration :: "int32 \<Rightarrow> actor \<Rightarrow> actor" where
  "IncPenetration v A = A\<lparr>penetration := penetration A + v\<rparr>"

definition DecPenetration :: "int32 \<Rightarrow> actor \<Rightarrow> actor" where
  "DecPenetration v A = A\<lparr>penetration := penetration A - v\<rparr>"

definition IncResilience :: "int32 \<Rightarrow> actor \<Rightarrow> actor" where
  "IncResilience v A = A\<lparr>resilience := resilience A + v\<rparr>"

definition DecResilience :: "int32 \<Rightarrow> actor \<Rightarrow> actor" where
  "DecResilience v A = A\<lparr>resilience := resilience A - v\<rparr>"

definition IncVigour :: "int32 \<Rightarrow> actor \<Rightarrow> actor" where
  "IncVigour v A = A\<lparr>vigour_en := vigour_en A + v\<rparr>"

definition DecVigour :: "int32 \<Rightarrow> actor \<Rightarrow> actor" where
  "DecVigour v A = A\<lparr>vigour_en := vigour_en A - v\<rparr>"

definition DecPrayTime :: "int32 \<Rightarrow> actor \<Rightarrow> actor" where
  "DecPrayTime v A = A\<lparr>prayspeed := prayspeed A + v\<rparr>"

definition IncPrayTime :: "int32 \<Rightarrow> actor \<Rightarrow> actor" where
  "IncPrayTime v A = A\<lparr>prayspeed := prayspeed A - v\<rparr>"

definition EnhanceResistance :: "nat \<Rightarrow> int32 \<Rightarrow> actor \<Rightarrow> actor" where
  "EnhanceResistance i res A = (if i < 5 then A\<lparr>en_point := (en_point A)\<lparr>ep_resistance := (ep_resistance (en_point A))(i := ep_resistance (en_point A) i + res)\<rparr>\<rparr> else a_fail A)"

definition ImpairResistance :: "nat \<Rightarrow> int32 \<Rightarrow> actor \<Rightarrow> actor" where
  "ImpairResistance i res A = (if i < 5 then A\<lparr>en_point := (en_point A)\<lparr>ep_resistance := (ep_resistance (en_point A))(i := ep_resistance (en_point A) i - res)\<rparr>\<rparr> else a_fail A)"

definition EnhanceScaleResistance :: "nat \<Rightarrow> int32 \<Rightarrow> actor \<Rightarrow> actor" where
  "EnhanceScaleResistance i res A = (if i < 5 then A\<lparr>en_percent := (en_percent A)\<lparr>sp_resistance := (sp_resistance (en_percent A))(i := sp_resistance (en_percent A) i + res)\<rparr>\<rparr> else a_fail A)"

definition ImpairScaleResistance :: "nat \<Rightarrow> int32 \<Rightarrow> actor \<Rightarrow> actor" where
  "ImpairScaleResistance i res A = (if i < 5 then A\<lparr>en_percent := (en_percent A)\<lparr>sp_resistance := (sp_resistance (en_percent A))(i := sp_resistance (en_percent A) i - res)\<rparr>\<rparr> else a_fail A)"

subsection \<open>Counted states\<close>

abbreviation (input) MAX_VISIBLE_STATE_COUNT :: nat where "MAX_VISIBLE_STATE_COUNT \<equiv> 192"

definition IncVisibleState :: "nat \<Rightarrow> actor \<Rightarrow> actor" where
  "IncVisibleState s A =
     (if s < MAX_VISIBLE_STATE_COUNT then
        let c = visible_state_list A s; A = a_assert (0 \<le> c) A
        in A\<lparr>visible_state_list := (visible_state_list A)(s := c + 1), visible_state_flag := visible_state_flag A \<or> c = 0\<rparr>
      else a_fail A)"

definition DecVisibleState :: "nat \<Rightarrow> actor \<Rightarrow> actor" where
  "DecVisibleState s A =
     (if s < MAX_VISIBLE_STATE_COUNT then
        let c = visible_state_list A s
        in if 0 < c
           then A\<lparr>visible_state_list := (visible_state_list A)(s := c - 1), visible_state_flag := visible_state_flag A \<or> c = 1\<rparr>
           else a_fail A
      else a_fail A)"

definition ClearVisibleState :: "nat \<Rightarrow> actor \<Rightarrow> actor" where
  "ClearVisibleState s A =
     (if s < MAX_VISIBLE_STATE_COUNT then
        let c = visible_state_list A s; A = a_assert (0 \<le> c) A
        in if c \<noteq> 0 then A\<lparr>visible_state_list := (visible_state_list A)(s := 0), visible_state_flag := True\<rparr> else A
      else a_fail A)"

text \<open>Sleep, stun, root and silence; entering and leaving a mode is told to the client.\<close>

abbreviation (input) MODE_INDEX_SLEEP :: nat where "MODE_INDEX_SLEEP \<equiv> 0"
abbreviation (input) MODE_INDEX_STUN :: nat where "MODE_INDEX_STUN \<equiv> 1"
abbreviation (input) MODE_INDEX_ROOT :: nat where "MODE_INDEX_ROOT \<equiv> 2"
abbreviation (input) MODE_INDEX_SILENT :: nat where "MODE_INDEX_SILENT \<equiv> 3"

definition set_mode :: "nat \<Rightarrow> bool \<Rightarrow> actor \<Rightarrow> actor" where
  "set_mode mode b A =
     (if mode = MODE_INDEX_SLEEP then A\<lparr>idle_mode_flag := (b, snd (idle_mode_flag A))\<rparr>
      else if mode = MODE_INDEX_STUN then A\<lparr>idle_mode_flag := (fst (idle_mode_flag A), b)\<rparr>
      else if mode = MODE_INDEX_ROOT then A\<lparr>seal_mode_flag := (fst (seal_mode_flag A), b)\<rparr>
      else A\<lparr>seal_mode_flag := (b, snd (seal_mode_flag A))\<rparr>)"

definition IncIdleSealMode :: "nat \<Rightarrow> actor \<Rightarrow> actor" where
  "IncIdleSealMode mode A =
     (if mode < 4 then
        let c = idle_seal_mode_counter A mode;
            A = a_assert (0 \<le> c) A;
            A = (if c = 0 then
                   let A = set_mode mode True A
                   in if mode = MODE_INDEX_SILENT then A else A\<lparr>sent := sent A @ [NotifyRoot mode]\<rparr>
                 else A)
        in A\<lparr>idle_seal_mode_counter := (idle_seal_mode_counter A)(mode := c + 1)\<rparr>
      else a_fail A)"

definition DecIdleSealMode :: "nat \<Rightarrow> actor \<Rightarrow> actor" where
  "DecIdleSealMode mode A =
     (if mode < 4 then
        let c = idle_seal_mode_counter A mode in
        if 0 < c then
          let A = (if c = 1 then
                     let A = set_mode mode False A
                     in if mode = MODE_INDEX_SILENT then A else A\<lparr>sent := sent A @ [DispelRoot mode]\<rparr>
                   else A)
          in A\<lparr>idle_seal_mode_counter := (idle_seal_mode_counter A)(mode := c - 1)\<rparr>
        else a_fail A
      else a_fail A)"

text \<open>
  Immunities. The loop shifts the signed mask right until it is zero, so a negative mask runs
  past the 32 counters.
\<close>

definition inc_immune_bit :: "nat \<Rightarrow> actor \<Rightarrow> actor" where
  "inc_immune_bit i A =
     (let c = immune_state_adj_counter A i
      in A\<lparr>immune_state_adj := (if c = 0 then set_bit i (immune_state_adj A) else immune_state_adj A),
           immune_state_adj_counter := (immune_state_adj_counter A)(i := c + 1)\<rparr>)"

definition dec_immune_bit :: "nat \<Rightarrow> actor \<Rightarrow> actor" where
  "dec_immune_bit i A =
     (let c = immune_state_adj_counter A i
      in A\<lparr>immune_state_adj := (if c = 1 then unset_bit i (immune_state_adj A) else immune_state_adj A),
           immune_state_adj_counter := (immune_state_adj_counter A)(i := c - 1)\<rparr>)"

function immune_loop :: "(nat \<Rightarrow> actor \<Rightarrow> actor) \<Rightarrow> nat \<Rightarrow> int32 \<Rightarrow> actor \<Rightarrow> actor" where
  "immune_loop step i m A =
     (if m = 0 then A
      else if 32 \<le> i then a_fail A
      else immune_loop step (i + 1) (signed_drop_bit 1 m) (if bit m 0 then step i A else A))"
  by auto
termination by (relation "measure (\<lambda>(_, i, _). 32 - i)") auto

declare immune_loop.simps [simp del]

definition IncImmuneMask :: "int32 \<Rightarrow> actor \<Rightarrow> actor" where
  "IncImmuneMask m A = immune_loop inc_immune_bit 0 m A"

definition DecImmuneMask :: "int32 \<Rightarrow> actor \<Rightarrow> actor" where
  "DecImmuneMask m A = immune_loop dec_immune_bit 0 m A"

subsection \<open>States shown to the team\<close>

text \<open>The two upper bits of an entry are the number of its parameters in the second vector.\<close>

definition TVSGetState :: "u16 \<Rightarrow> u16" where
  "TVSGetState s = s AND 0x3FFF"

definition TVSGetParamCnt :: "u16 \<Rightarrow> nat" where
  "TVSGetParamCnt s = unat (drop_bit 14 (s AND 0xC000))"

definition InsertTeamVisibleState :: "u16 \<Rightarrow> int32 list \<Rightarrow> actor \<Rightarrow> actor" where
  "InsertTeamVisibleState s ps A =
     (let A = a_assert (length ps \<le> 3) A in
      if list_ex (\<lambda>e. TVSGetState e = s) (visible_team_state A) then A
      else A\<lparr>visible_team_state := visible_team_state A @ [s OR push_bit 14 (of_nat (length ps) AND 3)],
             visible_team_state_param := visible_team_state_param A @ ps, team_visible_state_flag := True\<rparr>)"

fun team_remove_loop :: "nat \<Rightarrow> nat \<Rightarrow> u16 \<Rightarrow> actor \<Rightarrow> actor" where
  "team_remove_loop 0 p s A = A"
| "team_remove_loop (Suc i) p s A =
     (let n = TVSGetParamCnt (visible_team_state A ! i); p = p - n
      in if TVSGetState (visible_team_state A ! i) = s
         then team_remove_loop i p s
           (A\<lparr>visible_team_state := take i (visible_team_state A) @ drop (Suc i) (visible_team_state A),
              visible_team_state_param := take p (visible_team_state_param A) @ drop (p + n) (visible_team_state_param A),
              team_visible_state_flag := True\<rparr>)
         else team_remove_loop i p s A)"

definition RemoveTeamVisibleState :: "u16 \<Rightarrow> actor \<Rightarrow> actor" where
  "RemoveTeamVisibleState s A =
     team_remove_loop (length (visible_team_state A)) (length (visible_team_state_param A)) s A"

fun team_modify_loop :: "nat \<Rightarrow> nat \<Rightarrow> u16 \<Rightarrow> int32 list \<Rightarrow> actor \<Rightarrow> actor" where
  "team_modify_loop 0 p s ps A = A"
| "team_modify_loop (Suc i) p s ps A =
     (let n = TVSGetParamCnt (visible_team_state A ! i); p = p - n
      in if TVSGetState (visible_team_state A ! i) = s
         then (a_assert (length ps = n) A)\<lparr>visible_team_state_param :=
                 take p (visible_team_state_param A) @ ps @ drop (p + length ps) (visible_team_state_param A),
               team_visible_state_flag := True\<rparr>
         else team_modify_loop i p s ps A)"

definition ModifyTeamVisibleState :: "u16 \<Rightarrow> int32 list \<Rightarrow> actor \<Rightarrow> actor" where
  "ModifyTeamVisibleState s ps A =
     team_modify_loop (length (visible_team_state A)) (length (visible_team_state_param A)) s ps
       (a_assert (1 \<le> length ps \<and> length ps \<le> 3) A)"

subsection \<open>What the operations add\<close>

text \<open>The accumulators as one vector.\<close>

datatype stat =
    PtMaxMp
  | PtMaxHp
  | PtHpGen
  | PtMpGen
  | PtVit
  | PtEng
  | PtAgi
  | PtStr
  | PtDamageLow
  | PtDamageHigh
  | PtAttack
  | PtAttackSpeed
  | PtMagicDmgLow
  | PtMagicDmgHigh
  | PtDefense
  | PtArmor
  | PcMaxMp
  | PcMaxHp
  | PcHpGen
  | PcMpGen
  | PcWalkSpeed
  | PcRunSpeed
  | PcSwimSpeed
  | PcFlightSpeed
  | PcMountSpeed
  | PcAttackSpeed
  | PcDamage
  | PcAttack
  | PcMagicDmg
  | PcDefense
  | PcArmor
  | AttackDegree
  | DefendDegree
  | CritRate
  | CritDamageBonus
  | CritDamageReduce
  | CritResistance
  | DamageDodgeRate
  | DebuffDodgeRate
  | HpStealRate
  | HealCoolTimeAdj
  | SkillEnhance
  | SkillEnhance2
  | Penetration
  | Resilience
  | VigourEn
  | Prayspeed
  | PtAddonDamage nat
  | PtResistance nat
  | PcResistance nat
  | MagicDamageReduce nat

fun amount :: "actor \<Rightarrow> stat \<Rightarrow> int32" where
  "amount A PtMaxMp = ep_max_mp (en_point A)"
| "amount A PtMaxHp = ep_max_hp (en_point A)"
| "amount A PtHpGen = ep_hp_gen (en_point A)"
| "amount A PtMpGen = ep_mp_gen (en_point A)"
| "amount A PtVit = ep_vit (en_point A)"
| "amount A PtEng = ep_eng (en_point A)"
| "amount A PtAgi = ep_agi (en_point A)"
| "amount A PtStr = ep_str (en_point A)"
| "amount A PtDamageLow = ep_damage_low (en_point A)"
| "amount A PtDamageHigh = ep_damage_high (en_point A)"
| "amount A PtAttack = ep_attack (en_point A)"
| "amount A PtAttackSpeed = ep_attack_speed (en_point A)"
| "amount A PtMagicDmgLow = ep_magic_dmg_low (en_point A)"
| "amount A PtMagicDmgHigh = ep_magic_dmg_high (en_point A)"
| "amount A PtDefense = ep_defense (en_point A)"
| "amount A PtArmor = ep_armor (en_point A)"
| "amount A PcMaxMp = sp_max_mp (en_percent A)"
| "amount A PcMaxHp = sp_max_hp (en_percent A)"
| "amount A PcHpGen = sp_hp_gen (en_percent A)"
| "amount A PcMpGen = sp_mp_gen (en_percent A)"
| "amount A PcWalkSpeed = sp_walk_speed (en_percent A)"
| "amount A PcRunSpeed = sp_run_speed (en_percent A)"
| "amount A PcSwimSpeed = sp_swim_speed (en_percent A)"
| "amount A PcFlightSpeed = sp_flight_speed (en_percent A)"
| "amount A PcMountSpeed = sp_mount_speed (en_percent A)"
| "amount A PcAttackSpeed = sp_attack_speed (en_percent A)"
| "amount A PcDamage = sp_damage (en_percent A)"
| "amount A PcAttack = sp_attack (en_percent A)"
| "amount A PcMagicDmg = sp_magic_dmg (en_percent A)"
| "amount A PcDefense = sp_defense (en_percent A)"
| "amount A PcArmor = sp_armor (en_percent A)"
| "amount A AttackDegree = attack_degree A"
| "amount A DefendDegree = defend_degree A"
| "amount A CritRate = crit_rate A"
| "amount A CritDamageBonus = crit_damage_bonus A"
| "amount A CritDamageReduce = crit_damage_reduce A"
| "amount A CritResistance = crit_resistance A"
| "amount A DamageDodgeRate = damage_dodge_rate A"
| "amount A DebuffDodgeRate = debuff_dodge_rate A"
| "amount A HpStealRate = hp_steal_rate A"
| "amount A HealCoolTimeAdj = heal_cool_time_adj A"
| "amount A SkillEnhance = skill_enhance A"
| "amount A SkillEnhance2 = skill_enhance2 A"
| "amount A Penetration = penetration A"
| "amount A Resilience = resilience A"
| "amount A VigourEn = vigour_en A"
| "amount A Prayspeed = prayspeed A"
| "amount A (PtAddonDamage i) = ep_addon_damage (en_point A) i"
| "amount A (PtResistance i) = ep_resistance (en_point A) i"
| "amount A (PcResistance i) = sp_resistance (en_percent A) i"
| "amount A (MagicDamageReduce i) = magic_damage_reduce A i"


named_theorems amount_simps \<open>the accumulators after an operation\<close>

lemmas Update_defs = UpdateCrit_def UpdateAttackData_def UpdateMagicData_def UpdateDefenseData_def UpdateSpeedData_def
  UpdateLife_def UpdateMana_def UpdateHPMPGen_def recompute_def SetRefreshState_def
  SendClientCurSpeed_def SendClientAttackData_def SendClientDefenseData_def

lemmas enhance_defs =
  EnhanceHPGen_def ImpairHPGen_def EnhanceScaleHPGen_def ImpairScaleHPGen_def EnhanceScaleMPGen_def
  ImpairScaleMPGen_def EnhanceMPGen_def ImpairMPGen_def EnhanceMaxHP_def ImpairMaxHP_def
  EnhanceMaxMP_def ImpairMaxMP_def EnhanceScaleMaxHP_def ImpairScaleMaxHP_def EnhanceScaleMaxMP_def
  ImpairScaleMaxMP_def EnhanceDefense_def ImpairDefense_def EnhanceScaleAttack_def ImpairScaleAttack_def
  EnhanceScaleDefense_def ImpairScaleDefense_def EnhanceArmor_def ImpairArmor_def EnhanceScaleArmor_def
  ImpairScaleArmor_def EnhanceDamage_def ImpairDamage_def EnhanceMagicDamage_def ImpairMagicDamage_def
  EnhanceScaleDamage_def ImpairScaleDamage_def EnhanceScaleMagicDamage_def ImpairScaleMagicDamage_def EnhanceSpeed_def
  ImpairSpeed_def EnhanceSwimSpeed_def ImpairSwimSpeed_def EnhanceScaleFlySpeed_def ImpairScaleFlySpeed_def
  EnhanceMountSpeed_def ImpairMountSpeed_def ImpairAttackSpeed_def EnhanceAttackSpeed_def ImpairScaleAttackSpeed_def
  EnhanceScaleAttackSpeed_def EnhanceAttackDegree_def ImpairAttackDegree_def EnhanceDefendDegree_def ImpairDefendDegree_def
  EnhanceCrit_def ImpairCrit_def EnhanceCritDamage_def ImpairCritDamage_def EnhanceCritDamageReduce_def
  ImpairCritDamageReduce_def EnhanceCritResistance_def ImpairCritResistance_def EnhanceDamageDodge_def ImpairDamageDodge_def
  EnhanceDebuffDodge_def ImpairDebuffDodge_def EnhanceHpSteal_def ImpairHpSteal_def IncHealCoolTime_def
  DecHealCoolTime_def EnhanceSkillDamage_def ImpairSkillDamage_def EnhanceSkillDamage2_def ImpairSkillDamage2_def
  IncPenetration_def DecPenetration_def IncResilience_def DecResilience_def IncVigour_def
  DecVigour_def DecPrayTime_def IncPrayTime_def

lemma amount_update [amount_simps]:
  "amount (a_fail A) s = amount A s" "amount (a_assert b A) s = amount A s"
  "amount (UpdateCrit A) s = amount A s" "amount (UpdateAttackData A) s = amount A s" "amount (UpdateMagicData A) s = amount A s"
  "amount (UpdateDefenseData A) s = amount A s" "amount (UpdateSpeedData A) s = amount A s" "amount (UpdateLife A) s = amount A s"
  "amount (UpdateMana A) s = amount A s" "amount (UpdateHPMPGen A) s = amount A s" "amount (SetRefreshState A) s = amount A s"
  "amount (SendClientCurSpeed A) s = amount A s" "amount (SendClientAttackData A) s = amount A s"
  "amount (SendClientDefenseData A) s = amount A s"
  by (cases s; simp add: Update_defs a_fail_def a_assert_def)+

lemma amount_enhance [amount_simps]:
  "amount (EnhanceHPGen x A) s = amount A s + (if s = PtHpGen then x else 0)"
  "amount (ImpairHPGen x A) s = amount A s - (if s = PtHpGen then x else 0)"
  "amount (EnhanceScaleHPGen x A) s = amount A s + (if s = PcHpGen then x else 0)"
  "amount (ImpairScaleHPGen x A) s = amount A s - (if s = PcHpGen then x else 0)"
  "amount (EnhanceScaleMPGen x A) s = amount A s + (if s = PcMpGen then x else 0)"
  "amount (ImpairScaleMPGen x A) s = amount A s - (if s = PcMpGen then x else 0)"
  "amount (EnhanceMPGen x A) s = amount A s + (if s = PtMpGen then x else 0)"
  "amount (ImpairMPGen x A) s = amount A s - (if s = PtMpGen then x else 0)"
  "amount (EnhanceMaxHP x A) s = amount A s + (if s = PtMaxHp then x else 0)"
  "amount (ImpairMaxHP x A) s = amount A s - (if s = PtMaxHp then x else 0)"
  "amount (EnhanceMaxMP x A) s = amount A s + (if s = PtMaxMp then x else 0)"
  "amount (ImpairMaxMP x A) s = amount A s - (if s = PtMaxMp then x else 0)"
  "amount (EnhanceScaleMaxHP x A) s = amount A s + (if s = PcMaxHp then x else 0)"
  "amount (ImpairScaleMaxHP x A) s = amount A s - (if s = PcMaxHp then x else 0)"
  "amount (EnhanceScaleMaxMP x A) s = amount A s + (if s = PcMaxMp then x else 0)"
  "amount (ImpairScaleMaxMP x A) s = amount A s - (if s = PcMaxMp then x else 0)"
  "amount (EnhanceDefense x A) s = amount A s + (if s = PtDefense then x else 0)"
  "amount (ImpairDefense x A) s = amount A s - (if s = PtDefense then x else 0)"
  "amount (EnhanceScaleAttack x A) s = amount A s + (if s = PcAttack then x else 0)"
  "amount (ImpairScaleAttack x A) s = amount A s - (if s = PcAttack then x else 0)"
  "amount (EnhanceScaleDefense x A) s = amount A s + (if s = PcDefense then x else 0)"
  "amount (ImpairScaleDefense x A) s = amount A s - (if s = PcDefense then x else 0)"
  "amount (EnhanceArmor x A) s = amount A s + (if s = PtArmor then x else 0)"
  "amount (ImpairArmor x A) s = amount A s - (if s = PtArmor then x else 0)"
  "amount (EnhanceScaleArmor x A) s = amount A s + (if s = PcArmor then x else 0)"
  "amount (ImpairScaleArmor x A) s = amount A s - (if s = PcArmor then x else 0)"
  "amount (EnhanceDamage x A) s = amount A s + (if s = PtDamageLow \<or> s = PtDamageHigh then x else 0)"
  "amount (ImpairDamage x A) s = amount A s - (if s = PtDamageLow \<or> s = PtDamageHigh then x else 0)"
  "amount (EnhanceMagicDamage x A) s = amount A s + (if s = PtMagicDmgLow \<or> s = PtMagicDmgHigh then x else 0)"
  "amount (ImpairMagicDamage x A) s = amount A s - (if s = PtMagicDmgLow \<or> s = PtMagicDmgHigh then x else 0)"
  "amount (EnhanceScaleDamage x A) s = amount A s + (if s = PcDamage then x else 0)"
  "amount (ImpairScaleDamage x A) s = amount A s - (if s = PcDamage then x else 0)"
  "amount (EnhanceScaleMagicDamage x A) s = amount A s + (if s = PcMagicDmg then x else 0)"
  "amount (ImpairScaleMagicDamage x A) s = amount A s - (if s = PcMagicDmg then x else 0)"
  "amount (EnhanceSpeed x A) s = amount A s + (if s = PcWalkSpeed \<or> s = PcRunSpeed then x else 0)"
  "amount (ImpairSpeed x A) s = amount A s - (if s = PcWalkSpeed \<or> s = PcRunSpeed then x else 0)"
  "amount (EnhanceSwimSpeed x A) s = amount A s + (if s = PcSwimSpeed then x else 0)"
  "amount (ImpairSwimSpeed x A) s = amount A s - (if s = PcSwimSpeed then x else 0)"
  "amount (EnhanceScaleFlySpeed x A) s = amount A s + (if s = PcFlightSpeed then x else 0)"
  "amount (ImpairScaleFlySpeed x A) s = amount A s - (if s = PcFlightSpeed then x else 0)"
  "amount (EnhanceMountSpeed x A) s = amount A s + (if s = PcMountSpeed then x else 0)"
  "amount (ImpairMountSpeed x A) s = amount A s - (if s = PcMountSpeed then x else 0)"
  "amount (ImpairAttackSpeed x A) s = amount A s + (if s = PtAttackSpeed then x else 0)"
  "amount (EnhanceAttackSpeed x A) s = amount A s - (if s = PtAttackSpeed then x else 0)"
  "amount (ImpairScaleAttackSpeed x A) s = amount A s + (if s = PcAttackSpeed then x else 0)"
  "amount (EnhanceScaleAttackSpeed x A) s = amount A s - (if s = PcAttackSpeed then x else 0)"
  "amount (EnhanceAttackDegree x A) s = amount A s + (if s = AttackDegree then x else 0)"
  "amount (ImpairAttackDegree x A) s = amount A s - (if s = AttackDegree then x else 0)"
  "amount (EnhanceDefendDegree x A) s = amount A s + (if s = DefendDegree then x else 0)"
  "amount (ImpairDefendDegree x A) s = amount A s - (if s = DefendDegree then x else 0)"
  "amount (EnhanceCrit x A) s = amount A s + (if s = CritRate then x else 0)"
  "amount (ImpairCrit x A) s = amount A s - (if s = CritRate then x else 0)"
  "amount (EnhanceCritDamage x A) s = amount A s + (if s = CritDamageBonus then x else 0)"
  "amount (ImpairCritDamage x A) s = amount A s - (if s = CritDamageBonus then x else 0)"
  "amount (EnhanceCritDamageReduce x A) s = amount A s + (if s = CritDamageReduce then x else 0)"
  "amount (ImpairCritDamageReduce x A) s = amount A s - (if s = CritDamageReduce then x else 0)"
  "amount (EnhanceCritResistance x A) s = amount A s + (if s = CritResistance then x else 0)"
  "amount (ImpairCritResistance x A) s = amount A s - (if s = CritResistance then x else 0)"
  "amount (EnhanceDamageDodge x A) s = amount A s + (if s = DamageDodgeRate then x else 0)"
  "amount (ImpairDamageDodge x A) s = amount A s - (if s = DamageDodgeRate then x else 0)"
  "amount (EnhanceDebuffDodge x A) s = amount A s + (if s = DebuffDodgeRate then x else 0)"
  "amount (ImpairDebuffDodge x A) s = amount A s - (if s = DebuffDodgeRate then x else 0)"
  "amount (EnhanceHpSteal x A) s = amount A s + (if s = HpStealRate then x else 0)"
  "amount (ImpairHpSteal x A) s = amount A s - (if s = HpStealRate then x else 0)"
  "amount (IncHealCoolTime x A) s = amount A s + (if s = HealCoolTimeAdj then x else 0)"
  "amount (DecHealCoolTime x A) s = amount A s - (if s = HealCoolTimeAdj then x else 0)"
  "amount (EnhanceSkillDamage x A) s = amount A s + (if s = SkillEnhance then x else 0)"
  "amount (ImpairSkillDamage x A) s = amount A s - (if s = SkillEnhance then x else 0)"
  "amount (EnhanceSkillDamage2 x A) s = amount A s + (if s = SkillEnhance2 then x else 0)"
  "amount (ImpairSkillDamage2 x A) s = amount A s - (if s = SkillEnhance2 then x else 0)"
  "amount (IncPenetration x A) s = amount A s + (if s = Penetration then x else 0)"
  "amount (DecPenetration x A) s = amount A s - (if s = Penetration then x else 0)"
  "amount (IncResilience x A) s = amount A s + (if s = Resilience then x else 0)"
  "amount (DecResilience x A) s = amount A s - (if s = Resilience then x else 0)"
  "amount (IncVigour x A) s = amount A s + (if s = VigourEn then x else 0)"
  "amount (DecVigour x A) s = amount A s - (if s = VigourEn then x else 0)"
  "amount (DecPrayTime x A) s = amount A s + (if s = Prayspeed then x else 0)"
  "amount (IncPrayTime x A) s = amount A s - (if s = Prayspeed then x else 0)"
  by (cases s; simp add: enhance_defs SetRefreshState_def Update_defs)+

end
