(* ===== verification/ActorLaws.thy ===== *)
theory ActorLaws
  imports Actor
begin

text \<open>
  The laws of the operations of \<open>Actor\<close>: what each adds to the accumulators and the counters,
  that modes and immunities follow their counters, the vector of team states as a list of
  entries, and which computed properties an operation leaves behind.
\<close>

subsection \<open>Counters\<close>

datatype counter = VState nat | IdleSeal nat | Immune nat

definition count_of :: "actor \<Rightarrow> counter \<Rightarrow> int" where
  "count_of A = (\<lambda>c. case c of VState s \<Rightarrow> visible_state_list A s | IdleSeal m \<Rightarrow> idle_seal_mode_counter A m
     | Immune i \<Rightarrow> immune_state_adj_counter A i)"

definition modes :: "actor \<Rightarrow> (bool \<times> bool) \<times> (bool \<times> bool) \<times> u32" where
  "modes A = (idle_mode_flag A, seal_mode_flag A, immune_state_adj A)"

text \<open>
  \<open>same_control B A\<close>: the counters, the modes and the assertions of \<open>B\<close> are those of \<open>A\<close>;
  \<open>steady B A\<close>: so are the team states.
\<close>

definition same_control :: "actor \<Rightarrow> actor \<Rightarrow> bool" where
  "same_control B A \<longleftrightarrow> visible_state_list B = visible_state_list A \<and> idle_seal_mode_counter B = idle_seal_mode_counter A
     \<and> immune_state_adj_counter B = immune_state_adj_counter A \<and> modes B = modes A \<and> a_fault B = a_fault A"

definition steady :: "actor \<Rightarrow> actor \<Rightarrow> bool" where
  "steady B A \<longleftrightarrow> same_control B A \<and> visible_team_state B = visible_team_state A
     \<and> visible_team_state_param B = visible_team_state_param A"

lemma same_count: "same_control B A \<Longrightarrow> count_of B c = count_of A c"
  and same_modes: "same_control B A \<Longrightarrow> modes B = modes A"
  and same_fault: "same_control B A \<Longrightarrow> a_fault B = a_fault A"
  by (auto simp: same_control_def count_of_def split: counter.splits)

lemma steady_same: "steady B A \<Longrightarrow> same_control B A"
  by (simp add: steady_def)

lemmas steady_count = same_count [OF steady_same]
lemmas steady_modes = same_modes [OF steady_same]
lemmas steady_fault = same_fault [OF steady_same]

lemma steady_enhance:
  "steady (EnhanceHPGen x A) A"
  "steady (ImpairHPGen x A) A"
  "steady (EnhanceScaleHPGen x A) A"
  "steady (ImpairScaleHPGen x A) A"
  "steady (EnhanceScaleMPGen x A) A"
  "steady (ImpairScaleMPGen x A) A"
  "steady (EnhanceMPGen x A) A"
  "steady (ImpairMPGen x A) A"
  "steady (EnhanceMaxHP x A) A"
  "steady (ImpairMaxHP x A) A"
  "steady (EnhanceMaxMP x A) A"
  "steady (ImpairMaxMP x A) A"
  "steady (EnhanceScaleMaxHP x A) A"
  "steady (ImpairScaleMaxHP x A) A"
  "steady (EnhanceScaleMaxMP x A) A"
  "steady (ImpairScaleMaxMP x A) A"
  "steady (EnhanceDefense x A) A"
  "steady (ImpairDefense x A) A"
  "steady (EnhanceScaleAttack x A) A"
  "steady (ImpairScaleAttack x A) A"
  "steady (EnhanceScaleDefense x A) A"
  "steady (ImpairScaleDefense x A) A"
  "steady (EnhanceArmor x A) A"
  "steady (ImpairArmor x A) A"
  "steady (EnhanceScaleArmor x A) A"
  "steady (ImpairScaleArmor x A) A"
  "steady (EnhanceDamage x A) A"
  "steady (ImpairDamage x A) A"
  "steady (EnhanceMagicDamage x A) A"
  "steady (ImpairMagicDamage x A) A"
  "steady (EnhanceScaleDamage x A) A"
  "steady (ImpairScaleDamage x A) A"
  "steady (EnhanceScaleMagicDamage x A) A"
  "steady (ImpairScaleMagicDamage x A) A"
  "steady (EnhanceSpeed x A) A"
  "steady (ImpairSpeed x A) A"
  "steady (EnhanceSwimSpeed x A) A"
  "steady (ImpairSwimSpeed x A) A"
  "steady (EnhanceScaleFlySpeed x A) A"
  "steady (ImpairScaleFlySpeed x A) A"
  "steady (EnhanceMountSpeed x A) A"
  "steady (ImpairMountSpeed x A) A"
  "steady (ImpairAttackSpeed x A) A"
  "steady (EnhanceAttackSpeed x A) A"
  "steady (ImpairScaleAttackSpeed x A) A"
  "steady (EnhanceScaleAttackSpeed x A) A"
  "steady (EnhanceAttackDegree x A) A"
  "steady (ImpairAttackDegree x A) A"
  "steady (EnhanceDefendDegree x A) A"
  "steady (ImpairDefendDegree x A) A"
  "steady (EnhanceCrit x A) A"
  "steady (ImpairCrit x A) A"
  "steady (EnhanceCritDamage x A) A"
  "steady (ImpairCritDamage x A) A"
  "steady (EnhanceCritDamageReduce x A) A"
  "steady (ImpairCritDamageReduce x A) A"
  "steady (EnhanceCritResistance x A) A"
  "steady (ImpairCritResistance x A) A"
  "steady (EnhanceDamageDodge x A) A"
  "steady (ImpairDamageDodge x A) A"
  "steady (EnhanceDebuffDodge x A) A"
  "steady (ImpairDebuffDodge x A) A"
  "steady (EnhanceHpSteal x A) A"
  "steady (ImpairHpSteal x A) A"
  "steady (IncHealCoolTime x A) A"
  "steady (DecHealCoolTime x A) A"
  "steady (EnhanceSkillDamage x A) A"
  "steady (ImpairSkillDamage x A) A"
  "steady (EnhanceSkillDamage2 x A) A"
  "steady (ImpairSkillDamage2 x A) A"
  "steady (IncPenetration x A) A"
  "steady (DecPenetration x A) A"
  "steady (IncResilience x A) A"
  "steady (DecResilience x A) A"
  "steady (IncVigour x A) A"
  "steady (DecVigour x A) A"
  "steady (DecPrayTime x A) A"
  "steady (IncPrayTime x A) A"
  by (simp_all add: steady_def same_control_def modes_def enhance_defs Update_defs)

lemma steady_update:
  "steady (UpdateCrit A) A"
  "steady (UpdateAttackData A) A"
  "steady (UpdateMagicData A) A"
  "steady (UpdateDefenseData A) A"
  "steady (UpdateSpeedData A) A"
  "steady (UpdateLife A) A"
  "steady (UpdateMana A) A"
  "steady (UpdateHPMPGen A) A"
  "steady (SetRefreshState A) A"
  "steady (SendClientCurSpeed A) A"
  "steady (SendClientAttackData A) A"
  "steady (SendClientDefenseData A) A"
  by (simp_all add: steady_def same_control_def modes_def Update_defs)

lemmas resistance_defs = EnhanceResistance_def ImpairResistance_def EnhanceScaleResistance_def ImpairScaleResistance_def

lemma steady_resistance:
  assumes "i < 5"
  shows "steady (EnhanceResistance i x A) A" "steady (ImpairResistance i x A) A"
    "steady (EnhanceScaleResistance i x A) A" "steady (ImpairScaleResistance i x A) A"
  using assms by (simp_all add: steady_def same_control_def modes_def resistance_defs)

named_theorems count_simps \<open>the counters, the modes and the assertions after an operation\<close>

lemmas count_enhance [count_simps] =
  steady_enhance [THEN steady_count] steady_enhance [THEN steady_modes] steady_enhance [THEN steady_fault]

lemmas count_update [count_simps] =
  steady_update [THEN steady_count] steady_update [THEN steady_modes] steady_update [THEN steady_fault]

lemmas count_resistance [count_simps] =
  steady_resistance [THEN steady_count] steady_resistance [THEN steady_modes] steady_resistance [THEN steady_fault]

lemma amount_resistance [amount_simps]:
  "amount (EnhanceResistance i x A) s = amount A s + (if s = PtResistance i \<and> i < 5 then x else 0)"
  "amount (ImpairResistance i x A) s = amount A s - (if s = PtResistance i \<and> i < 5 then x else 0)"
  "amount (EnhanceScaleResistance i x A) s = amount A s + (if s = PcResistance i \<and> i < 5 then x else 0)"
  "amount (ImpairScaleResistance i x A) s = amount A s - (if s = PcResistance i \<and> i < 5 then x else 0)"
  by (cases s; simp add: resistance_defs a_fail_def)+

lemma count_visible [count_simps]:
  "count_of (IncVisibleState s A) c = count_of A c + (if c = VState s \<and> s < MAX_VISIBLE_STATE_COUNT then 1 else 0)"
  "modes (IncVisibleState s A) = modes A"
  "a_fault (IncVisibleState s A) \<longleftrightarrow> a_fault A \<or> \<not> (s < MAX_VISIBLE_STATE_COUNT \<and> 0 \<le> count_of A (VState s))"
  "count_of (DecVisibleState s A) c
     = count_of A c - (if c = VState s \<and> s < MAX_VISIBLE_STATE_COUNT \<and> 0 < count_of A c then 1 else 0)"
  "modes (DecVisibleState s A) = modes A"
  "a_fault (DecVisibleState s A) \<longleftrightarrow> a_fault A \<or> \<not> (s < MAX_VISIBLE_STATE_COUNT \<and> 0 < count_of A (VState s))"
  by (cases c; simp add: count_of_def modes_def IncVisibleState_def DecVisibleState_def a_fail_def a_assert_def Let_def)+

lemma count_idle [count_simps]:
  "count_of (IncIdleSealMode m A) c = count_of A c + (if c = IdleSeal m \<and> m < 4 then 1 else 0)"
  "a_fault (IncIdleSealMode m A) \<longleftrightarrow> a_fault A \<or> \<not> (m < 4 \<and> 0 \<le> count_of A (IdleSeal m))"
  "count_of (DecIdleSealMode m A) c = count_of A c - (if c = IdleSeal m \<and> m < 4 \<and> 0 < count_of A c then 1 else 0)"
  "a_fault (DecIdleSealMode m A) \<longleftrightarrow> a_fault A \<or> \<not> (m < 4 \<and> 0 < count_of A (IdleSeal m))"
  by (cases c; simp add: count_of_def IncIdleSealMode_def DecIdleSealMode_def set_mode_def a_fail_def a_assert_def Let_def)+

lemma modes_idle [count_simps]:
  "m < 4 \<Longrightarrow> modes (IncIdleSealMode m A) = (if count_of A (IdleSeal m) = 0 then modes (set_mode m True A) else modes A)"
  "m < 4 \<Longrightarrow> modes (DecIdleSealMode m A) = (if count_of A (IdleSeal m) = 1 then modes (set_mode m False A) else modes A)"
  by (simp_all add: count_of_def modes_def IncIdleSealMode_def DecIdleSealMode_def set_mode_def a_fail_def a_assert_def Let_def)

lemma amount_counted [amount_simps]:
  "amount (IncVisibleState s' A) s = amount A s" "amount (DecVisibleState s' A) s = amount A s"
  "amount (IncIdleSealMode m A) s = amount A s" "amount (DecIdleSealMode m A) s = amount A s"
  "amount (inc_immune_bit i A) s = amount A s" "amount (dec_immune_bit i A) s = amount A s"
  by (cases s; simp add: IncVisibleState_def DecVisibleState_def IncIdleSealMode_def DecIdleSealMode_def set_mode_def
      inc_immune_bit_def dec_immune_bit_def a_fail_def a_assert_def Let_def)+

text \<open>Immunity masks without the sign bit.\<close>

lemma bit_shift_right:
  assumes "\<not> bit (m :: int32) 31"
  shows "bit (signed_drop_bit 1 m) j \<longleftrightarrow> bit m (j + 1)"
  using assms bit_imp_le_length [of m "j + 1"] by (auto simp: bit_signed_drop_bit_iff)

lemma immune_loop_unfold:
  assumes "m \<noteq> 0" "i < 32"
  shows "immune_loop step i m A = immune_loop step (i + 1) (signed_drop_bit 1 m) (if bit m 0 then step i A else A)"
  using assms by (subst immune_loop.simps) simp

lemma immune_loop_zero: "immune_loop step i 0 A = A"
  by (subst immune_loop.simps) simp

lemma immune_loop_fold:
  assumes "\<And>j. bit m j \<Longrightarrow> i + j < 31"
  shows "immune_loop step i m A = fold step (filter (\<lambda>k. bit m (k - i)) [i..<31]) A"
  using assms
proof (induction "31 - i" arbitrary: i m A)
  case 0
  then have "m = 0" by (intro bit_word_eqI) force
  then show ?case by (simp add: immune_loop_zero)
next
  case (Suc n)
  have i: "i < 31" "[i..<31] = i # [Suc i..<31]" using Suc.hyps(2) by (simp_all add: upt_conv_Cons)
  have "\<not> bit m 31" using Suc.prems [of 31] by auto
  note shift = bit_shift_right [OF this]
  show ?case
  proof (cases "m = 0")
    case False
    have "immune_loop step (i + 1) (signed_drop_bit 1 m) A' = fold step (filter (\<lambda>k. bit (signed_drop_bit 1 m) (k - (i + 1))) [i + 1..<31]) A'" for A'
      by (rule Suc.hyps(1)) (use Suc.hyps(2) Suc.prems shift in force)+
    moreover have "filter (\<lambda>k. bit (signed_drop_bit 1 m) (k - (i + 1))) [i + 1..<31] = filter (\<lambda>k. bit m (k - i)) [Suc i..<31]"
    proof (rule filter_cong)
      fix x assume "x \<in> set [Suc i..<31]"
      then have "x - (i + 1) + 1 = x - i" by (simp add: Suc_diff_Suc Suc_le_eq)
      then show "bit (signed_drop_bit 1 m) (x - (i + 1)) = bit m (x - i)" unfolding shift by (simp only:)
    qed simp
    ultimately show ?thesis
      using immune_loop_unfold [OF False, of i step A] i(1) unfolding i(2) by simp
  qed (simp add: immune_loop_zero)
qed

lemma immune_mask_fold:
  assumes "\<not> bit m 31"
  shows "IncImmuneMask m A = fold inc_immune_bit (filter (bit m) [0..<31]) A"
    and "DecImmuneMask m A = fold dec_immune_bit (filter (bit m) [0..<31]) A"
proof -
  have "0 + j < 31" if "bit m j" for j
    using that assms bit_imp_le_length [OF that] by (cases "j = 31") auto
  then show "IncImmuneMask m A = fold inc_immune_bit (filter (bit m) [0..<31]) A"
    and "DecImmuneMask m A = fold dec_immune_bit (filter (bit m) [0..<31]) A"
    unfolding IncImmuneMask_def DecImmuneMask_def using immune_loop_fold [of m 0] by simp_all
qed

lemma count_immune_bit:
  "count_of (inc_immune_bit i A) c = count_of A c + (if c = Immune i then 1 else 0)" "a_fault (inc_immune_bit i A) = a_fault A"
  "count_of (dec_immune_bit i A) c = count_of A c - (if c = Immune i then 1 else 0)" "a_fault (dec_immune_bit i A) = a_fault A"
  by (cases c; simp add: count_of_def inc_immune_bit_def dec_immune_bit_def Let_def)+

lemma immune_fold:
  assumes "distinct ks"
  shows "count_of (fold inc_immune_bit ks A) c = count_of A c + (if c \<in> Immune ` set ks then 1 else 0)"
    "count_of (fold dec_immune_bit ks A) c = count_of A c - (if c \<in> Immune ` set ks then 1 else 0)"
    "a_fault (fold inc_immune_bit ks A) = a_fault A" "a_fault (fold dec_immune_bit ks A) = a_fault A"
    "amount (fold inc_immune_bit ks A) s = amount A s" "amount (fold dec_immune_bit ks A) s = amount A s"
  using assms by (induction ks arbitrary: A) (auto simp: count_immune_bit amount_counted)

definition immune_bit :: "int32 \<Rightarrow> counter \<Rightarrow> bool" where
  "immune_bit m c = (case c of Immune i \<Rightarrow> bit m i | _ \<Rightarrow> False)"

lemma count_immune [count_simps]:
  assumes "\<not> bit m 31"
  shows "count_of (IncImmuneMask m A) c = count_of A c + (if immune_bit m c then 1 else 0)"
    "count_of (DecImmuneMask m A) c = count_of A c - (if immune_bit m c then 1 else 0)"
    "a_fault (IncImmuneMask m A) = a_fault A" "a_fault (DecImmuneMask m A) = a_fault A"
    "amount (IncImmuneMask m A) s = amount A s" "amount (DecImmuneMask m A) s = amount A s"
proof -
  have "bit m i \<Longrightarrow> i < 31" for i
    using assms bit_imp_le_length [of m i] by (cases "i = 31") auto
  then have "c \<in> Immune ` set (filter (bit m) [0..<31]) \<longleftrightarrow> immune_bit m c"
    unfolding immune_bit_def by (cases c) auto
  moreover have "distinct (filter (bit m) [0..<31])" by simp
  ultimately show "count_of (IncImmuneMask m A) c = count_of A c + (if immune_bit m c then 1 else 0)"
    "count_of (DecImmuneMask m A) c = count_of A c - (if immune_bit m c then 1 else 0)"
    "a_fault (IncImmuneMask m A) = a_fault A" "a_fault (DecImmuneMask m A) = a_fault A"
    "amount (IncImmuneMask m A) s = amount A s" "amount (DecImmuneMask m A) s = amount A s"
    unfolding immune_mask_fold [OF assms] by (simp_all only: immune_fold)
qed

lemmas amount_immune [amount_simps] = count_immune(5,6)

text \<open>A mask with the sign bit runs out of the counters.\<close>

lemma immune_loop_negative:
  assumes "bit m 31"
  shows "a_fault (immune_loop step i m A)"
  using assms
proof (induction "32 - i" arbitrary: i m A)
  case 0
  then show ?case by (subst immune_loop.simps) (auto simp: a_fail_def)
next
  case (Suc n)
  have "m \<noteq> 0" using Suc.prems by auto
  moreover have "bit (signed_drop_bit 1 m) 31" using Suc.prems by (simp add: bit_signed_drop_bit_iff)
  moreover have "n = 32 - (i + 1)" "i < 32" using Suc.hyps(2) by simp_all
  ultimately show ?case using Suc.hyps(1) immune_loop_unfold [of m i step A] by metis
qed

subsection \<open>Team states\<close>

lemma team_counters:
  "count_of (InsertTeamVisibleState s ps A) c = count_of A c"
  "modes (InsertTeamVisibleState s ps A) = modes A"
  "amount (InsertTeamVisibleState s ps A) t = amount A t"
  "a_fault (InsertTeamVisibleState s ps A) \<longleftrightarrow> a_fault A \<or> 3 < length ps"
  by (cases c; cases t; simp add: count_of_def modes_def InsertTeamVisibleState_def a_assert_def a_fail_def Let_def)+

lemma RemoveTeam_control: "same_control (RemoveTeamVisibleState s A) A"
proof -
  have "same_control (team_remove_loop i p s A) A" for i p
    by (induction i arbitrary: p A) (simp_all add: same_control_def modes_def Let_def)
  then show ?thesis by (simp add: RemoveTeamVisibleState_def)
qed

lemma RemoveTeam_amount: "amount (RemoveTeamVisibleState s A) t = amount A t"
proof -
  have "amount (team_remove_loop i p s A) t = amount A t" for i p
    by (induction i arbitrary: p A; cases t; simp add: Let_def)
  then show ?thesis by (simp add: RemoveTeamVisibleState_def)
qed

lemmas RemoveTeam_counters =
  same_count [OF RemoveTeam_control] same_modes [OF RemoveTeam_control] same_fault [OF RemoveTeam_control] RemoveTeam_amount

lemmas team_simps [count_simps] = team_counters(1,2,4) RemoveTeam_counters(1-3)

lemmas team_amount [amount_simps] = team_counters(3) RemoveTeam_amount


text \<open>The two vectors as one list of entries.\<close>

definition entry_ok :: "u16 \<times> int32 list \<Rightarrow> bool" where
  "entry_ok e \<longleftrightarrow> fst e = TVSGetState (fst e) \<and> length (snd e) \<le> 3"

definition entry_word :: "u16 \<times> int32 list \<Rightarrow> u16" where
  "entry_word e = fst e OR push_bit 14 (of_nat (length (snd e)) AND 3)"

definition team_is :: "(u16 \<times> int32 list) list \<Rightarrow> actor \<Rightarrow> bool" where
  "team_is es A \<longleftrightarrow> (\<forall>e \<in> set es. entry_ok e) \<and> visible_team_state A = map entry_word es
     \<and> visible_team_state_param A = concat (map snd es)"

lemma entry_word_decode:
  assumes "entry_ok e"
  shows "TVSGetState (entry_word e) = fst e" "TVSGetParamCnt (entry_word e) = length (snd e)"
proof -
  have f: "fst e = fst e AND 0x3FFF" using assms by (simp add: entry_ok_def TVSGetState_def)
  have m: "(0x3FFF :: u16) = mask 14" "(0xC000 :: u16) = push_bit 14 (mask 2)" "(3 :: u16) = mask 2"
    by (simp_all add: mask_eq_exp_minus_1 push_bit_eq_mult)
  have fb: "bit (fst e) n \<Longrightarrow> n < 14" for n
    using f unfolding m by (metis bit_and_iff bit_mask_iff)
  show "TVSGetState (entry_word e) = fst e"
    unfolding TVSGetState_def entry_word_def m
    by (rule bit_word_eqI) (use fb in \<open>auto simp: bit_and_iff bit_or_iff bit_mask_iff bit_push_bit_iff\<close>)
  have "drop_bit 14 (entry_word e AND 0xC000) = (of_nat (length (snd e)) AND mask 2 :: u16)"
    unfolding entry_word_def m
    by (rule bit_word_eqI)
      (use fb in \<open>auto simp: bit_and_iff bit_or_iff bit_mask_iff bit_push_bit_iff bit_drop_bit_eq\<close>)
  moreover have "unat (of_nat (length (snd e)) AND mask 2 :: u16) = length (snd e)"
  proof -
    have "length (snd e) \<le> 3" using assms by (simp add: entry_ok_def)
    then have "length (snd e) = 0 \<or> length (snd e) = 1 \<or> length (snd e) = 2 \<or> length (snd e) = 3"
      by arith
    then show ?thesis by (auto simp: mask_eq_exp_minus_1)
  qed
  ultimately show "TVSGetParamCnt (entry_word e) = length (snd e)" by (simp add: TVSGetParamCnt_def)
qed

named_theorems team_intros \<open>operations that keep \<open>team_is\<close>\<close>

lemma steady_team: "steady B A \<Longrightarrow> team_is es A \<Longrightarrow> team_is es B"
  by (simp add: steady_def team_is_def)

lemmas team_steady [team_intros] =
  steady_enhance [THEN steady_team] steady_update [THEN steady_team] steady_resistance [THEN steady_team]

lemma team_counted [team_intros]:
  assumes "team_is es A"
  shows "team_is es (IncVisibleState s A)" "team_is es (DecVisibleState s A)"
    "team_is es (IncIdleSealMode m A)" "team_is es (DecIdleSealMode m A)"
    "team_is es (inc_immune_bit i A)" "team_is es (dec_immune_bit i A)"
  using assms by (simp_all add: team_is_def IncVisibleState_def DecVisibleState_def IncIdleSealMode_def DecIdleSealMode_def
      set_mode_def inc_immune_bit_def dec_immune_bit_def a_fail_def a_assert_def Let_def)

lemma team_immune [team_intros]:
  assumes "team_is es A" "\<not> bit m 31"
  shows "team_is es (IncImmuneMask m A)" "team_is es (DecImmuneMask m A)"
proof -
  have "team_is es A \<Longrightarrow> team_is es (fold inc_immune_bit ks A)" "team_is es A \<Longrightarrow> team_is es (fold dec_immune_bit ks A)" for ks
    by (induction ks arbitrary: A) (simp_all add: team_counted)
  then show "team_is es (IncImmuneMask m A)" "team_is es (DecImmuneMask m A)"
    using assms by (simp_all add: immune_mask_fold)
qed

lemma InsertTeam_entries [team_intros]:
  assumes "team_is es A" "entry_ok (s, ps)"
  shows "team_is (if s \<in> fst ` set es then es else es @ [(s, ps)]) (InsertTeamVisibleState s ps A)"
proof -
  have "list_ex (\<lambda>e. TVSGetState e = s) (visible_team_state A) \<longleftrightarrow> s \<in> fst ` set es"
    using assms(1) entry_word_decode(1) by (auto simp: team_is_def list_ex_iff)
  then show ?thesis
    using assms by (auto simp: InsertTeamVisibleState_def team_is_def a_assert_def entry_ok_def entry_word_def)
qed

lemma team_remove_entries:
  assumes "team_is (es @ rest) A" "p = length (concat (map snd es))" "s \<notin> fst ` set rest"
  shows "team_is (filter (\<lambda>e. fst e \<noteq> s) es @ rest) (team_remove_loop (length es) p s A)"
  using assms
proof (induction es arbitrary: rest p A rule: rev_induct)
  case (snoc e es)
  have ok: "entry_ok e" using snoc.prems(1) by (simp add: team_is_def)
  have nth: "visible_team_state A ! length es = entry_word e" using snoc.prems(1) by (simp add: team_is_def nth_append)
  note dec = entry_word_decode [OF ok]
  have p: "p - length (snd e) = length (concat (map snd es))" using snoc.prems(2) by simp
  show ?case
  proof (cases "fst e = s")
    case True
    let ?A = "A\<lparr>visible_team_state := take (length es) (visible_team_state A) @ drop (Suc (length es)) (visible_team_state A),
              visible_team_state_param := take (p - length (snd e)) (visible_team_state_param A) @ drop (p - length (snd e) + length (snd e)) (visible_team_state_param A),
              team_visible_state_flag := True\<rparr>"
    have "team_is (es @ rest) ?A" using snoc.prems(1) p by (simp add: team_is_def)
    from snoc.IH [OF this p snoc.prems(3)] show ?thesis using True by (simp add: nth dec Let_def)
  next
    case False
    have "team_is (es @ e # rest) A" using snoc.prems(1) by simp
    from snoc.IH [OF this p] show ?thesis using False snoc.prems(3) by (simp add: nth dec Let_def)
  qed
qed simp

lemma RemoveTeam_entries [team_intros]:
  assumes "team_is es A"
  shows "team_is (filter (\<lambda>e. fst e \<noteq> s) es) (RemoveTeamVisibleState s A)"
  using team_remove_entries [of es "[]" A _ s] assms by (simp add: RemoveTeamVisibleState_def team_is_def)

lemma team_modify_entries:
  assumes "team_is (es @ rest) A" "p = length (concat (map snd es))" "distinct (map fst es)" "length ps \<le> 3"
    and "\<And>q. (s, q) \<in> set es \<Longrightarrow> length q = length ps"
  shows "team_is (map (\<lambda>e. if fst e = s then (s, ps) else e) es @ rest) (team_modify_loop (length es) p s ps A)"
  using assms
proof (induction es arbitrary: rest p A rule: rev_induct)
  case (snoc e es)
  have ok: "entry_ok e" using snoc.prems(1) by (simp add: team_is_def)
  have nth: "visible_team_state A ! length es = entry_word e" using snoc.prems(1) by (simp add: team_is_def nth_append)
  note dec = entry_word_decode [OF ok]
  have p: "p - length (snd e) = length (concat (map snd es))" using snoc.prems(2) by simp
  show ?case
  proof (cases "fst e = s")
    case True
    have l: "length (snd e) = length ps" using snoc.prems(5) [of "snd e"] True by (cases e) auto
    have "s \<notin> fst ` set es" using snoc.prems(3) True by auto
    then have "map (\<lambda>e. if fst e = s then (s, ps) else e) es = es" by (intro map_idI) force
    moreover have "entry_word (s, ps) = entry_word e" using True l by (simp add: entry_word_def)
    moreover have "team_modify_loop (length (es @ [e])) p s ps A = A\<lparr>visible_team_state_param :=
          take (p - length ps) (visible_team_state_param A) @ ps @ drop (p - length ps + length ps) (visible_team_state_param A),
        team_visible_state_flag := True\<rparr>"
      using True l by (simp add: nth dec Let_def a_assert_def)
    ultimately show ?thesis using snoc.prems(1,4) ok True l p
      by (simp add: team_is_def entry_ok_def)
  next
    case False
    have "team_is (es @ e # rest) A" using snoc.prems(1) by simp
    from snoc.IH [OF this p] show ?thesis using False snoc.prems(3-5) by (simp add: nth dec Let_def)
  qed
qed simp



subsection \<open>Modes and immunities follow their counters\<close>

definition modes_ok :: "(counter \<Rightarrow> int) \<Rightarrow> (bool \<times> bool) \<times> (bool \<times> bool) \<times> u32 \<Rightarrow> bool" where
  "modes_ok c = (\<lambda>((sleep, stun), (silent, root), imm).
     (sleep \<longleftrightarrow> 0 < c (IdleSeal MODE_INDEX_SLEEP)) \<and> (stun \<longleftrightarrow> 0 < c (IdleSeal MODE_INDEX_STUN))
     \<and> (root \<longleftrightarrow> 0 < c (IdleSeal MODE_INDEX_ROOT)) \<and> (silent \<longleftrightarrow> 0 < c (IdleSeal MODE_INDEX_SILENT))
     \<and> (\<forall>i < 32. bit imm i \<longleftrightarrow> 0 < c (Immune i)))"

definition counted_ok :: "actor \<Rightarrow> bool" where
  "counted_ok A \<longleftrightarrow> (\<forall>c. 0 \<le> count_of A c) \<and> modes_ok (count_of A) (modes A)"

lemma counted_okD: "counted_ok A \<Longrightarrow> 0 \<le> count_of A c" "counted_ok A \<Longrightarrow> modes_ok (count_of A) (modes A)"
  by (simp_all add: counted_ok_def)

text \<open>The visible states have no mode.\<close>

lemma modes_ok_cong:
  assumes "modes_ok c m" "\<And>i. c' (IdleSeal i) = c (IdleSeal i)" "\<And>i. c' (Immune i) = c (Immune i)"
  shows "modes_ok c' m"
  using assms by (cases m) (simp add: modes_ok_def)

named_theorems counted_intros \<open>operations that keep \<open>counted_ok\<close>\<close>

lemma same_counted: "same_control B A \<Longrightarrow> counted_ok A \<Longrightarrow> counted_ok B"
  by (simp add: counted_ok_def same_modes ext [OF same_count])

lemmas steady_counted = same_counted [OF steady_same]

lemmas counted_steady [counted_intros] =
  steady_enhance [THEN steady_counted] steady_update [THEN steady_counted] steady_resistance [THEN steady_counted]

lemma counted_team [counted_intros]:
  "counted_ok A \<Longrightarrow> counted_ok (InsertTeamVisibleState t ps A)" "counted_ok A \<Longrightarrow> counted_ok (RemoveTeamVisibleState t A)"
  by (simp_all add: same_counted [OF RemoveTeam_control])
    (simp add: counted_ok_def team_counters ext [OF team_counters(1)])

lemma counted_visible [counted_intros]:
  assumes "counted_ok A"
  shows "counted_ok (IncVisibleState s A)" "counted_ok (DecVisibleState s A)"
proof -
  note ok = counted_okD [OF assms]
  show "counted_ok (IncVisibleState s A)"
    unfolding counted_ok_def count_visible
    by (intro conjI modes_ok_cong [OF ok(2)]) (use ok(1) in \<open>simp_all add: count_visible add_nonneg_nonneg\<close>)
  show "counted_ok (DecVisibleState s A)"
    unfolding counted_ok_def count_visible
    by (intro conjI modes_ok_cong [OF ok(2)]) (use ok(1) in \<open>simp_all add: count_visible\<close>)
qed

lemma modes_set_mode:
  "modes (set_mode m b A) = (case modes A of ((sleep, stun), (silent, root), imm) \<Rightarrow>
     if m = MODE_INDEX_SLEEP then ((b, stun), (silent, root), imm)
     else if m = MODE_INDEX_STUN then ((sleep, b), (silent, root), imm)
     else if m = MODE_INDEX_ROOT then ((sleep, stun), (silent, b), imm)
     else ((sleep, stun), (b, root), imm))"
  by (simp add: modes_def set_mode_def split: prod.split)

lemma modes_ok_set:
  assumes "modes_ok c (modes A)" "m < 4"
  shows "modes_ok (c(IdleSeal m := n)) (modes (set_mode m (0 < n) A))"
proof -
  have "m = 0 \<or> m = 1 \<or> m = 2 \<or> m = 3" using assms(2) by arith
  with assms(1) show ?thesis by (cases "modes A") (auto simp: modes_ok_def modes_set_mode)
qed

lemma modes_ok_idle:
  assumes "modes_ok c (modes A)" "(0 < n) = (0 < c (IdleSeal m))"
  shows "modes_ok (c(IdleSeal m := n)) (modes A)"
  using assms by (cases "modes A") (auto simp: modes_ok_def)

lemma counted_fail: "counted_ok A \<Longrightarrow> counted_ok (a_fail A)"
proof -
  have "count_of (a_fail A) = count_of A" by (auto simp: fun_eq_iff count_of_def a_fail_def split: counter.split)
  then show "counted_ok A \<Longrightarrow> counted_ok (a_fail A)" by (simp add: counted_ok_def modes_def a_fail_def)
qed

lemma counted_idle [counted_intros]:
  assumes "counted_ok A"
  shows "counted_ok (IncIdleSealMode m A)" "counted_ok (DecIdleSealMode m A)"
proof -
  note ok = counted_okD [OF assms]
  let ?n = "count_of A (IdleSeal m)"
  have "counted_ok (IncIdleSealMode m A) \<and> counted_ok (DecIdleSealMode m A)"
  proof (cases "m < 4")
    case True
    have inc: "count_of (IncIdleSealMode m A) = (count_of A)(IdleSeal m := ?n + 1)"
      and dec: "count_of (DecIdleSealMode m A) = (count_of A)(IdleSeal m := (if 0 < ?n then ?n - 1 else ?n))"
      using True by (simp_all add: fun_eq_iff count_idle)
    have "modes_ok ((count_of A)(IdleSeal m := ?n + 1)) (modes (IncIdleSealMode m A))"
      using modes_ok_set [OF ok(2) True, of "?n + 1"] modes_ok_idle [OF ok(2), of "?n + 1" m] ok(1) [of "IdleSeal m"]
      by (cases "?n = 0") (simp_all add: modes_idle [OF True])
    moreover have "modes_ok ((count_of A)(IdleSeal m := (if 0 < ?n then ?n - 1 else ?n))) (modes (DecIdleSealMode m A))"
      using modes_ok_set [OF ok(2) True, of "?n - 1"] modes_ok_idle [OF ok(2), of "?n - 1" m] ok
      by (cases "?n = 1"; cases "0 < ?n") (simp_all add: modes_idle [OF True])
    ultimately show ?thesis
      unfolding counted_ok_def inc dec using ok(1) by (simp add: add_nonneg_nonneg)
  next
    case False
    then show ?thesis using counted_fail [OF assms] by (simp add: IncIdleSealMode_def DecIdleSealMode_def)
  qed
  then show "counted_ok (IncIdleSealMode m A)" "counted_ok (DecIdleSealMode m A)" by simp_all
qed

lemma modes_immune_bit:
  "modes (inc_immune_bit i A) = (idle_mode_flag A, seal_mode_flag A,
     if count_of A (Immune i) = 0 then set_bit i (immune_state_adj A) else immune_state_adj A)"
  "modes (dec_immune_bit i A) = (idle_mode_flag A, seal_mode_flag A,
     if count_of A (Immune i) = 1 then unset_bit i (immune_state_adj A) else immune_state_adj A)"
  by (simp_all add: modes_def count_of_def inc_immune_bit_def dec_immune_bit_def Let_def)

lemma counted_immune_bit:
  assumes "counted_ok A"
  shows "counted_ok (inc_immune_bit i A)" "0 < count_of A (Immune i) \<Longrightarrow> counted_ok (dec_immune_bit i A)"
proof -
  have pos: "0 < count_of A (Immune i) \<longleftrightarrow> count_of A (Immune i) \<noteq> 0"
    using counted_okD(1) [OF assms, of "Immune i"] by auto
  have up: "0 < count_of A (Immune i) + 1" "0 \<le> count_of A c + 1" for c
    using counted_okD(1) [OF assms, of "Immune i"] counted_okD(1) [OF assms, of c] by auto
  show "counted_ok (inc_immune_bit i A)" "0 < count_of A (Immune i) \<Longrightarrow> counted_ok (dec_immune_bit i A)"
    using counted_okD [OF assms] up pos
    by (auto simp: counted_ok_def modes_ok_def modes_immune_bit [unfolded modes_def] modes_def count_immune_bit
        bit_set_bit_iff bit_unset_bit_iff split: prod.splits)
qed

lemma counted_immune_fold:
  assumes "counted_ok A" "distinct ks"
  shows "counted_ok (fold inc_immune_bit ks A)"
    "(\<And>i. i \<in> set ks \<Longrightarrow> 0 < count_of A (Immune i)) \<Longrightarrow> counted_ok (fold dec_immune_bit ks A)"
proof -
  show "counted_ok (fold inc_immune_bit ks A)"
    using assms by (induction ks arbitrary: A) (auto simp: counted_immune_bit)
  show "counted_ok (fold dec_immune_bit ks A)" if "\<And>i. i \<in> set ks \<Longrightarrow> 0 < count_of A (Immune i)"
    using assms that
  proof (induction ks arbitrary: A)
    case (Cons k ks)
    show ?case unfolding fold_simps comp_def
      by (rule Cons.IH)
        (use Cons.prems in \<open>auto simp: count_immune_bit intro: counted_immune_bit(2)\<close>)
  qed simp
qed

lemma counted_immune:
  assumes "counted_ok A" "\<not> bit m 31"
  shows "counted_ok (IncImmuneMask m A)" "(\<And>i. bit m i \<Longrightarrow> 0 < count_of A (Immune i)) \<Longrightarrow> counted_ok (DecImmuneMask m A)"
  unfolding immune_mask_fold [OF assms(2)] using assms(1) by (auto intro!: counted_immune_fold)

lemmas counted_inc_immune [counted_intros] = counted_immune(1)

subsection \<open>Stale properties\<close>

text \<open>\<open>fresh_except G A\<close>: outside \<open>G\<close> what is computed is computed from the current accumulators.\<close>

definition fresh_except :: "prop_group set \<Rightarrow> actor \<Rightarrow> bool" where
  "fresh_except G A \<longleftrightarrow> (\<forall>g. g \<notin> G \<longrightarrow> computed A g = inputs A g)"

lemma fresh_weaken: "fresh_except G A \<Longrightarrow> G \<subseteq> G' \<Longrightarrow> fresh_except G' A"
  by (auto simp: fresh_except_def)

named_theorems fresh_intros \<open>operations on fresh accumulators\<close>

lemma fresh_enhance [fresh_intros]:
  "fresh_except G A \<Longrightarrow> fresh_except (insert GGen G) (EnhanceHPGen x A)"
  "fresh_except G A \<Longrightarrow> fresh_except (insert GGen G) (ImpairHPGen x A)"
  "fresh_except G A \<Longrightarrow> fresh_except (insert GGen G) (EnhanceScaleHPGen x A)"
  "fresh_except G A \<Longrightarrow> fresh_except (insert GGen G) (ImpairScaleHPGen x A)"
  "fresh_except G A \<Longrightarrow> fresh_except (insert GGen G) (EnhanceScaleMPGen x A)"
  "fresh_except G A \<Longrightarrow> fresh_except (insert GGen G) (ImpairScaleMPGen x A)"
  "fresh_except G A \<Longrightarrow> fresh_except (insert GGen G) (EnhanceMPGen x A)"
  "fresh_except G A \<Longrightarrow> fresh_except (insert GGen G) (ImpairMPGen x A)"
  "fresh_except G A \<Longrightarrow> fresh_except G (EnhanceMaxHP x A)"
  "fresh_except G A \<Longrightarrow> fresh_except G (ImpairMaxHP x A)"
  "fresh_except G A \<Longrightarrow> fresh_except G (EnhanceMaxMP x A)"
  "fresh_except G A \<Longrightarrow> fresh_except G (ImpairMaxMP x A)"
  "fresh_except G A \<Longrightarrow> fresh_except G (EnhanceScaleMaxHP x A)"
  "fresh_except G A \<Longrightarrow> fresh_except G (ImpairScaleMaxHP x A)"
  "fresh_except G A \<Longrightarrow> fresh_except G (EnhanceScaleMaxMP x A)"
  "fresh_except G A \<Longrightarrow> fresh_except G (ImpairScaleMaxMP x A)"
  "fresh_except G A \<Longrightarrow> fresh_except (insert GDefense G) (EnhanceDefense x A)"
  "fresh_except G A \<Longrightarrow> fresh_except (insert GDefense G) (ImpairDefense x A)"
  "fresh_except G A \<Longrightarrow> fresh_except (insert GAttack G) (EnhanceScaleAttack x A)"
  "fresh_except G A \<Longrightarrow> fresh_except (insert GAttack G) (ImpairScaleAttack x A)"
  "fresh_except G A \<Longrightarrow> fresh_except (insert GDefense G) (EnhanceScaleDefense x A)"
  "fresh_except G A \<Longrightarrow> fresh_except (insert GDefense G) (ImpairScaleDefense x A)"
  "fresh_except G A \<Longrightarrow> fresh_except (insert GDefense G) (EnhanceArmor x A)"
  "fresh_except G A \<Longrightarrow> fresh_except (insert GDefense G) (ImpairArmor x A)"
  "fresh_except G A \<Longrightarrow> fresh_except (insert GDefense G) (EnhanceScaleArmor x A)"
  "fresh_except G A \<Longrightarrow> fresh_except (insert GDefense G) (ImpairScaleArmor x A)"
  "fresh_except G A \<Longrightarrow> fresh_except (insert GAttack G) (EnhanceDamage x A)"
  "fresh_except G A \<Longrightarrow> fresh_except (insert GAttack G) (ImpairDamage x A)"
  "fresh_except G A \<Longrightarrow> fresh_except (insert GMagic G) (EnhanceMagicDamage x A)"
  "fresh_except G A \<Longrightarrow> fresh_except (insert GMagic G) (ImpairMagicDamage x A)"
  "fresh_except G A \<Longrightarrow> fresh_except (insert GAttack G) (EnhanceScaleDamage x A)"
  "fresh_except G A \<Longrightarrow> fresh_except (insert GAttack G) (ImpairScaleDamage x A)"
  "fresh_except G A \<Longrightarrow> fresh_except (insert GMagic G) (EnhanceScaleMagicDamage x A)"
  "fresh_except G A \<Longrightarrow> fresh_except (insert GMagic G) (ImpairScaleMagicDamage x A)"
  "fresh_except G A \<Longrightarrow> fresh_except (insert GSpeed G) (EnhanceSpeed x A)"
  "fresh_except G A \<Longrightarrow> fresh_except (insert GSpeed G) (ImpairSpeed x A)"
  "fresh_except G A \<Longrightarrow> fresh_except (insert GSpeed G) (EnhanceSwimSpeed x A)"
  "fresh_except G A \<Longrightarrow> fresh_except (insert GSpeed G) (ImpairSwimSpeed x A)"
  "fresh_except G A \<Longrightarrow> fresh_except (insert GSpeed G) (EnhanceScaleFlySpeed x A)"
  "fresh_except G A \<Longrightarrow> fresh_except (insert GSpeed G) (ImpairScaleFlySpeed x A)"
  "fresh_except G A \<Longrightarrow> fresh_except (insert GSpeed G) (EnhanceMountSpeed x A)"
  "fresh_except G A \<Longrightarrow> fresh_except (insert GSpeed G) (ImpairMountSpeed x A)"
  "fresh_except G A \<Longrightarrow> fresh_except (insert GAttack G) (ImpairAttackSpeed x A)"
  "fresh_except G A \<Longrightarrow> fresh_except (insert GAttack G) (EnhanceAttackSpeed x A)"
  "fresh_except G A \<Longrightarrow> fresh_except (insert GAttack G) (ImpairScaleAttackSpeed x A)"
  "fresh_except G A \<Longrightarrow> fresh_except (insert GAttack G) (EnhanceScaleAttackSpeed x A)"
  "fresh_except G A \<Longrightarrow> fresh_except G (EnhanceAttackDegree x A)"
  "fresh_except G A \<Longrightarrow> fresh_except G (ImpairAttackDegree x A)"
  "fresh_except G A \<Longrightarrow> fresh_except G (EnhanceDefendDegree x A)"
  "fresh_except G A \<Longrightarrow> fresh_except G (ImpairDefendDegree x A)"
  "fresh_except G A \<Longrightarrow> fresh_except G (EnhanceCrit x A)"
  "fresh_except G A \<Longrightarrow> fresh_except G (ImpairCrit x A)"
  "fresh_except G A \<Longrightarrow> fresh_except G (EnhanceCritDamage x A)"
  "fresh_except G A \<Longrightarrow> fresh_except G (ImpairCritDamage x A)"
  "fresh_except G A \<Longrightarrow> fresh_except G (EnhanceCritDamageReduce x A)"
  "fresh_except G A \<Longrightarrow> fresh_except G (ImpairCritDamageReduce x A)"
  "fresh_except G A \<Longrightarrow> fresh_except G (EnhanceCritResistance x A)"
  "fresh_except G A \<Longrightarrow> fresh_except G (ImpairCritResistance x A)"
  "fresh_except G A \<Longrightarrow> fresh_except G (EnhanceDamageDodge x A)"
  "fresh_except G A \<Longrightarrow> fresh_except G (ImpairDamageDodge x A)"
  "fresh_except G A \<Longrightarrow> fresh_except G (EnhanceDebuffDodge x A)"
  "fresh_except G A \<Longrightarrow> fresh_except G (ImpairDebuffDodge x A)"
  "fresh_except G A \<Longrightarrow> fresh_except G (EnhanceHpSteal x A)"
  "fresh_except G A \<Longrightarrow> fresh_except G (ImpairHpSteal x A)"
  "fresh_except G A \<Longrightarrow> fresh_except G (IncHealCoolTime x A)"
  "fresh_except G A \<Longrightarrow> fresh_except G (DecHealCoolTime x A)"
  "fresh_except G A \<Longrightarrow> fresh_except G (EnhanceSkillDamage x A)"
  "fresh_except G A \<Longrightarrow> fresh_except G (ImpairSkillDamage x A)"
  "fresh_except G A \<Longrightarrow> fresh_except G (EnhanceSkillDamage2 x A)"
  "fresh_except G A \<Longrightarrow> fresh_except G (ImpairSkillDamage2 x A)"
  "fresh_except G A \<Longrightarrow> fresh_except G (IncPenetration x A)"
  "fresh_except G A \<Longrightarrow> fresh_except G (DecPenetration x A)"
  "fresh_except G A \<Longrightarrow> fresh_except G (IncResilience x A)"
  "fresh_except G A \<Longrightarrow> fresh_except G (DecResilience x A)"
  "fresh_except G A \<Longrightarrow> fresh_except G (IncVigour x A)"
  "fresh_except G A \<Longrightarrow> fresh_except G (DecVigour x A)"
  "fresh_except G A \<Longrightarrow> fresh_except G (DecPrayTime x A)"
  "fresh_except G A \<Longrightarrow> fresh_except G (IncPrayTime x A)"
  unfolding fresh_except_def by (auto simp: enhance_defs Update_defs inputs_def Let_def split: prop_group.split)

lemma fresh_resistance [fresh_intros]:
  "fresh_except G A \<Longrightarrow> fresh_except (insert GMagic G) (EnhanceResistance i x A)"
  "fresh_except G A \<Longrightarrow> fresh_except (insert GMagic G) (ImpairResistance i x A)"
  "fresh_except G A \<Longrightarrow> fresh_except (insert GMagic G) (EnhanceScaleResistance i x A)"
  "fresh_except G A \<Longrightarrow> fresh_except (insert GMagic G) (ImpairScaleResistance i x A)"
  unfolding fresh_except_def by (auto simp: resistance_defs a_fail_def inputs_def Let_def split: prop_group.split)

lemma fresh_update [fresh_intros]:
  "fresh_except G A \<Longrightarrow> fresh_except (G - {GCrit}) (UpdateCrit A)"
  "fresh_except G A \<Longrightarrow> fresh_except (G - {GAttack, GCrit}) (UpdateAttackData A)"
  "fresh_except G A \<Longrightarrow> fresh_except (G - {GMagic}) (UpdateMagicData A)"
  "fresh_except G A \<Longrightarrow> fresh_except (G - {GDefense}) (UpdateDefenseData A)"
  "fresh_except G A \<Longrightarrow> fresh_except (G - {GSpeed}) (UpdateSpeedData A)"
  "fresh_except G A \<Longrightarrow> fresh_except (G - {GLife}) (UpdateLife A)"
  "fresh_except G A \<Longrightarrow> fresh_except (G - {GMana}) (UpdateMana A)"
  "fresh_except G A \<Longrightarrow> fresh_except (G - {GGen}) (UpdateHPMPGen A)"
  "fresh_except G A \<Longrightarrow> fresh_except G (SetRefreshState A)"
  "fresh_except G A \<Longrightarrow> fresh_except G (SendClientCurSpeed A)"
  "fresh_except G A \<Longrightarrow> fresh_except G (SendClientAttackData A)"
  "fresh_except G A \<Longrightarrow> fresh_except G (SendClientDefenseData A)"
  unfolding fresh_except_def by (auto simp: Update_defs inputs_def Let_def split: prop_group.split)

text \<open>The counted states and the states of the team are not inputs.\<close>

definition plain :: "actor \<Rightarrow> actor \<Rightarrow> bool" where
  "plain B A \<longleftrightarrow> computed B = computed A \<and> inputs B = inputs A"

lemma plain_fresh: "plain B A \<Longrightarrow> fresh_except G A \<Longrightarrow> fresh_except G B"
  by (simp add: plain_def fresh_except_def)

lemma plain_trans: "plain C B \<Longrightarrow> plain B A \<Longrightarrow> plain C A"
  by (simp add: plain_def)

lemma plain_same: "en_point B = en_point A \<Longrightarrow> en_percent B = en_percent A \<Longrightarrow> crit_rate B = crit_rate A
    \<Longrightarrow> computed B = computed A \<Longrightarrow> plain B A"
  unfolding plain_def inputs_def fun_eq_iff by (simp only: simp_thms)

lemma plain_counted:
  "plain (IncVisibleState s A) A" "plain (DecVisibleState s A) A" "plain (IncIdleSealMode m A) A" "plain (DecIdleSealMode m A) A"
  "plain (InsertTeamVisibleState t ps A) A" "plain (a_fail A) A" "plain (inc_immune_bit i A) A" "plain (dec_immune_bit i A) A"
  by (rule plain_same; simp add: IncVisibleState_def DecVisibleState_def IncIdleSealMode_def DecIdleSealMode_def set_mode_def
      InsertTeamVisibleState_def inc_immune_bit_def dec_immune_bit_def a_fail_def a_assert_def Let_def)+

lemma plain_team: "plain (RemoveTeamVisibleState t A) A"
proof -
  have "plain (team_remove_loop i p t A) A" for i p
  proof (induction i arbitrary: p A)
    case (Suc i)
    have "plain (A\<lparr>visible_team_state := xs, visible_team_state_param := ys, team_visible_state_flag := b\<rparr>) A" for xs ys b
      by (rule plain_same) simp_all
    then show ?case by (simp add: Let_def Suc.IH plain_trans [OF Suc.IH])
  qed (simp add: plain_def)
  then show ?thesis by (simp add: RemoveTeamVisibleState_def)
qed

lemma plain_immune: "plain (IncImmuneMask m A) A" "plain (DecImmuneMask m A) A"
proof -
  have "plain (immune_loop step i m A) A" if st: "\<And>i A. plain (step i A) A" for step i
  proof (induction "32 - i" arbitrary: i m A)
    case 0
    then show ?case by (subst immune_loop.simps) (simp add: plain_counted plain_def [of A A])
  next
    case (Suc n)
    have "n = 32 - (i + 1)" "i < 32" using Suc.hyps(2) by simp_all
    then show ?case
      using Suc.hyps(1) st immune_loop_unfold [of m i step A] immune_loop_zero [of step i A]
      by (cases "m = 0") (auto simp: plain_def)
  qed
  then show "plain (IncImmuneMask m A) A" "plain (DecImmuneMask m A) A"
    by (simp_all add: IncImmuneMask_def DecImmuneMask_def plain_counted)
qed

lemmas fresh_state [fresh_intros] =
  plain_counted [THEN plain_fresh] plain_team [THEN plain_fresh] plain_immune [THEN plain_fresh]

subsection \<open>An owner without enhancements\<close>

definition actor_new :: actor where
  "actor_new =
     \<lparr>en_point = \<lparr>ep_max_mp = 0, ep_max_hp = 0, ep_hp_gen = 0, ep_mp_gen = 0, ep_vit = 0, ep_eng = 0, ep_agi = 0, ep_str = 0, 
        ep_damage_low = 0, ep_damage_high = 0, ep_attack = 0, ep_attack_speed = 0, ep_magic_dmg_low = 0, 
        ep_magic_dmg_high = 0, ep_defense = 0, ep_armor = 0, ep_addon_damage = \<lambda>_. 0, 
        ep_resistance = \<lambda>_. 0\<rparr>,
      en_percent = \<lparr>sp_max_mp = 0, sp_max_hp = 0, sp_hp_gen = 0, sp_mp_gen = 0, sp_walk_speed = 0, sp_run_speed = 0, 
        sp_swim_speed = 0, sp_flight_speed = 0, sp_mount_speed = 0, sp_attack_speed = 0, sp_damage = 0, 
        sp_attack = 0, sp_magic_dmg = 0, sp_defense = 0, sp_armor = 0, sp_resistance = \<lambda>_. 0\<rparr>,
      attack_degree = 0, defend_degree = 0, crit_rate = 0, crit_damage_bonus = 0, crit_damage_reduce = 0, 
      crit_resistance = 0, damage_dodge_rate = 0, debuff_dodge_rate = 0, hp_steal_rate = 0, heal_cool_time_adj = 0, 
      skill_enhance = 0, skill_enhance2 = 0, penetration = 0, resilience = 0, vigour_en = 0, prayspeed = 0, 
      magic_damage_reduce = \<lambda>_. 0, cur_hp_gen_add = 0, cur_mp_gen_add = 0, computed = \<lambda>_. [], 
      refresh_state = False, visible_state_list = \<lambda>_. 0, visible_state_flag = False, 
      visible_team_state = [], visible_team_state_param = [], team_visible_state_flag = False, 
      idle_seal_mode_counter = \<lambda>_. 0, idle_mode_flag = (False, False), seal_mode_flag = (False, False), 
      immune_state_adj = 0, immune_state_adj_counter = \<lambda>_. 0, sent = [], a_fault = False\<rparr>"

lemma amount_new: "amount actor_new s = 0"
  by (cases s) (simp_all add: actor_new_def)

lemma count_new: "count_of actor_new c = 0"
  by (cases c) (simp_all add: actor_new_def count_of_def)

lemma counted_new: "counted_ok actor_new" "\<not> a_fault actor_new" "team_is [] actor_new"
proof -
  have "modes actor_new = ((False, False), (False, False), 0)" by (simp add: modes_def actor_new_def)
  then show "counted_ok actor_new" by (simp add: counted_ok_def modes_ok_def count_new)
qed (simp_all add: team_is_def actor_new_def)

subsection \<open>Properties\<close>

datatype team_op = Team_insert u16 "int32 list" | Team_remove u16 | Team_modify u16 "int32 list"

fun team_step :: "team_op \<Rightarrow> actor \<Rightarrow> actor" where
  "team_step (Team_insert s ps) A = InsertTeamVisibleState s ps A"
| "team_step (Team_remove s) A = RemoveTeamVisibleState s A"
| "team_step (Team_modify s ps) A = ModifyTeamVisibleState s ps A"

fun team_spec :: "team_op \<Rightarrow> (u16 \<times> int32 list) list \<Rightarrow> (u16 \<times> int32 list) list" where
  "team_spec (Team_insert s ps) es = (if s \<in> fst ` set es then es else es @ [(s, ps)])"
| "team_spec (Team_remove s) es = filter (\<lambda>e. fst e \<noteq> s) es"
| "team_spec (Team_modify s ps) es = map (\<lambda>e. if fst e = s then (s, ps) else e) es"

text \<open>A state has 14 bits and at most three parameters; a modification keeps their number.\<close>

fun team_valid :: "(u16 \<times> int32 list) list \<Rightarrow> team_op \<Rightarrow> bool" where
  "team_valid es (Team_insert s ps) \<longleftrightarrow> entry_ok (s, ps)"
| "team_valid es (Team_remove s) \<longleftrightarrow> True"
| "team_valid es (Team_modify s ps) \<longleftrightarrow> 1 \<le> length ps \<and> length ps \<le> 3 \<and> (\<forall>e \<in> set es. fst e = s \<longrightarrow> length (snd e) = length ps)"

fun team_valid_run :: "(u16 \<times> int32 list) list \<Rightarrow> team_op list \<Rightarrow> bool" where
  "team_valid_run es [] \<longleftrightarrow> True"
| "team_valid_run es (t # ts) \<longleftrightarrow> team_valid es t \<and> team_valid_run (team_spec t es) ts"

lemma team_spec_distinct: "distinct (map fst es) \<Longrightarrow> distinct (map fst (team_spec t es))"
proof (cases t)
  case (Team_modify s ps)
  have "map fst (team_spec t es) = map fst es" using Team_modify by auto
  then show "distinct (map fst es) \<Longrightarrow> distinct (map fst (team_spec t es))" by simp
qed (auto simp: distinct_map_filter)

lemma team_modify_fault:
  assumes "team_is (es @ rest) A" "\<forall>e \<in> set es. fst e = s \<longrightarrow> length (snd e) = length ps"
  shows "a_fault (team_modify_loop (length es) p s ps A) = a_fault A"
  using assms
proof (induction es arbitrary: rest p rule: rev_induct)
  case (snoc e es)
  have ok: "entry_ok e" using snoc.prems(1) by (simp add: team_is_def)
  have nth: "visible_team_state A ! length es = entry_word e" using snoc.prems(1) by (simp add: team_is_def nth_append)
  have "team_is (es @ e # rest) A" using snoc.prems(1) by simp
  then show ?case using snoc.IH snoc.prems(2) by (simp add: nth entry_word_decode [OF ok] Let_def a_assert_def)
qed simp

lemma team_step_refines:
  assumes "team_is es A" "distinct (map fst es)" "team_valid es t"
  shows "team_is (team_spec t es) (team_step t A) \<and> a_fault (team_step t A) = a_fault A"
proof (cases t)
  case (Team_insert s ps)
  then show ?thesis using assms InsertTeam_entries by (auto simp: team_counters entry_ok_def)
next
  case (Team_remove s)
  then show ?thesis using assms RemoveTeam_entries by (simp add: RemoveTeam_counters)
next
  case (Team_modify s ps)
  have len: "length ps \<le> 3" "\<And>q. (s, q) \<in> set es \<Longrightarrow> length q = length ps" "\<forall>e \<in> set es. fst e = s \<longrightarrow> length (snd e) = length ps"
    using assms(3) Team_modify by auto
  have "ModifyTeamVisibleState s ps A = team_modify_loop (length es) (length (concat (map snd es))) s ps A"
    using assms Team_modify by (simp add: ModifyTeamVisibleState_def a_assert_def team_is_def)
  moreover have "team_is (team_spec t es) (team_modify_loop (length es) (length (concat (map snd es))) s ps A)"
    using team_modify_entries [of es "[]" A _ ps s, OF _ refl assms(2) len(1,2)] assms(1) Team_modify by simp
  moreover have "a_fault (team_modify_loop (length es) (length (concat (map snd es))) s ps A) = a_fault A"
    using team_modify_fault [of es "[]" A s ps] assms(1) len(3) by simp
  ultimately show ?thesis using Team_modify by simp
qed

text \<open>
  (C26) The two vectors of team states, entries with a packed parameter count and the parameters
  of all of them, behave as a list of pairs: inserting (without effect when present), removing
  and modifying act on it as on an association list, and no assertion fails.
\<close>

theorem team_states_refine:
  assumes "team_is es A" "distinct (map fst es)" "team_valid_run es ts"
  shows "team_is (fold team_spec ts es) (fold team_step ts A) \<and> a_fault (fold team_step ts A) = a_fault A"
  using assms
proof (induction ts arbitrary: es A)
  case (Cons t ts)
  have "team_is (team_spec t es) (team_step t A)" "a_fault (team_step t A) = a_fault A"
    using team_step_refines Cons.prems by auto
  then show ?case using Cons.IH team_spec_distinct Cons.prems by simp
qed simp

lemma team_states_refine_witness:
  "team_is [(5, [9, 9])]
    (fold team_step [Team_insert 5 [7, 8], Team_insert 6 [], Team_modify 5 [9, 9], Team_remove 6] actor_new)"
proof -
  let ?ts = "[Team_insert 5 [7, 8], Team_insert 6 [], Team_modify 5 [9, 9], Team_remove 6]"
  have v: "team_valid_run [] ?ts" by (simp add: entry_ok_def TVSGetState_def)
  have "fold team_spec ?ts [] = [(5, [9, 9])]" by simp
  moreover have "team_is (fold team_spec ?ts []) (fold team_step ?ts actor_new)"
    by (rule conjunct1 [OF team_states_refine [OF counted_new(3) _ v]]) simp
  ultimately show ?thesis by (rule subst)
qed

text \<open>
  (C27) An immunity mask with the sign bit runs the loop of \<open>IncImmuneMask\<close> and \<open>DecImmuneMask\<close>
  past the 32 counters, whatever the state; every other mask changes exactly the counters of its
  bits and no assertion fails.
\<close>

theorem immune_mask_exact:
  "if bit m 31 then a_fault (IncImmuneMask m A) \<and> a_fault (DecImmuneMask m A)
   else a_fault (IncImmuneMask m A) = a_fault A \<and> a_fault (DecImmuneMask m A) = a_fault A
     \<and> (\<forall>c. count_of (IncImmuneMask m A) c = count_of A c + (if immune_bit m c then 1 else 0))
     \<and> (\<forall>c. count_of (DecImmuneMask m A) c = count_of A c - (if immune_bit m c then 1 else 0))"
proof (cases "bit m 31")
  case True
  then show ?thesis unfolding IncImmuneMask_def DecImmuneMask_def by (simp only: immune_loop_negative if_True simp_thms)
next
  case False
  show ?thesis unfolding if_not_P [OF False] using count_immune(1-4) [OF False] by simp
qed


end
