(* ===== verification/Effects.thy ===== *)
theory Effects
  imports ActorLaws
begin

text \<open>
  Effects that come and go on an owner, as skill filters and equipment have them: what an
  operation adds to the accumulators, the counters and the team states, when another undoes it,
  and the account of an owner that follows from any sequence of the two.
\<close>

subsection \<open>Sequences of calls\<close>

definition calls :: "(actor \<Rightarrow> actor) list \<Rightarrow> actor \<Rightarrow> actor" where
  "calls fs A = fold (\<lambda>f. f) fs A"

definition only_if :: "bool \<Rightarrow> (actor \<Rightarrow> actor) \<Rightarrow> actor \<Rightarrow> actor" where
  "only_if b f A = (if b then f A else A)"

lemma calls_simps [simp]: "calls [] A = A" "calls (f # fs) A = calls fs (f A)"
  by (simp_all add: calls_def)

lemma calls_Cons: "calls (f # fs) = (\<lambda>A. calls fs (f A))" "calls [] = (\<lambda>A. A)"
  by (simp_all add: fun_eq_iff)

lemma only_if_simps [simp]: "only_if True f = f" "only_if False f A = A"
  by (simp_all add: only_if_def fun_eq_iff)

subsection \<open>What an operation does to an owner\<close>

text \<open>Accumulators: \<open>adds f d\<close>, \<open>drops f d\<close>; counters with their modes and assertions: \<open>raises f n\<close>, \<open>lowers f n\<close>.\<close>

definition adds :: "(actor \<Rightarrow> actor) \<Rightarrow> (stat \<Rightarrow> int32) \<Rightarrow> bool" where
  "adds f d \<longleftrightarrow> (\<forall>A s. amount (f A) s = amount A s + d s)"

definition drops :: "(actor \<Rightarrow> actor) \<Rightarrow> (stat \<Rightarrow> int32) \<Rightarrow> bool" where
  "drops f d \<longleftrightarrow> (\<forall>A s. amount (f A) s = amount A s - d s)"

definition raises :: "(actor \<Rightarrow> actor) \<Rightarrow> (counter \<Rightarrow> int) \<Rightarrow> bool" where
  "raises f n \<longleftrightarrow> (\<forall>c. 0 \<le> n c) \<and> (\<forall>A. counted_ok A \<longrightarrow>
     counted_ok (f A) \<and> a_fault (f A) = a_fault A \<and> (\<forall>c. count_of (f A) c = count_of A c + n c))"

definition lowers :: "(actor \<Rightarrow> actor) \<Rightarrow> (counter \<Rightarrow> int) \<Rightarrow> bool" where
  "lowers f n \<longleftrightarrow> (\<forall>c. 0 \<le> n c) \<and> (\<forall>A. counted_ok A \<longrightarrow> (\<forall>c. n c \<le> count_of A c) \<longrightarrow>
     counted_ok (f A) \<and> a_fault (f A) = a_fault A \<and> (\<forall>c. count_of (f A) c = count_of A c - n c))"

text \<open>States shown to the team, without parameters: \<open>joins f T\<close>, \<open>leaves f T\<close>; computed properties: \<open>renews f\<close>.\<close>

definition teams :: "u16 set \<Rightarrow> actor \<Rightarrow> bool" where
  "teams S A \<longleftrightarrow> (\<exists>es. team_is es A \<and> set es = (\<lambda>t. (t, [])) ` S)"

definition joins :: "(actor \<Rightarrow> actor) \<Rightarrow> u16 set \<Rightarrow> bool" where
  "joins f T \<longleftrightarrow> (\<forall>S A. teams S A \<longrightarrow> teams (S \<union> T) (f A))"

definition leaves :: "(actor \<Rightarrow> actor) \<Rightarrow> u16 set \<Rightarrow> bool" where
  "leaves f T \<longleftrightarrow> (\<forall>S A. teams S A \<longrightarrow> teams (S - T) (f A))"

definition renews :: "(actor \<Rightarrow> actor) \<Rightarrow> bool" where
  "renews f \<longleftrightarrow> (\<forall>A. fresh_except {} A \<longrightarrow> fresh_except {} (f A))"

text \<open>Measured on an owner without any enhancement.\<close>

definition effect :: "(actor \<Rightarrow> actor) \<Rightarrow> stat \<Rightarrow> int32" where
  "effect f s = amount (f actor_new) s"

definition holds :: "(actor \<Rightarrow> actor) \<Rightarrow> counter \<Rightarrow> int" where
  "holds f c = count_of (f actor_new) c"

definition team_of :: "(actor \<Rightarrow> actor) \<Rightarrow> u16 set" where
  "team_of f = TVSGetState ` set (visible_team_state (f actor_new))"

text \<open>\<open>undoes on off\<close>: whatever \<open>on\<close> does to an owner, \<open>off\<close> takes back.\<close>

definition undoes :: "(actor \<Rightarrow> actor) \<Rightarrow> (actor \<Rightarrow> actor) \<Rightarrow> bool" where
  "undoes on off \<longleftrightarrow> adds on (effect on) \<and> drops off (effect on) \<and> raises on (holds on) \<and> lowers off (holds on)
     \<and> joins on (team_of on) \<and> leaves off (team_of on) \<and> renews on \<and> renews off"

lemma adds_effect: "adds f d \<Longrightarrow> effect f = d"
  by (simp add: adds_def effect_def amount_new fun_eq_iff)

lemma raises_holds: "raises f n \<Longrightarrow> holds f = n"
  using counted_new by (simp add: raises_def holds_def count_new fun_eq_iff)

lemma teams_new: "teams {} actor_new"
  using counted_new(3) by (auto simp: teams_def)

lemma teams_states: "teams S A \<Longrightarrow> TVSGetState ` set (visible_team_state A) = S"
  by (force simp: teams_def team_is_def entry_word_decode image_image)

lemma joins_team_of: "joins f T \<Longrightarrow> team_of f = T"
  using teams_new teams_states unfolding joins_def team_of_def by (metis Un_empty_left)

lemma effect_adds: "adds f d \<Longrightarrow> adds f (effect f)"
  by (simp add: adds_effect)

subsection \<open>Composition\<close>

named_theorems effect_intros \<open>what the operations raise, lower, show and hide\<close>

definition quiet :: "(actor \<Rightarrow> actor) \<Rightarrow> bool" where
  "quiet f \<longleftrightarrow> (\<forall>A. steady (f A) A)"

lemma quietI: "(\<And>A. steady (f A) A) \<Longrightarrow> quiet f"
  by (simp add: quiet_def)

lemma quiet_keeps:
  assumes "quiet f"
  shows "raises f (\<lambda>_. 0)" "lowers f (\<lambda>_. 0)" "joins f {}" "leaves f {}"
proof -
  have s: "steady (f A) A" for A using assms by (simp add: quiet_def)
  note c = steady_count [OF s] steady_fault [OF s] steady_counted [OF s]
  show "raises f (\<lambda>_. 0)" "lowers f (\<lambda>_. 0)" by (simp_all add: raises_def lowers_def c)
  show "joins f {}" "leaves f {}" using steady_team [OF s] by (auto simp: joins_def leaves_def teams_def)
qed

lemmas quiet_ops = steady_enhance [THEN quietI] steady_update [THEN quietI] steady_resistance [THEN quietI]

lemma quiet_calls: "quiet (calls [])" "quiet f \<Longrightarrow> quiet (calls fs) \<Longrightarrow> quiet (calls (f # fs))"
proof -
  show "quiet (calls [])" by (simp add: quiet_def steady_def same_control_def)
  show "quiet (calls (f # fs))" if "quiet f" "quiet (calls fs)"
    using spec [OF that(2) [unfolded quiet_def], of "f _"] spec [OF that(1) [unfolded quiet_def]]
    by (simp add: quiet_def steady_def same_control_def)
qed

lemmas quiet_intros = quiet_ops quiet_calls

lemmas effect_quiet [effect_intros] = quiet_ops [THEN quiet_keeps(1)] quiet_ops [THEN quiet_keeps(2)]
  quiet_ops [THEN quiet_keeps(3)] quiet_ops [THEN quiet_keeps(4)]

lemma effect_calls [effect_intros]:
  "raises (calls []) (\<lambda>_. 0)" "lowers (calls []) (\<lambda>_. 0)" "joins (calls []) {}" "leaves (calls []) {}"
  "raises f n \<Longrightarrow> raises (calls fs) m \<Longrightarrow> raises (calls (f # fs)) (\<lambda>c. n c + m c)"
  "lowers f n \<Longrightarrow> lowers (calls fs) m \<Longrightarrow> lowers (calls (f # fs)) (\<lambda>c. n c + m c)"
  "joins f T \<Longrightarrow> joins (calls fs) U \<Longrightarrow> joins (calls (f # fs)) (T \<union> U)"
  "leaves f T \<Longrightarrow> leaves (calls fs) U \<Longrightarrow> leaves (calls (f # fs)) (T \<union> U)"
proof -
  show "raises (calls []) (\<lambda>_. 0)" "lowers (calls []) (\<lambda>_. 0)" "joins (calls []) {}" "leaves (calls []) {}"
    by (simp_all add: raises_def lowers_def joins_def leaves_def)
  show "raises (calls (f # fs)) (\<lambda>c. n c + m c)" if "raises f n" "raises (calls fs) m"
    using that by (simp add: raises_def)
  show "lowers (calls (f # fs)) (\<lambda>c. n c + m c)" if f: "lowers f n" and g: "lowers (calls fs) m"
    unfolding lowers_def
  proof (intro conjI allI impI)
    show "0 \<le> n c + m c" for c using f g by (simp add: lowers_def)
    fix A assume A: "counted_ok A" "\<forall>c. n c + m c \<le> count_of A c"
    have "n c \<le> count_of A c" "m c \<le> count_of A c - n c" for c
      using A(2) g unfolding lowers_def by (auto intro: order_trans [OF _ spec [OF A(2)]] simp: le_diff_eq add.commute)
    then have "counted_ok (f A)" "a_fault (f A) = a_fault A" "\<And>c. count_of (f A) c = count_of A c - n c"
      "\<forall>c. m c \<le> count_of (f A) c"
      using f A(1) by (simp_all add: lowers_def)
    then show "counted_ok (calls (f # fs) A)" "a_fault (calls (f # fs) A) = a_fault A"
      "\<And>c. count_of (calls (f # fs) A) c = count_of A c - (n c + m c)"
      using g by (simp_all add: lowers_def)
  qed
  show "joins (calls (f # fs)) (T \<union> U)" if "joins f T" "joins (calls fs) U"
    using that unfolding joins_def calls_simps by (metis Un_assoc)
  show "leaves (calls (f # fs)) (T \<union> U)" if "leaves f T" "leaves (calls fs) U"
  proof -
    have "S - (T \<union> U) = S - T - U" for S by blast
    then show ?thesis using that by (simp add: leaves_def)
  qed
qed

lemma effect_only_if [effect_intros]:
  "raises f n \<Longrightarrow> raises (only_if b f) (\<lambda>c. if b then n c else 0)" "lowers f n \<Longrightarrow> lowers (only_if b f) (\<lambda>c. if b then n c else 0)"
  "joins f {} \<Longrightarrow> joins (only_if b f) {}" "leaves f {} \<Longrightarrow> leaves (only_if b f) {}"
  by (cases b; simp add: raises_def lowers_def joins_def leaves_def)+

definition one :: "counter \<Rightarrow> counter \<Rightarrow> int" where
  "one x c = (if c = x then 1 else 0)"

definition bits :: "int32 \<Rightarrow> counter \<Rightarrow> int" where
  "bits m c = (if immune_bit m c then 1 else 0)"

lemma effect_visible [effect_intros]:
  assumes "v < MAX_VISIBLE_STATE_COUNT"
  shows "raises (IncVisibleState v) (one (VState v))" "lowers (DecVisibleState v) (one (VState v))"
  using assms by (force simp: raises_def lowers_def one_def count_simps counted_visible counted_okD)+

lemma effect_idle [effect_intros]:
  assumes "m < 4"
  shows "raises (IncIdleSealMode m) (one (IdleSeal m))" "lowers (DecIdleSealMode m) (one (IdleSeal m))"
  using assms by (force simp: raises_def lowers_def one_def count_simps counted_idle counted_okD)+

lemma effect_immune [effect_intros]:
  assumes "\<not> bit m 31"
  shows "raises (IncImmuneMask m) (bits m)" "lowers (DecImmuneMask m) (bits m)"
proof -
  show "raises (IncImmuneMask m) (bits m)"
    using assms by (simp add: raises_def bits_def count_simps counted_immune)
  have "0 < count_of A (Immune i)" if "\<forall>c. bits m c \<le> count_of A c" "bit m i" for A i
    using spec [OF that(1), of "Immune i"] that(2) by (simp add: bits_def immune_bit_def)
  then show "lowers (DecImmuneMask m) (bits m)"
    using assms by (simp add: lowers_def count_simps counted_immune) (simp add: bits_def)
qed

lemma keeps_teams:
  assumes "\<And>es A. team_is es A \<Longrightarrow> team_is es (f A)"
  shows "joins f {}" "leaves f {}"
  using assms by (auto simp: joins_def leaves_def teams_def)

lemma joins_counted [effect_intros]:
  "joins (IncVisibleState s) {}" "leaves (DecVisibleState s) {}" "joins (IncIdleSealMode m) {}" "leaves (DecIdleSealMode m) {}"
  "\<not> bit i 31 \<Longrightarrow> joins (IncImmuneMask i) {}" "\<not> bit i 31 \<Longrightarrow> leaves (DecImmuneMask i) {}"
  by (rule keeps_teams; erule team_counted)+ (rule keeps_teams; erule (1) team_immune)+

lemma effect_team [effect_intros]:
  "raises (InsertTeamVisibleState t []) (\<lambda>_. 0)" "lowers (RemoveTeamVisibleState t) (\<lambda>_. 0)"
  "TVSGetState t = t \<Longrightarrow> joins (InsertTeamVisibleState t []) {t}" "leaves (RemoveTeamVisibleState t) {t}"
proof -
  show "raises (InsertTeamVisibleState t []) (\<lambda>_. 0)"
    by (simp add: raises_def counted_team team_counters)
  show "lowers (RemoveTeamVisibleState t) (\<lambda>_. 0)"
    by (simp add: lowers_def counted_team same_count [OF RemoveTeam_control] same_fault [OF RemoveTeam_control])
  show "joins (InsertTeamVisibleState t []) {t}" if t: "TVSGetState t = t"
    unfolding joins_def teams_def
  proof (intro allI impI, elim exE conjE)
    fix S A es assume es: "team_is es A" "set es = (\<lambda>t. (t, [])) ` S"
    have "team_is (if t \<in> fst ` set es then es else es @ [(t, [])]) (InsertTeamVisibleState t [] A)"
      using t by (intro InsertTeam_entries es(1)) (simp add: entry_ok_def)
    moreover have "fst ` set es = S" unfolding es(2) image_image by simp
    then have "set (if t \<in> fst ` set es then es else es @ [(t, [])]) = (\<lambda>t. (t, [])) ` (S \<union> {t})"
    proof (cases "t \<in> S")
      case True
      then have "S \<union> {t} = S" by blast
      then show ?thesis using True es(2) \<open>fst ` set es = S\<close> by presburger
    next
      case False
      then show ?thesis unfolding \<open>fst ` set es = S\<close> by (simp add: es(2))
    qed
    ultimately show "\<exists>es. team_is es (InsertTeamVisibleState t [] A) \<and> set es = (\<lambda>t. (t, [])) ` (S \<union> {t})"
      by blast
  qed
  show "leaves (RemoveTeamVisibleState t) {t}"
    unfolding leaves_def teams_def
  proof (intro allI impI, elim exE conjE)
    fix S A es assume es: "team_is es A" "set es = (\<lambda>t. (t, [])) ` S"
    show "\<exists>es. team_is es (RemoveTeamVisibleState t A) \<and> set es = (\<lambda>t. (t, [])) ` (S - {t})"
    proof (intro exI conjI)
      show "team_is (filter (\<lambda>e. fst e \<noteq> t) es) (RemoveTeamVisibleState t A)" by (rule RemoveTeam_entries [OF es(1)])
      show "set (filter (\<lambda>e. fst e \<noteq> t) es) = (\<lambda>t. (t, [])) ` (S - {t})" unfolding set_filter es(2) by force
    qed
  qed
qed

lemma renews_calls:
  assumes "\<And>A. fresh_except {} A \<Longrightarrow> fresh_except G (f A)" "G = {}"
  shows "renews f"
  using assms by (simp add: renews_def)

lemma fresh_only_if [fresh_intros]:
  "fresh_except G A \<Longrightarrow> fresh_except G (only_if b (IncVisibleState v) A)"
  "fresh_except G A \<Longrightarrow> fresh_except G (only_if b (DecVisibleState v) A)"
  by (simp_all add: only_if_def fresh_state)

lemma amount_only_if [amount_simps]:
  "amount (only_if b (IncVisibleState v) A) s = amount A s" "amount (only_if b (DecVisibleState v) A) s = amount A s"
  by (simp_all add: only_if_def amount_counted)

text \<open>The parts of \<open>undoes\<close>, each for its own automation.\<close>

lemma undoes_parts:
  assumes "\<And>A s. amount (on A) s = amount A s + effect on s" "\<And>A s. amount (off A) s = amount A s - effect on s"
    and "raises on n \<and> lowers off n" "joins on T \<and> leaves off T" "renews on \<and> renews off"
  shows "undoes on off"
  using assms by (auto simp: undoes_def adds_def drops_def raises_holds joins_team_of)

subsection \<open>The account of an owner\<close>

text \<open>
  \<open>account on B K A\<close>: the owner \<open>A\<close> is the owner \<open>B\<close> with what the effects in \<open>K\<close> add: the
  accumulators (modulo \<open>2 ^ 32\<close>), the counters and the states shown to the team. No assertion
  has failed, modes and immunities follow their counters and no computed property is stale.
\<close>

definition team_set :: "('k \<Rightarrow> actor \<Rightarrow> actor) \<Rightarrow> 'k multiset \<Rightarrow> u16 set" where
  "team_set on K = (\<Union>k \<in> set_mset K. team_of (on k))"

definition account :: "('k \<Rightarrow> actor \<Rightarrow> actor) \<Rightarrow> actor \<Rightarrow> 'k multiset \<Rightarrow> actor \<Rightarrow> bool" where
  "account on B K A \<longleftrightarrow>
     (\<forall>s. amount A s = amount B s + (\<Sum>k \<in># K. effect (on k) s))
     \<and> (\<forall>c. count_of A c = count_of B c + (\<Sum>k \<in># K. holds (on k) c))
     \<and> teams (team_set on K) A \<and> counted_ok B \<and> counted_ok A \<and> fresh_except {} A \<and> \<not> a_fault A"

text \<open>
  What switching an effect on and off promises: \<open>good k\<close> says which effects are meant.
\<close>

locale effects =
  fixes on off :: "'k \<Rightarrow> actor \<Rightarrow> actor" and good :: "'k \<Rightarrow> bool"
  assumes on_off: "good k \<Longrightarrow> undoes (on k) (off k)"
begin

lemma on_account:
  assumes "account on B K A" "good k"
  shows "account on B (add_mset k K) (on k A)"
proof -
  note on = on_off [OF assms(2), unfolded undoes_def]
  have "team_set on (add_mset k K) = team_set on K \<union> team_of (on k)" by (auto simp: team_set_def)
  then have "teams (team_set on (add_mset k K)) (on k A)" using assms(1) on by (simp add: account_def joins_def)
  then show ?thesis
    using assms(1) on by (auto simp: account_def adds_def raises_def renews_def algebra_simps)
qed

lemma off_account:
  assumes A: "account on B (add_mset k K) A" and k: "good k" "\<forall>k \<in># K. good k" and apart: "team_of (on k) \<inter> team_set on K = {}"
  shows "account on B K (off k A)"
proof -
  note off = on_off [OF k(1), unfolded undoes_def]
  have "0 \<le> (\<Sum>k \<in># K. holds (on k) c)" for c
    using k(2) by (induction K) (use on_off in \<open>auto simp: undoes_def raises_def\<close>)
  moreover have "0 \<le> count_of B c" for c using A by (auto simp: account_def intro: counted_okD)
  ultimately have need: "\<forall>c. holds (on k) c \<le> count_of A c" using A by (simp add: account_def add_increasing2)
  have "team_set on (add_mset k K) - team_of (on k) = team_set on K" using apart by (auto simp: team_set_def)
  then have "teams (team_set on K) (off k A)" using A off by (metis account_def leaves_def)
  moreover have "amount (off k A) s = amount B s + (\<Sum>k \<in># K. effect (on k) s)" for s
    using A off by (simp add: account_def drops_def)
  ultimately show ?thesis
    using A off need by (simp add: account_def lowers_def renews_def)
qed

lemma new_account:
  assumes "counted_ok B" "fresh_except {} B" "\<not> a_fault B" "teams {} B"
  shows "account on B {#} B"
  using assms by (simp add: account_def team_set_def)

end

end
