(* ===== verification/SkillConst.thy ===== *)
theory SkillConst
  imports Effects
begin

text \<open>
  The numbers of \<open>src/cskill/skill/sfilterdef.h\<close> and \<open>statedef.h\<close> that the modelled filters use:
  class numbers, filter ids, visible states, team states and immunities.
\<close>

abbreviation (input) FILTER_SLOW :: int where "FILTER_SLOW \<equiv> 4096"
abbreviation (input) FILTER_DIZZY :: int where "FILTER_DIZZY \<equiv> 4098"
abbreviation (input) FILTER_FIX :: int where "FILTER_FIX \<equiv> 4099"
abbreviation (input) FILTER_SEALED :: int where "FILTER_SEALED \<equiv> 4100"
abbreviation (input) FILTER_DECATTACK :: int where "FILTER_DECATTACK \<equiv> 4109"
abbreviation (input) FILTER_DECDEFENCE :: int where "FILTER_DECDEFENCE \<equiv> 4110"
abbreviation (input) FILTER_DECMAGIC :: int where "FILTER_DECMAGIC \<equiv> 4111"
abbreviation (input) FILTER_DECRESIST :: int where "FILTER_DECRESIST \<equiv> 4112"
abbreviation (input) FILTER_DECDODGE :: int where "FILTER_DECDODGE \<equiv> 4113"
abbreviation (input) FILTER_DECACCURACY :: int where "FILTER_DECACCURACY \<equiv> 4114"
abbreviation (input) FILTER_TARDY :: int where "FILTER_TARDY \<equiv> 4115"
abbreviation (input) FILTER_FASTHPGEN :: int where "FILTER_FASTHPGEN \<equiv> 4118"
abbreviation (input) FILTER_FASTMPGEN :: int where "FILTER_FASTMPGEN \<equiv> 4119"
abbreviation (input) FILTER_INCHP :: int where "FILTER_INCHP \<equiv> 4120"
abbreviation (input) FILTER_INCMP :: int where "FILTER_INCMP \<equiv> 4121"
abbreviation (input) FILTER_INCATTACK :: int where "FILTER_INCATTACK \<equiv> 4122"
abbreviation (input) FILTER_INCDEFENCE :: int where "FILTER_INCDEFENCE \<equiv> 4123"
abbreviation (input) FILTER_INCMAGIC :: int where "FILTER_INCMAGIC \<equiv> 4124"
abbreviation (input) FILTER_INCRESIST :: int where "FILTER_INCRESIST \<equiv> 4125"
abbreviation (input) FILTER_INCDODGE :: int where "FILTER_INCDODGE \<equiv> 4126"
abbreviation (input) FILTER_MAGICSHIELD :: int where "FILTER_MAGICSHIELD \<equiv> 4128"
abbreviation (input) FILTER_DECHP :: int where "FILTER_DECHP \<equiv> 4130"
abbreviation (input) FILTER_DECMP :: int where "FILTER_DECMP \<equiv> 4131"
abbreviation (input) FILTER_CRAZY :: int where "FILTER_CRAZY \<equiv> 4132"
abbreviation (input) FILTER_SPEEDUP :: int where "FILTER_SPEEDUP \<equiv> 4133"
abbreviation (input) FILTER_ENHANCEGOLD :: int where "FILTER_ENHANCEGOLD \<equiv> 4138"
abbreviation (input) FILTER_ENHANCEWOOD :: int where "FILTER_ENHANCEWOOD \<equiv> 4139"
abbreviation (input) FILTER_ENHANCEWATER :: int where "FILTER_ENHANCEWATER \<equiv> 4140"
abbreviation (input) FILTER_ENHANCEFIRE :: int where "FILTER_ENHANCEFIRE \<equiv> 4141"
abbreviation (input) FILTER_ENHANCESOIL :: int where "FILTER_ENHANCESOIL \<equiv> 4142"
abbreviation (input) FILTER_REDUCEGOLD :: int where "FILTER_REDUCEGOLD \<equiv> 4143"
abbreviation (input) FILTER_REDUCEWOOD :: int where "FILTER_REDUCEWOOD \<equiv> 4144"
abbreviation (input) FILTER_REDUCEWATER :: int where "FILTER_REDUCEWATER \<equiv> 4145"
abbreviation (input) FILTER_REDUCEFIRE :: int where "FILTER_REDUCEFIRE \<equiv> 4146"
abbreviation (input) FILTER_REDUCESOIL :: int where "FILTER_REDUCESOIL \<equiv> 4147"
abbreviation (input) FILTER_INCACCURACY :: int where "FILTER_INCACCURACY \<equiv> 4148"
abbreviation (input) FILTER_XISUI :: int where "FILTER_XISUI \<equiv> 4156"
abbreviation (input) FILTER_YIJIN :: int where "FILTER_YIJIN \<equiv> 4156"
abbreviation (input) FILTER_POWERUP :: int where "FILTER_POWERUP \<equiv> 4159"
abbreviation (input) FILTER_STONESKIN :: int where "FILTER_STONESKIN \<equiv> 4160"
abbreviation (input) FILTER_IRONSHIELD :: int where "FILTER_IRONSHIELD \<equiv> 4161"
abbreviation (input) FILTER_GIANT :: int where "FILTER_GIANT \<equiv> 4162"
abbreviation (input) FILTER_DEVILSTATE :: int where "FILTER_DEVILSTATE \<equiv> 4163"
abbreviation (input) FILTER_BLESSMAGIC :: int where "FILTER_BLESSMAGIC \<equiv> 4164"
abbreviation (input) FILTER_FREEMOVE :: int where "FILTER_FREEMOVE \<equiv> 4168"
abbreviation (input) FILTER_INCSMITE :: int where "FILTER_INCSMITE \<equiv> 4177"
abbreviation (input) FILTER_SPIRITCURSE :: int where "FILTER_SPIRITCURSE \<equiv> 4178"
abbreviation (input) FILTER_FASTRIDE :: int where "FILTER_FASTRIDE \<equiv> 4183"
abbreviation (input) FILTER_SHARPBLADE :: int where "FILTER_SHARPBLADE \<equiv> 4184"
abbreviation (input) FILTER_ADDATTACKDEGREE :: int where "FILTER_ADDATTACKDEGREE \<equiv> 4185"
abbreviation (input) FILTER_SUBATTACKDEGREE :: int where "FILTER_SUBATTACKDEGREE \<equiv> 4186"
abbreviation (input) FILTER_ADDDEFENCEDEGREE :: int where "FILTER_ADDDEFENCEDEGREE \<equiv> 4187"
abbreviation (input) FILTER_SUBDEFENCEDEGREE :: int where "FILTER_SUBDEFENCEDEGREE \<equiv> 4188"
abbreviation (input) FILTER_SLOWSWIM :: int where "FILTER_SLOWSWIM \<equiv> 4202"
abbreviation (input) FILTER_FASTSWIM :: int where "FILTER_FASTSWIM \<equiv> 4203"
abbreviation (input) FILTER_SLOWFLY :: int where "FILTER_SLOWFLY \<equiv> 4204"
abbreviation (input) FILTER_FASTFLY :: int where "FILTER_FASTFLY \<equiv> 4205"
abbreviation (input) FILTER_SLOWRIDE :: int where "FILTER_SLOWRIDE \<equiv> 4206"
abbreviation (input) FILTER_INCDEFENCE2 :: int where "FILTER_INCDEFENCE2 \<equiv> 4211"
abbreviation (input) FILTER_WEAKELEMENT :: int where "FILTER_WEAKELEMENT \<equiv> 4212"
abbreviation (input) FILTER_FURY :: int where "FILTER_FURY \<equiv> 4216"
abbreviation (input) FILTER_HOMEFEELING :: int where "FILTER_HOMEFEELING \<equiv> 4218"
abbreviation (input) FILTER_REDUCEWATER2 :: int where "FILTER_REDUCEWATER2 \<equiv> 4219"
abbreviation (input) FILTER_INCSMITE2 :: int where "FILTER_INCSMITE2 \<equiv> 4220"
abbreviation (input) FILTER_DECDEFENCE2 :: int where "FILTER_DECDEFENCE2 \<equiv> 4221"
abbreviation (input) FILTER_REDUCEFIRE2 :: int where "FILTER_REDUCEFIRE2 \<equiv> 4222"
abbreviation (input) FILTER_BURNINGFEET :: int where "FILTER_BURNINGFEET \<equiv> 4225"
abbreviation (input) FILTER_REDUCEGOLD2 :: int where "FILTER_REDUCEGOLD2 \<equiv> 4227"
abbreviation (input) FILTER_CHARRED :: int where "FILTER_CHARRED \<equiv> 4229"
abbreviation (input) FILTER_CLOSED :: int where "FILTER_CLOSED \<equiv> 4237"
abbreviation (input) FILTER_BEFROZEN :: int where "FILTER_BEFROZEN \<equiv> 4240"
abbreviation (input) FILTER_SEALED2 :: int where "FILTER_SEALED2 \<equiv> 4245"
abbreviation (input) FILTER_FIX2 :: int where "FILTER_FIX2 \<equiv> 4246"
abbreviation (input) FILTER_INCHP2 :: int where "FILTER_INCHP2 \<equiv> 4249"
abbreviation (input) FILTER_INCATTACK2 :: int where "FILTER_INCATTACK2 \<equiv> 4250"
abbreviation (input) FILTER_INCMAGIC2 :: int where "FILTER_INCMAGIC2 \<equiv> 4251"
abbreviation (input) FILTER_SPEEDUP2 :: int where "FILTER_SPEEDUP2 \<equiv> 4253"
abbreviation (input) FILTER_INCHPSTEAL :: int where "FILTER_INCHPSTEAL \<equiv> 4258"
abbreviation (input) FILTER_INCCRITDAMAGE :: int where "FILTER_INCCRITDAMAGE \<equiv> 4259"
abbreviation (input) FILTER_INCDAMAGEDODGE :: int where "FILTER_INCDAMAGEDODGE \<equiv> 4260"
abbreviation (input) FILTER_INCDEBUFFDODGE :: int where "FILTER_INCDEBUFFDODGE \<equiv> 4261"
abbreviation (input) FILTER_DEEPICETHRUST :: int where "FILTER_DEEPICETHRUST \<equiv> 4272"
abbreviation (input) FILTER_ADJUSTATTACKDEFEND :: int where "FILTER_ADJUSTATTACKDEFEND \<equiv> 4273"
abbreviation (input) FILTER_INCWOODWATERDEFENSE :: int where "FILTER_INCWOODWATERDEFENSE \<equiv> 4286"
abbreviation (input) FILTER_SPECIALSLOW :: int where "FILTER_SPECIALSLOW \<equiv> 4287"
abbreviation (input) FILTER_INCDEFENCESMITE :: int where "FILTER_INCDEFENCESMITE \<equiv> 4288"
abbreviation (input) FILTER_INCRESISTMAGIC :: int where "FILTER_INCRESISTMAGIC \<equiv> 4289"
abbreviation (input) FILTER_SPECIALPHYSICHURTTRIGGER :: int where "FILTER_SPECIALPHYSICHURTTRIGGER \<equiv> 4295"
abbreviation (input) FILTER_ENHANCESKILLDAMAGE :: int where "FILTER_ENHANCESKILLDAMAGE \<equiv> 4300"
abbreviation (input) FILTER_FASTMPGEN2 :: int where "FILTER_FASTMPGEN2 \<equiv> 4303"
abbreviation (input) FILTER_INCCRITRESISTANCE :: int where "FILTER_INCCRITRESISTANCE \<equiv> 4310"
abbreviation (input) FILTER_DECCRITRESISTANCE :: int where "FILTER_DECCRITRESISTANCE \<equiv> 4311"
abbreviation (input) FILTER_ENHANCESKILLDAMAGE2 :: int where "FILTER_ENHANCESKILLDAMAGE2 \<equiv> 4317"
abbreviation (input) FILTER_INCATTACK3 :: int where "FILTER_INCATTACK3 \<equiv> 4323"
abbreviation (input) FILTER_INCATKDEFHP :: int where "FILTER_INCATKDEFHP \<equiv> 4333"
abbreviation (input) FILTER_INCHPMP :: int where "FILTER_INCHPMP \<equiv> 4336"
abbreviation (input) FILTER_INCRESIST2 :: int where "FILTER_INCRESIST2 \<equiv> 4338"
abbreviation (input) FILTER_SUBDEFENCEDEGREE2 :: int where "FILTER_SUBDEFENCEDEGREE2 \<equiv> 4340"
abbreviation (input) FILTER_INCATKDEFHP2 :: int where "FILTER_INCATKDEFHP2 \<equiv> 4341"
abbreviation (input) FILTER_INCSMITE3 :: int where "FILTER_INCSMITE3 \<equiv> 4342"
abbreviation (input) FILTER_INCPENRES :: int where "FILTER_INCPENRES \<equiv> 4343"
abbreviation (input) FILTER_ADDATTACKDEFENDDEGREE :: int where "FILTER_ADDATTACKDEFENDDEGREE \<equiv> 4355"
abbreviation (input) FILTER_PALSY :: int where "FILTER_PALSY \<equiv> 4356"
abbreviation (input) FILTER_INCFLYSPEED :: int where "FILTER_INCFLYSPEED \<equiv> 4362"
abbreviation (input) FILTER_INCVIGOUR :: int where "FILTER_INCVIGOUR \<equiv> 4363"
abbreviation (input) FILTER_MINECARPROTECT :: int where "FILTER_MINECARPROTECT \<equiv> 4364"
abbreviation (input) FILTER_INCVIGOUR2 :: int where "FILTER_INCVIGOUR2 \<equiv> 4365"
abbreviation (input) FILTER_ENHANCESKILLDAMAGE3 :: int where "FILTER_ENHANCESKILLDAMAGE3 \<equiv> 4390"
abbreviation (input) FILTER_CRITDAMAGEREDUCE :: int where "FILTER_CRITDAMAGEREDUCE \<equiv> 4391"
abbreviation (input) VSTATE_BLESSED :: nat where "VSTATE_BLESSED \<equiv> 1"
abbreviation (input) VSTATE_CURSED :: nat where "VSTATE_CURSED \<equiv> 2"
abbreviation (input) VSTATE_SLOW :: nat where "VSTATE_SLOW \<equiv> 4"
abbreviation (input) VSTATE_DIZZY :: nat where "VSTATE_DIZZY \<equiv> 5"
abbreviation (input) VSTATE_FIX :: nat where "VSTATE_FIX \<equiv> 7"
abbreviation (input) VSTATE_SEALED :: nat where "VSTATE_SEALED \<equiv> 8"
abbreviation (input) VSTATE_INFAUST :: nat where "VSTATE_INFAUST \<equiv> 9"
abbreviation (input) VSTATE_POWERUP :: nat where "VSTATE_POWERUP \<equiv> 17"
abbreviation (input) VSTATE_NOREGAIN :: nat where "VSTATE_NOREGAIN \<equiv> 23"
abbreviation (input) VSTATE_FIRESHIELD :: nat where "VSTATE_FIRESHIELD \<equiv> 24"
abbreviation (input) VSTATE_ICESHIELD :: nat where "VSTATE_ICESHIELD \<equiv> 25"
abbreviation (input) VSTATE_SOILSHIELD :: nat where "VSTATE_SOILSHIELD \<equiv> 26"
abbreviation (input) VSTATE_WEAKELEMENT :: nat where "VSTATE_WEAKELEMENT \<equiv> 43"
abbreviation (input) VSTATE_BEFROZEN :: nat where "VSTATE_BEFROZEN \<equiv> 45"
abbreviation (input) VSTATE_INVINCIBLE :: nat where "VSTATE_INVINCIBLE \<equiv> 49"
abbreviation (input) VSTATE_ADDATTACKDEGREE :: nat where "VSTATE_ADDATTACKDEGREE \<equiv> 52"
abbreviation (input) VSTATE_ADDDEFENCEDEGREE :: nat where "VSTATE_ADDDEFENCEDEGREE \<equiv> 53"
abbreviation (input) VSTATE_INCDEBUFFDODGE :: nat where "VSTATE_INCDEBUFFDODGE \<equiv> 64"
abbreviation (input) VSTATE_INCDAMAGEDODGE :: nat where "VSTATE_INCDAMAGEDODGE \<equiv> 65"
abbreviation (input) VSTATE_ADJUSTATTACKDEFEND1 :: nat where "VSTATE_ADJUSTATTACKDEFEND1 \<equiv> 66"
abbreviation (input) VSTATE_ADJUSTATTACKDEFEND2 :: nat where "VSTATE_ADJUSTATTACKDEFEND2 \<equiv> 67"
abbreviation (input) VSTATE_DEEPICETHRUST :: nat where "VSTATE_DEEPICETHRUST \<equiv> 68"
abbreviation (input) VSTATE_INCWOODWATERDEFENSE :: nat where "VSTATE_INCWOODWATERDEFENSE \<equiv> 76"
abbreviation (input) VSTATE_SPECIALSLOW :: nat where "VSTATE_SPECIALSLOW \<equiv> 77"
abbreviation (input) VSTATE_INCDEFENCESMITE :: nat where "VSTATE_INCDEFENCESMITE \<equiv> 80"
abbreviation (input) VSTATE_INCRESISTMAGIC :: nat where "VSTATE_INCRESISTMAGIC \<equiv> 81"
abbreviation (input) VSTATE_DECCRITRESISTANCE :: nat where "VSTATE_DECCRITRESISTANCE \<equiv> 96"
abbreviation (input) VSTATE_PALSY :: nat where "VSTATE_PALSY \<equiv> 117"
abbreviation (input) VSTATE_INCFLYSPEED :: nat where "VSTATE_INCFLYSPEED \<equiv> 121"
abbreviation (input) HSTATE_DIZZY :: u16 where "HSTATE_DIZZY \<equiv> 1"
abbreviation (input) HSTATE_SLOW :: u16 where "HSTATE_SLOW \<equiv> 3"
abbreviation (input) HSTATE_FIRESHIELD :: u16 where "HSTATE_FIRESHIELD \<equiv> 6"
abbreviation (input) HSTATE_ICESHIELD :: u16 where "HSTATE_ICESHIELD \<equiv> 7"
abbreviation (input) HSTATE_FIX :: u16 where "HSTATE_FIX \<equiv> 8"
abbreviation (input) HSTATE_SEALED :: u16 where "HSTATE_SEALED \<equiv> 9"
abbreviation (input) HSTATE_SOILSHIELD :: u16 where "HSTATE_SOILSHIELD \<equiv> 11"
abbreviation (input) HSTATE_DECDEFENCE :: u16 where "HSTATE_DECDEFENCE \<equiv> 18"
abbreviation (input) HSTATE_DECRESIST :: u16 where "HSTATE_DECRESIST \<equiv> 19"
abbreviation (input) HSTATE_DECATTACK :: u16 where "HSTATE_DECATTACK \<equiv> 20"
abbreviation (input) HSTATE_SLOWATTACK :: u16 where "HSTATE_SLOWATTACK \<equiv> 22"
abbreviation (input) HSTATE_DECACCURACY :: u16 where "HSTATE_DECACCURACY \<equiv> 24"
abbreviation (input) HSTATE_DECDODGE :: u16 where "HSTATE_DECDODGE \<equiv> 25"
abbreviation (input) HSTATE_FASTHPGEN :: u16 where "HSTATE_FASTHPGEN \<equiv> 26"
abbreviation (input) HSTATE_FASTMPGEN :: u16 where "HSTATE_FASTMPGEN \<equiv> 27"
abbreviation (input) HSTATE_INCHP :: u16 where "HSTATE_INCHP \<equiv> 28"
abbreviation (input) HSTATE_INCMP :: u16 where "HSTATE_INCMP \<equiv> 29"
abbreviation (input) HSTATE_INCDEFENCE :: u16 where "HSTATE_INCDEFENCE \<equiv> 30"
abbreviation (input) HSTATE_INCRESIST :: u16 where "HSTATE_INCRESIST \<equiv> 31"
abbreviation (input) HSTATE_INCATTACK :: u16 where "HSTATE_INCATTACK \<equiv> 32"
abbreviation (input) HSTATE_FASTATTACK :: u16 where "HSTATE_FASTATTACK \<equiv> 33"
abbreviation (input) HSTATE_INCDODGE :: u16 where "HSTATE_INCDODGE \<equiv> 34"
abbreviation (input) HSTATE_INCACCURACY :: u16 where "HSTATE_INCACCURACY \<equiv> 36"
abbreviation (input) HSTATE_DECMAGIC :: u16 where "HSTATE_DECMAGIC \<equiv> 43"
abbreviation (input) HSTATE_SPEEDUP :: u16 where "HSTATE_SPEEDUP \<equiv> 44"
abbreviation (input) HSTATE_DECHP :: u16 where "HSTATE_DECHP \<equiv> 45"
abbreviation (input) HSTATE_INCMAGIC :: u16 where "HSTATE_INCMAGIC \<equiv> 46"
abbreviation (input) HSTATE_ENHANCEGOLD :: u16 where "HSTATE_ENHANCEGOLD \<equiv> 48"
abbreviation (input) HSTATE_ENHANCEWOOD :: u16 where "HSTATE_ENHANCEWOOD \<equiv> 49"
abbreviation (input) HSTATE_ENHANCEWATER :: u16 where "HSTATE_ENHANCEWATER \<equiv> 50"
abbreviation (input) HSTATE_ENHANCEFIRE :: u16 where "HSTATE_ENHANCEFIRE \<equiv> 51"
abbreviation (input) HSTATE_ENHANCESOIL :: u16 where "HSTATE_ENHANCESOIL \<equiv> 52"
abbreviation (input) HSTATE_REDUCEGOLD :: u16 where "HSTATE_REDUCEGOLD \<equiv> 53"
abbreviation (input) HSTATE_REDUCEWOOD :: u16 where "HSTATE_REDUCEWOOD \<equiv> 54"
abbreviation (input) HSTATE_REDUCEWATER :: u16 where "HSTATE_REDUCEWATER \<equiv> 55"
abbreviation (input) HSTATE_REDUCEFIRE :: u16 where "HSTATE_REDUCEFIRE \<equiv> 56"
abbreviation (input) HSTATE_REDUCESOIL :: u16 where "HSTATE_REDUCESOIL \<equiv> 57"
abbreviation (input) HSTATE_POWERUP :: u16 where "HSTATE_POWERUP \<equiv> 60"
abbreviation (input) HSTATE_XISUI :: u16 where "HSTATE_XISUI \<equiv> 61"
abbreviation (input) HSTATE_YIJIN :: u16 where "HSTATE_YIJIN \<equiv> 62"
abbreviation (input) HSTATE_STONESKIN :: u16 where "HSTATE_STONESKIN \<equiv> 64"
abbreviation (input) HSTATE_IRONSHIELD :: u16 where "HSTATE_IRONSHIELD \<equiv> 65"
abbreviation (input) HSTATE_GIANT :: u16 where "HSTATE_GIANT \<equiv> 66"
abbreviation (input) HSTATE_DEVILSTATE :: u16 where "HSTATE_DEVILSTATE \<equiv> 67"
abbreviation (input) HSTATE_BLESSMAGIC :: u16 where "HSTATE_BLESSMAGIC \<equiv> 68"
abbreviation (input) HSTATE_FREEMOVE :: u16 where "HSTATE_FREEMOVE \<equiv> 72"
abbreviation (input) HSTATE_INCSMITE :: u16 where "HSTATE_INCSMITE \<equiv> 74"
abbreviation (input) HSTATE_INVINCIBLE :: u16 where "HSTATE_INVINCIBLE \<equiv> 76"
abbreviation (input) HSTATE_NOREGAIN :: u16 where "HSTATE_NOREGAIN \<equiv> 78"
abbreviation (input) HSTATE_FASTRIDE :: u16 where "HSTATE_FASTRIDE \<equiv> 82"
abbreviation (input) HSTATE_SHARPBLADE :: u16 where "HSTATE_SHARPBLADE \<equiv> 83"
abbreviation (input) HSTATE_SLOWSWIM :: u16 where "HSTATE_SLOWSWIM \<equiv> 97"
abbreviation (input) HSTATE_FASTSWIM :: u16 where "HSTATE_FASTSWIM \<equiv> 98"
abbreviation (input) HSTATE_SLOWFLY :: u16 where "HSTATE_SLOWFLY \<equiv> 99"
abbreviation (input) HSTATE_FASTFLY :: u16 where "HSTATE_FASTFLY \<equiv> 100"
abbreviation (input) HSTATE_SLOWRIDE :: u16 where "HSTATE_SLOWRIDE \<equiv> 101"
abbreviation (input) HSTATE_INCDEFENCE2 :: u16 where "HSTATE_INCDEFENCE2 \<equiv> 106"
abbreviation (input) HSTATE_WEAKELEMENT :: u16 where "HSTATE_WEAKELEMENT \<equiv> 107"
abbreviation (input) HSTATE_FURY :: u16 where "HSTATE_FURY \<equiv> 111"
abbreviation (input) HSTATE_HOMEFEELING :: u16 where "HSTATE_HOMEFEELING \<equiv> 113"
abbreviation (input) HSTATE_REDUCEWATER2 :: u16 where "HSTATE_REDUCEWATER2 \<equiv> 114"
abbreviation (input) HSTATE_INCSMITE2 :: u16 where "HSTATE_INCSMITE2 \<equiv> 115"
abbreviation (input) HSTATE_DECDEFENCE2 :: u16 where "HSTATE_DECDEFENCE2 \<equiv> 116"
abbreviation (input) HSTATE_REDUCEFIRE2 :: u16 where "HSTATE_REDUCEFIRE2 \<equiv> 117"
abbreviation (input) HSTATE_BURNINGFEET :: u16 where "HSTATE_BURNINGFEET \<equiv> 120"
abbreviation (input) HSTATE_REDUCEGOLD2 :: u16 where "HSTATE_REDUCEGOLD2 \<equiv> 122"
abbreviation (input) HSTATE_CHARRED :: u16 where "HSTATE_CHARRED \<equiv> 124"
abbreviation (input) HSTATE_CLOSED :: u16 where "HSTATE_CLOSED \<equiv> 132"
abbreviation (input) HSTATE_BEFROZEN :: u16 where "HSTATE_BEFROZEN \<equiv> 134"
abbreviation (input) HSTATE_ADDATTACKDEGREE :: u16 where "HSTATE_ADDATTACKDEGREE \<equiv> 135"
abbreviation (input) HSTATE_SUBATTACKDEGREE :: u16 where "HSTATE_SUBATTACKDEGREE \<equiv> 136"
abbreviation (input) HSTATE_ADDDEFENCEDEGREE :: u16 where "HSTATE_ADDDEFENCEDEGREE \<equiv> 137"
abbreviation (input) HSTATE_SUBDEFENCEDEGREE :: u16 where "HSTATE_SUBDEFENCEDEGREE \<equiv> 138"
abbreviation (input) HSTATE_SEALED2 :: u16 where "HSTATE_SEALED2 \<equiv> 140"
abbreviation (input) HSTATE_FIX2 :: u16 where "HSTATE_FIX2 \<equiv> 141"
abbreviation (input) HSTATE_INCHP2 :: u16 where "HSTATE_INCHP2 \<equiv> 144"
abbreviation (input) HSTATE_INCATTACK2 :: u16 where "HSTATE_INCATTACK2 \<equiv> 145"
abbreviation (input) HSTATE_INCMAGIC2 :: u16 where "HSTATE_INCMAGIC2 \<equiv> 146"
abbreviation (input) HSTATE_SPEEDUP2 :: u16 where "HSTATE_SPEEDUP2 \<equiv> 148"
abbreviation (input) HSTATE_INCHPSTEAL :: u16 where "HSTATE_INCHPSTEAL \<equiv> 151"
abbreviation (input) HSTATE_INCCRITDAMAGE :: u16 where "HSTATE_INCCRITDAMAGE \<equiv> 152"
abbreviation (input) HSTATE_INCDAMAGEDODGE :: u16 where "HSTATE_INCDAMAGEDODGE \<equiv> 153"
abbreviation (input) HSTATE_INCDEBUFFDODGE :: u16 where "HSTATE_INCDEBUFFDODGE \<equiv> 154"
abbreviation (input) HSTATE_DEEPICETHRUST :: u16 where "HSTATE_DEEPICETHRUST \<equiv> 165"
abbreviation (input) HSTATE_ADJUSTATTACKDEFEND :: u16 where "HSTATE_ADJUSTATTACKDEFEND \<equiv> 166"
abbreviation (input) HSTATE_INCWOODWATERDEFENSE :: u16 where "HSTATE_INCWOODWATERDEFENSE \<equiv> 179"
abbreviation (input) HSTATE_SPECIALSLOW :: u16 where "HSTATE_SPECIALSLOW \<equiv> 180"
abbreviation (input) HSTATE_INCDEFENCESMITE :: u16 where "HSTATE_INCDEFENCESMITE \<equiv> 181"
abbreviation (input) HSTATE_INCRESISTMAGIC :: u16 where "HSTATE_INCRESISTMAGIC \<equiv> 182"
abbreviation (input) HSTATE_SPECIALPHYSICHURTTRIGGER :: u16 where "HSTATE_SPECIALPHYSICHURTTRIGGER \<equiv> 190"
abbreviation (input) HSTATE_ENHANCESKILLDAMAGE :: u16 where "HSTATE_ENHANCESKILLDAMAGE \<equiv> 196"
abbreviation (input) HSTATE_FASTMPGEN2 :: u16 where "HSTATE_FASTMPGEN2 \<equiv> 198"
abbreviation (input) HSTATE_INCCRITRESISTANCE :: u16 where "HSTATE_INCCRITRESISTANCE \<equiv> 205"
abbreviation (input) HSTATE_DECCRITRESISTANCE :: u16 where "HSTATE_DECCRITRESISTANCE \<equiv> 206"
abbreviation (input) HSTATE_ENHANCESKILLDAMAGE2 :: u16 where "HSTATE_ENHANCESKILLDAMAGE2 \<equiv> 212"
abbreviation (input) HSTATE_INCATTACK3 :: u16 where "HSTATE_INCATTACK3 \<equiv> 218"
abbreviation (input) HSTATE_INCATKDEFHP :: u16 where "HSTATE_INCATKDEFHP \<equiv> 230"
abbreviation (input) HSTATE_INCHPMP :: u16 where "HSTATE_INCHPMP \<equiv> 232"
abbreviation (input) HSTATE_INCRESIST2 :: u16 where "HSTATE_INCRESIST2 \<equiv> 235"
abbreviation (input) HSTATE_SUBDEFENCEDEGREE2 :: u16 where "HSTATE_SUBDEFENCEDEGREE2 \<equiv> 237"
abbreviation (input) HSTATE_INCATKDEFHP2 :: u16 where "HSTATE_INCATKDEFHP2 \<equiv> 238"
abbreviation (input) HSTATE_INCSMITE3 :: u16 where "HSTATE_INCSMITE3 \<equiv> 239"
abbreviation (input) HSTATE_INCPENRES :: u16 where "HSTATE_INCPENRES \<equiv> 240"
abbreviation (input) HSTATE_ADDATTACKDEFENDDEGREE :: u16 where "HSTATE_ADDATTACKDEFENDDEGREE \<equiv> 254"
abbreviation (input) HSTATE_PALSY :: u16 where "HSTATE_PALSY \<equiv> 255"
abbreviation (input) HSTATE_FIRESHIELD2 :: u16 where "HSTATE_FIRESHIELD2 \<equiv> 261"
abbreviation (input) HSTATE_INCFLYSPEED :: u16 where "HSTATE_INCFLYSPEED \<equiv> 263"
abbreviation (input) HSTATE_INCVIGOUR :: u16 where "HSTATE_INCVIGOUR \<equiv> 264"
abbreviation (input) HSTATE_INCVIGOUR2 :: u16 where "HSTATE_INCVIGOUR2 \<equiv> 265"
abbreviation (input) HSTATE_ENHANCESKILLDAMAGE3 :: u16 where "HSTATE_ENHANCESKILLDAMAGE3 \<equiv> 282"
abbreviation (input) HSTATE_CRITDAMAGEREDUCE :: u16 where "HSTATE_CRITDAMAGEREDUCE \<equiv> 283"
abbreviation (input) IMMUNEPHYSICAL :: int32 where "IMMUNEPHYSICAL \<equiv> 1"
abbreviation (input) IMMUNEMETAL :: int32 where "IMMUNEMETAL \<equiv> 2"
abbreviation (input) IMMUNEWOOD :: int32 where "IMMUNEWOOD \<equiv> 4"
abbreviation (input) IMMUNEWATER :: int32 where "IMMUNEWATER \<equiv> 8"
abbreviation (input) IMMUNEFIRE :: int32 where "IMMUNEFIRE \<equiv> 16"
abbreviation (input) IMMUNESOIL :: int32 where "IMMUNESOIL \<equiv> 32"
abbreviation (input) IMMUNEDIZZY :: int32 where "IMMUNEDIZZY \<equiv> 64"
abbreviation (input) IMMUNESLEEP :: int32 where "IMMUNESLEEP \<equiv> 128"
abbreviation (input) IMMUNESLOW :: int32 where "IMMUNESLOW \<equiv> 256"
abbreviation (input) IMMUNEFIX :: int32 where "IMMUNEFIX \<equiv> 512"
abbreviation (input) CLASS_SLOW :: int32 where "CLASS_SLOW \<equiv> 4096"
abbreviation (input) CLASS_DIZZY :: int32 where "CLASS_DIZZY \<equiv> 4098"
abbreviation (input) CLASS_FIX :: int32 where "CLASS_FIX \<equiv> 4099"
abbreviation (input) CLASS_SEALED :: int32 where "CLASS_SEALED \<equiv> 4100"
abbreviation (input) CLASS_DECATTACK :: int32 where "CLASS_DECATTACK \<equiv> 4109"
abbreviation (input) CLASS_DECDEFENCE :: int32 where "CLASS_DECDEFENCE \<equiv> 4110"
abbreviation (input) CLASS_DECMAGIC :: int32 where "CLASS_DECMAGIC \<equiv> 4111"
abbreviation (input) CLASS_DECRESIST :: int32 where "CLASS_DECRESIST \<equiv> 4112"
abbreviation (input) CLASS_DECDODGE :: int32 where "CLASS_DECDODGE \<equiv> 4113"
abbreviation (input) CLASS_DECACCURACY :: int32 where "CLASS_DECACCURACY \<equiv> 4114"
abbreviation (input) CLASS_TARDY :: int32 where "CLASS_TARDY \<equiv> 4115"
abbreviation (input) CLASS_FASTHPGEN :: int32 where "CLASS_FASTHPGEN \<equiv> 4118"
abbreviation (input) CLASS_FASTMPGEN :: int32 where "CLASS_FASTMPGEN \<equiv> 4119"
abbreviation (input) CLASS_INCHP :: int32 where "CLASS_INCHP \<equiv> 4120"
abbreviation (input) CLASS_INCMP :: int32 where "CLASS_INCMP \<equiv> 4121"
abbreviation (input) CLASS_INCATTACK :: int32 where "CLASS_INCATTACK \<equiv> 4122"
abbreviation (input) CLASS_INCDEFENCE :: int32 where "CLASS_INCDEFENCE \<equiv> 4123"
abbreviation (input) CLASS_INCMAGIC :: int32 where "CLASS_INCMAGIC \<equiv> 4124"
abbreviation (input) CLASS_INCRESIST :: int32 where "CLASS_INCRESIST \<equiv> 4125"
abbreviation (input) CLASS_INCDODGE :: int32 where "CLASS_INCDODGE \<equiv> 4126"
abbreviation (input) CLASS_SOILSHIELD :: int32 where "CLASS_SOILSHIELD \<equiv> 4128"
abbreviation (input) CLASS_DECHP :: int32 where "CLASS_DECHP \<equiv> 4130"
abbreviation (input) CLASS_DECMP :: int32 where "CLASS_DECMP \<equiv> 4131"
abbreviation (input) CLASS_CRAZY :: int32 where "CLASS_CRAZY \<equiv> 4132"
abbreviation (input) CLASS_SPEEDUP :: int32 where "CLASS_SPEEDUP \<equiv> 4133"
abbreviation (input) CLASS_ENHANCEGOLD :: int32 where "CLASS_ENHANCEGOLD \<equiv> 4138"
abbreviation (input) CLASS_ENHANCEWOOD :: int32 where "CLASS_ENHANCEWOOD \<equiv> 4139"
abbreviation (input) CLASS_ENHANCEWATER :: int32 where "CLASS_ENHANCEWATER \<equiv> 4140"
abbreviation (input) CLASS_ENHANCEFIRE :: int32 where "CLASS_ENHANCEFIRE \<equiv> 4141"
abbreviation (input) CLASS_ENHANCESOIL :: int32 where "CLASS_ENHANCESOIL \<equiv> 4142"
abbreviation (input) CLASS_REDUCEGOLD :: int32 where "CLASS_REDUCEGOLD \<equiv> 4143"
abbreviation (input) CLASS_REDUCEWOOD :: int32 where "CLASS_REDUCEWOOD \<equiv> 4144"
abbreviation (input) CLASS_REDUCEWATER :: int32 where "CLASS_REDUCEWATER \<equiv> 4145"
abbreviation (input) CLASS_REDUCEFIRE :: int32 where "CLASS_REDUCEFIRE \<equiv> 4146"
abbreviation (input) CLASS_REDUCESOIL :: int32 where "CLASS_REDUCESOIL \<equiv> 4147"
abbreviation (input) CLASS_INCACCURACY :: int32 where "CLASS_INCACCURACY \<equiv> 4148"
abbreviation (input) CLASS_YIJIN :: int32 where "CLASS_YIJIN \<equiv> 4156"
abbreviation (input) CLASS_XISUI :: int32 where "CLASS_XISUI \<equiv> 4157"
abbreviation (input) CLASS_FIRESHIELD :: int32 where "CLASS_FIRESHIELD \<equiv> 4158"
abbreviation (input) CLASS_ICESHIELD :: int32 where "CLASS_ICESHIELD \<equiv> 4159"
abbreviation (input) CLASS_POWERUP :: int32 where "CLASS_POWERUP \<equiv> 4162"
abbreviation (input) CLASS_STONESKIN :: int32 where "CLASS_STONESKIN \<equiv> 4163"
abbreviation (input) CLASS_IRONSHIELD :: int32 where "CLASS_IRONSHIELD \<equiv> 4164"
abbreviation (input) CLASS_GIANT :: int32 where "CLASS_GIANT \<equiv> 4165"
abbreviation (input) CLASS_DEVILSTATE :: int32 where "CLASS_DEVILSTATE \<equiv> 4166"
abbreviation (input) CLASS_BLESSMAGIC :: int32 where "CLASS_BLESSMAGIC \<equiv> 4167"
abbreviation (input) CLASS_FREEMOVE :: int32 where "CLASS_FREEMOVE \<equiv> 4171"
abbreviation (input) CLASS_INCSMITE :: int32 where "CLASS_INCSMITE \<equiv> 4173"
abbreviation (input) CLASS_NOREGAIN :: int32 where "CLASS_NOREGAIN \<equiv> 4177"
abbreviation (input) CLASS_FASTRIDE :: int32 where "CLASS_FASTRIDE \<equiv> 4181"
abbreviation (input) CLASS_SHARPBLADE :: int32 where "CLASS_SHARPBLADE \<equiv> 4182"
abbreviation (input) CLASS_ADDATTACKDEGREE :: int32 where "CLASS_ADDATTACKDEGREE \<equiv> 4183"
abbreviation (input) CLASS_SUBATTACKDEGREE :: int32 where "CLASS_SUBATTACKDEGREE \<equiv> 4184"
abbreviation (input) CLASS_ADDDEFENCEDEGREE :: int32 where "CLASS_ADDDEFENCEDEGREE \<equiv> 4185"
abbreviation (input) CLASS_SUBDEFENCEDEGREE :: int32 where "CLASS_SUBDEFENCEDEGREE \<equiv> 4186"
abbreviation (input) CLASS_SLOWSWIM :: int32 where "CLASS_SLOWSWIM \<equiv> 4200"
abbreviation (input) CLASS_FASTSWIM :: int32 where "CLASS_FASTSWIM \<equiv> 4201"
abbreviation (input) CLASS_SLOWFLY :: int32 where "CLASS_SLOWFLY \<equiv> 4202"
abbreviation (input) CLASS_FASTFLY :: int32 where "CLASS_FASTFLY \<equiv> 4203"
abbreviation (input) CLASS_SLOWRIDE :: int32 where "CLASS_SLOWRIDE \<equiv> 4204"
abbreviation (input) CLASS_INCDEFENCE2 :: int32 where "CLASS_INCDEFENCE2 \<equiv> 4209"
abbreviation (input) CLASS_WEAKELEMENT :: int32 where "CLASS_WEAKELEMENT \<equiv> 4210"
abbreviation (input) CLASS_FURY :: int32 where "CLASS_FURY \<equiv> 4214"
abbreviation (input) CLASS_HOMEFEELING :: int32 where "CLASS_HOMEFEELING \<equiv> 4216"
abbreviation (input) CLASS_REDUCEWATER2 :: int32 where "CLASS_REDUCEWATER2 \<equiv> 4217"
abbreviation (input) CLASS_INCSMITE2 :: int32 where "CLASS_INCSMITE2 \<equiv> 4218"
abbreviation (input) CLASS_DECDEFENCE2 :: int32 where "CLASS_DECDEFENCE2 \<equiv> 4219"
abbreviation (input) CLASS_REDUCEFIRE2 :: int32 where "CLASS_REDUCEFIRE2 \<equiv> 4220"
abbreviation (input) CLASS_BURNINGFEET :: int32 where "CLASS_BURNINGFEET \<equiv> 4223"
abbreviation (input) CLASS_REDUCEGOLD2 :: int32 where "CLASS_REDUCEGOLD2 \<equiv> 4225"
abbreviation (input) CLASS_CHARRED :: int32 where "CLASS_CHARRED \<equiv> 4227"
abbreviation (input) CLASS_CLOSED :: int32 where "CLASS_CLOSED \<equiv> 4235"
abbreviation (input) CLASS_BEFROZEN :: int32 where "CLASS_BEFROZEN \<equiv> 4238"
abbreviation (input) CLASS_SEALED2 :: int32 where "CLASS_SEALED2 \<equiv> 4240"
abbreviation (input) CLASS_FIX2 :: int32 where "CLASS_FIX2 \<equiv> 4241"
abbreviation (input) CLASS_INCHP2 :: int32 where "CLASS_INCHP2 \<equiv> 4244"
abbreviation (input) CLASS_INCATTACK2 :: int32 where "CLASS_INCATTACK2 \<equiv> 4245"
abbreviation (input) CLASS_INCMAGIC2 :: int32 where "CLASS_INCMAGIC2 \<equiv> 4246"
abbreviation (input) CLASS_SPEEDUP2 :: int32 where "CLASS_SPEEDUP2 \<equiv> 4248"
abbreviation (input) CLASS_INCHPSTEAL :: int32 where "CLASS_INCHPSTEAL \<equiv> 4253"
abbreviation (input) CLASS_INCCRITDAMAGE :: int32 where "CLASS_INCCRITDAMAGE \<equiv> 4254"
abbreviation (input) CLASS_INCDAMAGEDODGE :: int32 where "CLASS_INCDAMAGEDODGE \<equiv> 4255"
abbreviation (input) CLASS_INCDEBUFFDODGE :: int32 where "CLASS_INCDEBUFFDODGE \<equiv> 4256"
abbreviation (input) CLASS_DEEPICETHRUST :: int32 where "CLASS_DEEPICETHRUST \<equiv> 4267"
abbreviation (input) CLASS_ADJUSTATTACKDEFEND :: int32 where "CLASS_ADJUSTATTACKDEFEND \<equiv> 4268"
abbreviation (input) CLASS_INCWOODWATERDEFENSE :: int32 where "CLASS_INCWOODWATERDEFENSE \<equiv> 4279"
abbreviation (input) CLASS_SPECIALSLOW :: int32 where "CLASS_SPECIALSLOW \<equiv> 4280"
abbreviation (input) CLASS_INCDEFENCESMITE :: int32 where "CLASS_INCDEFENCESMITE \<equiv> 4281"
abbreviation (input) CLASS_INCRESISTMAGIC :: int32 where "CLASS_INCRESISTMAGIC \<equiv> 4282"
abbreviation (input) CLASS_SPECIALPHYSICHURTTRIGGER :: int32 where "CLASS_SPECIALPHYSICHURTTRIGGER \<equiv> 4289"
abbreviation (input) CLASS_ENHANCESKILLDAMAGE :: int32 where "CLASS_ENHANCESKILLDAMAGE \<equiv> 4293"
abbreviation (input) CLASS_FASTMPGEN2 :: int32 where "CLASS_FASTMPGEN2 \<equiv> 4296"
abbreviation (input) CLASS_INCCRITRESISTANCE :: int32 where "CLASS_INCCRITRESISTANCE \<equiv> 4303"
abbreviation (input) CLASS_DECCRITRESISTANCE :: int32 where "CLASS_DECCRITRESISTANCE \<equiv> 4304"
abbreviation (input) CLASS_ENHANCESKILLDAMAGE2 :: int32 where "CLASS_ENHANCESKILLDAMAGE2 \<equiv> 4310"
abbreviation (input) CLASS_INCATTACK3 :: int32 where "CLASS_INCATTACK3 \<equiv> 4316"
abbreviation (input) CLASS_INCATKDEFHP :: int32 where "CLASS_INCATKDEFHP \<equiv> 4326"
abbreviation (input) CLASS_INCHPMP :: int32 where "CLASS_INCHPMP \<equiv> 4329"
abbreviation (input) CLASS_INCRESIST2 :: int32 where "CLASS_INCRESIST2 \<equiv> 4331"
abbreviation (input) CLASS_SUBDEFENCEDEGREE2 :: int32 where "CLASS_SUBDEFENCEDEGREE2 \<equiv> 4333"
abbreviation (input) CLASS_INCATKDEFHP2 :: int32 where "CLASS_INCATKDEFHP2 \<equiv> 4334"
abbreviation (input) CLASS_INCSMITE3 :: int32 where "CLASS_INCSMITE3 \<equiv> 4335"
abbreviation (input) CLASS_INCPENRES :: int32 where "CLASS_INCPENRES \<equiv> 4336"
abbreviation (input) CLASS_ADDATTACKDEFENDDEGREE :: int32 where "CLASS_ADDATTACKDEFENDDEGREE \<equiv> 4348"
abbreviation (input) CLASS_PALSY :: int32 where "CLASS_PALSY \<equiv> 4350"
abbreviation (input) CLASS_FIRESHIELD2 :: int32 where "CLASS_FIRESHIELD2 \<equiv> 4356"
abbreviation (input) CLASS_INCFLYSPEED :: int32 where "CLASS_INCFLYSPEED \<equiv> 4359"
abbreviation (input) CLASS_INCVIGOUR :: int32 where "CLASS_INCVIGOUR \<equiv> 4360"
abbreviation (input) CLASS_MINECARPROTECT :: int32 where "CLASS_MINECARPROTECT \<equiv> 4361"
abbreviation (input) CLASS_INCVIGOUR2 :: int32 where "CLASS_INCVIGOUR2 \<equiv> 4362"
abbreviation (input) CLASS_ENHANCESKILLDAMAGE3 :: int32 where "CLASS_ENHANCESKILLDAMAGE3 \<equiv> 4387"
abbreviation (input) CLASS_CRITDAMAGEREDUCE :: int32 where "CLASS_CRITDAMAGEREDUCE \<equiv> 4388"
abbreviation (input) IMMUNEALL :: int32 where "IMMUNEALL \<equiv> 262144"

end
