(* ===== verification/FilterMan.thy ===== *)
theory FilterMan
  imports Prelude
begin

text \<open>
  \<open>src/cgame/gs/filter.h\<close>, \<open>filter_man.h\<close> and \<open>filter_man.cpp\<close>: the timed effects on an
  object. Filters are objects of an explicit heap; the manager holds them in a multimap by id
  and in one list per event. The virtual methods of a filter are functions that may change the
  filter and the owner and may call back into the manager: the calls they make are a list of
  requests, carried out by \<open>run\<close> after the method's own effect. A failed \<open>ASSERT\<close>, the use of a
  deleted filter, an iterator whose element is gone and a recursion beyond the fuel set
  \<open>ffault\<close>.
\<close>

subsection \<open>Filters and their manager\<close>

text \<open>The \<open>FILTER_IDX\<close> of the events and the flags of \<open>FILTER_MASK\<close>.\<close>

abbreviation IDX_HEARTBEAT :: nat where "IDX_HEARTBEAT \<equiv> 2"
abbreviation IDX_MAX :: nat where "IDX_MAX \<equiv> 12"
abbreviation MASK_ALL :: u32 where "MASK_ALL \<equiv> 0x0FFF"
abbreviation MASK_UNIQUE :: u32 where "MASK_UNIQUE \<equiv> 0x004000"
abbreviation MASK_WEAK :: u32 where "MASK_WEAK \<equiv> 0x008000"
abbreviation MASK_MERGE :: u32 where "MASK_MERGE \<equiv> 0x020000"
abbreviation MASK_NOSAVE :: u32 where "MASK_NOSAVE \<equiv> 0x400000"

record 'x filter_obj =
  f_mask :: u32
  f_id :: int
  f_active :: bool
  f_deleted :: bool
  f_data :: 'x

record ('x, 'c) filter_man =
  objs :: "nat \<rightharpoonup> 'x filter_obj"
  fbrk :: nat
  pool :: "nat list list"
  fmap :: "(int \<times> nat) list"
  call_mask :: u32
  has_wait_delete :: bool
  wait_for_insert :: "nat list"
  delay_add :: bool
  op_count :: int
  parent :: 'c
  ffault :: bool

text \<open>
  The calls a filter makes into its manager; \<open>'e\<close> is the argument of an event, \<open>ReqAssert\<close> a
  failed \<open>ASSERT\<close> of its own.
\<close>

datatype ('x, 'e) request =
    ReqAdd "'x filter_obj"
  | ReqRemove int
  | ReqClear u32
  | ReqModify int int "byte list"
  | ReqEvent nat 'e
  | ReqAssert

text \<open>
  The virtual methods. A method returns the new data and deletion mark of the filter, the owner
  and the requests; event methods also the changed argument. \<open>on_merge\<close> is given both filters.
\<close>

record ('x, 'c, 'e) filter_class =
  on_event :: "nat \<Rightarrow> (int \<Rightarrow> bool) \<Rightarrow> 'e \<Rightarrow> 'x filter_obj \<Rightarrow> 'c \<Rightarrow> 'x \<times> bool \<times> 'e \<times> 'c \<times> ('x, 'e) request list"
  on_attach :: "'x filter_obj \<Rightarrow> 'c \<Rightarrow> 'x \<times> 'c \<times> ('x, 'e) request list"
  on_release :: "'x filter_obj \<Rightarrow> 'c \<Rightarrow> 'x \<times> 'c \<times> ('x, 'e) request list"
  on_merge :: "'x filter_obj \<Rightarrow> 'x filter_obj \<Rightarrow> 'c \<Rightarrow> 'x \<times> 'c \<times> ('x, 'e) request list"
  on_modify :: "int \<Rightarrow> byte list \<Rightarrow> 'x filter_obj \<Rightarrow> 'c \<Rightarrow> 'x \<times> bool \<times> 'c \<times> ('x, 'e) request list"

type_synonym ('x, 'c, 'e) runner = "('x, 'e) request list \<Rightarrow> ('x, 'c) filter_man \<Rightarrow> ('x, 'c) filter_man"

definition man_new :: "'c \<Rightarrow> ('x, 'c) filter_man" where
  "man_new c = \<lparr>objs = Map.empty, fbrk = 0, pool = replicate IDX_MAX [], fmap = [], call_mask = 0,
     has_wait_delete = False, wait_for_insert = [], delay_add = False, op_count = 0, parent = c, ffault = False\<rparr>"

definition fail :: "('x, 'c) filter_man \<Rightarrow> ('x, 'c) filter_man" where
  "fail M = M\<lparr>ffault := True\<rparr>"

definition f_assert :: "bool \<Rightarrow> ('x, 'c) filter_man \<Rightarrow> ('x, 'c) filter_man" where
  "f_assert c M = (if c then M else fail M)"

definition new_filter :: "'x filter_obj \<Rightarrow> ('x, 'c) filter_man \<Rightarrow> nat \<times> ('x, 'c) filter_man" where
  "new_filter f M = (fbrk M, M\<lparr>objs := (objs M)(fbrk M \<mapsto> f), fbrk := fbrk M + 1\<rparr>)"

definition delete_filter :: "nat \<Rightarrow> ('x, 'c) filter_man \<Rightarrow> ('x, 'c) filter_man" where
  "delete_filter a M = (if objs M a = None then fail M else M\<lparr>objs := (objs M)(a := None)\<rparr>)"

text \<open>The multimap: a sorted list in which a new entry goes behind those of its key.\<close>

definition map_insert :: "'k :: linorder \<Rightarrow> nat \<Rightarrow> ('k \<times> nat) list \<Rightarrow> ('k \<times> nat) list" where
  "map_insert k a xs = takeWhile (\<lambda>e. fst e \<le> k) xs @ (k, a) # dropWhile (\<lambda>e. fst e \<le> k) xs"

definition map_find :: "int \<Rightarrow> (int \<times> nat) list \<Rightarrow> nat option" where
  "map_find k xs = map_option snd (List.find (\<lambda>e. fst e = k) xs)"

definition map_erase :: "nat \<Rightarrow> (int \<times> nat) list \<Rightarrow> (int \<times> nat) list" where
  "map_erase a xs = filter (\<lambda>e. snd e \<noteq> a) xs"

text \<open>An iterator is the filter it stands at, \<open>None\<close> at the end.\<close>

definition map_next :: "nat \<Rightarrow> (int \<times> nat) list \<Rightarrow> nat option" where
  "map_next a xs = (case dropWhile (\<lambda>e. snd e \<noteq> a) xs of e # e' # _ \<Rightarrow> Some (snd e') | _ \<Rightarrow> None)"

definition map_key :: "nat \<Rightarrow> (int \<times> nat) list \<Rightarrow> int option" where
  "map_key a xs = map_option fst (List.find (\<lambda>e. snd e = a) xs)"

definition map_begin :: "(int \<times> nat) list \<Rightarrow> nat option" where
  "map_begin xs = (case xs of [] \<Rightarrow> None | e # _ \<Rightarrow> Some (snd e))"

definition IsFilterExist :: "('x, 'c) filter_man \<Rightarrow> int \<Rightarrow> bool" where
  "IsFilterExist M k \<longleftrightarrow> map_find k (fmap M) \<noteq> None"

subsection \<open>Pools\<close>

definition pool_remove :: "nat \<Rightarrow> nat \<Rightarrow> ('x, 'c) filter_man \<Rightarrow> ('x, 'c) filter_man" where
  "pool_remove a i M =
     (if a \<in> set (pool M ! i) then M\<lparr>pool := (pool M)[i := remove1 a (pool M ! i)]\<rparr> else fail M)"

definition RemoveFilterFromPool :: "nat \<Rightarrow> ('x, 'c) filter_man \<Rightarrow> ('x, 'c) filter_man" where
  "RemoveFilterFromPool a M =
     (case objs M a of
        None \<Rightarrow> fail M
      | Some f \<Rightarrow>
          fold (\<lambda>i M. if bit (f_mask f) i then pool_remove a i M else M) [0..<IDX_MAX]
            (f_assert (f_mask f AND call_mask M = 0) M))"

definition pool_insert :: "nat \<Rightarrow> u32 \<Rightarrow> nat list list \<Rightarrow> nat list list" where
  "pool_insert a m ps = map (\<lambda>i. if bit m i then ps ! i @ [a] else ps ! i) [0..<IDX_MAX]"

text \<open>\<open>filter::Release\<close>: \<open>OnRelease\<close>, then \<open>delete this\<close>.\<close>

definition filter_Release ::
  "('x, 'c, 'e) filter_class \<Rightarrow> ('x, 'c, 'e) runner \<Rightarrow> nat \<Rightarrow> ('x, 'c) filter_man \<Rightarrow> ('x, 'c) filter_man" where
  "filter_Release cls run a M =
     (case objs M a of
        None \<Rightarrow> fail M
      | Some f \<Rightarrow>
          (let (d, c, rs) = on_release cls f (parent M)
           in delete_filter a (run rs (M\<lparr>objs := (objs M)(a \<mapsto> f\<lparr>f_data := d\<rparr>), parent := c\<rparr>))))"

subsection \<open>Adding and removing\<close>

text \<open>The loop of the \<open>FILTER_MASK_UNIQUE\<close> branch: the old filter is released before it is erased.\<close>

fun unique_loop ::
  "('x, 'c, 'e) filter_class \<Rightarrow> ('x, 'c, 'e) runner \<Rightarrow> nat \<Rightarrow> int \<Rightarrow> nat option \<Rightarrow> ('x, 'c) filter_man \<Rightarrow> ('x, 'c) filter_man" where
  "unique_loop cls run n k None M = M"
| "unique_loop cls run 0 k (Some a) M = fail M"
| "unique_loop cls run (Suc n) k (Some a) M =
     (case map_key a (fmap M) of
        None \<Rightarrow> fail M
      | Some key \<Rightarrow>
          if key \<noteq> k then M
          else let M = filter_Release cls run a (RemoveFilterFromPool a M) in
            if map_key a (fmap M) = None then fail M
            else let it2 = map_next a (fmap M); M = M\<lparr>fmap := map_erase a (fmap M)\<rparr>
                 in unique_loop cls run n k it2 M)"

text \<open>The end of \<open>AddFilter\<close>: into the map and the pools, then \<open>OnAttach\<close> under the call mask.\<close>

definition attach_filter ::
  "('x, 'c, 'e) filter_class \<Rightarrow> ('x, 'c, 'e) runner \<Rightarrow> nat \<Rightarrow> ('x, 'c) filter_man \<Rightarrow> ('x, 'c) filter_man" where
  "attach_filter cls run a M =
     (case objs M a of
        None \<Rightarrow> fail M
      | Some f \<Rightarrow>
          (let M = M\<lparr>fmap := map_insert (f_id f) a (fmap M), pool := pool_insert a (f_mask f) (pool M),
                     call_mask := call_mask M OR (f_mask f AND MASK_ALL)\<rparr>;
               (d, c, rs) = on_attach cls f (parent M);
               M = run rs (M\<lparr>objs := (objs M)(a \<mapsto> f\<lparr>f_data := d\<rparr>), parent := c\<rparr>)
           in M\<lparr>call_mask := call_mask M AND NOT (f_mask f AND MASK_ALL)\<rparr>))"

definition AddFilter ::
  "('x, 'c, 'e) filter_class \<Rightarrow> ('x, 'c, 'e) runner \<Rightarrow> nat \<Rightarrow> nat \<Rightarrow> ('x, 'c) filter_man \<Rightarrow> bool \<times> ('x, 'c) filter_man" where
  "AddFilter cls run n a M =
     (case objs M a of
        None \<Rightarrow> (False, fail M)
      | Some f \<Rightarrow>
          if f_mask f AND call_mask M \<noteq> 0 then
            (True, if delay_add M then fail M else M\<lparr>wait_for_insert := wait_for_insert M @ [a]\<rparr>)
          else case map_find (f_id f) (fmap M) of
            None \<Rightarrow> (True, attach_filter cls run a M)
          | Some b \<Rightarrow>
              if f_mask f AND MASK_UNIQUE \<noteq> 0 then
                (True, attach_filter cls run a (unique_loop cls run n (f_id f) (Some b) M))
              else if f_mask f AND MASK_WEAK \<noteq> 0 then (False, delete_filter a M)
              else if f_mask f AND MASK_MERGE \<noteq> 0 then
                (False, case objs M b of
                   None \<Rightarrow> fail M
                 | Some g \<Rightarrow>
                     (let M = f_assert (f_mask g AND MASK_MERGE \<noteq> 0) M;
                          (d, c, rs) = on_merge cls g f (parent M)
                      in delete_filter a (run rs (M\<lparr>objs := (objs M)(b \<mapsto> g\<lparr>f_data := d\<rparr>), parent := c\<rparr>))))
              else (True, attach_filter cls run a M))"

text \<open>\<open>RemoveFilter(id)\<close>: under a running event of the filter it is only marked.\<close>

definition erase_and_release ::
  "('x, 'c, 'e) filter_class \<Rightarrow> ('x, 'c, 'e) runner \<Rightarrow> nat \<Rightarrow> ('x, 'c) filter_man \<Rightarrow> nat option \<times> ('x, 'c) filter_man" where
  "erase_and_release cls run a M =
     (let it2 = map_next a (fmap M)
      in (it2, filter_Release cls run a (M\<lparr>fmap := map_erase a (fmap M)\<rparr>)))"

fun remove_loop ::
  "('x, 'c, 'e) filter_class \<Rightarrow> ('x, 'c, 'e) runner \<Rightarrow> nat \<Rightarrow> int \<Rightarrow> nat option \<Rightarrow> ('x, 'c) filter_man \<Rightarrow> ('x, 'c) filter_man" where
  "remove_loop cls run n k None M = M"
| "remove_loop cls run 0 k (Some a) M = fail M"
| "remove_loop cls run (Suc n) k (Some a) M =
     (case map_key a (fmap M) of
        None \<Rightarrow> fail M
      | Some key \<Rightarrow>
          if key \<noteq> k then M
          else case objs M a of
            None \<Rightarrow> fail M
          | Some f \<Rightarrow>
              if call_mask M AND f_mask f \<noteq> 0 then
                remove_loop cls run n k (map_next a (fmap M))
                  (M\<lparr>objs := (objs M)(a \<mapsto> f\<lparr>f_deleted := True\<rparr>), has_wait_delete := True\<rparr>)
              else (let (it, M) = erase_and_release cls run a (RemoveFilterFromPool a M)
                    in remove_loop cls run n k it M))"

definition RemoveFilter ::
  "('x, 'c, 'e) filter_class \<Rightarrow> ('x, 'c, 'e) runner \<Rightarrow> nat \<Rightarrow> int \<Rightarrow> ('x, 'c) filter_man \<Rightarrow> ('x, 'c) filter_man" where
  "RemoveFilter cls run n k M = remove_loop cls run n k (map_find k (fmap M)) M"

text \<open>\<open>RemoveFilter(filter *)\<close>\<close>

definition RemoveFilter_obj ::
  "('x, 'c, 'e) filter_class \<Rightarrow> ('x, 'c, 'e) runner \<Rightarrow> nat \<Rightarrow> ('x, 'c) filter_man \<Rightarrow> ('x, 'c) filter_man" where
  "RemoveFilter_obj cls run a M =
     (case objs M a of
        None \<Rightarrow> fail M
      | Some f \<Rightarrow>
          (let M = f_assert (f_mask f AND call_mask M = 0 \<and> IsFilterExist M (f_id f)) M in
           if map_key a (fmap M) = Some (f_id f)
           then snd (erase_and_release cls run a (RemoveFilterFromPool a M)) else M))"

fun deleted_loop ::
  "('x, 'c, 'e) filter_class \<Rightarrow> ('x, 'c, 'e) runner \<Rightarrow> nat \<Rightarrow> nat option \<Rightarrow> ('x, 'c) filter_man \<Rightarrow> ('x, 'c) filter_man" where
  "deleted_loop cls run n None M = M"
| "deleted_loop cls run 0 (Some a) M = fail M"
| "deleted_loop cls run (Suc n) (Some a) M =
     (if map_key a (fmap M) = None then fail M
      else case objs M a of
        None \<Rightarrow> fail M
      | Some f \<Rightarrow>
          if f_deleted f then
            (let M = (if f_mask f AND MASK_ALL \<noteq> 0 then RemoveFilterFromPool a M else M);
                 (it, M) = erase_and_release cls run a M
             in deleted_loop cls run n it M)
          else deleted_loop cls run n (map_next a (fmap M)) M)"

definition RemoveDeletedFilter ::
  "('x, 'c, 'e) filter_class \<Rightarrow> ('x, 'c, 'e) runner \<Rightarrow> nat \<Rightarrow> ('x, 'c) filter_man \<Rightarrow> ('x, 'c) filter_man" where
  "RemoveDeletedFilter cls run n M =
     (if has_wait_delete M
      then (deleted_loop cls run n (map_begin (fmap M)) M)\<lparr>has_wait_delete := False\<rparr> else M)"

text \<open>\<open>ClearSpecFilter(mask)\<close> marks every filter with one of the flags.\<close>

definition mark_filters :: "u32 \<Rightarrow> ('x, 'c) filter_man \<Rightarrow> ('x, 'c) filter_man" where
  "mark_filters m M =
     M\<lparr>objs := (\<lambda>a. case objs M a of
          None \<Rightarrow> None
        | Some f \<Rightarrow> Some (if a \<in> snd ` set (fmap M) \<and> f_mask f AND m \<noteq> 0 then f\<lparr>f_deleted := True\<rparr> else f)),
       has_wait_delete := has_wait_delete M
          \<or> list_ex (\<lambda>e. case objs M (snd e) of None \<Rightarrow> False | Some f \<Rightarrow> f_mask f AND m \<noteq> 0) (fmap M)\<rparr>"

definition ClearSpecFilter ::
  "('x, 'c, 'e) filter_class \<Rightarrow> ('x, 'c, 'e) runner \<Rightarrow> nat \<Rightarrow> u32 \<Rightarrow> ('x, 'c) filter_man \<Rightarrow> ('x, 'c) filter_man" where
  "ClearSpecFilter cls run n m M =
     (let M = mark_filters m M
      in if call_mask M = 0 then RemoveDeletedFilter cls run n M else M)"

fun modify_loop ::
  "('x, 'c, 'e) filter_class \<Rightarrow> ('x, 'c, 'e) runner \<Rightarrow> nat \<Rightarrow> int \<Rightarrow> int \<Rightarrow> byte list \<Rightarrow> nat option
     \<Rightarrow> ('x, 'c) filter_man \<Rightarrow> ('x, 'c) filter_man" where
  "modify_loop cls run n k name v None M = M"
| "modify_loop cls run 0 k name v (Some a) M = fail M"
| "modify_loop cls run (Suc n) k name v (Some a) M =
     (case map_key a (fmap M) of
        None \<Rightarrow> fail M
      | Some key \<Rightarrow>
          if key \<noteq> k then M
          else case objs M a of
            None \<Rightarrow> fail M
          | Some f \<Rightarrow>
              (let M = (if f_deleted f then M
                        else let (d, del, c, rs) = on_modify cls name v f (parent M)
                             in run rs (M\<lparr>objs := (objs M)(a \<mapsto> f\<lparr>f_data := d, f_deleted := del\<rparr>), parent := c\<rparr>))
               in if map_key a (fmap M) = None then fail M
                  else modify_loop cls run n k name v (map_next a (fmap M)) M))"

definition ModifyFilter ::
  "('x, 'c, 'e) filter_class \<Rightarrow> ('x, 'c, 'e) runner \<Rightarrow> nat \<Rightarrow> int \<Rightarrow> int \<Rightarrow> byte list
     \<Rightarrow> ('x, 'c) filter_man \<Rightarrow> bool \<times> ('x, 'c) filter_man" where
  "ModifyFilter cls run n k name v M =
     (case map_find k (fmap M) of
        None \<Rightarrow> (False, M)
      | Some a \<Rightarrow>
          (True,
           if call_mask M = 0
           then (modify_loop cls run n k name v (Some a) (M\<lparr>call_mask := MASK_ALL\<rparr>))\<lparr>call_mask := 0\<rparr>
           else modify_loop cls run n k name v (Some a) M))"

text \<open>\<open>__DelayAddFilter\<close>\<close>

definition DelayAddFilter ::
  "('x, 'c, 'e) filter_class \<Rightarrow> ('x, 'c, 'e) runner \<Rightarrow> nat \<Rightarrow> ('x, 'c) filter_man \<Rightarrow> ('x, 'c) filter_man" where
  "DelayAddFilter cls run n M =
     (if wait_for_insert M = [] then M
      else let tmp = wait_for_insert M;
               M = fold (\<lambda>a M. snd (AddFilter cls run n a M)) tmp (M\<lparr>wait_for_insert := [], delay_add := True\<rparr>)
           in M\<lparr>delay_add := False\<rparr>)"

subsection \<open>Events\<close>

text \<open>
  The loop of an \<open>EF_\<close> function over the list of event \<open>i\<close>: \<open>done1\<close> is behind the iterator, and
  if the list is no longer what it was when the method returns, the iterator is invalid.
  \<open>EF_Heartbeat\<close> does not test \<open>IsDeleted\<close> first.
\<close>

fun event_loop ::
  "('x, 'c, 'e) filter_class \<Rightarrow> ('x, 'c, 'e) runner \<Rightarrow> nat \<Rightarrow> nat list \<Rightarrow> nat list \<Rightarrow> 'e \<Rightarrow> ('x, 'c) filter_man
     \<Rightarrow> 'e \<times> ('x, 'c) filter_man" where
  "event_loop cls run i done1 [] e M = (e, M)"
| "event_loop cls run i done1 (a # xs) e M =
     (case objs M a of
        None \<Rightarrow> (e, fail M)
      | Some f \<Rightarrow>
          if i \<noteq> IDX_HEARTBEAT \<and> f_deleted f then event_loop cls run i (done1 @ [a]) xs e M
          else
            let (d, del, e, c, rs) = on_event cls i (IsFilterExist M) e f (parent M);
                M = run rs (M\<lparr>objs := (objs M)(a \<mapsto> f\<lparr>f_data := d, f_deleted := del\<rparr>), parent := c\<rparr>)
            in if pool M ! i \<noteq> done1 @ a # xs then (e, fail M)
               else case objs M a of
                 None \<Rightarrow> (e, fail M)
               | Some f \<Rightarrow>
                   if f_deleted f then
                     event_loop cls run i done1 xs e
                       (M\<lparr>objs := (objs M)(a \<mapsto> f\<lparr>f_mask := f_mask f AND NOT (push_bit i 1)\<rparr>),
                          pool := (pool M)[i := done1 @ xs], has_wait_delete := True\<rparr>)
                   else event_loop cls run i (done1 @ [a]) xs e M)"

text \<open>\<open>call_mask_keeper\<close> around the loop.\<close>

definition keep_event ::
  "('x, 'c, 'e) filter_class \<Rightarrow> ('x, 'c, 'e) runner \<Rightarrow> nat \<Rightarrow> nat \<Rightarrow> 'e \<Rightarrow> ('x, 'c) filter_man \<Rightarrow> 'e \<times> ('x, 'c) filter_man" where
  "keep_event cls run n i e M =
     (let M = f_assert (\<not> bit (call_mask M) i) M;
          M = M\<lparr>call_mask := call_mask M OR push_bit i 1, op_count := op_count M + 1\<rparr>;
          (e, M) = event_loop cls run i [] (pool M ! i) e M;
          M = M\<lparr>call_mask := call_mask M AND NOT (push_bit i 1), op_count := op_count M - 1\<rparr>
      in (e, if op_count M = 0 then DelayAddFilter cls run n M else M))"

definition EF_event ::
  "('x, 'c, 'e) filter_class \<Rightarrow> ('x, 'c, 'e) runner \<Rightarrow> nat \<Rightarrow> nat \<Rightarrow> 'e \<Rightarrow> ('x, 'c) filter_man \<Rightarrow> 'e \<times> ('x, 'c) filter_man" where
  "EF_event cls run n i e M =
     (if i = IDX_HEARTBEAT then
        let (e, M) = keep_event cls run n i e (RemoveDeletedFilter cls run n M)
        in (e, RemoveDeletedFilter cls run n M)
      else keep_event cls run n i e M)"

subsection \<open>The calls of callbacks\<close>

definition do_request ::
  "('x, 'c, 'e) filter_class \<Rightarrow> ('x, 'c, 'e) runner \<Rightarrow> nat \<Rightarrow> ('x, 'e) request \<Rightarrow> ('x, 'c) filter_man \<Rightarrow> ('x, 'c) filter_man" where
  "do_request cls run n r M =
     (case r of
        ReqAdd f \<Rightarrow> (let (a, M) = new_filter f M in snd (AddFilter cls run n a M))
      | ReqRemove k \<Rightarrow> RemoveFilter cls run n k M
      | ReqClear m \<Rightarrow> ClearSpecFilter cls run n m M
      | ReqModify k name v \<Rightarrow> snd (ModifyFilter cls run n k name v M)
      | ReqEvent i e \<Rightarrow> if i < IDX_MAX then snd (EF_event cls run n i e M) else M
      | ReqAssert \<Rightarrow> fail M)"

text \<open>Requests with \<open>n\<close> levels of nesting (and \<open>n\<close> steps of each map loop) to go.\<close>

fun exec :: "('x, 'c, 'e) filter_class \<Rightarrow> nat \<Rightarrow> ('x, 'c, 'e) runner" where
  "exec cls n [] M = M"
| "exec cls 0 (r # rs) M = fail M"
| "exec cls (Suc n) (r # rs) M = exec cls (Suc n) rs (do_request cls (exec cls n) n r M)"

end
