(* ===== verification/FilterInv.thy ===== *)
theory FilterInv
  imports FilterMan
begin

text \<open>
  The invariant of the filter manager: the lists of the events hold exactly the filters of the
  map whose mask has the event, and every live filter is in the map, waiting, or in one of the
  sets an operation in progress accounts for. Every operation keeps it, whatever the callbacks
  do, as long as nothing has failed; the interface \<open>callbacks\<close> states the same of the calls a
  callback makes, and \<open>exec\<close> provides it.
\<close>

subsection \<open>The invariant\<close>

definition addr_set :: "(int \<times> nat) list \<Rightarrow> nat set" where
  "addr_set xs = snd ` set xs"

abbreviation addrs :: "('x, 'c) filter_man \<Rightarrow> nat set" where
  "addrs M \<equiv> addr_set (fmap M)"

lemma addr_setI: "e \<in> set xs \<Longrightarrow> snd e \<in> addr_set xs"
  by (simp add: addr_set_def)

lemma addr_setE: "a \<in> addr_set xs \<Longrightarrow> (\<And>k. (k, a) \<in> set xs \<Longrightarrow> P) \<Longrightarrow> P"
  by (auto simp: addr_set_def)

text \<open>
  \<open>X\<close>: taken from the waiting list and not yet added; \<open>R\<close>: erased from the map and being
  released; \<open>Z\<close>: removed from the lists ahead of the map.
\<close>

definition man_ok :: "nat set \<Rightarrow> nat set \<Rightarrow> nat set \<Rightarrow> ('x, 'c) filter_man \<Rightarrow> bool" where
  "man_ok X R Z M \<longleftrightarrow>
     length (pool M) = IDX_MAX \<and> distinct (map snd (fmap M)) \<and> sorted (map fst (fmap M))
     \<and> (\<forall>e \<in> set (fmap M). \<exists>f. objs M (snd e) = Some f \<and> f_id f = fst e)
     \<and> (\<forall>i < IDX_MAX. distinct (pool M ! i) \<and> (\<forall>a. a \<in> set (pool M ! i) \<longleftrightarrow>
          a \<in> addrs M \<and> a \<notin> Z \<and> (\<exists>f. objs M a = Some f \<and> bit (f_mask f) i)))
     \<and> distinct (wait_for_insert M)
     \<and> dom (objs M) = addrs M \<union> set (wait_for_insert M) \<union> X \<union> R
     \<and> set (wait_for_insert M) \<inter> addrs M = {} \<and> X \<inter> addrs M = {} \<and> R \<inter> addrs M = {}
     \<and> X \<inter> set (wait_for_insert M) = {} \<and> R \<inter> set (wait_for_insert M) = {} \<and> X \<inter> R = {}
     \<and> Z \<inter> (set (wait_for_insert M) \<union> X) = {}
     \<and> (\<forall>a \<in> dom (objs M) \<union> Z. a < fbrk M) \<and> (\<forall>i. bit (call_mask M) i \<longrightarrow> i < IDX_MAX)"

text \<open>What the caller of an operation can rely on: running events see their lists untouched.\<close>

definition keeps :: "nat set \<Rightarrow> ('x, 'c) filter_man \<Rightarrow> ('x, 'c) filter_man \<Rightarrow> bool" where
  "keeps X M M' \<longleftrightarrow> call_mask M' = call_mask M \<and> op_count M' = op_count M
     \<and> (\<forall>i < IDX_MAX. bit (call_mask M) i \<longrightarrow> pool M' ! i = pool M ! i) \<and> (\<forall>a \<in> X. objs M' a = objs M a)"

definition ok_step ::
  "nat set \<times> nat set \<times> nat set \<Rightarrow> nat set \<times> nat set \<times> nat set \<Rightarrow> ('x, 'c) filter_man \<Rightarrow> ('x, 'c) filter_man \<Rightarrow> bool" where
  "ok_step P Q M M' \<longleftrightarrow>
     (case P of (X, R, Z) \<Rightarrow> case Q of (X', R', Z') \<Rightarrow>
       (ffault M \<longrightarrow> ffault M') \<and>
       (man_ok X R Z M \<longrightarrow> \<not> ffault M' \<longrightarrow> man_ok X' R' Z' M' \<and> keeps (X \<inter> X') M M'))"

named_theorems step_intros \<open>steps of the filter manager\<close>

lemma ok_stepI:
  assumes "ffault M \<Longrightarrow> ffault M'"
    and "man_ok X R Z M \<Longrightarrow> \<not> ffault M \<Longrightarrow> \<not> ffault M' \<Longrightarrow> man_ok X' R' Z' M'"
    and "man_ok X R Z M \<Longrightarrow> \<not> ffault M \<Longrightarrow> \<not> ffault M' \<Longrightarrow> keeps (X \<inter> X') M M'"
  shows "ok_step (X, R, Z) (X', R', Z') M M'"
  using assms by (auto simp: ok_step_def)

lemma ok_step_trans:
  assumes "ok_step (X, R, Z) (X', R', Z') M M'" "ok_step (X', R', Z') (X'', R'', Z'') M' M''" "X \<inter> X'' \<subseteq> X'"
  shows "ok_step (X, R, Z) (X'', R'', Z'') M M''"
  using assms unfolding ok_step_def prod.case keeps_def by (smt (verit) Int_iff subsetD)

lemma ok_step_seq:
  assumes "ok_step (X, R, Z) (X, R, Z) M M'" "ok_step (X, R, Z) (X, R, Z) M' M''"
  shows "ok_step (X, R, Z) (X, R, Z) M M''"
  using assms by (rule ok_step_trans) auto

lemma ok_step_refl: "ok_step P P M M"
  by (cases P) (auto simp: ok_step_def keeps_def)

lemma fault_fail [simp]: "ffault (fail M)"
  by (simp add: fail_def)

lemma ok_step_fail: "ok_step P Q M (fail M')"
  by (cases P; cases Q) (simp add: ok_step_def)

lemma ok_step_faulted: "ffault M' \<Longrightarrow> ok_step P Q M M'"
  by (cases P; cases Q) (simp add: ok_step_def)

lemma ok_step_assert: "ok_step P P M (f_assert c M)"
  using ok_step_refl ok_step_fail by (cases c) (simp_all add: f_assert_def)

lemma man_okD:
  assumes "man_ok X R Z M"
  shows "length (pool M) = IDX_MAX" "distinct (map snd (fmap M))" "sorted (map fst (fmap M))"
    "\<And>e. e \<in> set (fmap M) \<Longrightarrow> \<exists>f. objs M (snd e) = Some f \<and> f_id f = fst e"
    "\<And>i. i < IDX_MAX \<Longrightarrow> distinct (pool M ! i)"
    "\<And>i a. i < IDX_MAX \<Longrightarrow> a \<in> set (pool M ! i) \<longleftrightarrow> a \<in> addrs M \<and> a \<notin> Z \<and> (\<exists>f. objs M a = Some f \<and> bit (f_mask f) i)"
    "dom (objs M) = addrs M \<union> set (wait_for_insert M) \<union> X \<union> R"
    "\<And>i. bit (call_mask M) i \<Longrightarrow> i < IDX_MAX"
  using assms by (auto simp: man_ok_def)

lemma addrs_live: "man_ok X R Z M \<Longrightarrow> a \<in> addrs M \<Longrightarrow> \<exists>f. objs M a = Some f"
  by (auto elim!: addr_setE dest!: man_okD(4))

text \<open>Changing the data, the activity or the deletion mark of filters outside \<open>X\<close>.\<close>

definition same_shape :: "('x filter_obj) option \<Rightarrow> ('x filter_obj) option \<Rightarrow> bool" where
  "same_shape p q \<longleftrightarrow> map_option f_mask p = map_option f_mask q \<and> map_option f_id p = map_option f_id q"

lemma man_ok_objs:
  assumes "man_ok X R Z M" "\<And>a. same_shape (objs M a) (objs M' a)"
    and "pool M' = pool M" "fmap M' = fmap M" "wait_for_insert M' = wait_for_insert M" "fbrk M' = fbrk M" "call_mask M' = call_mask M"
  shows "man_ok X R Z M'"
proof -
  have d: "dom (objs M') = dom (objs M)"
    using assms(2) unfolding same_shape_def dom_def by (metis option.map_disc_iff)
  have e: "(\<exists>f. objs M' a = Some f \<and> P (f_mask f) (f_id f)) \<longleftrightarrow> (\<exists>f. objs M a = Some f \<and> P (f_mask f) (f_id f))" for a P
    using assms(2) [of a] unfolding same_shape_def by (cases "objs M a"; cases "objs M' a") auto
  show ?thesis
    using assms(1) d e [of _ "\<lambda>m i. i = _"] e [of _ "\<lambda>m i. bit m _"] unfolding man_ok_def assms(3-7) by simp
qed

lemma same_shape_upd:
  "objs M a = Some f \<Longrightarrow> f_mask g = f_mask f \<Longrightarrow> f_id g = f_id f \<Longrightarrow> same_shape (objs M b) (((objs M)(a \<mapsto> g)) b)"
  by (simp add: same_shape_def)


lemma objs_assert [simp]: "objs (f_assert c M) = objs M" "parent (f_assert c M) = parent M"
  by (simp_all add: f_assert_def fail_def)

lemma fault_assert: "\<not> ffault (f_assert c M) \<longleftrightarrow> c \<and> \<not> ffault M"
  by (simp add: f_assert_def fail_def)

lemma bit_mask_all: "bit MASK_ALL i \<longleftrightarrow> i < IDX_MAX"
proof -
  have "MASK_ALL = mask IDX_MAX" by (simp add: mask_eq_exp_minus_1)
  then show ?thesis by (simp only: bit_mask_iff) auto
qed

lemma mask_bit_low: "m AND MASK_ALL = 0 \<Longrightarrow> i < IDX_MAX \<Longrightarrow> \<not> bit (m :: u32) i"
  by (metis bit_and_iff bit_mask_all bit_0_eq bot_apply bot_bool_def)

lemma mask_disjoint: "m AND c = 0 \<Longrightarrow> bit (m :: u32) i \<Longrightarrow> \<not> bit c i"
  by (metis bit_and_iff bit_0_eq bot_apply bot_bool_def)

text \<open>Sets that are not constrained by the map can be widened and narrowed.\<close>

lemma man_ok_drop: "man_ok X R (insert a Z) M \<Longrightarrow> a \<notin> addrs M \<Longrightarrow> man_ok X R Z M"
  unfolding man_ok_def by (elim conjE, intro conjI) auto

lemma man_ok_nomask:
  "man_ok X R Z M \<Longrightarrow> objs M a = Some f \<Longrightarrow> a \<in> addrs M \<Longrightarrow> f_mask f AND MASK_ALL = 0 \<Longrightarrow> man_ok X R (insert a Z) M"
proof -
  assume ok: "man_ok X R Z M" and f: "objs M a = Some f" and a: "a \<in> addrs M" and m: "f_mask f AND MASK_ALL = 0"
  have "\<not> bit (f_mask f) i" if "i < IDX_MAX" for i using mask_bit_low [OF m that] .
  moreover have "a < fbrk M" using ok f unfolding man_ok_def by auto
  ultimately show ?thesis using ok f a unfolding man_ok_def by (elim conjE, intro conjI) auto
qed

subsection \<open>The multimap\<close>

lemma set_map_insert [simp]: "set (map_insert k a xs) = insert (k, a) (set xs)"
  unfolding map_insert_def by (metis (no_types, lifting) Un_insert_right list.simps(15) set_append takeWhile_dropWhile_id)

lemma map_insert_distinct:
  assumes "distinct (map snd xs)" "a \<notin> addr_set xs"
  shows "distinct (map snd (map_insert k a xs))"
proof -
  have "mset xs = mset (takeWhile (\<lambda>e. fst e \<le> k) xs) + mset (dropWhile (\<lambda>e. fst e \<le> k) xs)"
    by (metis mset_append takeWhile_dropWhile_id)
  then have "mset (map snd (map_insert k a xs)) = mset (a # map snd xs)" by (simp add: map_insert_def)
  then show ?thesis using assms by (metis distinct.simps(2) addr_set_def list.set_map mset_eq_imp_distinct_iff)
qed

lemma map_insert_sorted: "sorted (map fst xs) \<Longrightarrow> sorted (map fst (map_insert k a xs))"
  unfolding map_insert_def
  by (induction xs) (auto dest: set_takeWhileD set_dropWhileD)

lemma map_key_in: "map_key a xs = Some k \<Longrightarrow> (k, a) \<in> set xs"
  by (auto simp: map_key_def find_Some_iff) (metis nth_mem prod.collapse snd_conv)

lemma map_key_None: "map_key a xs = None \<longleftrightarrow> a \<notin> addr_set xs"
  by (auto simp: map_key_def find_None_iff addr_set_def image_iff)

lemma map_key_addr: "map_key a xs = Some k \<Longrightarrow> a \<in> addr_set xs"
  by (drule map_key_in) (force simp: addr_set_def)

lemma map_find_in: "map_find k xs = Some a \<Longrightarrow> (k, a) \<in> set xs"
  by (auto simp: map_find_def find_Some_iff) (metis fst_conv nth_mem prod.collapse)

lemma map_find_None: "map_find k xs = None \<longleftrightarrow> k \<notin> fst ` set xs"
  by (auto simp: map_find_def find_None_iff image_iff)

lemma set_map_erase: "set (map_erase a xs) \<subseteq> set xs"
  by (auto simp: map_erase_def)

lemma addrs_erase [simp]: "addr_set (map_erase a xs) = addr_set xs - {a}"
  by (auto simp: map_erase_def addr_set_def)

lemma addrs_insert [simp]: "addr_set (map_insert k a xs) = insert a (addr_set xs)"
  by (simp add: addr_set_def)

lemma map_erase_id: "a \<notin> addr_set xs \<Longrightarrow> map_erase a xs = xs"
  unfolding map_erase_def addr_set_def by (rule filter_True) auto

subsection \<open>The lists of the events\<close>

lemma fold_pool_remove:
  assumes "k \<le> length (pool M)" "\<not> ffault (fold (\<lambda>i M. if bit m i then pool_remove a i M else M) [0..<k] M)"
  shows "\<not> ffault M \<and> fold (\<lambda>i M. if bit m i then pool_remove a i M else M) [0..<k] M
      = M\<lparr>pool := map (\<lambda>i. if bit m i then remove1 a (pool M ! i) else pool M ! i) [0..<k] @ drop k (pool M)\<rparr>
    \<and> (\<forall>i < k. bit m i \<longrightarrow> a \<in> set (pool M ! i))"
  using assms
proof (induction k)
  case (Suc k)
  let ?F = "fold (\<lambda>i M. if bit m i then pool_remove a i M else M)"
  let ?ps = "map (\<lambda>i. if bit m i then remove1 a (pool M ! i) else pool M ! i) [0..<k] @ drop k (pool M)"
  have nf: "\<not> ffault (?F [0..<k] M)"
    using Suc.prems(2) by (auto simp: pool_remove_def fail_def split: if_splits)
  have IH: "\<not> ffault M" "?F [0..<k] M = M\<lparr>pool := ?ps\<rparr>" "\<forall>i < k. bit m i \<longrightarrow> a \<in> set (pool M ! i)"
    using Suc.IH nf Suc.prems(1) by auto
  have nth: "?ps ! k = pool M ! k" using Suc.prems(1) by (simp add: nth_append)
  have drop: "drop k (pool M) = pool M ! k # drop (Suc k) (pool M)"
    using Suc.prems(1) by (simp add: Cons_nth_drop_Suc)
  have step: "?F [0..<Suc k] M = (if bit m k then pool_remove a k (M\<lparr>pool := ?ps\<rparr>) else M\<lparr>pool := ?ps\<rparr>)"
    using IH(2) by simp
  have mem: "bit m k \<Longrightarrow> a \<in> set (pool M ! k)"
    using Suc.prems(2) unfolding step by (auto simp: pool_remove_def nth split: if_splits)
  show ?case
    unfolding step using IH(1,3) mem nth drop Suc.prems(1)
    by (auto simp: pool_remove_def less_Suc_eq list_update_append)
qed auto

lemma RemoveFilterFromPool_eq:
  assumes "length (pool M) = IDX_MAX" "\<not> ffault (RemoveFilterFromPool a M)"
  obtains f ps where "objs M a = Some f" "f_mask f AND call_mask M = 0" "\<not> ffault M"
    "RemoveFilterFromPool a M = M\<lparr>pool := ps\<rparr>" "length ps = IDX_MAX"
    "\<forall>i < IDX_MAX. ps ! i = (if bit (f_mask f) i then remove1 a (pool M ! i) else pool M ! i)"
    "\<forall>i < IDX_MAX. bit (f_mask f) i \<longrightarrow> a \<in> set (pool M ! i)"
proof (cases "objs M a")
  case None
  then show ?thesis using assms(2) by (simp add: RemoveFilterFromPool_def)
next
  case (Some f)
  let ?M = "f_assert (f_mask f AND call_mask M = 0) M"
  have nf: "\<not> ffault (fold (\<lambda>i M. if bit (f_mask f) i then pool_remove a i M else M) [0..<IDX_MAX] ?M)"
    using assms(2) Some by (simp add: RemoveFilterFromPool_def)
  have len: "IDX_MAX \<le> length (pool ?M)" using assms(1) by (simp add: f_assert_def fail_def)
  note F = fold_pool_remove [OF len nf]
  have nf1: "f_mask f AND call_mask M = 0" "\<not> ffault M" using F by (simp_all add: fault_assert)
  have M: "?M = M" using nf1 by (simp add: f_assert_def)
  show ?thesis
  proof (rule that [OF Some nf1])
    show "RemoveFilterFromPool a M
        = M\<lparr>pool := map (\<lambda>i. if bit (f_mask f) i then remove1 a (pool M ! i) else pool M ! i) [0..<IDX_MAX]\<rparr>"
      using F Some nf1 assms(1) unfolding M by (simp add: RemoveFilterFromPool_def f_assert_def)
    show "\<forall>i < IDX_MAX. bit (f_mask f) i \<longrightarrow> a \<in> set (pool M ! i)" using F unfolding M by simp
  qed (simp_all del: upt_rec_numeral)
qed

lemma RemoveFilterFromPool_fmap:
  "length (pool M) = IDX_MAX \<Longrightarrow> \<not> ffault (RemoveFilterFromPool a M) \<Longrightarrow> fmap (RemoveFilterFromPool a M) = fmap M"
  by (erule RemoveFilterFromPool_eq) auto

lemma RemoveFilterFromPool_fault: "ffault M \<Longrightarrow> ffault (RemoveFilterFromPool a M)"
proof -
  assume M: "ffault M"
  have "ffault M' \<Longrightarrow> ffault (fold (\<lambda>i M. if bit m i then pool_remove a i M else M) ks M')"
    for m :: u32 and ks and M' :: "('a, 'b) filter_man"
    by (induction ks arbitrary: M') (simp_all add: pool_remove_def fail_def)
  then show ?thesis using M by (simp add: RemoveFilterFromPool_def f_assert_def split: option.splits)
qed

lemma pool_remove_ok:
  assumes "man_ok X R Z M \<Longrightarrow> a \<in> addrs M"
  shows "ok_step (X, R, Z) (X, R, insert a Z) M (RemoveFilterFromPool a M)"
proof (cases "ffault (RemoveFilterFromPool a M)")
  case nf: False
  show ?thesis
  proof (cases "man_ok X R Z M")
    case ok: True
    from man_okD(1) [OF ok] nf obtain f ps where f: "objs M a = Some f" "f_mask f AND call_mask M = 0" "\<not> ffault M"
        "RemoveFilterFromPool a M = M\<lparr>pool := ps\<rparr>" "length ps = IDX_MAX"
        "\<forall>i < IDX_MAX. ps ! i = (if bit (f_mask f) i then remove1 a (pool M ! i) else pool M ! i)"
        "\<forall>i < IDX_MAX. bit (f_mask f) i \<longrightarrow> a \<in> set (pool M ! i)"
      by (rule RemoveFilterFromPool_eq)
    have a: "a \<in> addrs M" "a < fbrk M" using assms ok f(1) unfolding man_ok_def by auto
    have "man_ok X R (insert a Z) (RemoveFilterFromPool a M)"
      unfolding f(4) using ok f(1,5,6) a unfolding man_ok_def by (elim conjE, intro conjI) auto
    moreover have "keeps X M (RemoveFilterFromPool a M)"
      unfolding f(4) keeps_def using f(2,6) mask_disjoint by auto
    ultimately show ?thesis using f(3) by (simp add: ok_step_def)
  next
    case False
    show ?thesis using False RemoveFilterFromPool_fault by (auto simp: ok_step_def)
  qed
qed (simp add: ok_step_faulted)

lemma map_erase_ok:
  assumes "a \<in> Z" "man_ok X R Z M" "a \<in> addrs M"
  shows "man_ok X (insert a R) Z (M\<lparr>fmap := map_erase a (fmap M)\<rparr>)"
proof -
  have "distinct (map snd (map_erase a (fmap M)))" "sorted (map fst (map_erase a (fmap M)))"
    using assms(2) unfolding map_erase_def man_ok_def by (auto simp: distinct_map_filter sorted_filter)
  moreover have "a \<notin> set (wait_for_insert M) \<union> X" using assms(1,2) unfolding man_ok_def by auto
  ultimately show ?thesis
    using assms set_map_erase [of a "fmap M"] unfolding man_ok_def
    by (elim conjE, intro conjI) auto
qed

lemma pool_insert_nth:
  "length (pool_insert a m ps) = IDX_MAX"
  "i < IDX_MAX \<Longrightarrow> pool_insert a m ps ! i = (if bit m i then ps ! i @ [a] else ps ! i)"
  by (simp_all add: pool_insert_def del: upt_rec_numeral)

lemma delete_fault: "ffault M \<Longrightarrow> ffault (delete_filter a M)"
  by (simp add: delete_filter_def)

lemma delete_pending:
  assumes "a \<notin> X"
  shows "ok_step (insert a X, R, Z) (X, R, Z) M (delete_filter a M)"
proof (rule ok_stepI)
  assume ok: "man_ok (insert a X) R Z M" and nf: "\<not> ffault (delete_filter a M)"
  have M': "delete_filter a M = M\<lparr>objs := (objs M)(a := None)\<rparr>"
    using nf by (auto simp: delete_filter_def split: if_splits)
  have a: "a \<notin> addrs M" using ok unfolding man_ok_def by auto
  have e: "snd e \<noteq> a" if "e \<in> set (fmap M)" for e using a addr_setI [OF that] by auto
  show "man_ok X R Z (delete_filter a M)"
    unfolding M' using ok a e assms unfolding man_ok_def by (elim conjE, intro conjI) auto
  show "keeps (insert a X \<inter> X) M (delete_filter a M)"
    unfolding M' keeps_def using assms by auto
qed (simp add: delete_fault)

lemma delete_released:
  assumes "a \<notin> R"
  shows "ok_step (X, insert a R, Z) (X, R, Z) M (delete_filter a M)"
proof (rule ok_stepI)
  assume ok: "man_ok X (insert a R) Z M" and nf: "\<not> ffault (delete_filter a M)"
  have M': "delete_filter a M = M\<lparr>objs := (objs M)(a := None)\<rparr>"
    using nf by (auto simp: delete_filter_def split: if_splits)
  have a: "a \<notin> addrs M" "a \<notin> X" using ok unfolding man_ok_def by auto
  have e: "snd e \<noteq> a" if "e \<in> set (fmap M)" for e using a addr_setI [OF that] by auto
  show "man_ok X R Z (delete_filter a M)"
    unfolding M' using ok a e assms unfolding man_ok_def by (elim conjE, intro conjI) auto
  show "keeps (X \<inter> X) M (delete_filter a M)"
    unfolding M' keeps_def using a by auto
qed (simp add: delete_fault)

text \<open>Between the release and the erasure of a unique filter the map holds a dangling entry.\<close>

lemma delete_then_erase:
  assumes ok: "man_ok X R (insert a Z) M" and R: "a \<notin> R" and nf: "\<not> ffault (delete_filter a M)"
  shows "man_ok X R Z ((delete_filter a M)\<lparr>fmap := map_erase a (fmap M)\<rparr>)"
proof -
  have M': "delete_filter a M = M\<lparr>objs := (objs M)(a := None)\<rparr>" and l: "a \<in> dom (objs M)"
    using nf by (auto simp: delete_filter_def split: if_splits)
  have a: "a \<in> addrs M" using l ok R unfolding man_ok_def by auto
  have "man_ok X (insert a R) (insert a Z) (M\<lparr>fmap := map_erase a (fmap M)\<rparr>)"
    by (rule map_erase_ok [OF _ ok a]) simp
  then have 1: "man_ok X (insert a R) Z (M\<lparr>fmap := map_erase a (fmap M)\<rparr>)"
    by (rule man_ok_drop) simp
  have "ok_step (X, insert a R, Z) (X, R, Z) (M\<lparr>fmap := map_erase a (fmap M)\<rparr>) (delete_filter a (M\<lparr>fmap := map_erase a (fmap M)\<rparr>))"
    by (rule delete_released [OF R])
  moreover have "delete_filter a (M\<lparr>fmap := map_erase a (fmap M)\<rparr>) = (delete_filter a M)\<lparr>fmap := map_erase a (fmap M)\<rparr>"
    using l by (auto simp: delete_filter_def)
  ultimately show ?thesis using 1 nf unfolding ok_step_def M' by (auto simp: delete_filter_def)
qed

subsection \<open>The calls of callbacks\<close>

locale callbacks =
  fixes cls :: "('x, 'c, 'e) filter_class" and run :: "('x, 'c, 'e) runner"
  assumes run_ok: "ok_step P P M (run rs M)"
begin

text \<open>A virtual method: the filter's data, mark and owner change, then its calls run.\<close>

lemma method_ok:
  assumes f: "objs M a = Some f" and aX: "a \<notin> X" and g: "f_mask g = f_mask f" "f_id g = f_id f"
  shows "ok_step (X, R, Z) (X, R, Z) M (run rs (M\<lparr>objs := (objs M)(a \<mapsto> g), parent := c\<rparr>))"
proof (rule ok_step_trans [OF _ run_ok [of "(X, R, Z)"]])
  show "ok_step (X, R, Z) (X, R, Z) M (M\<lparr>objs := (objs M)(a \<mapsto> g), parent := c\<rparr>)"
  proof (rule ok_stepI)
    assume "man_ok X R Z M"
    then show "man_ok X R Z (M\<lparr>objs := (objs M)(a \<mapsto> g), parent := c\<rparr>)"
      by (rule man_ok_objs) (simp_all add: same_shape_def f g)
    show "keeps (X \<inter> X) M (M\<lparr>objs := (objs M)(a \<mapsto> g), parent := c\<rparr>)"
      using aX by (auto simp: keeps_def)
  qed simp
qed auto

lemma Release_split:
  assumes "\<not> ffault (filter_Release cls run a M)"
  obtains M1 where "filter_Release cls run a M = delete_filter a M1"
    "\<And>X R Z. a \<notin> X \<Longrightarrow> ok_step (X, R, Z) (X, R, Z) M M1"
proof (cases "objs M a")
  case None
  then show ?thesis using assms by (simp add: filter_Release_def)
next
  case (Some f)
  show ?thesis
    by (rule that [of "case on_release cls f (parent M) of (d, c, rs) \<Rightarrow> run rs (M\<lparr>objs := (objs M)(a \<mapsto> f\<lparr>f_data := d\<rparr>), parent := c\<rparr>)"])
      (auto simp: filter_Release_def Some split: prod.splits intro!: method_ok [OF Some])
qed

lemma run_fault: "ffault M \<Longrightarrow> ffault (run rs M)"
  using run_ok [of "({}, {}, {})" M rs] by (simp add: ok_step_def)

lemma Release_fault: "ffault M \<Longrightarrow> ffault (filter_Release cls run a M)"
  by (auto simp: filter_Release_def split: option.splits prod.splits intro!: delete_fault run_fault)

lemma Release_ok:
  assumes "a \<notin> R"
  shows "ok_step (X, insert a R, Z) (X, R, Z) M (filter_Release cls run a M)"
proof (cases "ffault (filter_Release cls run a M)")
  case False
  then obtain M1 where 1: "filter_Release cls run a M = delete_filter a M1"
    and 2: "\<And>X R Z. a \<notin> X \<Longrightarrow> ok_step (X, R, Z) (X, R, Z) M M1"
    by (rule Release_split) blast
  show ?thesis
  proof (cases "a \<in> X")
    case True
    then have "\<not> man_ok X (insert a R) Z M" unfolding man_ok_def by auto
    then show ?thesis using Release_fault by (simp add: ok_step_def)
  next
    case False
    then show ?thesis unfolding 1 by (rule ok_step_trans [OF 2 delete_released [OF assms]]) auto
  qed
qed (simp add: ok_step_faulted)

text \<open>Removing a filter: from the lists, from the map, then its release.\<close>

lemma erase_and_release_ok:
  assumes "man_ok X R (insert a Z) M \<Longrightarrow> a \<in> addrs M" "a \<notin> R"
  shows "ok_step (X, R, insert a Z) (X, R, Z) M (snd (erase_and_release cls run a M))"
proof -
  let ?M = "M\<lparr>fmap := map_erase a (fmap M)\<rparr>"
  have "ok_step (X, R, insert a Z) (X, insert a R, Z) M ?M"
  proof (rule ok_stepI)
    assume ok: "man_ok X R (insert a Z) M"
    have "man_ok X (insert a R) (insert a Z) ?M"
      by (rule map_erase_ok [OF _ ok]) (use assms(1) ok in auto)
    then show "man_ok X (insert a R) Z ?M" by (rule man_ok_drop) simp
  qed (auto simp: keeps_def)
  then show ?thesis
    unfolding erase_and_release_def Let_def snd_conv
    by (rule ok_step_trans [OF _ Release_ok [OF assms(2)]]) auto
qed

lemma remove_one_ok:
  assumes "man_ok X R Z M \<Longrightarrow> a \<in> addrs M"
  shows "ok_step (X, R, Z) (X, R, Z) M (snd (erase_and_release cls run a (RemoveFilterFromPool a M)))"
proof (cases "man_ok X R Z M \<and> \<not> ffault (RemoveFilterFromPool a M)")
  case True
  then have a: "a \<in> addrs M" "a \<notin> R" using assms unfolding man_ok_def by auto
  from True man_okD(1) have M': "fmap (RemoveFilterFromPool a M) = fmap M" by (metis RemoveFilterFromPool_fmap)
  show ?thesis
    by (rule ok_step_trans [OF pool_remove_ok [OF assms] erase_and_release_ok]) (use a M' in auto)
next
  case False
  have "ffault (snd (erase_and_release cls run a M'))" if "ffault M'" for M'
    using that by (simp add: erase_and_release_def Release_fault)
  then show ?thesis using False RemoveFilterFromPool_fault by (auto simp: ok_step_def)
qed

text \<open>Loops over the map: a step keeps the invariant, a fault stays.\<close>

lemma unique_loop_fault: "ffault M \<Longrightarrow> ffault (unique_loop cls run n k it M)"
  by (induction n arbitrary: it M; case_tac it)
    (auto split: option.split simp: Let_def Release_fault RemoveFilterFromPool_fault)

lemma unique_step_ok:
  assumes key: "map_key a (fmap M) = Some k"
    and M': "M' = filter_Release cls run a (RemoveFilterFromPool a M)" "map_key a (fmap M') \<noteq> None"
  shows "ok_step (X, R, Z) (X, R, Z) M (M'\<lparr>fmap := map_erase a (fmap M')\<rparr>)"
proof (cases "ffault M'")
  case False
  have a: "a \<in> addrs M" using key by (rule map_key_addr)
  obtain M1 where 1: "M' = delete_filter a M1"
    and 2: "\<And>X R Z. a \<notin> X \<Longrightarrow> ok_step (X, R, Z) (X, R, Z) (RemoveFilterFromPool a M) M1"
    using False unfolding M' by (rule Release_split) blast
  have nf1: "\<not> ffault M1" using False delete_fault unfolding 1 by auto
  show ?thesis
  proof (rule ok_stepI)
    assume "ffault M"
    then show "ffault (M'\<lparr>fmap := map_erase a (fmap M')\<rparr>)" unfolding M'(1) using Release_fault RemoveFilterFromPool_fault by auto
  next
    assume ok: "man_ok X R Z M"
    have aX: "a \<notin> X" "a \<notin> R" using ok a unfolding man_ok_def by auto
    have "ok_step (X, R, Z) (X, R, insert a Z) M M1"
      by (rule ok_step_trans [OF pool_remove_ok 2]) (use a aX in auto)
    then have ok1: "man_ok X R (insert a Z) M1" and k1: "keeps X M M1"
      using ok nf1 by (auto simp: ok_step_def)
    have nd: "\<not> ffault (delete_filter a M1)" using False unfolding 1 .
    then have d: "fmap M' = fmap M1" "call_mask M' = call_mask M1" "op_count M' = op_count M1"
        "pool M' = pool M1" "objs M' = (objs M1)(a := None)"
      unfolding 1 by (auto simp: delete_filter_def split: if_splits)
    show "man_ok X R Z (M'\<lparr>fmap := map_erase a (fmap M')\<rparr>)"
      using delete_then_erase [OF ok1 aX(2) nd] unfolding d(1) unfolding 1 .
    show "keeps (X \<inter> X) M (M'\<lparr>fmap := map_erase a (fmap M')\<rparr>)"
      using k1 aX(1) by (auto simp: keeps_def d)
  qed
qed (simp add: ok_step_faulted)

lemma unique_loop_ok: "ok_step (X, R, Z) (X, R, Z) M (unique_loop cls run n k it M)"
proof (induction n arbitrary: it M)
  case 0
  then show ?case by (cases it) (simp_all add: ok_step_refl ok_step_fail)
next
  case (Suc n)
  show ?case
  proof (cases it)
    case (Some a)
    show ?thesis
    proof (cases "map_key a (fmap M)")
      case (Some key)
      let ?M = "filter_Release cls run a (RemoveFilterFromPool a M)"
      show ?thesis
      proof (cases "key \<noteq> k \<or> map_key a (fmap ?M) = None")
        case False
        then show ?thesis
          using ok_step_trans [OF unique_step_ok [OF Some refl, of X R Z] Suc.IH] Some \<open>it = Some a\<close> by (auto simp: Let_def)
      qed (use Some \<open>it = Some a\<close> in \<open>auto simp: Let_def ok_step_refl ok_step_fail\<close>)
    qed (use Some in \<open>simp add: ok_step_fail\<close>)
  qed (simp add: ok_step_refl)
qed

text \<open>Adding a filter.\<close>

lemma attach_fault: "ffault M \<Longrightarrow> ffault (attach_filter cls run a M)"
  by (auto simp: attach_filter_def Let_def split: option.splits prod.splits intro!: run_fault)

lemma attach_ok:
  assumes a: "a \<notin> X" "a \<notin> Z" and mask: "\<And>f. objs M a = Some f \<Longrightarrow> f_mask f AND call_mask M = 0"
  shows "ok_step (insert a X, R, Z) (X, R, Z) M (attach_filter cls run a M)"
proof (rule ok_stepI)
  assume ok: "man_ok (insert a X) R Z M" and nf: "\<not> ffault (attach_filter cls run a M)"
  then obtain f where f: "objs M a = Some f" by (auto simp: attach_filter_def split: option.splits)
  let ?m = "f_mask f AND MASK_ALL"
  define M1 where "M1 = M\<lparr>fmap := map_insert (f_id f) a (fmap M), pool := pool_insert a (f_mask f) (pool M),
                     call_mask := call_mask M OR ?m\<rparr>"
  obtain d c rs where att: "on_attach cls f (parent M) = (d, c, rs)" by (cases "on_attach cls f (parent M)") auto
  define M2 where "M2 = run rs (M1\<lparr>objs := (objs M1)(a \<mapsto> f\<lparr>f_data := d\<rparr>), parent := c\<rparr>)"
  have eq: "attach_filter cls run a M = M2\<lparr>call_mask := call_mask M2 AND NOT ?m\<rparr>"
    by (simp add: attach_filter_def f Let_def att M1_def M2_def)
  have aM: "a \<notin> addrs M" "a \<notin> set (wait_for_insert M)" "a \<notin> R" using ok a unfolding man_ok_def by auto
  have call: "?m AND call_mask M = 0"
    by (rule bit_word_eqI) (use mask_disjoint [OF mask [OF f]] in \<open>auto simp: bit_and_iff\<close>)
  have bits: "bit (call_mask M OR ?m) i \<Longrightarrow> i < IDX_MAX" for i
    using ok bit_mask_all unfolding man_ok_def by (auto simp: bit_or_iff bit_and_iff)
  have ap: "a \<notin> set (pool M ! i)" if "i < IDX_MAX" for i using man_okD(6) [OF ok that] aM by auto
  have ok1: "man_ok X R Z M1"
    using ok f a aM bits ap pool_insert_nth map_insert_distinct map_insert_sorted unfolding M1_def man_ok_def
    by (elim conjE, intro conjI) auto
  have "ok_step (X, R, Z) (X, R, Z) M1 M2"
    unfolding M2_def by (rule method_ok) (simp_all add: M1_def f a)
  then have ok2: "man_ok X R Z M2" and k2: "keeps X M1 M2"
    using ok1 nf unfolding eq by (auto simp: ok_step_def)
  have cm: "call_mask M2 AND NOT ?m = call_mask M"
    using k2 or_and_not_cancel [of "call_mask M" ?m] call by (simp add: keeps_def M1_def and.commute)
  show "man_ok X R Z (attach_filter cls run a M)"
    unfolding eq cm using ok2 man_okD(8) [OF ok] unfolding man_ok_def by auto
  have p: "pool M1 ! i = pool M ! i" if "i < IDX_MAX" "bit (call_mask M) i" for i
    using that mask_disjoint [OF mask [OF f]] pool_insert_nth by (auto simp: M1_def)
  show "keeps (insert a X \<inter> X) M (attach_filter cls run a M)"
    unfolding eq cm using k2 p a by (auto simp: keeps_def M1_def bit_or_iff)
qed (simp add: attach_fault)

lemma AddFilter_fault: "ffault M \<Longrightarrow> ffault (snd (AddFilter cls run n a M))"
  by (auto simp: AddFilter_def Let_def f_assert_def split: option.splits prod.splits
      intro!: attach_fault unique_loop_fault delete_fault run_fault)

lemma wait_ok:
  assumes "a \<notin> X" "a \<notin> Z"
  shows "ok_step (insert a X, R, Z) (X, R, Z) M (M\<lparr>wait_for_insert := wait_for_insert M @ [a]\<rparr>)"
  by (rule ok_stepI) (use assms in \<open>auto simp: keeps_def man_ok_def\<close>)

lemma merge_ok:
  assumes a: "a \<notin> X" and b: "b \<in> addrs M" and g: "objs M b = Some g"
  shows "ok_step (insert a X, R, Z) (X, R, Z) M
    (delete_filter a (run rs ((f_assert c M)\<lparr>objs := (objs M)(b \<mapsto> g\<lparr>f_data := d\<rparr>), parent := p\<rparr>)))"
proof (cases "c \<and> b \<notin> insert a X")
  case True
  have "ok_step (insert a X, R, Z) (insert a X, R, Z) M (run rs (M\<lparr>objs := (objs M)(b \<mapsto> g\<lparr>f_data := d\<rparr>), parent := p\<rparr>))"
    by (rule method_ok [OF g]) (use True in auto)
  then show ?thesis using True by (simp add: f_assert_def) (rule ok_step_trans [OF _ delete_pending [OF a]], auto)
next
  case False
  show ?thesis
  proof (cases c)
    case True
    then have "\<not> man_ok (insert a X) R Z M" using b False unfolding man_ok_def by auto
    moreover have "ffault M \<Longrightarrow> ffault (delete_filter a (run rs ((f_assert c M)\<lparr>objs := (objs M)(b \<mapsto> g\<lparr>f_data := d\<rparr>), parent := p\<rparr>)))"
      by (intro delete_fault run_fault) (simp add: f_assert_def fail_def)
    ultimately show ?thesis by (auto simp: ok_step_def)
  next
    case False
    then show ?thesis by (intro ok_step_faulted delete_fault run_fault) (simp add: f_assert_def fail_def)
  qed
qed

lemma AddFilter_ok:
  assumes a: "a \<notin> X" "a \<notin> Z"
  shows "ok_step (insert a X, R, Z) (X, R, Z) M (snd (AddFilter cls run n a M))"
proof (cases "man_ok (insert a X) R Z M \<and> objs M a \<noteq> None")
  case False
  then show ?thesis using AddFilter_fault by (auto simp: ok_step_def AddFilter_def)
next
  case True
  then obtain f where f: "objs M a = Some f" and ok: "man_ok (insert a X) R Z M" by auto
  show ?thesis
  proof (cases "f_mask f AND call_mask M = 0")
    case False
    then show ?thesis using f by (auto simp: AddFilter_def ok_step_fail intro!: wait_ok [OF a])
  next
    case call: True
    have att: "ok_step (insert a X, R, Z) (X, R, Z) M (attach_filter cls run a M)"
      by (rule attach_ok [OF a]) (use f call in auto)
    show ?thesis
    proof (cases "map_find (f_id f) (fmap M)")
      case None
      then show ?thesis using f call att by (simp add: AddFilter_def)
    next
      case (Some b)
      have b: "b \<in> addrs M" using addr_setI [OF map_find_in [OF Some]] by simp
      let ?U = "unique_loop cls run n (f_id f) (Some b) M"
      have u: "ok_step (insert a X, R, Z) (insert a X, R, Z) M ?U" by (rule unique_loop_ok)
      have "ok_step (insert a X, R, Z) (X, R, Z) M (attach_filter cls run a ?U)"
      proof (cases "ffault ?U")
        case False
        then have k: "keeps (insert a X) M ?U" using u ok by (auto simp: ok_step_def)
        show ?thesis
          by (rule ok_step_trans [OF u attach_ok [OF a]]) (use k f call in \<open>auto simp: keeps_def\<close>)
      qed (intro ok_step_faulted attach_fault)
      moreover obtain g where g: "objs M b = Some g" using addrs_live [OF ok b] by auto
      moreover obtain d p rs where mg: "on_merge cls g f (parent M) = (d, p, rs)" by (metis prod_cases3)
      moreover note merge_ok [OF a(1) b g, where R = R and Z = Z and c = "f_mask g AND MASK_MERGE \<noteq> 0" and d = d and p = p and rs = rs]
      ultimately show ?thesis
        using f call att Some delete_pending [OF a(1), of R Z M] by (simp add: AddFilter_def Let_def)
    qed
  qed
qed

text \<open>Removing by id.\<close>

lemma erase_fault: "ffault M \<Longrightarrow> ffault (snd (erase_and_release cls run a M))"
  by (simp add: erase_and_release_def Release_fault)

lemma mark_ok:
  assumes "a \<in> addrs M" "objs M a = Some f"
  shows "ok_step (X, R, Z) (X, R, Z) M (M\<lparr>objs := (objs M)(a \<mapsto> f\<lparr>f_deleted := True\<rparr>), has_wait_delete := True\<rparr>)"
proof (rule ok_stepI)
  assume ok: "man_ok X R Z M"
  then show "man_ok X R Z (M\<lparr>objs := (objs M)(a \<mapsto> f\<lparr>f_deleted := True\<rparr>), has_wait_delete := True\<rparr>)"
    by (rule man_ok_objs) (simp_all add: same_shape_def assms)
  show "keeps (X \<inter> X) M (M\<lparr>objs := (objs M)(a \<mapsto> f\<lparr>f_deleted := True\<rparr>), has_wait_delete := True\<rparr>)"
    using ok assms(1) unfolding man_ok_def by (auto simp: keeps_def)
qed simp

lemma remove_loop_ok: "ok_step (X, R, Z) (X, R, Z) M (remove_loop cls run n k it M)"
proof (induction n arbitrary: it M)
  case 0
  then show ?case by (cases it) (simp_all add: ok_step_refl ok_step_fail)
next
  case (Suc n)
  show ?case
  proof (cases it)
    case it: (Some a)
    show ?thesis
    proof (cases "map_key a (fmap M)")
      case (Some key)
      have a: "a \<in> addrs M" using Some by (rule map_key_addr)
      show ?thesis
      proof (cases "objs M a")
        case None
        then show ?thesis using Some it by (simp add: ok_step_refl ok_step_fail)
      next
        case f: (Some f)
        obtain it' M' where e: "erase_and_release cls run a (RemoveFilterFromPool a M) = (it', M')" by fastforce
        have "ok_step (X, R, Z) (X, R, Z) M M'" using remove_one_ok [of X R Z M a] a by (simp add: e)
        note ok_step_seq [OF this Suc.IH] ok_step_seq [OF mark_ok [OF a f, of X R Z] Suc.IH]
        then show ?thesis by (simp add: it Some f e ok_step_refl)
      qed
    qed (use it in \<open>simp add: ok_step_fail\<close>)
  qed (simp add: ok_step_refl)
qed

lemma RemoveFilter_ok: "ok_step (X, R, Z) (X, R, Z) M (RemoveFilter cls run n k M)"
  unfolding RemoveFilter_def by (rule remove_loop_ok)

lemma RemoveFilter_obj_ok: "ok_step (X, R, Z) (X, R, Z) M (RemoveFilter_obj cls run a M)"
proof (cases "objs M a")
  case (Some f)
  let ?M = "f_assert (f_mask f AND call_mask M = 0 \<and> IsFilterExist M (f_id f)) M"
  show ?thesis
  proof (cases "map_key a (fmap M) = Some (f_id f)")
    case True
    then have "a \<in> addrs ?M" using map_key_addr [OF True] by (simp add: f_assert_def fail_def)
    then have "ok_step (X, R, Z) (X, R, Z) ?M (snd (erase_and_release cls run a (RemoveFilterFromPool a ?M)))"
      by (intro remove_one_ok)
    note ok_step_seq [OF ok_step_assert this]
    then show ?thesis using Some True
      by (simp add: RemoveFilter_obj_def Let_def f_assert_def fail_def)
  qed (simp add: RemoveFilter_obj_def Some ok_step_assert f_assert_def fail_def ok_step_fail [unfolded fail_def] ok_step_refl)
qed (simp add: RemoveFilter_obj_def ok_step_fail)

lemma remove_marked_ok:
  assumes a: "a \<in> addrs M" and f: "objs M a = Some f"
  shows "ok_step (X, R, Z) (X, R, Z) M
    (snd (erase_and_release cls run a (if f_mask f AND MASK_ALL \<noteq> 0 then RemoveFilterFromPool a M else M)))"
proof (cases "f_mask f AND MASK_ALL = 0")
  case True
  show ?thesis
  proof (cases "man_ok X R Z M")
    case ok: True
    have "ok_step (X, R, Z) (X, R, insert a Z) M M"
      using man_ok_nomask [OF ok f a True] by (auto simp: ok_step_def keeps_def)
    moreover have "ok_step (X, R, insert a Z) (X, R, Z) M (snd (erase_and_release cls run a M))"
      by (rule erase_and_release_ok) (use ok a in \<open>auto simp: man_ok_def\<close>)
    ultimately show ?thesis using True by (auto intro: ok_step_trans)
  qed (use True erase_fault in \<open>auto simp: ok_step_def\<close>)
next
  case False
  then show ?thesis using remove_one_ok [of X R Z M a] a by simp
qed

lemma deleted_loop_ok: "ok_step (X, R, Z) (X, R, Z) M (deleted_loop cls run n it M)"
proof (induction n arbitrary: it M)
  case 0
  then show ?case by (cases it) (simp_all add: ok_step_refl ok_step_fail)
next
  case (Suc n)
  show ?case
  proof (cases it)
    case it: (Some a)
    show ?thesis
    proof (cases "map_key a (fmap M) = None \<or> objs M a = None")
      case False
      then obtain key f where key: "map_key a (fmap M) = Some key" and f: "objs M a = Some f" by auto
      have a: "a \<in> addrs M" using key by (rule map_key_addr)
      let ?M = "if f_mask f AND MASK_ALL \<noteq> 0 then RemoveFilterFromPool a M else M"
      obtain it' M' where e: "erase_and_release cls run a ?M = (it', M')" by fastforce
      have "ok_step (X, R, Z) (X, R, Z) M M'" using remove_marked_ok [OF a f, of X R Z] by (simp add: e)
      note ok_step_seq [OF this Suc.IH]
      then show ?thesis by (simp add: it key f e Let_def Suc.IH)
    qed (use it in \<open>auto simp: ok_step_fail split: option.split\<close>)
  qed (simp add: ok_step_refl)
qed

lemma RemoveDeletedFilter_ok: "ok_step (X, R, Z) (X, R, Z) M (RemoveDeletedFilter cls run n M)"
proof -
  have "ok_step (X, R, Z) (X, R, Z) M' (M'\<lparr>has_wait_delete := False\<rparr>)" for M' :: "('x, 'c) filter_man"
    by (rule ok_stepI) (auto simp: man_ok_def keeps_def)
  then show ?thesis
    unfolding RemoveDeletedFilter_def by (auto intro: ok_step_refl ok_step_seq [OF deleted_loop_ok])
qed

lemma mark_filters_ok: "ok_step (X, R, Z) (X, R, Z) M (mark_filters m M)"
proof (rule ok_stepI)
  assume ok: "man_ok X R Z M"
  then show "man_ok X R Z (mark_filters m M)"
    by (rule man_ok_objs) (auto simp: mark_filters_def same_shape_def split: option.split)
  have "a \<notin> addrs M" if "a \<in> X" for a using ok that unfolding man_ok_def by auto
  then show "keeps (X \<inter> X) M (mark_filters m M)"
    by (auto simp: keeps_def mark_filters_def addr_set_def split: option.split)
qed (simp add: mark_filters_def)

lemma ClearSpecFilter_ok: "ok_step (X, R, Z) (X, R, Z) M (ClearSpecFilter cls run n m M)"
  unfolding ClearSpecFilter_def Let_def
  by (auto intro: mark_filters_ok ok_step_seq [OF mark_filters_ok RemoveDeletedFilter_ok])

text \<open>Modifying under the full call mask, which is taken back at the end.\<close>

lemma modify_one_ok:
  assumes a: "a \<in> addrs M" and f: "objs M a = Some f"
  shows "ok_step (X, R, Z) (X, R, Z) M
    (if f_deleted f then M
     else let (d, del, c, rs) = on_modify cls name v f (parent M)
          in run rs (M\<lparr>objs := (objs M)(a \<mapsto> f\<lparr>f_data := d, f_deleted := del\<rparr>), parent := c\<rparr>))"
proof (cases "a \<in> X")
  case True
  then have "\<not> man_ok X R Z M" using a unfolding man_ok_def by auto
  moreover obtain d del c rs where "on_modify cls name v f (parent M) = (d, del, c, rs)" by (metis prod_cases4)
  ultimately show ?thesis using run_fault by (auto simp: ok_step_def)
next
  case False
  obtain d del c rs where "on_modify cls name v f (parent M) = (d, del, c, rs)" by (metis prod_cases4)
  then show ?thesis by (auto intro!: method_ok [OF f False] ok_step_refl)
qed

lemma modify_loop_ok: "ok_step (X, R, Z) (X, R, Z) M (modify_loop cls run n k name v it M)"
proof (induction n arbitrary: it M)
  case 0
  then show ?case by (cases it) (simp_all add: ok_step_refl ok_step_fail)
next
  case (Suc n)
  show ?case
  proof (cases it)
    case it: (Some a)
    show ?thesis
    proof (cases "map_key a (fmap M) = None \<or> objs M a = None")
      case False
      then obtain key f where key: "map_key a (fmap M) = Some key" and f: "objs M a = Some f" by auto
      have a: "a \<in> addrs M" using key by (rule map_key_addr)
      note ok_step_seq [OF modify_one_ok [OF a f, of X R Z name v] Suc.IH]
      then show ?thesis by (simp add: it key f Let_def ok_step_refl ok_step_fail)
    qed (use it in \<open>auto simp: ok_step_fail ok_step_refl split: option.split\<close>)
  qed (simp add: ok_step_refl)
qed

lemma ModifyFilter_ok: "ok_step (X, R, Z) (X, R, Z) M (snd (ModifyFilter cls run n k name v M))"
proof (cases "map_find k (fmap M)")
  case (Some a)
  let ?L = "modify_loop cls run n k name v (Some a)"
  have "ok_step (X, R, Z) (X, R, Z) M ((?L (M\<lparr>call_mask := MASK_ALL\<rparr>))\<lparr>call_mask := 0\<rparr>)" if 0: "call_mask M = 0"
  proof (rule ok_stepI)
    have l: "ok_step (X, R, Z) (X, R, Z) (M\<lparr>call_mask := MASK_ALL\<rparr>) (?L (M\<lparr>call_mask := MASK_ALL\<rparr>))" by (rule modify_loop_ok)
    show "ffault M \<Longrightarrow> ffault ((?L (M\<lparr>call_mask := MASK_ALL\<rparr>))\<lparr>call_mask := 0\<rparr>)"
      using l by (simp add: ok_step_def)
    assume ok: "man_ok X R Z M" and nf: "\<not> ffault ((?L (M\<lparr>call_mask := MASK_ALL\<rparr>))\<lparr>call_mask := 0\<rparr>)"
    have "man_ok X R Z (M\<lparr>call_mask := MASK_ALL\<rparr>)" using ok bit_mask_all unfolding man_ok_def by simp
    then have "man_ok X R Z (?L (M\<lparr>call_mask := MASK_ALL\<rparr>))" "keeps X (M\<lparr>call_mask := MASK_ALL\<rparr>) (?L (M\<lparr>call_mask := MASK_ALL\<rparr>))"
      using l nf by (auto simp: ok_step_def)
    then show "man_ok X R Z ((?L (M\<lparr>call_mask := MASK_ALL\<rparr>))\<lparr>call_mask := 0\<rparr>)"
      "keeps (X \<inter> X) M ((?L (M\<lparr>call_mask := MASK_ALL\<rparr>))\<lparr>call_mask := 0\<rparr>)"
      using 0 by (simp_all add: man_ok_def keeps_def)
  qed
  then show ?thesis using modify_loop_ok by (simp add: ModifyFilter_def Some)
qed (simp add: ModifyFilter_def ok_step_refl)

text \<open>Adding what waited.\<close>

lemma DelayAdd_fold_ok:
  assumes "distinct as" "set as \<inter> (X \<union> Z) = {}"
  shows "ok_step (X \<union> set as, R, Z) (X, R, Z) M (fold (\<lambda>a M. snd (AddFilter cls run n a M)) as M)"
  using assms
proof (induction "as" arbitrary: M)
  case (Cons a "as")
  have "ok_step (insert a (X \<union> set as), R, Z) (X \<union> set as, R, Z) M (snd (AddFilter cls run n a M))"
    by (rule AddFilter_ok) (use Cons.prems in auto)
  moreover have "ok_step (X \<union> set as, R, Z) (X, R, Z) (snd (AddFilter cls run n a M))
      (fold (\<lambda>a M. snd (AddFilter cls run n a M)) as (snd (AddFilter cls run n a M)))"
    by (rule Cons.IH) (use Cons.prems in auto)
  ultimately show ?case by (simp) (erule (1) ok_step_trans, auto)
qed (simp add: ok_step_refl)

lemma DelayAdd_fault: "ffault M \<Longrightarrow> ffault (DelayAddFilter cls run n M)"
proof -
  have "ffault M' \<Longrightarrow> ffault (fold (\<lambda>a M. snd (AddFilter cls run n a M)) as M')" for as M'
    by (induction "as" arbitrary: M') (simp_all add: AddFilter_fault)
  then show "ffault M \<Longrightarrow> ffault (DelayAddFilter cls run n M)" by (simp add: DelayAddFilter_def Let_def)
qed

lemma DelayAddFilter_ok: "ok_step (X, R, Z) (X, R, Z) M (DelayAddFilter cls run n M)"
proof (cases "wait_for_insert M = []")
  case False
  let ?M = "M\<lparr>wait_for_insert := [], delay_add := True\<rparr>"
  let ?F = "fold (\<lambda>a M. snd (AddFilter cls run n a M)) (wait_for_insert M) ?M"
  show ?thesis
  proof (rule ok_stepI)
    assume ok: "man_ok X R Z M" and nf: "\<not> ffault (DelayAddFilter cls run n M)"
    have "man_ok (X \<union> set (wait_for_insert M)) R Z ?M"
      using ok unfolding man_ok_def by (elim conjE, intro conjI) auto
    moreover have d: "distinct (wait_for_insert M)" "set (wait_for_insert M) \<inter> (X \<union> Z) = {}"
      using ok unfolding man_ok_def by auto
    ultimately have "man_ok X R Z ?F" "keeps X ?M ?F"
      using DelayAdd_fold_ok [OF d, of R ?M n] nf False
      by (auto simp: ok_step_def DelayAddFilter_def Let_def Int_absorb2 Int_commute keeps_def)
    then show "man_ok X R Z (DelayAddFilter cls run n M)" "keeps (X \<inter> X) M (DelayAddFilter cls run n M)"
      using False by (simp_all add: DelayAddFilter_def Let_def man_ok_def keeps_def)
  qed (rule DelayAdd_fault)
qed (simp add: DelayAddFilter_def ok_step_refl)

lemma event_loop_fault: "ffault M \<Longrightarrow> ffault (snd (event_loop cls run i ds xs e M))"
  by (induction xs arbitrary: ds e M)
    (auto simp: Let_def run_fault split: option.split prod.split)

text \<open>
  Events: while event \<open>i\<close> runs, no call of a method changes the list of \<open>i\<close>, so the iterator
  stays valid; only the loop itself removes from it.
\<close>

definition loop_keeps :: "nat \<Rightarrow> nat set \<Rightarrow> ('x, 'c) filter_man \<Rightarrow> ('x, 'c) filter_man \<Rightarrow> bool" where
  "loop_keeps i X M M' \<longleftrightarrow> call_mask M' = call_mask M \<and> op_count M' = op_count M
     \<and> (\<forall>j < IDX_MAX. j \<noteq> i \<longrightarrow> bit (call_mask M) j \<longrightarrow> pool M' ! j = pool M ! j) \<and> (\<forall>a \<in> X. objs M' a = objs M a)"

lemma loop_keeps_refl: "loop_keeps i X M M"
  by (simp add: loop_keeps_def)

lemma loop_keeps_trans: "loop_keeps i X M M' \<Longrightarrow> loop_keeps i X M' M'' \<Longrightarrow> loop_keeps i X M M''"
  by (simp add: loop_keeps_def)

lemma keeps_loop: "keeps X M M' \<Longrightarrow> loop_keeps i X M M'"
  by (simp add: loop_keeps_def keeps_def)

lemma drop_from_event_ok:
  assumes ok: "man_ok X R Z M" and i: "i < IDX_MAX" and p: "pool M ! i = done1 @ a # xs" and f: "objs M a = Some f"
  defines "M' \<equiv> M\<lparr>objs := (objs M)(a \<mapsto> f\<lparr>f_mask := f_mask f AND NOT (push_bit i 1)\<rparr>),
                   pool := (pool M)[i := done1 @ xs], has_wait_delete := True\<rparr>"
  shows "man_ok X R Z M'" "loop_keeps i X M M'"
proof -
  have a: "a \<in> addrs M" "a \<notin> Z" using man_okD(6) [OF ok i, of a] p by auto
  have aX: "a \<notin> X" using ok a unfolding man_ok_def by auto
  have d: "distinct (done1 @ a # xs)" using man_okD(5) [OF ok i] p by simp
  have s: "x \<in> set (done1 @ xs) \<longleftrightarrow> x \<noteq> a \<and> x \<in> set (pool M ! i)" for x using d p by auto
  have b: "bit (f_mask f AND NOT (push_bit i 1)) j \<longleftrightarrow> bit (f_mask f) j \<and> j \<noteq> i" for j
    by (auto simp: bit_and_iff bit_not_iff bit_exp_iff dest: bit_imp_le_length)
  have pool: "pool M' ! j = (if j = i then done1 @ xs else pool M ! j)" "length (pool M') = IDX_MAX" for j
    using man_okD(1) [OF ok] i by (simp_all add: M'_def)
  have objs: "objs M' = (objs M)(a \<mapsto> f\<lparr>f_mask := f_mask f AND NOT (push_bit i 1)\<rparr>)"
    and same: "fmap M' = fmap M" "wait_for_insert M' = wait_for_insert M" "fbrk M' = fbrk M" "call_mask M' = call_mask M" "op_count M' = op_count M"
    by (simp_all add: M'_def)
  have pools: "distinct (pool M' ! j) \<and> (\<forall>x. x \<in> set (pool M' ! j) \<longleftrightarrow>
      x \<in> addrs M' \<and> x \<notin> Z \<and> (\<exists>f. objs M' x = Some f \<and> bit (f_mask f) j))" if "j < IDX_MAX" for j
    using man_okD(5,6) [OF ok that] s d b f unfolding pool objs same by auto
  show "man_ok X R Z M'"
    using ok f pools pool(2) unfolding man_ok_def same objs by (elim conjE, intro conjI) auto
  show "loop_keeps i X M M'" unfolding loop_keeps_def same pool using aX by (auto simp: objs)
qed

lemma event_loop_ok:
  assumes "man_ok X R Z M" "i < IDX_MAX" "bit (call_mask M) i" "pool M ! i = done1 @ xs"
    and "event_loop cls run i done1 xs e M = (e', M')" "\<not> ffault M'"
  shows "\<not> ffault M \<and> man_ok X R Z M' \<and> loop_keeps i X M M'"
  using assms
proof (induction xs arbitrary: done1 e M)
  case Nil
  then show ?case by (simp add: loop_keeps_refl)
next
  case (Cons a xs)
  note ok = Cons.prems(1) and i = Cons.prems(2,3) and p = Cons.prems(4) and nf = Cons.prems(6)
  have a: "a \<in> addrs M" using man_okD(6) [OF ok i(1), of a] p by auto
  then have aX: "a \<notin> X" using ok unfolding man_ok_def by auto
  obtain f where f: "objs M a = Some f" using addrs_live [OF ok a] by auto
  have p': "pool M ! i = (done1 @ [a]) @ xs" using p by simp
  show ?case
  proof (cases "i \<noteq> IDX_HEARTBEAT \<and> f_deleted f")
    case True
    then show ?thesis using Cons.IH [OF ok i p'] Cons.prems(5) nf f by simp
  next
    case False
    obtain d del e1 c rs where ev: "on_event cls i (IsFilterExist M) e f (parent M) = (d, del, e1, c, rs)"
      by (metis prod_cases5)
    let ?M = "run rs (M\<lparr>objs := (objs M)(a \<mapsto> f\<lparr>f_data := d, f_deleted := del\<rparr>), parent := c\<rparr>)"
    have step: "ok_step (X, R, Z) (X, R, Z) M ?M" by (rule method_ok [OF f aX]) simp_all
    have eq: "(if pool ?M ! i \<noteq> done1 @ a # xs then (e1, fail ?M)
        else case objs ?M a of None \<Rightarrow> (e1, fail ?M)
          | Some f \<Rightarrow>
              if f_deleted f then
                event_loop cls run i done1 xs e1
                  (?M\<lparr>objs := (objs ?M)(a \<mapsto> f\<lparr>f_mask := f_mask f AND NOT (push_bit i 1)\<rparr>),
                      pool := (pool ?M)[i := done1 @ xs], has_wait_delete := True\<rparr>)
              else event_loop cls run i (done1 @ [a]) xs e1 ?M) = (e', M')"
      using Cons.prems(5) f False ev by (simp add: Let_def)
    have goal: "\<not> ffault ?M \<Longrightarrow> ?thesis"
    proof -
      assume nf1: "\<not> ffault ?M"
      then have ok1: "man_ok X R Z ?M" and k: "keeps X M ?M" and nf0: "\<not> ffault M"
        using step ok by (auto simp: ok_step_def)
      have i1: "bit (call_mask ?M) i" and p1: "pool ?M ! i = done1 @ a # xs"
        using k i p by (auto simp: keeps_def)
      have p1': "pool ?M ! i = (done1 @ [a]) @ xs" using p1 by simp
      obtain g where g: "objs ?M a = Some g"
        using man_okD(6) [OF ok1 i(1), of a] p1 by auto
      let ?N = "?M\<lparr>objs := (objs ?M)(a \<mapsto> g\<lparr>f_mask := f_mask g AND NOT (push_bit i 1)\<rparr>),
                  pool := (pool ?M)[i := done1 @ xs], has_wait_delete := True\<rparr>"
      note drop = drop_from_event_ok [OF ok1 i(1) p1 g]
      have kl: "loop_keeps i X M ?M" using k by (rule keeps_loop)
      show ?thesis
      proof (cases "f_deleted g")
        case True
        have pN: "pool ?N ! i = done1 @ xs" using man_okD(1) [OF ok1] i(1) by simp
        have iN: "bit (call_mask ?N) i" using i1 by simp
        have eN: "event_loop cls run i done1 xs e1 ?N = (e', M')" using eq p1 g True by simp
        show ?thesis
          using Cons.IH [OF drop(1) i(1) iN pN eN nf] nf0 kl drop(2) loop_keeps_trans by blast
      next
        case False
        have eN: "event_loop cls run i (done1 @ [a]) xs e1 ?M = (e', M')" using eq p1 g False by simp
        show ?thesis
          using Cons.IH [OF ok1 i(1) i1 p1' eN nf] nf0 kl loop_keeps_trans by blast
      qed
    qed
    show ?thesis
    proof (rule goal, rule notI)
      assume F: "ffault ?M"
      have "ffault (snd (e', M'))"
        by (subst eq [symmetric]) (use F in \<open>auto simp: event_loop_fault split: option.split\<close>)
      then show False using nf by simp
    qed
  qed
qed

lemma keep_event_fault: "ffault M \<Longrightarrow> ffault (snd (keep_event cls run n i e M))"
  by (auto simp: keep_event_def Let_def f_assert_def event_loop_fault DelayAdd_fault fail_def split: prod.split
      dest!: arg_cong [where f = "\<lambda>p. ffault (snd p)"])

lemma keep_event_ok:
  assumes i: "i < IDX_MAX"
  shows "ok_step (X, R, Z) (X, R, Z) M (snd (keep_event cls run n i e M))"
proof (cases "\<not> bit (call_mask M) i \<and> \<not> ffault (snd (keep_event cls run n i e M))")
  case True
  let ?M = "M\<lparr>call_mask := call_mask M OR push_bit i 1, op_count := op_count M + 1\<rparr>"
  obtain e1 M1 where loop: "event_loop cls run i [] (pool ?M ! i) e ?M = (e1, M1)" by fastforce
  let ?N = "M1\<lparr>call_mask := call_mask M1 AND NOT (push_bit i 1), op_count := op_count M1 - 1\<rparr>"
  have eq: "snd (keep_event cls run n i e M) = (if op_count ?N = 0 then DelayAddFilter cls run n ?N else ?N)"
    using True loop by (simp add: keep_event_def Let_def f_assert_def)
  have nf: "\<not> ffault M1"
    using True DelayAdd_fault [of ?N n] unfolding eq by (auto split: if_splits)
  have b: "bit (push_bit i 1 :: u32) j \<longleftrightarrow> j = i" for j
    using i by (auto simp: bit_exp_iff)
  have "ok_step (X, R, Z) (X, R, Z) M ?N"
  proof (rule ok_stepI)
    show "ffault M \<Longrightarrow> ffault ?N" using event_loop_fault [of ?M i "[]" "pool ?M ! i" e] loop by simp
    assume ok: "man_ok X R Z M"
    have okM: "man_ok X R Z ?M" using ok i b unfolding man_ok_def by (auto simp: bit_or_iff)
    have bM: "bit (call_mask ?M) i" using b by (simp add: bit_or_iff)
    have r: "man_ok X R Z M1" "loop_keeps i X ?M M1"
      using event_loop_ok [OF okM i bM _ loop nf] by auto
    have cm: "call_mask M1 AND NOT (push_bit i 1) = call_mask M"
    proof (rule bit_word_eqI)
      fix j
      have "call_mask M1 = call_mask M OR push_bit i 1" using r(2) by (simp add: loop_keeps_def)
      then show "bit (call_mask M1 AND NOT (push_bit i 1)) j = bit (call_mask M) j"
        using True b [of j] by (auto simp: bit_and_iff bit_or_iff bit_not_iff dest: bit_imp_le_length)
    qed
    show "man_ok X R Z ?N" using r(1) man_okD(8) [OF ok] unfolding man_ok_def by (simp add: cm [unfolded push_bit_of_1])
    show "keeps (X \<inter> X) M ?N"
    proof -
      have N: "call_mask ?N = call_mask M" using cm by simp
      show ?thesis unfolding keeps_def N using r(2) True by (auto simp: loop_keeps_def bit_or_iff)
    qed
  qed
  then show ?thesis unfolding eq using ok_step_seq [OF _ DelayAddFilter_ok] by auto
next
  case False
  then show ?thesis
  proof (cases "bit (call_mask M) i")
    case True
    have "ffault (snd (keep_event cls run n i e M))"
      using True by (auto simp: keep_event_def Let_def f_assert_def event_loop_fault DelayAdd_fault fail_def split: prod.split
          dest!: arg_cong [where f = "\<lambda>p. ffault (snd p)"])
    then show ?thesis by (rule ok_step_faulted)
  qed (use False in \<open>simp add: ok_step_faulted\<close>)
qed

lemma EF_event_ok:
  assumes "i < IDX_MAX"
  shows "ok_step (X, R, Z) (X, R, Z) M (snd (EF_event cls run n i e M))"
proof (cases "i = IDX_HEARTBEAT")
  case True
  obtain e1 M1 where k: "keep_event cls run n i e (RemoveDeletedFilter cls run n M) = (e1, M1)" by fastforce
  have "ok_step (X, R, Z) (X, R, Z) (RemoveDeletedFilter cls run n M) M1"
    using keep_event_ok [OF assms, of X R Z "RemoveDeletedFilter cls run n M" n e] by (simp add: k)
  then have "ok_step (X, R, Z) (X, R, Z) M (RemoveDeletedFilter cls run n M1)"
    using ok_step_seq [OF RemoveDeletedFilter_ok] ok_step_seq [OF _ RemoveDeletedFilter_ok] by blast
  then show ?thesis using True k by (simp add: EF_event_def)
next
  case False
  then show ?thesis using keep_event_ok [OF assms] by (simp add: EF_event_def)
qed

lemma do_request_ok: "ok_step (X, R, Z) (X, R, Z) M (do_request cls run n r M)"
proof (cases r)
  case (ReqAdd f)
  let ?a = "fbrk M"
  let ?M = "M\<lparr>objs := (objs M)(?a \<mapsto> f), fbrk := ?a + 1\<rparr>"
  have eq: "do_request cls run n r M = snd (AddFilter cls run n ?a ?M)"
    by (simp add: do_request_def ReqAdd new_filter_def)
  show ?thesis
  proof (rule ok_stepI)
    show "ffault M \<Longrightarrow> ffault (do_request cls run n r M)" unfolding eq by (rule AddFilter_fault) simp
    assume ok: "man_ok X R Z M" and nf: "\<not> ffault (do_request cls run n r M)"
    have fresh: "?a \<notin> dom (objs M) \<union> Z" using ok unfolding man_ok_def by auto
    then have a: "?a \<notin> X" "?a \<notin> Z" "?a \<notin> addrs M" "?a \<notin> set (wait_for_insert M)" "?a \<notin> R"
      using man_okD(7) [OF ok] by auto
    have e: "snd x \<noteq> ?a" if "x \<in> set (fmap M)" for x using a(3) addr_setI [OF that] by auto
    have "man_ok (insert ?a X) R Z ?M"
      using ok a e unfolding man_ok_def by (elim conjE, intro conjI) (auto intro: less_SucI)
    then have "man_ok X R Z (do_request cls run n r M)" "keeps X ?M (do_request cls run n r M)"
      using AddFilter_ok [OF a(1,2), of R ?M n] nf unfolding eq by (auto simp: ok_step_def Int_absorb1 subset_insertI)
    then show "man_ok X R Z (do_request cls run n r M)" "keeps (X \<inter> X) M (do_request cls run n r M)"
      using a(1) by (auto simp: keeps_def)
  qed
next
  case (ReqEvent i e)
  then show ?thesis using EF_event_ok by (auto simp: do_request_def ok_step_refl)
qed (simp_all add: do_request_def RemoveFilter_ok ClearSpecFilter_ok ModifyFilter_ok ok_step_fail)

end

text \<open>The nested calls of any depth satisfy the interface.\<close>

lemma exec_ok: "ok_step P P M (exec cls n rs M)"
proof (induction n arbitrary: rs M P)
  case 0
  then show ?case by (cases rs) (simp_all add: ok_step_refl ok_step_fail)
next
  case (Suc n)
  have c: "callbacks (exec cls n)" by (rule callbacks.intro, rule Suc.IH)
  obtain X R Z where P: "P = (X, R, Z)" by (cases P)
  show ?case
    unfolding P
    by (induction rs arbitrary: M)
      (simp_all add: ok_step_refl, rule ok_step_seq [OF callbacks.do_request_ok [OF c]])
qed

interpretation man: callbacks cls "exec cls n" for cls :: "('x, 'c, 'e) filter_class" and n
  by unfold_locales (rule exec_ok)


text \<open>A new manager satisfies the invariant, and so does it after any requests that do not fail.\<close>

lemma man_new_ok: "man_ok {} {} {} (man_new c)"
  by (auto simp: man_ok_def man_new_def addr_set_def)

lemma exec_from_new:
  assumes "\<not> ffault (exec cls n rs (man_new c))"
  shows "man_ok {} {} {} (exec cls n rs (man_new c))" "call_mask (exec cls n rs (man_new c)) = 0"
    "op_count (exec cls n rs (man_new c)) = 0"
proof -
  have "man_ok {} {} {} (exec cls n rs (man_new c)) \<and> keeps {} (man_new c) (exec cls n rs (man_new c))"
    using exec_ok [of "({}, {}, {})" "man_new c" cls n rs] assms man_new_ok [of c] by (auto simp: ok_step_def)
  then show "man_ok {} {} {} (exec cls n rs (man_new c))" "call_mask (exec cls n rs (man_new c)) = 0"
    "op_count (exec cls n rs (man_new c)) = 0" by (auto simp: keeps_def man_new_def)
qed

subsection \<open>Properties\<close>

text \<open>A class for examples: a filter counts its attachments, adds to the owner and ends at its first event.\<close>

definition one_shot :: "(nat, nat, unit) filter_class" where
  "one_shot =
     \<lparr>on_event = (\<lambda>i ex e f c. (f_data f, True, e, c, [ReqRemove (f_id f)])),
      on_attach = (\<lambda>f c. (f_data f, c + f_data f, [])),
      on_release = (\<lambda>f c. (f_data f, c - f_data f, [])),
      on_merge = (\<lambda>f g c. (f_data f, c, [])),
      on_modify = (\<lambda>name v f c. (f_data f, f_deleted f, c, []))\<rparr>"

definition one_shot_filter :: "nat filter_obj" where
  "one_shot_filter = \<lparr>f_mask = 4, f_id = 7, f_active = False, f_deleted = False, f_data = 3\<rparr>"





end
