(* ===== verification/FilterSpec.thy ===== *)
theory FilterSpec
  imports FilterInv
begin

text \<open>
  What the filter manager promises, for filters whose methods do not call back into it: the
  manager is a list of filters sorted by id and its owner, and every operation on the lists,
  pools and deletion marks is a plain function on those two. The interface \<open>quiet_filters\<close>
  states what is asked of the methods; no operation fails and every map loop ends.
\<close>

subsection \<open>The abstract manager\<close>

record ('x, 'c, 'e) quiet_class =
  q_attach :: "'x filter_obj \<Rightarrow> 'c \<Rightarrow> 'c"
  q_release :: "'x filter_obj \<Rightarrow> 'c \<Rightarrow> 'c"
  q_tick :: "'e \<Rightarrow> 'x filter_obj \<Rightarrow> 'x \<times> bool"
  q_merge :: "'x filter_obj \<Rightarrow> 'x filter_obj \<Rightarrow> 'x"
  q_merge_owner :: "'x filter_obj \<Rightarrow> 'x filter_obj \<Rightarrow> 'c \<Rightarrow> 'c"

definition spec_insert :: "'x filter_obj \<Rightarrow> 'x filter_obj list \<Rightarrow> 'x filter_obj list" where
  "spec_insert f xs = takeWhile (\<lambda>g. f_id g \<le> f_id f) xs @ f # dropWhile (\<lambda>g. f_id g \<le> f_id f) xs"

fun merge_first ::
  "('x, 'c, 'e) quiet_class \<Rightarrow> 'x filter_obj \<Rightarrow> 'x filter_obj list \<times> 'c \<Rightarrow> 'x filter_obj list \<times> 'c" where
  "merge_first q f ([], c) = ([], c)"
| "merge_first q f (g # xs, c) =
     (if f_id g = f_id f then (g\<lparr>f_data := q_merge q g f\<rparr> # xs, q_merge_owner q g f c)
      else map_prod ((#) g) id (merge_first q f (xs, c)))"

definition spec_drop ::
  "('x, 'c, 'e) quiet_class \<Rightarrow> ('x filter_obj \<Rightarrow> bool) \<Rightarrow> 'x filter_obj list \<times> 'c \<Rightarrow> 'x filter_obj list \<times> 'c" where
  "spec_drop q P = (\<lambda>(xs, c). (filter (\<lambda>f. \<not> P f) xs, fold (q_release q) (filter P xs) c))"

definition spec_attach ::
  "('x, 'c, 'e) quiet_class \<Rightarrow> 'x filter_obj \<Rightarrow> 'x filter_obj list \<times> 'c \<Rightarrow> 'x filter_obj list \<times> 'c" where
  "spec_attach q f = (\<lambda>(xs, c). (spec_insert f xs, q_attach q f c))"

definition spec_add ::
  "('x, 'c, 'e) quiet_class \<Rightarrow> 'x filter_obj \<Rightarrow> 'x filter_obj list \<times> 'c \<Rightarrow> 'x filter_obj list \<times> 'c" where
  "spec_add q f s =
     (if f_id f \<notin> f_id ` set (fst s) then spec_attach q f s
      else if f_mask f AND MASK_UNIQUE \<noteq> 0 then spec_attach q f (spec_drop q (\<lambda>g. f_id g = f_id f) s)
      else if f_mask f AND MASK_WEAK \<noteq> 0 then s
      else if f_mask f AND MASK_MERGE \<noteq> 0 then merge_first q f s
      else spec_attach q f s)"

definition ticked :: "('x, 'c, 'e) quiet_class \<Rightarrow> 'e \<Rightarrow> 'x filter_obj \<Rightarrow> 'x filter_obj" where
  "ticked q e f =
     (if bit (f_mask f) IDX_HEARTBEAT
      then f\<lparr>f_data := fst (q_tick q e f), f_deleted := snd (q_tick q e f)\<rparr> else f)"

definition spec_tick :: "('x, 'c, 'e) quiet_class \<Rightarrow> 'e \<Rightarrow> 'x filter_obj list \<times> 'c \<Rightarrow> 'x filter_obj list \<times> 'c" where
  "spec_tick q e = (\<lambda>(xs, c). spec_drop q f_deleted (map (ticked q e) xs, c))"

definition spec_request ::
  "('x, 'c, 'e) quiet_class \<Rightarrow> ('x, 'e) request \<Rightarrow> 'x filter_obj list \<times> 'c \<Rightarrow> 'x filter_obj list \<times> 'c" where
  "spec_request q r s =
     (case r of
        ReqAdd f \<Rightarrow> spec_add q f s
      | ReqRemove k \<Rightarrow> spec_drop q (\<lambda>f. f_id f = k) s
      | ReqClear m \<Rightarrow> spec_drop q (\<lambda>f. f_mask f AND m \<noteq> 0) s
      | ReqEvent i e \<Rightarrow> if i = IDX_HEARTBEAT then spec_tick q e s else s
      | _ \<Rightarrow> s)"

text \<open>The concrete manager seen as the abstract one.\<close>

definition view :: "('x, 'c) filter_man \<Rightarrow> 'x filter_obj list" where
  "view M = map (\<lambda>e. the (objs M (snd e))) (fmap M)"

definition calm :: "nat set \<Rightarrow> ('x, 'c) filter_man \<Rightarrow> bool" where
  "calm X M \<longleftrightarrow> man_ok X {} {} M \<and> \<not> ffault M \<and> call_mask M = 0 \<and> op_count M = 0
     \<and> wait_for_insert M = [] \<and> \<not> delay_add M"

definition rest :: "('x filter_obj \<Rightarrow> bool) \<Rightarrow> ('x, 'c) filter_man \<Rightarrow> bool" where
  "rest good M \<longleftrightarrow> calm {} M \<and> \<not> has_wait_delete M \<and> (\<forall>f \<in> set (view M). good f \<and> \<not> f_deleted f)"

definition valid_request :: "('x filter_obj \<Rightarrow> bool) \<Rightarrow> ('x, 'e) request \<Rightarrow> bool" where
  "valid_request good r \<longleftrightarrow>
     (case r of ReqAdd f \<Rightarrow> good f \<and> \<not> f_deleted f | ReqAssert \<Rightarrow> False | _ \<Rightarrow> True)"

subsection \<open>Lists and maps\<close>

lemma calm_live:
  assumes "calm X M" "e \<in> set (fmap M)"
  obtains f where "objs M (snd e) = Some f" "f_id f = fst e"
  using assms man_okD(4) unfolding calm_def by blast

lemma calm_id: "calm X M \<Longrightarrow> e \<in> set (fmap M) \<Longrightarrow> f_id (the (objs M (snd e))) = fst e"
  by (erule (1) calm_live) simp

lemma view_ids: "calm X M \<Longrightarrow> map f_id (view M) = map fst (fmap M)"
  unfolding view_def by (auto elim: calm_live)

text \<open>The address after an iterator.\<close>

definition head_addr :: "(int \<times> nat) list \<Rightarrow> nat option" where
  "head_addr xs = (case xs of [] \<Rightarrow> None | e # _ \<Rightarrow> Some (snd e))"

lemma head_addr_simps [simp]: "head_addr [] = None" "head_addr (e # xs) = Some (snd e)"
  by (simp_all add: head_addr_def)

lemma map_begin_head: "map_begin xs = head_addr xs"
  by (simp add: map_begin_def head_addr_def)

lemma dropWhile_addr:
  assumes "distinct (map snd (pre @ (k, a) # post))"
  shows "dropWhile (\<lambda>e. snd e \<noteq> a) (pre @ (k, a) # post) = (k, a) # post"
  using assms by (induction pre) auto

lemma map_next_split:
  assumes "distinct (map snd (pre @ (k, a) # post))"
  shows "map_next a (pre @ (k, a) # post) = head_addr post"
  unfolding map_next_def dropWhile_addr [OF assms] by (cases post) auto

lemma map_key_split:
  assumes "distinct (map snd (pre @ (k, a) # post))"
  shows "map_key a (pre @ (k, a) # post) = Some k"
  using assms by (induction pre) (auto simp: map_key_def)

lemma map_erase_split:
  assumes "distinct (map snd (pre @ (k, a) # post))"
  shows "map_erase a (pre @ (k, a) # post) = pre @ post"
proof -
  have "filter (\<lambda>e. snd e \<noteq> a) pre = pre" "filter (\<lambda>e. snd e \<noteq> a) post = post"
    by (rule filter_True, use assms in force)+
  then show ?thesis by (simp add: map_erase_def)
qed

lemma map_find_split: "map_find k xs = head_addr (dropWhile (\<lambda>e. fst e \<noteq> k) xs)"
  unfolding map_find_def by (induction xs) auto

lemma sorted_key_split:
  assumes "sorted (map fst xs)"
  shows "filter (\<lambda>e. fst e = k) xs = takeWhile (\<lambda>e. fst e = k) (dropWhile (\<lambda>e. fst e \<noteq> k) xs)"
    and "filter (\<lambda>e. fst e \<noteq> k) xs
      = takeWhile (\<lambda>e. fst e \<noteq> k) xs @ dropWhile (\<lambda>e. fst e = k) (dropWhile (\<lambda>e. fst e \<noteq> k) xs)"
proof -
  have *: "sorted (map fst ys) \<Longrightarrow> (\<forall>e \<in> set ys. k \<le> fst e) \<Longrightarrow>
      filter (\<lambda>e. fst e = k) ys = takeWhile (\<lambda>e. fst e = k) ys \<and> filter (\<lambda>e. fst e \<noteq> k) ys = dropWhile (\<lambda>e. fst e = k) ys" for ys
  proof (induction ys)
    case (Cons e ys)
    then have "fst e \<noteq> k \<Longrightarrow> \<forall>x \<in> set ys. fst x \<noteq> k" by auto
    with Cons show ?case by (cases "fst e = k") (auto simp: filter_empty_conv filter_id_conv simp del: Cons.IH)
  qed simp
  from assms show "filter (\<lambda>e. fst e = k) xs = takeWhile (\<lambda>e. fst e = k) (dropWhile (\<lambda>e. fst e \<noteq> k) xs)"
  proof (induction xs)
    case (Cons e xs)
    show ?case
    proof (cases "fst e = k")
      case True
      have "filter (\<lambda>e. fst e = k) (e # xs) = takeWhile (\<lambda>e. fst e = k) (e # xs)"
        using * [of "e # xs"] Cons.prems True by auto
      then show ?thesis using True by simp
    next
      case False
      then show ?thesis using Cons by simp
    qed
  qed simp
  from assms show "filter (\<lambda>e. fst e \<noteq> k) xs
      = takeWhile (\<lambda>e. fst e \<noteq> k) xs @ dropWhile (\<lambda>e. fst e = k) (dropWhile (\<lambda>e. fst e \<noteq> k) xs)"
  proof (induction xs)
    case (Cons e xs)
    show ?case
    proof (cases "fst e = k")
      case True
      have "filter (\<lambda>e. fst e \<noteq> k) (e # xs) = dropWhile (\<lambda>e. fst e = k) (e # xs)"
        using * [of "e # xs"] Cons.prems True by auto
      then show ?thesis using True by simp
    next
      case False
      then show ?thesis using Cons by simp
    qed
  qed simp
qed


lemma fold_pool_remove_total:
  assumes "k \<le> length (pool M)" "\<forall>i < k. bit m i \<longrightarrow> a \<in> set (pool M ! i)" "\<not> ffault M"
  shows "\<not> ffault (fold (\<lambda>i M. if bit m i then pool_remove a i M else M) [0..<k] M)"
  using assms
proof (induction k)
  case (Suc k)
  let ?F = "fold (\<lambda>i M. if bit m i then pool_remove a i M else M)"
  have nf: "\<not> ffault (?F [0..<k] M)" using Suc by auto
  then have "pool (?F [0..<k] M) ! k = pool M ! k"
    using fold_pool_remove [of k M m a] Suc.prems(1) by (simp add: nth_append)
  moreover have "bit m k \<longrightarrow> a \<in> set (pool M ! k)" using Suc.prems(2) by simp
  ultimately show ?case using nf by (simp add: pool_remove_def)
qed auto

lemma view_insert:
  assumes "calm X M" "a \<notin> addrs M" "fmap M' = map_insert (f_id f) a (fmap M)"
    and "objs M' a = Some f" "\<And>b. b \<noteq> a \<Longrightarrow> objs M' b = objs M b"
  shows "view M' = spec_insert f (view M)"
proof -
  have id: "f_id (the (objs M (snd e))) = fst e" if "e \<in> set (fmap M)" for e
    using calm_id [OF assms(1) that] .
  have ne: "objs M' (snd e) = objs M (snd e)" if "e \<in> set (fmap M)" for e
    using assms(2,5) addr_setI [OF that] by metis
  let ?v = "\<lambda>e. the (objs M (snd e))"
  have tw: "takeWhile (\<lambda>g. f_id g \<le> f_id f) (view M) = map ?v (takeWhile (\<lambda>e. fst e \<le> f_id f) (fmap M))"
    unfolding view_def takeWhile_map o_def using id by (auto intro!: takeWhile_cong arg_cong [where f = "map ?v"])
  have dw: "dropWhile (\<lambda>g. f_id g \<le> f_id f) (view M) = map ?v (dropWhile (\<lambda>e. fst e \<le> f_id f) (fmap M))"
    unfolding view_def dropWhile_map o_def using id by (auto intro!: dropWhile_cong arg_cong [where f = "map ?v"])
  show ?thesis
    unfolding spec_insert_def tw dw using assms(3,4) ne
    by (auto simp: view_def map_insert_def dest: set_takeWhileD set_dropWhileD)
qed

subsection \<open>The interface of the methods\<close>

locale quiet_filters =
  fixes cls :: "('x, 'c, 'e) filter_class" and q :: "('x, 'c, 'e) quiet_class" and good :: "'x filter_obj \<Rightarrow> bool"
  assumes attach: "good f \<Longrightarrow> on_attach cls f c = (f_data f, q_attach q f c, [])"
    and release: "good f \<Longrightarrow> on_release cls f c = (f_data f, q_release q f c, [])"
    and heartbeat: "good f \<Longrightarrow> on_event cls IDX_HEARTBEAT ex e f c = (fst (q_tick q e f), snd (q_tick q e f), e, c, [])"
    and modify: "good f \<Longrightarrow> on_modify cls name v f c = (f_data f, f_deleted f, c, [])"
    and merge: "good f \<Longrightarrow> good g \<Longrightarrow> f_id f = f_id g \<Longrightarrow> f_mask f AND MASK_MERGE \<noteq> 0
        \<Longrightarrow> f_mask g AND MASK_MERGE \<noteq> 0 \<and> on_merge cls g f c = (q_merge q g f, q_merge_owner q g f c, [])"
    and good_mask: "good f \<Longrightarrow> bit (f_mask f) i \<Longrightarrow> i < IDX_MAX \<Longrightarrow> i = IDX_HEARTBEAT"
    and good_tick: "good f \<Longrightarrow> good (f\<lparr>f_data := fst (q_tick q e f), f_deleted := b\<rparr>)"
    and good_marked: "good f \<Longrightarrow> good (f\<lparr>f_deleted := b\<rparr>)"
    and good_dropped: "good f \<Longrightarrow> good (f\<lparr>f_mask := f_mask f AND NOT (push_bit IDX_HEARTBEAT 1)\<rparr>)"
    and good_merge: "good f \<Longrightarrow> good g \<Longrightarrow> f_id f = f_id g \<Longrightarrow> f_mask f AND MASK_MERGE \<noteq> 0
        \<Longrightarrow> good (g\<lparr>f_data := q_merge q g f\<rparr>)"
    and release_marked: "q_release q (f\<lparr>f_deleted := b\<rparr>) = q_release q f"
    and release_dropped: "q_release q (f\<lparr>f_mask := m\<rparr>) = q_release q f"
begin

abbreviation run :: "nat \<Rightarrow> ('x, 'c, 'e) runner" where
  "run n \<equiv> exec cls n"

text \<open>Removing one filter.\<close>

lemma pool_remove_calm:
  assumes ok: "man_ok X R Z M" "\<not> ffault M" "call_mask M = 0" and a: "a \<in> addrs M" "a \<notin> Z" and f: "objs M a = Some f"
  obtains ps where "RemoveFilterFromPool a M = M\<lparr>pool := ps\<rparr>" "length ps = IDX_MAX"
proof -
  have len: "IDX_MAX \<le> length (pool M)" using man_okD(1) [OF ok(1)] by simp
  have mem: "\<forall>i < IDX_MAX. bit (f_mask f) i \<longrightarrow> a \<in> set (pool M ! i)"
    using man_okD(6) [OF ok(1)] a f by auto
  have "\<not> ffault (fold (\<lambda>i M. if bit (f_mask f) i then pool_remove a i M else M) [0..<IDX_MAX] M)"
    by (rule fold_pool_remove_total [OF len mem ok(2)])
  then have "\<not> ffault (RemoveFilterFromPool a M)"
    using f ok(3) by (simp add: RemoveFilterFromPool_def f_assert_def)
  then show thesis using that man_okD(1) [OF ok(1)] by (elim RemoveFilterFromPool_eq [rotated])
qed

lemma pool_remove_nobits:
  assumes f: "objs M a = Some f" and c0: "call_mask M = 0"
  shows "(if f_mask f AND MASK_ALL \<noteq> 0 then RemoveFilterFromPool a M else M) = RemoveFilterFromPool a M"
proof (cases "f_mask f AND MASK_ALL = 0")
  case True
  have nob: "fold (\<lambda>i M. if bit (f_mask f) i then pool_remove a i M else M) ks M' = M'"
    if "\<forall>i \<in> set ks. i < IDX_MAX" for ks M'
    using that mask_bit_low [OF True] by (induction ks) auto
  have "fold (\<lambda>i M. if bit (f_mask f) i then pool_remove a i M else M) [0..<IDX_MAX] M = M"
    by (rule nob) simp
  then have "RemoveFilterFromPool a M = M" using f c0 True by (simp add: RemoveFilterFromPool_def f_assert_def)
  then show ?thesis by simp
qed simp

lemma Release_calm:
  assumes "objs M a = Some f" "good f"
  shows "filter_Release cls (run n) a M = M\<lparr>objs := (objs M)(a := None), parent := q_release q f (parent M)\<rparr>"
  using assms by (simp add: filter_Release_def release delete_filter_def)

text \<open>What removing the filter at \<open>a\<close> does to a calm manager.\<close>

definition removed :: "nat set \<Rightarrow> nat \<Rightarrow> ('x, 'c) filter_man \<Rightarrow> ('x, 'c) filter_man \<Rightarrow> bool" where
  "removed X a M M' \<longleftrightarrow> calm X M' \<and> fmap M' = map_erase a (fmap M) \<and> (\<forall>b. b \<noteq> a \<longrightarrow> objs M' b = objs M b)
     \<and> parent M' = q_release q (the (objs M a)) (parent M) \<and> has_wait_delete M' = has_wait_delete M"

lemma remove_one_calm:
  assumes M: "calm X M" and a: "a \<in> addrs M" and f: "objs M a = Some f" "good f"
  shows "erase_and_release cls (run n) a (RemoveFilterFromPool a M)
      = (map_next a (fmap M), snd (erase_and_release cls (run n) a (RemoveFilterFromPool a M)))"
    and "removed X a M (snd (erase_and_release cls (run n) a (RemoveFilterFromPool a M)))"
    and "(filter_Release cls (run n) a (RemoveFilterFromPool a M))\<lparr>fmap := map_erase a (fmap (filter_Release cls (run n) a (RemoveFilterFromPool a M)))\<rparr>
      = snd (erase_and_release cls (run n) a (RemoveFilterFromPool a M))"
    and "fmap (filter_Release cls (run n) a (RemoveFilterFromPool a M)) = fmap M"
proof -
  from M have ok: "man_ok X {} {} M" "\<not> ffault M" "call_mask M = 0" by (auto simp: calm_def)
  obtain ps where ps: "RemoveFilterFromPool a M = M\<lparr>pool := ps\<rparr>" "length ps = IDX_MAX"
    using pool_remove_calm [OF ok a _ f(1)] by auto
  have e: "erase_and_release cls (run n) a (RemoveFilterFromPool a M) = (map_next a (fmap M),
      M\<lparr>pool := ps, fmap := map_erase a (fmap M), objs := (objs M)(a := None), parent := q_release q f (parent M)\<rparr>)"
    unfolding ps using f by (simp add: erase_and_release_def Release_calm)
  show "erase_and_release cls (run n) a (RemoveFilterFromPool a M)
      = (map_next a (fmap M), snd (erase_and_release cls (run n) a (RemoveFilterFromPool a M)))"
    unfolding e by simp
  have "ok_step (X, {}, {}) (X, {}, {}) M (snd (erase_and_release cls (run n) a (RemoveFilterFromPool a M)))"
    using man.remove_one_ok a by blast
  then have "man_ok X {} {} (snd (erase_and_release cls (run n) a (RemoveFilterFromPool a M)))"
    using ok unfolding e by (auto simp: ok_step_def)
  then show "removed X a M (snd (erase_and_release cls (run n) a (RemoveFilterFromPool a M)))"
    using M f unfolding e removed_def calm_def by simp
  have r: "filter_Release cls (run n) a (RemoveFilterFromPool a M)
      = M\<lparr>pool := ps, objs := (objs M)(a := None), parent := q_release q f (parent M)\<rparr>"
    unfolding ps using f by (simp add: Release_calm)
  show "(filter_Release cls (run n) a (RemoveFilterFromPool a M))\<lparr>fmap := map_erase a (fmap (filter_Release cls (run n) a (RemoveFilterFromPool a M)))\<rparr>
      = snd (erase_and_release cls (run n) a (RemoveFilterFromPool a M))"
    and "fmap (filter_Release cls (run n) a (RemoveFilterFromPool a M)) = fmap M"
    unfolding e r by simp_all
qed


text \<open>Loops that remove: \<open>post\<close> is what the iterator has still to see.\<close>

definition removed_all :: "nat set \<Rightarrow> (int \<times> nat) list \<Rightarrow> ('x, 'c) filter_man \<Rightarrow> ('x, 'c) filter_man \<Rightarrow> bool" where
  "removed_all X xs M M' \<longleftrightarrow> calm X M' \<and> (\<forall>b. b \<notin> addr_set xs \<longrightarrow> objs M' b = objs M b)
     \<and> parent M' = fold (q_release q) (map (\<lambda>e. the (objs M (snd e))) xs) (parent M) \<and> has_wait_delete M' = has_wait_delete M"

lemma removed_all_nil: "calm X M \<Longrightarrow> removed_all X [] M M"
  by (simp add: removed_all_def addr_set_def)

lemma removed_all_cons:
  assumes "removed X a M M'" "removed_all X xs M' M''" "a \<notin> addr_set xs"
  shows "removed_all X ((k, a) # xs) M M''"
proof -
  have "map (\<lambda>e. the (objs M' (snd e))) xs = map (\<lambda>e. the (objs M (snd e))) xs"
    using assms(1,3) by (auto simp: removed_def addr_set_def)
  then have "fold (q_release q) (map (\<lambda>e. the (objs M' (snd e))) xs) c = fold (q_release q) (map (\<lambda>e. the (objs M (snd e))) xs) c" for c
    by (simp only:)
  then show ?thesis using assms unfolding removed_def removed_all_def by (simp add: addr_set_def)
qed

lemma calm_distinct: "calm X M \<Longrightarrow> distinct (map snd (fmap M))"
  by (simp add: calm_def man_ok_def)

lemma good_after:
  assumes "removed X a M M'" "\<forall>e \<in> set post. good (the (objs M (snd e)))" "a \<notin> addr_set post"
  shows "\<forall>e \<in> set post. good (the (objs M' (snd e)))"
proof
  fix e assume e: "e \<in> set post"
  then have "snd e \<noteq> a" using assms(3) addr_setI by metis
  then show "good (the (objs M' (snd e)))" using assms(1,2) e by (simp add: removed_def)
qed

lemma remove_loop_calm:
  assumes "calm X M" "fmap M = pre @ post" "length post \<le> n" "\<forall>e \<in> set post. good (the (objs M (snd e)))"
  shows "removed_all X (takeWhile (\<lambda>e. fst e = k) post) M (remove_loop cls (run m) n k (head_addr post) M)
    \<and> fmap (remove_loop cls (run m) n k (head_addr post) M) = pre @ dropWhile (\<lambda>e. fst e = k) post"
  using assms
proof (induction post arbitrary: n M)
  case (Cons e post)
  obtain n' where n: "n = Suc n'" using Cons.prems(3) by (cases n) auto
  obtain key a where e: "e = (key, a)" by (cases e)
  have d: "distinct (map snd (pre @ (key, a) # post))" using calm_distinct [OF Cons.prems(1)] Cons.prems(2) e by simp
  have a: "a \<in> addrs M" using Cons.prems(2) e by (simp add: addr_set_def)
  have key: "map_key a (fmap M) = Some key" using map_key_split [OF d] Cons.prems(2) e by simp
  obtain f where f: "objs M a = Some f" using calm_live [OF Cons.prems(1), of e] Cons.prems(2) e by auto
  have g: "good f" using Cons.prems(4) f e by simp
  have c0: "call_mask M = 0" using Cons.prems(1) by (simp add: calm_def)
  show ?case
  proof (cases "key = k")
    case True
    let ?M = "snd (erase_and_release cls (run m) a (RemoveFilterFromPool a M))"
    note R = remove_one_calm [OF Cons.prems(1) a f g, of m]
    have nx: "map_next a (fmap M) = head_addr post" using map_next_split [OF d] Cons.prems(2) e by simp
    have eq: "remove_loop cls (run m) n k (head_addr (e # post)) M = remove_loop cls (run m) n' k (head_addr post) ?M"
      by (simp add: n e key True f c0) (subst R(1), simp add: nx)
    have M': "calm X ?M" "fmap ?M = pre @ post"
      using R(2) map_erase_split [OF d] Cons.prems(2) e by (auto simp: removed_def)
    have ap: "a \<notin> addr_set post" using d by (auto simp: addr_set_def)
    have "\<forall>e \<in> set post. good (the (objs M (snd e)))" using Cons.prems(4) by simp
    note IH = Cons.IH [OF M' _ good_after [OF R(2) this ap], of n']
    have at: "a \<notin> addr_set (takeWhile (\<lambda>e. fst e = k) post)"
      using ap by (auto simp: addr_set_def dest: set_takeWhileD)
    show ?thesis
      unfolding eq using IH removed_all_cons [OF R(2) _ at] Cons.prems(3) n e True by auto
  next
    case False
    then have "remove_loop cls (run m) n k (head_addr (e # post)) M = M" by (simp add: n e key)
    then show ?thesis
      using Cons.prems(1,2) removed_all_nil [OF Cons.prems(1)] False e by simp
  qed
qed (simp add: removed_all_nil)

lemma unique_loop_calm:
  assumes "calm X M" "fmap M = pre @ post" "length post \<le> n" "\<forall>e \<in> set post. good (the (objs M (snd e)))"
  shows "unique_loop cls (run m) n k (head_addr post) M = remove_loop cls (run m) n k (head_addr post) M"
  using assms
proof (induction post arbitrary: n M)
  case (Cons e post)
  obtain n' where n: "n = Suc n'" using Cons.prems(3) by (cases n) auto
  obtain key a where e: "e = (key, a)" by (cases e)
  have d: "distinct (map snd (pre @ (key, a) # post))" using calm_distinct [OF Cons.prems(1)] Cons.prems(2) e by simp
  have a: "a \<in> addrs M" using Cons.prems(2) e by (simp add: addr_set_def)
  have key: "map_key a (fmap M) = Some key" using map_key_split [OF d] Cons.prems(2) e by simp
  obtain f where f: "objs M a = Some f" using calm_live [OF Cons.prems(1), of e] Cons.prems(2) e by auto
  have g: "good f" using Cons.prems(4) f e by simp
  have c0: "call_mask M = 0" using Cons.prems(1) by (simp add: calm_def)
  let ?M = "snd (erase_and_release cls (run m) a (RemoveFilterFromPool a M))"
  note R = remove_one_calm [OF Cons.prems(1) a f g, of m]
  have nx: "map_next a (fmap M) = head_addr post" using map_next_split [OF d] Cons.prems(2) e by simp
  have M': "calm X ?M" "fmap ?M = pre @ post"
    using R(2) map_erase_split [OF d] Cons.prems(2) e by (auto simp: removed_def)
  have ap: "a \<notin> addr_set post" using d by (auto simp: addr_set_def)
  have g': "\<forall>e \<in> set post. good (the (objs M (snd e)))" using Cons.prems(4) by simp
  have IH: "unique_loop cls (run m) n' k (head_addr post) ?M = remove_loop cls (run m) n' k (head_addr post) ?M"
    by (rule Cons.IH [OF M' _ good_after [OF R(2) g' ap]]) (use Cons.prems(3) n in simp)
  have u: "unique_loop cls (run m) n k (head_addr (e # post)) M = (if key \<noteq> k then M else unique_loop cls (run m) n' k (head_addr post) ?M)"
    by (simp add: n e key Let_def R(4) nx R(3) [simplified R(4)])
  have r: "remove_loop cls (run m) n k (head_addr (e # post)) M = (if key \<noteq> k then M else remove_loop cls (run m) n' k (head_addr post) ?M)"
    by (simp add: n e key f c0) (subst R(1), simp add: nx)
  show ?case unfolding u r IH ..
qed simp

lemma deleted_loop_calm:
  assumes "calm X M" "fmap M = pre @ post" "length post \<le> n" "\<forall>e \<in> set post. good (the (objs M (snd e)))"
  shows "removed_all X (filter (\<lambda>e. f_deleted (the (objs M (snd e)))) post) M (deleted_loop cls (run m) n (head_addr post) M)
    \<and> fmap (deleted_loop cls (run m) n (head_addr post) M) = pre @ filter (\<lambda>e. \<not> f_deleted (the (objs M (snd e)))) post"
  using assms
proof (induction post arbitrary: n M pre)
  case (Cons e post)
  obtain n' where n: "n = Suc n'" using Cons.prems(3) by (cases n) auto
  obtain key a where e: "e = (key, a)" by (cases e)
  have d: "distinct (map snd (pre @ (key, a) # post))" using calm_distinct [OF Cons.prems(1)] Cons.prems(2) e by simp
  have a: "a \<in> addrs M" using Cons.prems(2) e by (simp add: addr_set_def)
  have key: "map_key a (fmap M) = Some key" using map_key_split [OF d] Cons.prems(2) e by simp
  obtain f where f: "objs M a = Some f" using calm_live [OF Cons.prems(1), of e] Cons.prems(2) e by auto
  have g: "good f" using Cons.prems(4) f e by simp
  have nx: "map_next a (fmap M) = head_addr post" using map_next_split [OF d] Cons.prems(2) e by simp
  have gp: "\<forall>e \<in> set post. good (the (objs M (snd e)))" using Cons.prems(4) by simp
  have c0: "call_mask M = 0" using Cons.prems(1) by (simp add: calm_def)
  show ?case
  proof (cases "f_deleted f")
    case True
    let ?M = "snd (erase_and_release cls (run m) a (RemoveFilterFromPool a M))"
    note R = remove_one_calm [OF Cons.prems(1) a f g, of m]
    have eq: "deleted_loop cls (run m) n (head_addr (e # post)) M = deleted_loop cls (run m) n' (head_addr post) ?M"
      using pool_remove_nobits [OF f c0]
      by (simp add: n e key True f Let_def) (subst R(1), simp add: nx)
    have M': "calm X ?M" "fmap ?M = pre @ post"
      using R(2) map_erase_split [OF d] Cons.prems(2) e by (auto simp: removed_def)
    have ap: "a \<notin> addr_set post" using d by (auto simp: addr_set_def)
    have same: "objs ?M (snd x) = objs M (snd x)" if "x \<in> set post" for x
      using R(2) ap addr_setI [OF that] by (auto simp: removed_def)
    have sf: "filter (\<lambda>x. f_deleted (the (objs ?M (snd x)))) post = filter (\<lambda>x. f_deleted (the (objs M (snd x)))) post"
      "filter (\<lambda>x. \<not> f_deleted (the (objs ?M (snd x)))) post = filter (\<lambda>x. \<not> f_deleted (the (objs M (snd x)))) post"
      using same by (auto intro: filter_cong)
    have at: "a \<notin> addr_set (filter P post)" for P
      using ap by (auto simp: addr_set_def)
    have "length post \<le> n'" using Cons.prems(3) n by simp
    note IH = Cons.IH [OF M' this good_after [OF R(2) gp ap], unfolded sf]
    show ?thesis
      unfolding eq using IH removed_all_cons [OF R(2) _ at] True f e by simp
  next
    case False
    have eq: "deleted_loop cls (run m) n (head_addr (e # post)) M = deleted_loop cls (run m) n' (head_addr post) M"
      by (simp add: n e key f False nx)
    have "fmap M = (pre @ [e]) @ post" using Cons.prems(2) by simp
    moreover have "length post \<le> n'" using Cons.prems(3) n by simp
    ultimately show ?thesis unfolding eq using Cons.IH [OF Cons.prems(1) _ _ gp] False f e by simp
  qed
qed (simp add: removed_all_nil)


text \<open>Removal of the marked filters, as a function on the view.\<close>

lemma view_removed_all:
  assumes R: "removed_all X (filter P (fmap M)) M M'" and m: "fmap M' = filter (\<lambda>e. \<not> P e) (fmap M)"
    and P: "\<And>e. e \<in> set (fmap M) \<Longrightarrow> P e \<longleftrightarrow> Q (the (objs M (snd e)))" and d: "distinct (map snd (fmap M))"
  shows "(view M', parent M') = spec_drop q Q (view M, parent M)"
proof -
  have f1: "filter Q (view M) = map (\<lambda>e. the (objs M (snd e))) (filter P (fmap M))"
    unfolding view_def filter_map o_def using P by (auto intro!: arg_cong [where f = "map _"] filter_cong)
  have f2: "filter (\<lambda>f. \<not> Q f) (view M) = map (\<lambda>e. the (objs M (snd e))) (filter (\<lambda>e. \<not> P e) (fmap M))"
    unfolding view_def filter_map o_def using P by (auto intro!: arg_cong [where f = "map _"] filter_cong)
  have "snd e \<notin> addr_set (filter P (fmap M))" if "e \<in> set (filter (\<lambda>e. \<not> P e) (fmap M))" for e
  proof
    assume "snd e \<in> addr_set (filter P (fmap M))"
    then obtain x where x: "x \<in> set (fmap M)" "P x" "snd x = snd e" by (auto simp: addr_set_def)
    then have "x = e" using that d by (auto simp: distinct_map inj_on_def)
    then show False using x that by simp
  qed
  then have "view M' = map (\<lambda>e. the (objs M (snd e))) (filter (\<lambda>e. \<not> P e) (fmap M))"
    unfolding view_def m using R by (simp add: removed_all_def)
  then show ?thesis using R f1 f2 by (simp add: spec_drop_def removed_all_def)
qed

lemma good_fmap: "\<forall>f \<in> set (view M). good f \<Longrightarrow> \<forall>e \<in> set (fmap M). good (the (objs M (snd e)))"
  by (simp add: view_def)

lemma remove_id_calm:
  fixes k :: int and m :: nat
  assumes M: "calm X M" "length (fmap M) \<le> n" "\<forall>f \<in> set (view M). good f"
  defines "M' \<equiv> remove_loop cls (run m) n k (map_find k (fmap M)) M"
  shows "calm X M'" "(view M', parent M') = spec_drop q (\<lambda>f. f_id f = k) (view M, parent M)"
    "has_wait_delete M' = has_wait_delete M" "fmap M' = filter (\<lambda>e. fst e \<noteq> k) (fmap M)"
    "unique_loop cls (run m) n k (map_find k (fmap M)) M = M'" "\<And>b. b \<notin> addrs M \<Longrightarrow> objs M' b = objs M b"
proof -
  let ?pre = "takeWhile (\<lambda>e. fst e \<noteq> k) (fmap M)" and ?post = "dropWhile (\<lambda>e. fst e \<noteq> k) (fmap M)"
  have s: "fmap M = ?pre @ ?post" by simp
  have l: "length ?post \<le> n" using M(2) length_dropWhile_le le_trans by blast
  have g: "\<forall>e \<in> set ?post. good (the (objs M (snd e)))"
    using good_fmap [OF M(3)] by (auto dest: set_dropWhileD)
  have h: "map_find k (fmap M) = head_addr ?post" by (rule map_find_split)
  have srt: "sorted (map fst (fmap M))" using M(1) by (simp add: calm_def man_ok_def)
  note L = remove_loop_calm [OF M(1) s l g, where k = k and m = m, folded h, folded M'_def]
  have R: "removed_all X (filter (\<lambda>e. fst e = k) (fmap M)) M M'" and m': "fmap M' = filter (\<lambda>e. \<not> fst e = k) (fmap M)"
    using L unfolding sorted_key_split [OF srt] by auto
  show "calm X M'" "has_wait_delete M' = has_wait_delete M" using R by (auto simp: removed_all_def)
  show "objs M' b = objs M b" if "b \<notin> addrs M" for b
    using R that by (auto simp: removed_all_def addr_set_def)
  show "fmap M' = filter (\<lambda>e. fst e \<noteq> k) (fmap M)" using m' by simp
  show "unique_loop cls (run m) n k (map_find k (fmap M)) M = M'"
    using unique_loop_calm [OF M(1) s l g, where k = k and m = m, folded h] unfolding M'_def .
  show "(view M', parent M') = spec_drop q (\<lambda>f. f_id f = k) (view M, parent M)"
    by (rule view_removed_all [OF R m'])
      (use M(1) calm_distinct in \<open>auto elim: calm_live [OF M(1)]\<close>)
qed

lemma remove_deleted_calm:
  fixes m :: nat
  assumes M: "calm X M" "length (fmap M) \<le> n" "\<forall>f \<in> set (view M). good f"
    and flag: "\<not> has_wait_delete M \<Longrightarrow> \<forall>f \<in> set (view M). \<not> f_deleted f"
  defines "M' \<equiv> RemoveDeletedFilter cls (run m) n M"
  shows "calm X M'" "\<not> has_wait_delete M'" "\<forall>f \<in> set (view M'). good f \<and> \<not> f_deleted f" "(view M', parent M') = spec_drop q f_deleted (view M, parent M)"
proof -
  let ?L = "deleted_loop cls (run m) n (map_begin (fmap M)) M"
  have L: "removed_all X (filter (\<lambda>e. f_deleted (the (objs M (snd e)))) (fmap M)) M ?L"
      "fmap ?L = filter (\<lambda>e. \<not> f_deleted (the (objs M (snd e)))) (fmap M)"
    using deleted_loop_calm [OF M(1) _ M(2) good_fmap [OF M(3)], of "[]" m] by (simp_all add: map_begin_head)
  have V: "(view ?L, parent ?L) = spec_drop q f_deleted (view M, parent M)"
    by (rule view_removed_all [OF L]) (use calm_distinct [OF M(1)] in auto)
  have eq: "(view M', parent M') = spec_drop q f_deleted (view M, parent M)"
  proof (cases "has_wait_delete M")
    case True
    then have "M' = ?L\<lparr>has_wait_delete := False\<rparr>" by (simp add: M'_def RemoveDeletedFilter_def)
    then show ?thesis using V by (simp add: view_def)
  next
    case False
    then have "M' = M" by (simp add: M'_def RemoveDeletedFilter_def)
    then show ?thesis using flag [OF False] by (auto simp: spec_drop_def filter_id_conv filter_empty_conv)
  qed
  show "calm X M'" "\<not> has_wait_delete M'"
    using L(1) M(1) by (auto simp: M'_def RemoveDeletedFilter_def removed_all_def calm_def man_ok_def)
  have "view M' = filter (\<lambda>f. \<not> f_deleted f) (view M)" using eq by (simp add: spec_drop_def)
  then show "\<forall>f \<in> set (view M'). good f \<and> \<not> f_deleted f" using M(3) by simp
  show "(view M', parent M') = spec_drop q f_deleted (view M, parent M)" by (rule eq)
qed


text \<open>Adding.\<close>

lemma attach_calm:
  fixes m :: nat
  assumes M: "calm X M" and f: "objs M a = Some f" "good f" and a: "a \<notin> addrs M"
  defines "M' \<equiv> attach_filter cls (run m) a M"
  shows "(view M', parent M') = spec_attach q f (view M, parent M)" "\<not> ffault M'" "call_mask M' = 0"
    "op_count M' = 0" "wait_for_insert M' = []" "\<not> delay_add M'" "has_wait_delete M' = has_wait_delete M"
proof -
  have c0: "call_mask M = 0" using M by (simp add: calm_def)
  have M': "M' = M\<lparr>fmap := map_insert (f_id f) a (fmap M), pool := pool_insert a (f_mask f) (pool M),
      call_mask := 0, objs := (objs M)(a \<mapsto> f), parent := q_attach q f (parent M)\<rparr>"
    using f c0 by (simp add: M'_def attach_filter_def Let_def attach del: bit.de_Morgan_conj)
  have "view M' = spec_insert f (view M)"
    by (rule view_insert [OF M a]) (simp_all add: M')
  then show "(view M', parent M') = spec_attach q f (view M, parent M)" by (simp add: spec_attach_def M')
  show "\<not> ffault M'" "call_mask M' = 0" "op_count M' = 0" "wait_for_insert M' = []" "\<not> delay_add M'"
    "has_wait_delete M' = has_wait_delete M"
    using M by (simp_all add: M' calm_def)
qed

lemma merge_first_split:
  assumes "\<forall>h \<in> set xs. f_id h \<noteq> f_id f" "f_id g = f_id f"
  shows "merge_first q f (xs @ g # ys, c) = (xs @ g\<lparr>f_data := q_merge q g f\<rparr> # ys, q_merge_owner q g f c)"
  using assms by (induction xs) auto

lemma merge_calm:
  assumes M: "calm X M" and b: "map_find (f_id f) (fmap M) = Some b" and g: "objs M b = Some g" and a: "a \<notin> addrs M"
    and M': "fmap M' = fmap M" "objs M' = (objs M)(b \<mapsto> g\<lparr>f_data := q_merge q g f\<rparr>, a := None)"
  shows "(view M', q_merge_owner q g f c) = merge_first q f (view M, c)"
proof -
  let ?pre = "takeWhile (\<lambda>e. fst e \<noteq> f_id f) (fmap M)"
  obtain post where post: "dropWhile (\<lambda>e. fst e \<noteq> f_id f) (fmap M) = (f_id f, b) # post"
  proof (cases "dropWhile (\<lambda>e. fst e \<noteq> f_id f) (fmap M)")
    case Nil
    show thesis using b unfolding map_find_split Nil by simp
  next
    case (Cons e post)
    then have "fst e = f_id f" using hd_dropWhile [of "\<lambda>e. fst e \<noteq> f_id f" "fmap M"] by (metis list.sel(1) list.simps(3))
    then show thesis using that b Cons by (cases e) (auto simp: map_find_split)
  qed
  have s: "fmap M = ?pre @ (f_id f, b) # post" using takeWhile_dropWhile_id [of "\<lambda>e. fst e \<noteq> f_id f" "fmap M"] post by simp
  have d: "distinct (map snd (?pre @ (f_id f, b) # post))" using calm_distinct [OF M] s by simp
  let ?v = "\<lambda>e. the (objs M (snd e))"
  have id: "f_id (?v e) = fst e" if "e \<in> set (fmap M)" for e
    using calm_id [OF M that] .
  have ba: "b \<noteq> a" and na: "snd e \<noteq> a" if "e \<in> set (fmap M)" for e
    using a addr_setI [OF that] addr_setI [OF map_find_in [OF b]] by auto
  have "view M = map ?v ?pre @ g # map ?v post" unfolding view_def by (subst s) (simp add: g)
  moreover have "\<forall>h \<in> set (map ?v ?pre). f_id h \<noteq> f_id f"
    using id by (auto dest!: set_takeWhileD)
  moreover have "f_id g = f_id f" using id [OF map_find_in [OF b]] g by simp
  ultimately have "merge_first q f (view M, c) = (map ?v ?pre @ g\<lparr>f_data := q_merge q g f\<rparr> # map ?v post, q_merge_owner q g f c)"
    using merge_first_split by metis
  moreover have "view M' = map ?v ?pre @ g\<lparr>f_data := q_merge q g f\<rparr> # map ?v post"
  proof -
    have "the (objs M' (snd e)) = ?v e" if "e \<in> set ?pre \<union> set post" for e
    proof -
      have "e \<in> set (fmap M)" using that s by (auto dest: set_takeWhileD) (metis Un_iff set_append set_ConsD list.set_intros(2))
      moreover have "snd e \<noteq> b" using that d by auto
      ultimately show ?thesis using na by (simp add: M'(2))
    qed
    moreover have "b \<noteq> a" using a addr_setI [OF map_find_in [OF b]] by auto
    ultimately show ?thesis unfolding view_def M'(1) by (subst s) (simp add: M'(2))
  qed
  ultimately show ?thesis by simp
qed

definition added :: "('x, 'c) filter_man \<Rightarrow> ('x, 'c) filter_man \<Rightarrow> bool" where
  "added M M' \<longleftrightarrow> \<not> ffault M' \<and> call_mask M' = 0 \<and> op_count M' = 0 \<and> wait_for_insert M' = [] \<and> \<not> delay_add M'
     \<and> has_wait_delete M' = has_wait_delete M"

lemma added_calm: "calm X M \<Longrightarrow> has_wait_delete M = has_wait_delete M0 \<Longrightarrow> added M0 M"
  by (simp add: calm_def added_def)

lemma add_calm:
  fixes m :: nat
  assumes M: "calm {a} M" "length (fmap M) \<le> n" "\<forall>g \<in> set (view M). good g"
    and f: "objs M a = Some f" "good f"
  defines "M' \<equiv> snd (AddFilter cls (run m) n a M)"
  shows "(view M', parent M') = spec_add q f (view M, parent M) \<and> added M M'"
proof -
  have c0: "call_mask M = 0" and ok: "man_ok {a} {} {} M" using M by (simp_all add: calm_def)
  have a: "a \<notin> addrs M" using ok by (simp add: man_ok_def)
  have ids: "f_id ` set (view M) = fst ` set (fmap M)" using arg_cong [OF view_ids [OF M(1)], of set] by simp
  have at: "added M (attach_filter cls (run m) a M)" using attach_calm [OF M(1) f a] by (simp add: added_def)
  show ?thesis
  proof (cases "map_find (f_id f) (fmap M)")
    case None
    then have "f_id f \<notin> f_id ` set (view M)" using ids map_find_None by metis
    then have "spec_add q f (view M, parent M) = spec_attach q f (view M, parent M)" by (simp add: spec_add_def)
    moreover have "M' = attach_filter cls (run m) a M" using f c0 None by (simp add: M'_def AddFilter_def)
    ultimately show ?thesis using attach_calm(1) [OF M(1) f a] at by simp
  next
    case (Some b)
    then have "f_id f \<in> f_id ` set (view M)" using ids map_find_None by (metis option.distinct(1))
    then have spec: "spec_add q f (view M, parent M) =
       (if f_mask f AND MASK_UNIQUE \<noteq> 0 then spec_attach q f (spec_drop q (\<lambda>g. f_id g = f_id f) (view M, parent M))
        else if f_mask f AND MASK_WEAK \<noteq> 0 then (view M, parent M)
        else if f_mask f AND MASK_MERGE \<noteq> 0 then merge_first q f (view M, parent M)
        else spec_attach q f (view M, parent M))" by (simp add: spec_add_def)
    have b: "b \<in> addrs M" "b \<noteq> a" using addr_setI [OF map_find_in [OF Some]] a by auto
    obtain g where g: "objs M b = Some g" using addrs_live [OF ok b(1)] by auto
    have bs: "(f_id f, b) \<in> set (fmap M)" using map_find_in [OF Some] .
    have g2: "good g" "f_id g = f_id f"
      using good_fmap [OF M(3)] bs g calm_id [OF M(1) bs] by auto
    consider (u) "f_mask f AND MASK_UNIQUE \<noteq> 0" | (w) "f_mask f AND MASK_UNIQUE = 0" "f_mask f AND MASK_WEAK \<noteq> 0"
      | (m) "f_mask f AND MASK_UNIQUE = 0" "f_mask f AND MASK_WEAK = 0" "f_mask f AND MASK_MERGE \<noteq> 0"
      | (n) "f_mask f AND MASK_UNIQUE = 0" "f_mask f AND MASK_WEAK = 0" "f_mask f AND MASK_MERGE = 0" by blast
    then show ?thesis
    proof cases
      case u
      let ?U = "unique_loop cls (run m) n (f_id f) (Some b) M"
      note R = remove_id_calm [OF M, where k = "f_id f" and m = m]
      have U: "?U = remove_loop cls (run m) n (f_id f) (map_find (f_id f) (fmap M)) M" using R(5) Some by simp
      have fa: "objs ?U a = Some f" unfolding U using R(6) [OF a] f by simp
      have aU: "a \<notin> addrs ?U" unfolding U R(4) using a by (auto simp: addr_set_def)
      have "M' = attach_filter cls (run m) a ?U" using f c0 Some u by (simp add: M'_def AddFilter_def)
      moreover note attach_calm [OF R(1) [folded U] fa f(2) aU, where m = m]
      ultimately show ?thesis using u R(2,3) [folded U] by (simp add: spec added_def)
    next
      case w
      have "M' = M\<lparr>objs := (objs M)(a := None)\<rparr>" using f c0 Some w by (simp add: M'_def AddFilter_def delete_filter_def)
      moreover have "view (M\<lparr>objs := (objs M)(a := None)\<rparr>) = view M"
        using a unfolding view_def by (auto simp: addr_set_def)
      ultimately show ?thesis using w M(1) by (auto simp: spec calm_def added_def)
    next
      case m
      have mg: "f_mask g AND MASK_MERGE \<noteq> 0" "on_merge cls g f c = (q_merge q g f, q_merge_owner q g f c, [])" for c
        using merge [OF f(2) g2(1) g2(2) [symmetric] m(3)] by auto
      have M': "M' = M\<lparr>objs := (objs M)(b \<mapsto> g\<lparr>f_data := q_merge q g f\<rparr>, a := None), parent := q_merge_owner q g f (parent M)\<rparr>"
        using f c0 Some m g mg b by (simp add: M'_def AddFilter_def Let_def f_assert_def delete_filter_def)
      have "(view M', q_merge_owner q g f (parent M)) = merge_first q f (view M, parent M)"
        by (rule merge_calm [OF M(1) Some g a]) (simp_all add: M')
      then show ?thesis using m M(1) by (auto simp: spec calm_def added_def M')
    next
      case n
      then have "M' = attach_filter cls (run m) a M" using f c0 Some by (simp add: M'_def AddFilter_def)
      then show ?thesis using attach_calm(1) [OF M(1) f a] at n by (simp add: spec)
    qed
  qed
qed

text \<open>The heartbeat.\<close>

definition hb :: "'e \<Rightarrow> 'x filter_obj \<Rightarrow> 'x filter_obj" where
  "hb e f = (let g = f\<lparr>f_data := fst (q_tick q e f), f_deleted := snd (q_tick q e f)\<rparr>
             in if snd (q_tick q e f) then g\<lparr>f_mask := f_mask g AND NOT (push_bit IDX_HEARTBEAT 1)\<rparr> else g)"

definition hb_objs :: "'e \<Rightarrow> nat set \<Rightarrow> (nat \<rightharpoonup> 'x filter_obj) \<Rightarrow> nat \<rightharpoonup> 'x filter_obj" where
  "hb_objs e S m = (\<lambda>b. if b \<in> S then map_option (hb e) (m b) else m b)"

lemma hb_objs_empty: "hb_objs e {} m = m"
  by (simp add: hb_objs_def)

lemma hb_objs_insert: "a \<notin> S \<Longrightarrow> m a = Some f \<Longrightarrow> hb_objs e S (m(a \<mapsto> hb e f)) = hb_objs e (insert a S) m"
  by (auto simp: hb_objs_def)

lemma heartbeat_loop:
  assumes "distinct (ds @ xs)" "\<forall>a \<in> set xs. \<exists>f. objs M a = Some f \<and> good f" "pool M ! IDX_HEARTBEAT = ds @ xs"
    and "length (pool M) = IDX_MAX"
  shows "event_loop cls (run n) IDX_HEARTBEAT ds xs e M = (e, M\<lparr>objs := hb_objs e (set xs) (objs M),
      pool := (pool M)[IDX_HEARTBEAT := ds @ filter (\<lambda>a. \<not> snd (q_tick q e (the (objs M a)))) xs],
      has_wait_delete := has_wait_delete M \<or> (\<exists>a \<in> set xs. snd (q_tick q e (the (objs M a))))\<rparr>)"
  using assms
proof (induction xs arbitrary: ds M)
  case (Cons a xs)
  obtain f where f: "objs M a = Some f" "good f" using Cons.prems(2) by auto
  have ax: "a \<notin> set xs" using Cons.prems(1) by simp
  let ?f = "f\<lparr>f_data := fst (q_tick q e f), f_deleted := snd (q_tick q e f)\<rparr>"
  let ?M = "M\<lparr>objs := (objs M)(a \<mapsto> hb e f)\<rparr>"
  have rest: "\<forall>b \<in> set xs. \<exists>f. objs ?M b = Some f \<and> good f"
    using Cons.prems(2) ax by auto
  have same: "filter (\<lambda>b. \<not> snd (q_tick q e (the (objs ?M b)))) xs = filter (\<lambda>b. \<not> snd (q_tick q e (the (objs M b)))) xs"
    using ax by (auto intro: filter_cong)
  have ex: "(\<exists>b \<in> set xs. snd (q_tick q e (the (objs ?M b)))) \<longleftrightarrow> (\<exists>b \<in> set xs. snd (q_tick q e (the (objs M b))))"
    using ax by auto
  have up: "hb_objs e (set xs) (objs ?M) = hb_objs e (set (a # xs)) (objs M)"
    using hb_objs_insert [of a "set xs" "objs M" f e] ax f by simp
  show ?case
  proof (cases "snd (q_tick q e f)")
    case True
    let ?N = "?M\<lparr>pool := (pool M)[IDX_HEARTBEAT := ds @ xs], has_wait_delete := True\<rparr>"
    have "event_loop cls (run n) IDX_HEARTBEAT ds (a # xs) e M = event_loop cls (run n) IDX_HEARTBEAT ds xs e ?N"
      using f Cons.prems(3) True by (simp add: heartbeat Let_def hb_def)
    moreover have "event_loop cls (run n) IDX_HEARTBEAT ds xs e ?N = (e, ?N\<lparr>objs := hb_objs e (set xs) (objs ?N),
      pool := (pool ?N)[IDX_HEARTBEAT := ds @ filter (\<lambda>a. \<not> snd (q_tick q e (the (objs ?N a)))) xs],
      has_wait_delete := has_wait_delete ?N \<or> (\<exists>a \<in> set xs. snd (q_tick q e (the (objs ?N a))))\<rparr>)"
      by (rule Cons.IH) (use Cons.prems rest in \<open>auto\<close>)
    ultimately show ?thesis using up same True f by simp
  next
    case False
    have "event_loop cls (run n) IDX_HEARTBEAT ds (a # xs) e M = event_loop cls (run n) IDX_HEARTBEAT (ds @ [a]) xs e ?M"
      using f Cons.prems(3) False by (simp add: heartbeat Let_def hb_def)
    moreover have "event_loop cls (run n) IDX_HEARTBEAT (ds @ [a]) xs e ?M = (e, ?M\<lparr>objs := hb_objs e (set xs) (objs ?M),
      pool := (pool ?M)[IDX_HEARTBEAT := (ds @ [a]) @ filter (\<lambda>a. \<not> snd (q_tick q e (the (objs ?M a)))) xs],
      has_wait_delete := has_wait_delete ?M \<or> (\<exists>a \<in> set xs. snd (q_tick q e (the (objs ?M a))))\<rparr>)"
      by (rule Cons.IH) (use Cons.prems rest in \<open>auto\<close>)
    ultimately show ?thesis using up same ex False f by simp
  qed
next
  case Nil
  then have "(pool M)[IDX_HEARTBEAT := ds] = pool M" by (metis append_Nil2 list_update_id)
  then show ?case by (simp add: hb_objs_empty)
qed

lemma good_hb: "good f \<Longrightarrow> good (hb e f)"
proof -
  assume f: "good f"
  let ?g = "f\<lparr>f_data := fst (q_tick q e f), f_deleted := snd (q_tick q e f)\<rparr>"
  have "good ?g" "good (?g\<lparr>f_mask := f_mask ?g AND NOT (push_bit IDX_HEARTBEAT 1)\<rparr>)"
    by (rule good_tick [OF f], rule good_dropped [OF good_tick [OF f]])
  then show ?thesis unfolding hb_def Let_def by (cases "snd (q_tick q e f)") (simp_all only: if_True if_False)
qed

lemma hb_ticked:
  assumes "bit (f_mask f) IDX_HEARTBEAT"
  shows "f_deleted (hb e f) = f_deleted (ticked q e f)" "\<not> f_deleted (hb e f) \<Longrightarrow> hb e f = ticked q e f"
    "q_release q (hb e f) = q_release q (ticked q e f)"
  using assms by (auto simp: hb_def ticked_def Let_def release_dropped)

lemma spec_drop_cong:
  assumes "length xs = length ys"
    and "\<And>i. i < length xs \<Longrightarrow> P (xs ! i) = P (ys ! i) \<and> (\<not> P (xs ! i) \<longrightarrow> xs ! i = ys ! i) \<and> q_release q (xs ! i) = q_release q (ys ! i)"
  shows "spec_drop q P (xs, c) = spec_drop q P (ys, c)"
  using assms
proof (induction xs ys arbitrary: c rule: list_induct2)
  case (Cons x xs y ys)
  have "0 < length (x # xs)" by simp
  from Cons.prems [OF this] have *: "P x = P y" "\<not> P x \<longrightarrow> x = y" "q_release q x = q_release q y"
    unfolding nth_Cons_0 by blast+
  have "spec_drop q P (xs, d) = spec_drop q P (ys, d)" for d
  proof (rule Cons.IH)
    fix i assume "i < length xs"
    then have "Suc i < length (x # xs)" by simp
    from Cons.prems [OF this]
    show "P (xs ! i) = P (ys ! i) \<and> (\<not> P (xs ! i) \<longrightarrow> xs ! i = ys ! i) \<and> q_release q (xs ! i) = q_release q (ys ! i)"
      unfolding nth_Cons_Suc .
  qed
  note IH = this [of c] this [of "q_release q x c"]
  show ?case
  proof (cases "P x")
    case True
    then show ?thesis using IH(2) * unfolding spec_drop_def by simp
  next
    case False
    then have "x = y" using * by blast
    then show ?thesis using IH(1) False unfolding spec_drop_def by simp
  qed
qed simp

text \<open>The state after the loop of the heartbeat.\<close>

definition beaten :: "'e \<Rightarrow> ('x, 'c) filter_man \<Rightarrow> ('x, 'c) filter_man" where
  "beaten e M = (let xs = pool M ! IDX_HEARTBEAT in
     M\<lparr>objs := hb_objs e (set xs) (objs M),
       pool := (pool M)[IDX_HEARTBEAT := filter (\<lambda>a. \<not> snd (q_tick q e (the (objs M a)))) xs],
       has_wait_delete := has_wait_delete M \<or> (\<exists>a \<in> set xs. snd (q_tick q e (the (objs M a))))\<rparr>)"

lemma keep_heartbeat:
  assumes M: "calm {} M" "\<forall>f \<in> set (view M). good f"
  shows "keep_event cls (run m) n IDX_HEARTBEAT e M = (e, beaten e M)"
proof -
  let ?xs = "pool M ! IDX_HEARTBEAT"
  let ?M = "M\<lparr>call_mask := call_mask M OR push_bit IDX_HEARTBEAT 1, op_count := op_count M + 1\<rparr>"
  have ok: "man_ok {} {} {} M" and c0: "call_mask M = 0" "op_count M = 0" "wait_for_insert M = []"
    using M(1) by (simp_all add: calm_def)
  have d: "distinct ([] @ ?xs)" using man_okD(5) [OF ok, of IDX_HEARTBEAT] by simp
  have l: "\<forall>a \<in> set ?xs. \<exists>f. objs ?M a = Some f \<and> good f"
  proof
    fix a assume "a \<in> set ?xs"
    then have a: "a \<in> addrs M" using man_okD(6) [OF ok, of IDX_HEARTBEAT a] by simp
    then obtain k where k: "(k, a) \<in> set (fmap M)" by (auto elim: addr_setE)
    obtain f where "objs M a = Some f" using addrs_live [OF ok a] by auto
    moreover have "good (the (objs M a))" using good_fmap [OF M(2)] k by auto
    ultimately show "\<exists>f. objs ?M a = Some f \<and> good f" by simp
  qed
  have p: "pool ?M ! IDX_HEARTBEAT = [] @ ?xs" "length (pool ?M) = IDX_MAX" using man_okD(1) [OF ok] by simp_all
  have cm: "(0 OR push_bit IDX_HEARTBEAT 1) AND NOT (push_bit IDX_HEARTBEAT 1) = (0 :: u32)" by simp
  show ?thesis
    unfolding keep_event_def using heartbeat_loop [OF d l p, of m e] c0 cm
    by (simp add: Let_def f_assert_def DelayAddFilter_def beaten_def)
qed

lemma view_beaten:
  assumes M: "calm {} M"
  shows "view (beaten e M) = map (\<lambda>f. if bit (f_mask f) IDX_HEARTBEAT then hb e f else f) (view M)"
proof -
  have ok: "man_ok {} {} {} M" using M by (simp add: calm_def)
  have "the (objs (beaten e M) (snd x)) = (if bit (f_mask (the (objs M (snd x)))) IDX_HEARTBEAT then hb e (the (objs M (snd x))) else the (objs M (snd x)))"
    if x: "x \<in> set (fmap M)" for x
  proof -
    obtain f where f: "objs M (snd x) = Some f" using calm_live [OF M x] .
    have "snd x \<in> set (pool M ! IDX_HEARTBEAT) \<longleftrightarrow> bit (f_mask f) IDX_HEARTBEAT"
      using man_okD(6) [OF ok, of IDX_HEARTBEAT "snd x"] addr_setI [OF x] f by simp
    then show ?thesis using f by (simp add: beaten_def hb_objs_def Let_def)
  qed
  then show ?thesis unfolding view_def by (simp add: beaten_def Let_def)
qed

lemma heartbeat_calm:
  fixes m :: nat and e :: 'e
  assumes M: "rest good M" "length (fmap M) \<le> n"
  defines "M' \<equiv> snd (EF_event cls (run m) n IDX_HEARTBEAT e M)"
  shows "rest good M' \<and> (view M', parent M') = spec_tick q e (view M, parent M)"
proof -
  have c: "calm {} M" and g: "\<forall>f \<in> set (view M). good f" and nd: "\<forall>f \<in> set (view M). \<not> f_deleted f"
    and w: "\<not> has_wait_delete M" using M(1) by (auto simp: rest_def)
  let ?B = "beaten e M"
  have M': "M' = RemoveDeletedFilter cls (run m) n ?B"
    using keep_heartbeat [OF c g] w by (simp add: M'_def EF_event_def RemoveDeletedFilter_def)
  have "man_ok {} {} {} ?B"
    using man.keep_event_ok [of IDX_HEARTBEAT "{}" "{}" "{}" M cls m n e] c keep_heartbeat [OF c g, of m n e]
    by (auto simp: ok_step_def calm_def beaten_def Let_def)
  then have cB: "calm {} ?B" using c by (simp add: calm_def beaten_def Let_def)
  have gB: "\<forall>f \<in> set (view ?B). good f" unfolding view_beaten [OF c] using g good_hb by auto
  have lB: "length (fmap ?B) \<le> n" using M(2) by (simp add: beaten_def Let_def)
  have flag: "\<forall>f \<in> set (view ?B). \<not> f_deleted f" if "\<not> has_wait_delete ?B"
  proof
    fix f assume "f \<in> set (view ?B)"
    then obtain x where x: "x \<in> set (fmap M)" and fx: "f = (if bit (f_mask (the (objs M (snd x)))) IDX_HEARTBEAT then hb e (the (objs M (snd x))) else the (objs M (snd x)))"
      unfolding view_beaten [OF c] by (auto simp: view_def)
    obtain h where h: "objs M (snd x) = Some h" using calm_live [OF c x] .
    have hv: "h \<in> set (view M)" using x h by (auto simp: view_def image_iff intro!: bexI [of _ x])
    show "\<not> f_deleted f"
    proof (cases "bit (f_mask h) IDX_HEARTBEAT")
      case True
      have "man_ok {} {} {} M" using c by (simp add: calm_def)
      then have "snd x \<in> set (pool M ! IDX_HEARTBEAT)"
        using man_okD(6) [of "{}" "{}" "{}" M IDX_HEARTBEAT "snd x"] addr_setI [OF x] h True by simp
      then have "\<not> snd (q_tick q e h)" using that h by (auto simp: beaten_def Let_def)
      then show ?thesis using fx h True by (simp add: hb_def Let_def)
    qed (use fx h hv nd in simp)
  qed
  note D = remove_deleted_calm [OF cB lB gB flag, of m, folded M']
  have pB: "parent ?B = parent M" by (simp add: beaten_def Let_def)
  have "spec_drop q f_deleted (view ?B, parent ?B) = spec_tick q e (view M, parent M)"
    unfolding spec_tick_def prod.case view_beaten [OF c] pB
    by (rule spec_drop_cong) (auto simp: hb_ticked ticked_def)
  then show ?thesis using D by (simp add: rest_def)
qed

text \<open>Every request, and every list of requests.\<close>

lemma clear_calm:
  fixes m :: nat and w :: u32
  assumes M: "rest good M" "length (fmap M) \<le> n"
  defines "M' \<equiv> ClearSpecFilter cls (run m) n w M"
  shows "rest good M' \<and> (view M', parent M') = spec_drop q (\<lambda>f. f_mask f AND w \<noteq> 0) (view M, parent M)"
proof -
  have c: "calm {} M" and g: "\<forall>f \<in> set (view M). good f" and nd: "\<forall>f \<in> set (view M). \<not> f_deleted f"
    and fl: "\<not> has_wait_delete M" using M(1) by (auto simp: rest_def)
  let ?B = "mark_filters w M"
  let ?mk = "\<lambda>f. if f_mask f AND w \<noteq> 0 then f\<lparr>f_deleted := True\<rparr> else f"
  have M': "M' = RemoveDeletedFilter cls (run m) n ?B"
    using c by (simp add: M'_def ClearSpecFilter_def Let_def calm_def mark_filters_def)
  have "man_ok {} {} {} ?B"
    using man.mark_filters_ok [of "{}" "{}" "{}" M w] c by (auto simp: ok_step_def calm_def mark_filters_def)
  then have cB: "calm {} ?B" using c by (simp add: calm_def mark_filters_def)
  have live: "\<exists>f. objs M (snd x) = Some f" if "x \<in> set (fmap M)" for x
    using calm_live [OF c that] by metis
  have o: "the (objs ?B (snd x)) = ?mk (the (objs M (snd x)))" if "x \<in> set (fmap M)" for x
    using live [OF that] that by (auto simp: mark_filters_def split: option.split)
  have fB: "fmap ?B = fmap M" "parent ?B = parent M" by (simp_all add: mark_filters_def)
  have vB: "view ?B = map ?mk (view M)" unfolding view_def fB using o by simp
  have gB: "\<forall>f \<in> set (view ?B). good f" unfolding vB using g good_marked by auto
  have flag: "\<forall>f \<in> set (view ?B). \<not> f_deleted f" if "\<not> has_wait_delete ?B"
  proof
    fix f assume "f \<in> set (view ?B)"
    then obtain x where x: "x \<in> set (fmap M)" and f: "f = ?mk (the (objs M (snd x)))" unfolding vB by (auto simp: view_def)
    obtain h where h: "objs M (snd x) = Some h" using live [OF x] by auto
    have "f_mask h AND w = 0" using that x h unfolding mark_filters_def by (auto simp: list_ex_iff split: option.splits)
    moreover have "h \<in> set (view M)" using x h by (auto simp: view_def image_iff intro!: bexI [of _ x])
    ultimately show "\<not> f_deleted f" using nd f h by simp
  qed
  note D = remove_deleted_calm [OF cB _ gB flag, of n m, folded M']
  have "spec_drop q f_deleted (view ?B, parent ?B) = spec_drop q (\<lambda>f. f_mask f AND w \<noteq> 0) (view M, parent M)"
  proof -
    have "spec_drop q f_deleted (map ?mk xs, d) = spec_drop q (\<lambda>f. f_mask f AND w \<noteq> 0) (xs, d)" if "\<forall>f \<in> set xs. \<not> f_deleted f" for xs d
      using that
    proof (induction xs arbitrary: d)
      case (Cons x xs)
      from Cons.IH [of d] Cons.IH [of "q_release q x d"] Cons.prems show ?case
        by (cases "f_mask x AND w = 0") (simp_all add: spec_drop_def release_marked)
    qed (simp add: spec_drop_def)
    then show ?thesis unfolding vB fB using nd by simp
  qed
  then show ?thesis using D M(2) by (simp add: rest_def fB)
qed

lemma modify_loop_calm:
  assumes "calm {} M \<or> calm {} (M\<lparr>call_mask := 0\<rparr>)" "fmap M = pre @ post" "length post \<le> n" "\<forall>e \<in> set post. good (the (objs M (snd e)))"
    and "\<forall>e \<in> set post. objs M (snd e) \<noteq> None" "distinct (map snd (fmap M))"
  shows "modify_loop cls (run m) n k name v (head_addr post) M = M"
  using assms
proof (induction post arbitrary: n pre)
  case (Cons e post)
  obtain n' where n: "n = Suc n'" using Cons.prems(3) by (cases n) auto
  obtain key a where e: "e = (key, a)" by (cases e)
  have d: "distinct (map snd (pre @ (key, a) # post))" using Cons.prems(2,6) e by simp
  have key: "map_key a (fmap M) = Some key" using map_key_split [OF d] Cons.prems(2) e by simp
  have nx: "map_next a (fmap M) = head_addr post" using map_next_split [OF d] Cons.prems(2) e by simp
  obtain f where f: "objs M a = Some f" using Cons.prems(5) e by auto
  have g: "good f" using Cons.prems(4) f e by simp
  have same: "M\<lparr>objs := (objs M)(a \<mapsto> f)\<rparr> = M" using f by (simp add: fun_upd_idem)
  have "fmap M = (pre @ [e]) @ post" using Cons.prems(2) by simp
  then have "modify_loop cls (run m) n' k name v (head_addr post) M = M"
    using Cons.IH [of "pre @ [e]" n'] Cons.prems n by simp
  moreover have u: "\<not> f_deleted f \<Longrightarrow> f\<lparr>f_deleted := False\<rparr> = f" by (cases f) simp
  ultimately show ?case using f g same by (cases "f_deleted f") (simp_all add: n e key nx modify Let_def u)
qed simp

lemma modify_calm:
  assumes M: "rest good M" "length (fmap M) \<le> n"
  shows "snd (ModifyFilter cls (run m) n k name v M) = M"
proof -
  have c: "calm {} M" and g: "\<forall>f \<in> set (view M). good f" using M(1) by (auto simp: rest_def)
  let ?M = "M\<lparr>call_mask := MASK_ALL\<rparr>"
  let ?pre = "takeWhile (\<lambda>e. fst e \<noteq> k) (fmap M)" and ?post = "dropWhile (\<lambda>e. fst e \<noteq> k) (fmap M)"
  have c0: "call_mask M = 0" using c by (simp add: calm_def)
  have bk: "?M\<lparr>call_mask := 0\<rparr> = M" using c0 by simp
  have "modify_loop cls (run m) n k name v (head_addr ?post) ?M = ?M"
  proof (rule modify_loop_calm)
    show "calm {} ?M \<or> calm {} (?M\<lparr>call_mask := 0\<rparr>)" unfolding bk using c by simp
    show "fmap ?M = ?pre @ ?post" by simp
    show "length ?post \<le> n" using M(2) length_dropWhile_le le_trans by blast
    show "\<forall>e \<in> set ?post. good (the (objs ?M (snd e)))"
      using good_fmap [OF g] by (auto dest: set_dropWhileD)
    show "\<forall>e \<in> set ?post. objs ?M (snd e) \<noteq> None"
      using man_okD(4) [of "{}" "{}" "{}" M] c by (force simp: calm_def dest: set_dropWhileD)
    show "distinct (map snd (fmap ?M))" using calm_distinct [OF c] by simp
  qed
  then have "modify_loop cls (run m) n k name v (map_find k (fmap M)) ?M = ?M" by (simp only: map_find_split)
  then show ?thesis using c0 bk by (cases "map_find k (fmap M)") (simp_all add: ModifyFilter_def)
qed

lemma other_event_calm:
  assumes M: "rest good M" and i: "i < IDX_MAX" "i \<noteq> IDX_HEARTBEAT"
  shows "snd (EF_event cls (run m) n i e M) = M"
proof -
  have c: "calm {} M" and g: "\<forall>f \<in> set (view M). good f" using M by (auto simp: rest_def)
  have ok: "man_ok {} {} {} M" using c by (simp add: calm_def)
  have "a \<notin> set (pool M ! i)" for a
  proof
    assume "a \<in> set (pool M ! i)"
    then obtain f k where f: "objs M a = Some f" "bit (f_mask f) i" "(k, a) \<in> set (fmap M)"
      using man_okD(6) [OF ok i(1), of a] by (auto elim: addr_setE)
    then have "good f" using good_fmap [OF g] by force
    then show False using good_mask f(2) i by blast
  qed
  then have p: "pool M ! i = []" by (metis list.set_intros(1) neq_Nil_conv)
  have cm: "(0 OR push_bit i 1) AND NOT (push_bit i 1) = (0 :: u32)" by simp
  show ?thesis using c p i cm
    by (simp add: EF_event_def keep_event_def Let_def f_assert_def DelayAddFilter_def calm_def)
qed

lemma add_request_calm:
  assumes M: "rest good M" "length (fmap M) \<le> n" and f: "good f" "\<not> f_deleted f"
  shows "rest good (do_request cls (run m) n (ReqAdd f) M)
    \<and> (view (do_request cls (run m) n (ReqAdd f) M), parent (do_request cls (run m) n (ReqAdd f) M)) = spec_add q f (view M, parent M)"
proof -
  have c: "calm {} M" and g: "\<forall>f \<in> set (view M). good f" and nd: "\<forall>f \<in> set (view M). \<not> f_deleted f"
    and fl: "\<not> has_wait_delete M" using M(1) by (auto simp: rest_def)
  have ok: "man_ok {} {} {} M" using c by (simp add: calm_def)
  let ?a = "fbrk M"
  let ?M = "M\<lparr>objs := (objs M)(?a \<mapsto> f), fbrk := ?a + 1\<rparr>"
  let ?N = "do_request cls (run m) n (ReqAdd f) M"
  have N: "?N = snd (AddFilter cls (run m) n ?a ?M)" by (simp add: do_request_def new_filter_def)
  have fresh: "?a \<notin> dom (objs M)" using ok unfolding man_ok_def by auto
  then have a: "?a \<notin> addrs M" using man_okD(7) [OF ok] by auto
  have e: "snd x \<noteq> ?a" if "x \<in> set (fmap M)" for x using a addr_setI [OF that] by auto
  have "man_ok {?a} {} {} ?M"
    using ok a e fresh unfolding man_ok_def by (elim conjE, intro conjI) (auto intro: less_SucI)
  then have cM: "calm {?a} ?M" using c by (simp add: calm_def)
  have vM: "view ?M = view M" using e by (simp add: view_def)
  note A = add_calm [of ?a ?M n f m, OF cM _ _ _ f(1), folded N]
  have A1: "(view ?N, parent ?N) = spec_add q f (view M, parent M)" and A2: "added ?M ?N"
    using A M(2) g by (simp_all add: vM [simplified])
  have "man_ok {} {} {} ?N"
    using man.do_request_ok [of "{}" "{}" "{}" M cls m n "ReqAdd f"] ok A2 by (simp add: ok_step_def added_def)
  then have "calm {} ?N" using A2 by (simp add: added_def calm_def)
  moreover have "\<forall>h \<in> set (view ?N). good h \<and> \<not> f_deleted h"
  proof -
    have "\<forall>h \<in> set (fst (spec_add q f (xs, d))). good h \<and> \<not> f_deleted h" if "\<forall>h \<in> set xs. good h \<and> \<not> f_deleted h" for xs d
    proof -
      have "\<forall>h \<in> set (fst (merge_first q f (xs, d))). good h \<and> \<not> f_deleted h" if "f_mask f AND MASK_MERGE \<noteq> 0" "\<forall>h \<in> set xs. good h \<and> \<not> f_deleted h"
        using that f by (induction xs) (auto intro!: good_merge)
      then show ?thesis using that f
        by (auto simp: spec_add_def spec_attach_def spec_insert_def spec_drop_def dest: set_takeWhileD set_dropWhileD)
    qed
    then show ?thesis using A1 g nd by (metis fst_conv)
  qed
  ultimately show ?thesis using A1 A2 fl by (simp add: rest_def added_def)
qed

lemma request_refines:
  assumes M: "rest good M" "length (fmap M) \<le> n" "valid_request good r"
  shows "rest good (do_request cls (run m) n r M)
    \<and> (view (do_request cls (run m) n r M), parent (do_request cls (run m) n r M)) = spec_request q r (view M, parent M)"
proof (cases r)
  case (ReqAdd f)
  then show ?thesis using add_request_calm [OF M(1,2)] M(3) by (simp add: valid_request_def spec_request_def)
next
  case (ReqRemove k)
  have c: "calm {} M" and g: "\<forall>f \<in> set (view M). good f" and nd: "\<forall>f \<in> set (view M). \<not> f_deleted f"
    and fl: "\<not> has_wait_delete M" using M(1) by (auto simp: rest_def)
  let ?N = "do_request cls (run m) n r M"
  have N: "?N = remove_loop cls (run m) n k (map_find k (fmap M)) M" by (simp add: do_request_def ReqRemove RemoveFilter_def)
  note R = remove_id_calm [OF c M(2) g, where k = k and m = m, folded N]
  have "view ?N = filter (\<lambda>f. f_id f \<noteq> k) (view M)" using R(2) by (simp add: spec_drop_def)
  then show ?thesis using R(1,2,3) g nd fl by (simp add: rest_def spec_request_def ReqRemove)
next
  case (ReqClear w)
  then show ?thesis using clear_calm [OF M(1,2)] by (simp add: do_request_def spec_request_def)
next
  case (ReqModify k name v)
  then show ?thesis using modify_calm [OF M(1,2)] M(1) by (simp add: do_request_def spec_request_def)
next
  case (ReqEvent i e)
  then show ?thesis
    using heartbeat_calm [OF M(1,2)] other_event_calm [OF M(1)] M(1)
    by (cases "i = IDX_HEARTBEAT"; cases "i < IDX_MAX") (simp_all add: do_request_def spec_request_def)
next
  case ReqAssert
  then show ?thesis using M(3) by (simp add: valid_request_def)
qed

lemma spec_request_length: "length (fst (spec_request q r s)) \<le> Suc (length (fst s))"
proof -
  have "length (fst (merge_first q f (xs, c))) = length xs" for f xs c by (induction xs) auto
  moreover have "length (takeWhile P xs) + length (dropWhile P xs) = length xs" for P and xs :: "'x filter_obj list"
    by (metis length_append takeWhile_dropWhile_id)
  ultimately show ?thesis
    by (cases s; cases r)
      (auto simp: spec_request_def spec_add_def spec_attach_def spec_insert_def spec_drop_def spec_tick_def
        intro: le_SucI le_trans [OF length_filter_le])
qed

lemma exec_refines:
  assumes "rest good M" "\<forall>r \<in> set rs. valid_request good r" "length (view M) + length rs \<le> n"
  shows "rest good (exec cls (Suc n) rs M)
    \<and> (view (exec cls (Suc n) rs M), parent (exec cls (Suc n) rs M)) = fold (spec_request q) rs (view M, parent M)"
  using assms
proof (induction rs arbitrary: M)
  case (Cons r rs)
  let ?N = "do_request cls (run n) n r M"
  have "length (fmap M) \<le> n" using Cons.prems(3) by (simp add: view_def)
  then have R: "rest good ?N" "(view ?N, parent ?N) = spec_request q r (view M, parent M)"
    using request_refines [OF Cons.prems(1), of n r n] Cons.prems(2) by auto
  have "length (view ?N) \<le> Suc (length (view M))"
    using spec_request_length [of r "(view M, parent M)"] R(2) by (metis fst_conv)
  then show ?case using Cons.IH [OF R(1)] Cons.prems R(2) by simp
qed simp

end

text \<open>A new manager is at rest.\<close>

lemma rest_new: "rest good (man_new c)" "view (man_new c) = []" "parent (man_new c) = c"
  using man_new_ok [of c] by (simp_all add: rest_def calm_def view_def) (simp_all add: man_new_def)

end
