(* ===== verification/Archive.thy ===== *)
theory Archive
  imports Prelude
begin

text \<open>
  \<open>src/cgame/common/packetwrapper.h\<close>: the buffers that save data and packets are built in and
  read from. \<open>raw_wrapper\<close> is the \<open>archive\<close> of every \<open>Save\<close> and \<open>Load\<close>; \<open>packet_in_wrapper\<close>
  reads a packet of the database or the client. Offsets are 64-bit words, so a negative
  \<open>shift\<close> wraps around as in the code.
\<close>

subsection \<open>Saving\<close>

text \<open>\<open>SetLimit\<close> forbids one direction; the \<open>ASSERT\<close>s on it set \<open>w_fault\<close>.\<close>

datatype check_save = NO_LIMIT | SAVE_ONLY | LOAD_ONLY

record raw_wrapper =
  w_buf :: "byte list"
  w_offset :: u64
  w_check :: check_save
  w_fault :: bool

definition raw_new :: "byte list \<Rightarrow> raw_wrapper" where
  "raw_new buf = \<lparr>w_buf = buf, w_offset = 0, w_check = NO_LIMIT, w_fault = False\<rparr>"

definition SetLimit :: "check_save \<Rightarrow> raw_wrapper \<Rightarrow> raw_wrapper" where
  "SetLimit c w = w\<lparr>w_check := c\<rparr>"

definition push_byte :: "byte list \<Rightarrow> raw_wrapper \<Rightarrow> raw_wrapper" where
  "push_byte bs w = w\<lparr>w_buf := w_buf w @ bs, w_fault := w_fault w \<or> w_check w = LOAD_ONLY\<rparr>"

definition le16_bytes :: "u16 \<Rightarrow> byte list" where
  "le16_bytes v = [ucast v, ucast (drop_bit 8 v)]"

definition le64_bytes :: "u64 \<Rightarrow> byte list" where
  "le64_bytes v = le32_bytes (ucast v) @ le32_bytes (ucast (drop_bit 32 v))"

definition put_int :: "u32 \<Rightarrow> raw_wrapper \<Rightarrow> raw_wrapper" where
  "put_int v = push_byte (le32_bytes v)"

definition put_short :: "u16 \<Rightarrow> raw_wrapper \<Rightarrow> raw_wrapper" where
  "put_short v = push_byte (le16_bytes v)"

definition put_char :: "byte \<Rightarrow> raw_wrapper \<Rightarrow> raw_wrapper" where
  "put_char v = push_byte [v]"

text \<open>\<open>base_wrapper::operator<<(const bool)\<close>\<close>

definition put_bool :: "bool \<Rightarrow> raw_wrapper \<Rightarrow> raw_wrapper" where
  "put_bool v = put_char (of_bool v)"

definition put_int64 :: "u64 \<Rightarrow> raw_wrapper \<Rightarrow> raw_wrapper" where
  "put_int64 v = push_byte (le64_bytes v)"

text \<open>A C string is written with its terminator.\<close>

definition put_string :: "byte list \<Rightarrow> raw_wrapper \<Rightarrow> raw_wrapper" where
  "put_string s = push_byte (s @ [0])"

definition put_wrapper :: "raw_wrapper \<Rightarrow> raw_wrapper \<Rightarrow> raw_wrapper" where
  "put_wrapper v = push_byte (w_buf v)"

subsection \<open>Loading\<close>

text \<open>\<open>Failed\<close> is the exception of the code, \<open>OutOfBounds\<close> an access outside the buffer.\<close>

datatype wrapper_error = Failed | OutOfBounds

type_synonym 'a loader = "raw_wrapper \<Rightarrow> wrapper_error + 'a \<times> raw_wrapper"

definition w_size :: "raw_wrapper \<Rightarrow> u64" where
  "w_size w = of_nat (length (w_buf w))"

definition w_slice :: "nat \<Rightarrow> raw_wrapper \<Rightarrow> byte list" where
  "w_slice n w = take n (drop (unat (w_offset w)) (w_buf w))"

definition pop_back :: "u64 \<Rightarrow> byte list loader" where
  "pop_back n w =
     (if w_offset w + n \<le> w_size w then
        if length (w_slice (unat n) w) = unat n then Inr (w_slice (unat n) w, w\<lparr>w_offset := w_offset w + n\<rparr>)
        else Inl OutOfBounds
      else Inl Failed)"

definition pop_byte :: "u64 \<Rightarrow> byte list loader" where
  "pop_byte n w = pop_back n (w\<lparr>w_fault := w_fault w \<or> w_check w = SAVE_ONLY\<rparr>)"

definition ret :: "'a \<Rightarrow> 'a loader" where
  "ret x w = Inr (x, w)"

definition loads :: "'a loader \<Rightarrow> ('a \<Rightarrow> 'b loader) \<Rightarrow> 'b loader" where
  "loads m k w = (case m w of Inl e \<Rightarrow> Inl e | Inr (x, w') \<Rightarrow> k x w')"

definition of_le16 :: "byte list \<Rightarrow> u16" where
  "of_le16 bs = ucast (bs ! 0) OR push_bit 8 (ucast (bs ! 1))"

definition of_le64 :: "byte list \<Rightarrow> u64" where
  "of_le64 bs = ucast (of_le32 bs) OR push_bit 32 (ucast (of_le32 (drop 4 bs)))"

definition get_int :: "u32 loader" where
  "get_int = loads (pop_byte 4) (\<lambda>bs. ret (of_le32 bs))"

definition get_short :: "u16 loader" where
  "get_short = loads (pop_byte 2) (\<lambda>bs. ret (of_le16 bs))"

definition get_char :: "byte loader" where
  "get_char = loads (pop_byte 1) (\<lambda>bs. ret (bs ! 0))"

definition get_bool :: "bool loader" where
  "get_bool = loads get_char (\<lambda>b. ret (b \<noteq> 0))"

definition get_int64 :: "u64 loader" where
  "get_int64 = loads (pop_byte 8) (\<lambda>bs. ret (of_le64 bs))"

definition shift :: "32 word \<Rightarrow> raw_wrapper \<Rightarrow> bool \<times> raw_wrapper" where
  "shift n w = (let w = w\<lparr>w_offset := w_offset w + scast n\<rparr> in (w_offset w \<le> w_size w, w))"

definition is_eof :: "raw_wrapper \<Rightarrow> bool" where
  "is_eof w \<longleftrightarrow> w_size w \<le> w_offset w"

text \<open>\<open>clear\<close> leaves the offset; \<open>swap\<close> with octets resets it.\<close>

definition raw_clear :: "raw_wrapper \<Rightarrow> raw_wrapper" where
  "raw_clear w = w\<lparr>w_buf := []\<rparr>"

definition swap_octets :: "byte list \<Rightarrow> raw_wrapper \<Rightarrow> byte list \<times> raw_wrapper" where
  "swap_octets b w = (w_buf w, w\<lparr>w_buf := b, w_offset := 0\<rparr>)"

text \<open>
  \<open>get_string\<close> copies up to a terminator; \<open>len\<close> is the size of the caller's array. The loop is
  bounded by the bytes of the buffer. Behind the loop \<open>*tmp\<close> is read before \<open>cplen > 0\<close> is tested.
\<close>

fun string_loop :: "u64 \<Rightarrow> byte list \<Rightarrow> byte list \<times> byte list" where
  "string_loop len [] = ([], [])"
| "string_loop len (b # bs) =
     (if 0 < len \<and> b \<noteq> 0 then map_prod ((#) b) id (string_loop (len - 1) bs) else ([], b # bs))"

definition get_string :: "u64 \<Rightarrow> byte list loader" where
  "get_string len w =
     (if w_offset w < w_size w then
        let (s, tmp) = string_loop (len - 1) (drop (unat (w_offset w)) (w_buf w)) in
        case tmp of
          [] \<Rightarrow> Inl OutOfBounds
        | c # _ \<Rightarrow> if c = 0 then Inr (s, w\<lparr>w_offset := w_offset w + of_nat (length s) + 1\<rparr>) else Inl Failed
      else Inl Failed)"

subsection \<open>\<open>packet_in_wrapper\<close>\<close>

text \<open>An underrun asserts and gives zeros.\<close>

record packet_in_wrapper =
  pi_data :: "byte list"
  pi_offset :: nat
  pi_fault :: bool

definition packet_pop :: "nat \<Rightarrow> packet_in_wrapper \<Rightarrow> byte list \<times> packet_in_wrapper" where
  "packet_pop n p =
     (if pi_offset p + n \<le> length (pi_data p)
      then (take n (drop (pi_offset p) (pi_data p)), p\<lparr>pi_offset := pi_offset p + n\<rparr>)
      else (replicate n 0, p\<lparr>pi_fault := True\<rparr>))"

text \<open>The array gets its terminator at \<open>cplen - 1\<close> first; the terminator of the packet is not skipped.\<close>

definition packet_get_string :: "nat \<Rightarrow> packet_in_wrapper \<Rightarrow> wrapper_error + byte list \<times> packet_in_wrapper" where
  "packet_get_string len p =
     (let cplen = min (length (pi_data p) - pi_offset p) len in
      if cplen = 0 then Inl OutOfBounds
      else let s = takeWhile (\<lambda>b. b \<noteq> 0) (take (cplen - 1) (drop (pi_offset p) (pi_data p)))
           in Inr (s, p\<lparr>pi_offset := pi_offset p + length s\<rparr>))"

subsection \<open>Reading what was written\<close>

definition w_rest :: "raw_wrapper \<Rightarrow> byte list" where
  "w_rest w = drop (unat (w_offset w)) (w_buf w)"

definition w_ok :: "raw_wrapper \<Rightarrow> bool" where
  "w_ok w \<longleftrightarrow> unat (w_offset w) \<le> length (w_buf w) \<and> length (w_buf w) < 2 ^ 64 \<and> w_check w \<noteq> SAVE_ONLY"

definition advance :: "nat \<Rightarrow> raw_wrapper \<Rightarrow> raw_wrapper" where
  "advance n w = w\<lparr>w_offset := w_offset w + of_nat n\<rparr>"

lemma unat_of_nat64: "n < 2 ^ 64 \<Longrightarrow> unat (of_nat n :: u64) = n"
  by (simp add: unat_of_nat)

lemma advance_offset:
  assumes "w_ok w" "n \<le> length (w_rest w)"
  shows "unat (w_offset w + of_nat n) = unat (w_offset w) + n"
proof -
  have n: "unat (w_offset w) + n < 2 ^ 64" using assms unfolding w_ok_def w_rest_def length_drop by linarith
  then have "unat (of_nat n :: u64) = n" by (simp add: unat_of_nat64)
  then show ?thesis using n by (simp add: unat_word_ariths)
qed

lemma advance_ok:
  assumes "w_ok w" "n \<le> length (w_rest w)"
  shows "w_ok (advance n w)" "w_rest (advance n w) = drop n (w_rest w)"
proof -
  have "unat (w_offset w) + n \<le> length (w_buf w)" using assms unfolding w_ok_def w_rest_def length_drop by linarith
  then show "w_ok (advance n w)" "w_rest (advance n w) = drop n (w_rest w)"
    using assms(1) advance_offset [OF assms] by (simp_all add: w_ok_def advance_def w_rest_def add.commute)
qed

lemma pop_byte_ok:
  assumes "w_ok w" "n \<le> length (w_rest w)"
  shows "pop_byte (of_nat n) w = Inr (take n (w_rest w), advance n w)"
proof -
  have n: "n < 2 ^ 64" "unat (w_offset w) + n \<le> length (w_buf w)" "length (w_buf w) < 2 ^ 64"
    using assms by (auto simp: w_ok_def w_rest_def)
  have "w_offset w + of_nat n \<le> w_size w"
    using n advance_offset [OF assms] unat_of_nat64 [OF n(3)] by (simp add: word_le_nat_alt w_size_def)
  moreover have "unat (of_nat n :: u64) = n" using n(1) by (rule unat_of_nat64)
  ultimately show ?thesis
    using n(2) assms(1) by (simp add: w_ok_def pop_byte_def pop_back_def w_slice_def w_rest_def w_size_def advance_def)
qed

text \<open>An underrun throws; with an offset inside the buffer nothing outside it is read.\<close>

lemma pop_byte_short:
  assumes "w_ok w" "length (w_rest w) < n" "length (w_buf w) + n < 2 ^ 64"
  shows "pop_byte (of_nat n) w = Inl Failed"
proof -
  have n: "unat (of_nat n :: u64) = n" using assms(3) by (intro unat_of_nat64) simp
  have "unat (w_offset w + of_nat n) = unat (w_offset w) + n"
    using assms(1,3) n by (simp add: w_ok_def unat_word_ariths)
  then have "\<not> w_offset w + of_nat n \<le> w_size w"
    using assms unat_of_nat64 [of "length (w_buf w)"]
    by (simp add: word_le_nat_alt w_size_def w_rest_def w_ok_def)
  then show ?thesis by (simp add: pop_byte_def pop_back_def w_size_def)
qed

lemma of_le16_le16_bytes: "of_le16 (le16_bytes v @ rest) = v"
  unfolding of_le16_def le16_bytes_def
  by (rule bit_word_eqI) (auto simp: bit_or_iff bit_push_bit_iff bit_ucast_iff bit_drop_bit_eq)

lemma of_le64_le64_bytes: "of_le64 (le64_bytes v @ rest) = v"
proof -
  have "drop 4 (le64_bytes v @ rest) = le32_bytes (ucast (drop_bit 32 v)) @ rest"
    by (simp add: le64_bytes_def)
  moreover have "of_le32 (le64_bytes v @ rest) = ucast v" by (simp add: le64_bytes_def)
  ultimately show ?thesis unfolding of_le64_def
    by (simp only: of_le32_le32_bytes)
      (rule bit_word_eqI, auto simp: bit_or_iff bit_push_bit_iff bit_ucast_iff bit_drop_bit_eq)
qed

lemma length_le_bytes [simp]: "length (le16_bytes v) = 2" "length (le64_bytes v') = 8"
  by (simp_all add: le16_bytes_def le64_bytes_def)

text \<open>A loader that finds its bytes.\<close>

definition reads :: "'a loader \<Rightarrow> byte list \<Rightarrow> 'a \<Rightarrow> bool" where
  "reads m bs x \<longleftrightarrow> (\<forall>w. w_ok w \<longrightarrow> take (length bs) (w_rest w) = bs \<longrightarrow> m w = Inr (x, advance (length bs) w))"

lemma readsD: "reads m bs x \<Longrightarrow> w_ok w \<Longrightarrow> w_rest w = bs @ rest \<Longrightarrow> m w = Inr (x, advance (length bs) w)"
  by (simp add: reads_def)

lemma advance_advance: "advance m (advance n w) = advance (n + m) w"
  by (simp add: advance_def add.assoc)

lemma reads_pop: "reads (pop_byte (of_nat (length bs))) bs bs"
  unfolding reads_def
proof (intro allI impI)
  fix w assume w: "w_ok w" "take (length bs) (w_rest w) = bs"
  then have "length bs \<le> length (w_rest w)" by (metis length_take min.cobounded1)
  then show "pop_byte (of_nat (length bs)) w = Inr (bs, advance (length bs) w)"
    using pop_byte_ok [OF w(1)] w(2) by simp
qed

lemma reads_loads:
  assumes "reads m as x" "reads (k x) bs y"
  shows "reads (loads m k) (as @ bs) y"
  unfolding reads_def
proof (intro allI impI)
  fix w assume w: "w_ok w" "take (length (as @ bs)) (w_rest w) = as @ bs"
  then obtain rest where r: "w_rest w = as @ bs @ rest"
    by (metis append_assoc append_take_drop_id)
  have "m w = Inr (x, advance (length as) w)" using readsD [OF assms(1) w(1)] r by simp
  moreover have "w_ok (advance (length as) w)" "w_rest (advance (length as) w) = bs @ rest"
    using advance_ok [OF w(1), of "length as"] r by simp_all
  ultimately show "loads m k w = Inr (y, advance (length (as @ bs)) w)"
    using readsD [OF assms(2)] by (simp add: loads_def advance_advance)
qed

lemma reads_ret: "reads (ret x) [] x"
  by (simp add: reads_def ret_def advance_def)

lemma reads_map: "reads m bs x \<Longrightarrow> y = f x \<Longrightarrow> reads (loads m (\<lambda>x. ret (f x))) bs y"
  using reads_loads [of m bs x "\<lambda>x. ret (f x)" "[]" y] reads_ret [of y] by simp

lemma reads_int: "reads get_int (le32_bytes v) v"
  unfolding get_int_def using reads_pop [of "le32_bytes v"] by (auto intro: reads_map)

lemma reads_short: "reads get_short (le16_bytes v) v"
  unfolding get_short_def using reads_pop [of "le16_bytes v"] of_le16_le16_bytes [of v "[]"] by (auto intro: reads_map)

lemma reads_char: "reads get_char [v] v"
  unfolding get_char_def using reads_pop [of "[v]"] by (auto intro: reads_map)

lemma reads_bool: "reads get_bool [of_bool v] v"
  unfolding get_bool_def by (rule reads_map [OF reads_char]) simp

lemma reads_int64: "reads get_int64 (le64_bytes v) v"
  unfolding get_int64_def using reads_pop [of "le64_bytes v"] of_le64_le64_bytes [of v "[]"] by (auto intro: reads_map)

lemma string_loop_stop:
  assumes "0 \<notin> set s" "length s \<le> n" "n < 2 ^ 64"
  shows "string_loop (of_nat n) (s @ 0 # rest) = (s, 0 # rest)"
  using assms
proof (induction s arbitrary: n)
  case (Cons c s)
  obtain m where m: "n = Suc m" using Cons.prems(2) by (cases n) auto
  have "(0 :: u64) < of_nat n"
    using m Cons.prems(3) unat_of_nat64 [of n] by (simp add: word_less_nat_alt)
  moreover have "(of_nat n :: u64) - 1 = of_nat m" using m by simp
  ultimately show ?case using Cons.prems Cons.IH [of m] m by simp
qed simp

lemma reads_string:
  assumes "0 \<notin> set s" "length s < n" "n < 2 ^ 64"
  shows "reads (get_string (of_nat n)) (s @ [0]) s"
  unfolding reads_def
proof (intro allI impI)
  fix w assume w: "w_ok w" "take (length (s @ [0])) (w_rest w) = s @ [0]"
  then obtain rest where r: "w_rest w = s @ 0 # rest"
    by (metis append_Cons append_Nil append_assoc append_take_drop_id)
  have lt: "unat (w_offset w) < length (w_buf w)"
    using arg_cong [OF r, of length] by (simp add: w_rest_def)
  then have "w_offset w < w_size w"
    using w(1) unat_of_nat64 [of "length (w_buf w)"] by (simp add: word_less_nat_alt w_size_def w_ok_def)
  moreover have "(of_nat n :: u64) - 1 = of_nat (n - 1)" using assms(2) by (simp add: of_nat_diff)
  moreover have "string_loop (of_nat (n - 1)) (s @ 0 # rest) = (s, 0 # rest)"
    using assms by (intro string_loop_stop) auto
  ultimately show "get_string (of_nat n) w = Inr (s, advance (length (s @ [0])) w)"
    using r by (simp add: get_string_def w_rest_def advance_def)
qed

subsection \<open>Sequences of values\<close>

datatype wval = VInt u32 | VShort u16 | VChar byte | VBool bool | VInt64 u64 | VString "byte list"

datatype vtype = TInt | TShort | TChar | TBool | TInt64 | TString nat

fun put_value :: "wval \<Rightarrow> raw_wrapper \<Rightarrow> raw_wrapper" where
  "put_value (VInt v) = put_int v"
| "put_value (VShort v) = put_short v"
| "put_value (VChar v) = put_char v"
| "put_value (VBool v) = put_bool v"
| "put_value (VInt64 v) = put_int64 v"
| "put_value (VString v) = put_string v"

fun get_value :: "vtype \<Rightarrow> wval loader" where
  "get_value TInt = loads get_int (\<lambda>v. ret (VInt v))"
| "get_value TShort = loads get_short (\<lambda>v. ret (VShort v))"
| "get_value TChar = loads get_char (\<lambda>v. ret (VChar v))"
| "get_value TBool = loads get_bool (\<lambda>v. ret (VBool v))"
| "get_value TInt64 = loads get_int64 (\<lambda>v. ret (VInt64 v))"
| "get_value (TString n) = loads (get_string (of_nat n)) (\<lambda>v. ret (VString v))"

fun get_values :: "vtype list \<Rightarrow> wval list loader" where
  "get_values [] = ret []"
| "get_values (t # ts) = loads (get_value t) (\<lambda>v. loads (get_values ts) (\<lambda>vs. ret (v # vs)))"

text \<open>\<open>fits v t\<close>: \<open>v\<close> is read as a \<open>t\<close>; a string needs room for its terminator in the caller's array.\<close>

fun fits :: "wval \<Rightarrow> vtype \<Rightarrow> bool" where
  "fits (VInt _) TInt = True"
| "fits (VShort _) TShort = True"
| "fits (VChar _) TChar = True"
| "fits (VBool _) TBool = True"
| "fits (VInt64 _) TInt64 = True"
| "fits (VString s) (TString n) \<longleftrightarrow> 0 \<notin> set s \<and> length s < n \<and> n < 2 ^ 64"
| "fits _ _ = False"

fun encode :: "wval \<Rightarrow> byte list" where
  "encode (VInt v) = le32_bytes v"
| "encode (VShort v) = le16_bytes v"
| "encode (VChar v) = [v]"
| "encode (VBool v) = [of_bool v]"
| "encode (VInt64 v) = le64_bytes v"
| "encode (VString s) = s @ [0]"

lemma push_same: "push_byte bs w = w\<lparr>w_buf := w_buf w @ bs, w_fault := w_fault w \<or> w_check w = LOAD_ONLY\<rparr>"
  by (simp add: push_byte_def)

lemma put_value_push: "put_value v = push_byte (encode v)"
  by (cases v) (simp_all add: put_int_def put_short_def put_char_def put_bool_def put_int64_def put_string_def)

lemma put_values_push: "vs \<noteq> [] \<Longrightarrow> fold put_value vs w = push_byte (concat (map encode vs)) w"
proof (induction vs arbitrary: w)
  case (Cons v vs)
  then show ?case by (cases "vs = []") (simp_all add: put_value_push push_byte_def)
qed simp

lemma reads_value:
  assumes "fits v t"
  shows "reads (get_value t) (encode v) v"
proof (cases "(v, t)" rule: fits.cases)
  case (4 b)
  then show ?thesis using reads_map [OF reads_bool [of b], of "VBool b" VBool] by simp
next
  case (6 s n)
  then show ?thesis using assms reads_map [OF reads_string [of s n], of "VString s" VString] by simp
qed (use assms in \<open>auto intro: reads_map reads_int reads_short reads_char reads_int64\<close>)

lemma reads_values: "list_all2 fits vs ts \<Longrightarrow> reads (get_values ts) (concat (map encode vs)) vs"
proof (induction rule: list_all2_induct)
  case (Cons v vs t ts)
  then show ?case
    by (simp add: reads_loads [OF reads_value] reads_map)
qed (simp add: reads_ret)

text \<open>
  Loading values of fixed size from any bytes: either they are all there, or the exception is
  thrown; nothing outside the buffer is read.
\<close>

fun size_of :: "vtype \<Rightarrow> nat" where
  "size_of TInt = 4"
| "size_of TShort = 2"
| "size_of TChar = 1"
| "size_of TBool = 1"
| "size_of TInt64 = 8"
| "size_of (TString _) = 0"

fun fixed :: "vtype \<Rightarrow> bool" where
  "fixed (TString _) = False"
| "fixed _ = True"

definition takes :: "'a loader \<Rightarrow> nat \<Rightarrow> ('a \<Rightarrow> bool) \<Rightarrow> bool" where
  "takes m n P \<longleftrightarrow> (\<forall>w. w_ok w \<longrightarrow> length (w_buf w) + n < 2 ^ 64 \<longrightarrow>
     (if n \<le> length (w_rest w) then \<exists>x. m w = Inr (x, advance n w) \<and> P x else m w = Inl Failed))"

lemma takes_pop: "takes (pop_byte (of_nat n)) n (\<lambda>_. True)"
  by (simp add: takes_def pop_byte_ok pop_byte_short)

lemma takes_map: "takes m n P \<Longrightarrow> (\<And>x. P x \<Longrightarrow> Q (f x)) \<Longrightarrow> takes (loads m (\<lambda>x. ret (f x))) n Q"
  by (fastforce simp: takes_def loads_def ret_def)

lemma takes_loads:
  assumes "takes m n P" "\<And>x. P x \<Longrightarrow> takes (k x) n' Q"
  shows "takes (loads m k) (n + n') Q"
  unfolding takes_def
proof (intro allI impI)
  fix w assume w: "w_ok w" "length (w_buf w) + (n + n') < 2 ^ 64"
  then have w1: "length (w_buf w) + n < 2 ^ 64" by simp
  note m = assms(1) [unfolded takes_def, rule_format, OF w(1) w1]
  show "if n + n' \<le> length (w_rest w) then \<exists>x. loads m k w = Inr (x, advance (n + n') w) \<and> Q x
        else loads m k w = Inl Failed"
  proof (cases "n \<le> length (w_rest w)")
    case True
    then obtain x where x: "m w = Inr (x, advance n w)" "P x" using m by auto
    have a: "w_ok (advance n w)" "w_rest (advance n w) = drop n (w_rest w)" using advance_ok [OF w(1) True] .
    have "length (w_buf (advance n w)) + n' < 2 ^ 64" using w(2) by (simp add: advance_def)
    then show ?thesis
      using assms(2) [OF x(2), unfolded takes_def, rule_format, OF a(1)] x(1) a(2) True
      by (auto simp: loads_def advance_advance split: if_splits)
  qed (use m in \<open>simp add: loads_def\<close>)
qed

lemma takes_value: "fixed t \<Longrightarrow> takes (get_value t) (size_of t) (\<lambda>v. fits v t)"
  using takes_pop [of 4] takes_pop [of 2] takes_pop [of 1] takes_pop [of 8]
  by (cases t) (auto simp: get_int_def get_short_def get_char_def get_bool_def get_int64_def intro!: takes_map)

lemma takes_values:
  "\<forall>t \<in> set ts. fixed t \<Longrightarrow> takes (get_values ts) (sum_list (map size_of ts)) (\<lambda>vs. list_all2 fits vs ts)"
proof (induction ts)
  case Nil
  then show ?case by (simp add: takes_def ret_def advance_def)
next
  case (Cons t ts)
  have "takes (loads (get_values ts) (\<lambda>vs. ret (v # vs))) (sum_list (map size_of ts)) (\<lambda>vs. list_all2 fits vs (t # ts))"
    if "fits v t" for v
    using that by (intro takes_map [OF Cons.IH]) (use Cons.prems in auto)
  then show ?case
    unfolding get_values.simps list.map sum_list.Cons by (intro takes_loads [OF takes_value]) (use Cons.prems in auto)
qed

subsection \<open>Properties\<close>

text \<open>
  (C24) What a sequence of \<open>operator<<\<close> wrote behind the current contents is what the
  \<open>operator>>\<close> and \<open>get_string\<close> of the same types read there, up to the end of the buffer.
\<close>

theorem archive_roundtrip:
  assumes "list_all2 fits vs ts" "w_check w = NO_LIMIT"
    and "length (w_buf w) + length (concat (map encode vs)) < 2 ^ 64"
  shows "get_values ts ((fold put_value vs w)\<lparr>w_offset := w_size w\<rparr>)
    = Inr (vs, (fold put_value vs w)\<lparr>w_offset := w_size (fold put_value vs w)\<rparr>)"
proof -
  let ?bs = "concat (map encode vs)"
  let ?w = "(fold put_value vs w)\<lparr>w_offset := w_size w\<rparr>"
  have f: "w_buf (fold put_value vs w) = w_buf w @ ?bs" "w_check (fold put_value vs w) = w_check w"
    by (cases "vs = []"; simp add: put_values_push push_byte_def)+
  have o: "unat (w_size w) = length (w_buf w)" using assms(3) by (simp add: w_size_def unat_of_nat64)
  have ok: "w_ok ?w" "w_rest ?w = ?bs @ []" using f o assms(2,3) by (simp_all add: w_ok_def w_rest_def)
  have "get_values ts ?w = Inr (vs, advance (length ?bs) ?w)"
    by (rule readsD [OF reads_values [OF assms(1)] ok])
  then show ?thesis using f by (simp add: advance_def w_size_def)
qed

lemma archive_roundtrip_witness:
  "get_values [TInt, TBool, TString 8] ((fold put_value [VInt 7, VBool True, VString [65, 66]] (raw_new [1]))\<lparr>w_offset := 1\<rparr>)
    = Inr ([VInt 7, VBool True, VString [65, 66]], (fold put_value [VInt 7, VBool True, VString [65, 66]] (raw_new [1]))\<lparr>w_offset := 9\<rparr>)"
  using archive_roundtrip [of "[VInt 7, VBool True, VString [65, 66]]" "[TInt, TBool, TString 8]" "raw_new [1]"]
  by (simp add: raw_new_def put_value_push push_byte_def w_size_def)

text \<open>
  (C25) Loading values of fixed size from an arbitrary buffer: all of them are there and exactly
  their bytes are consumed, or the underrun is thrown; nothing outside the buffer is read.
\<close>

theorem archive_load_total:
  assumes "\<forall>t \<in> set ts. fixed t" "unat (w_offset w) \<le> length (w_buf w)" "w_check w \<noteq> SAVE_ONLY"
    and "length (w_buf w) + sum_list (map size_of ts) < 2 ^ 64"
  shows "if unat (w_offset w) + sum_list (map size_of ts) \<le> length (w_buf w)
    then \<exists>vs. get_values ts w = Inr (vs, w\<lparr>w_offset := w_offset w + of_nat (sum_list (map size_of ts))\<rparr>) \<and> list_all2 fits vs ts
    else get_values ts w = Inl Failed"
proof -
  have ok: "w_ok w" using assms(2-4) by (simp add: w_ok_def)
  have "sum_list (map size_of ts) \<le> length (w_rest w) \<longleftrightarrow> unat (w_offset w) + sum_list (map size_of ts) \<le> length (w_buf w)"
    unfolding w_rest_def length_drop using assms(2) by linarith
  then show ?thesis
    using takes_values [OF assms(1), unfolded takes_def, rule_format, OF ok assms(4)] unfolding advance_def by (simp only:)
qed

lemma archive_load_total_witness:
  "get_values [TInt, TShort] (raw_new [1, 0, 0, 0, 2]) = Inl Failed"
  using archive_load_total [of "[TInt, TShort]" "raw_new [1, 0, 0, 0, 2]"] by (simp add: raw_new_def)

text \<open>An unterminated string is read past the end of the buffer.\<close>

lemma get_string_overread: "get_string 10 (raw_new [65, 66]) = Inl OutOfBounds"
  by (simp add: get_string_def raw_new_def w_size_def)

end
