(* ===== verification/FilterSave.thy ===== *)
theory FilterSave
  imports FilterSpec Archive
begin

text \<open>
  Saving and loading filters: \<open>filter::Save\<close> and \<open>Load\<close> of \<open>src/cgame/gs/filter.h\<close>,
  \<open>SaveInstance\<close> and \<open>LoadInstance\<close> of \<open>substance.h\<close>, and \<open>Save\<close>, \<open>SaveSpecFilters\<close>, \<open>Load\<close>,
  \<open>Clear\<close>, \<open>Init\<close> and \<open>DBInit\<close> of \<open>filter_man\<close>. A player who changes server is saved with \<open>Save\<close>, one who
  logs out with \<open>SaveSpecFilters\<close>; \<open>DBInit\<close> attaches the loaded filters to the new owner.
\<close>

subsection \<open>Filters in an archive\<close>

text \<open>
  The registry of the classes: the class number of a filter, what its class appends to
  \<open>filter::Save\<close>, and the \<open>Load\<close> of the class with a number, \<open>None\<close> if there is no such class.
\<close>

record 'x registry =
  r_guid :: "'x \<Rightarrow> u32"
  r_save :: "'x \<Rightarrow> wval list"
  r_load :: "u32 \<Rightarrow> 'x loader option"

definition filter_Save :: "'x registry \<Rightarrow> 'x filter_obj \<Rightarrow> wval list" where
  "filter_Save R f =
     [VInt (f_mask f), VInt (word_of_int (f_id f)), VBool (f_active f), VBool (f_deleted f)] @ r_save R (f_data f)"

definition SaveInstance :: "'x registry \<Rightarrow> 'x filter_obj \<Rightarrow> raw_wrapper \<Rightarrow> raw_wrapper" where
  "SaveInstance R f = fold put_value (VInt (r_guid R (f_data f)) # filter_Save R f)"

definition filter_Load :: "'x loader \<Rightarrow> 'x filter_obj loader" where
  "filter_Load m =
     loads get_int (\<lambda>flags. loads get_int (\<lambda>i. loads get_bool (\<lambda>act. loads get_bool (\<lambda>del. loads m (\<lambda>x.
       ret \<lparr>f_mask = flags, f_id = sint i, f_active = act, f_deleted = del, f_data = x\<rparr>)))))"

text \<open>An unknown class fails an assertion and gives no object.\<close>

definition LoadInstance :: "'x registry \<Rightarrow> 'x filter_obj option loader" where
  "LoadInstance R =
     loads get_int (\<lambda>guid. case r_load R guid of
       None \<Rightarrow> (\<lambda>w. Inr (None, w\<lparr>w_fault := True\<rparr>))
     | Some m \<Rightarrow> loads (filter_Load m) (\<lambda>f. ret (Some f)))"

subsection \<open>The manager\<close>

definition save_filters :: "'x registry \<Rightarrow> 'x filter_obj list \<Rightarrow> raw_wrapper \<Rightarrow> raw_wrapper" where
  "save_filters R fs w = fold (SaveInstance R) fs (put_int64 (of_nat (length fs)) w)"

definition man_Save ::
  "'x registry \<Rightarrow> ('x, 'c, 'e) filter_class \<Rightarrow> ('x, 'c, 'e) runner \<Rightarrow> nat \<Rightarrow> ('x, 'c) filter_man \<Rightarrow> raw_wrapper
     \<Rightarrow> ('x, 'c) filter_man \<times> raw_wrapper" where
  "man_Save R cls run n M w =
     (let M = DelayAddFilter cls run n M;
          M = RemoveDeletedFilter cls run n M;
          M = f_assert (list_all (\<lambda>e. objs M (snd e) \<noteq> None) (fmap M)) M
      in (M, save_filters R (filter (\<lambda>f. f_mask f AND MASK_NOSAVE = 0) (view M)) w))"

definition SaveSpecFilters ::
  "'x registry \<Rightarrow> ('x, 'c, 'e) filter_class \<Rightarrow> ('x, 'c, 'e) runner \<Rightarrow> nat \<Rightarrow> u32 \<Rightarrow> ('x, 'c) filter_man \<Rightarrow> raw_wrapper
     \<Rightarrow> ('x, 'c) filter_man \<times> raw_wrapper" where
  "SaveSpecFilters R cls run n m M w =
     (let M = RemoveDeletedFilter cls run n M;
          M = f_assert (list_all (\<lambda>e. objs M (snd e) \<noteq> None) (fmap M)) M
      in (M, save_filters R (filter (\<lambda>f. f_mask f AND m \<noteq> 0) (view M)) w))"

definition RawAddFilter :: "'x filter_obj \<Rightarrow> ('x, 'c) filter_man \<Rightarrow> ('x, 'c) filter_man" where
  "RawAddFilter f M =
     (let (a, M) = new_filter f M
      in M\<lparr>fmap := map_insert (f_id f) a (fmap M), pool := pool_insert a (f_mask f) (pool M)\<rparr>)"

definition man_Clear :: "('x, 'c) filter_man \<Rightarrow> ('x, 'c) filter_man" where
  "man_Clear M =
     (fold delete_filter (wait_for_insert M) (fold delete_filter (map snd (fmap M)) M))
       \<lparr>pool := replicate IDX_MAX [], wait_for_insert := [], delay_add := False\<rparr>"

fun load_filters :: "'x registry \<Rightarrow> nat \<Rightarrow> ('x, 'c) filter_man \<Rightarrow> ('x, 'c) filter_man loader" where
  "load_filters R 0 M = ret M"
| "load_filters R (Suc n) M =
     loads (LoadInstance R) (\<lambda>f. load_filters R n (case f of None \<Rightarrow> fail M | Some f \<Rightarrow> RawAddFilter f M))"

definition man_Load :: "'x registry \<Rightarrow> ('x, 'c) filter_man \<Rightarrow> ('x, 'c) filter_man loader" where
  "man_Load R M =
     (let M = man_Clear (f_assert (fmap M = []) M)
      in loads get_int64 (\<lambda>size. loads (load_filters R (unat size) M)
           (\<lambda>M. ret (f_assert (length (fmap M) = unat size) M))))"

text \<open>\<open>Init\<close> gives the filters a new owner; \<open>DBInit\<close> also attaches them.\<close>

definition man_Init :: "'c \<Rightarrow> ('x, 'c) filter_man \<Rightarrow> ('x, 'c) filter_man" where
  "man_Init c M = M\<lparr>parent := c\<rparr>"

fun dbinit_loop ::
  "('x, 'c, 'e) filter_class \<Rightarrow> ('x, 'c, 'e) runner \<Rightarrow> nat \<Rightarrow> nat option \<Rightarrow> ('x, 'c) filter_man \<Rightarrow> ('x, 'c) filter_man" where
  "dbinit_loop cls run n None M = M"
| "dbinit_loop cls run 0 (Some a) M = fail M"
| "dbinit_loop cls run (Suc n) (Some a) M =
     (case objs M a of
        None \<Rightarrow> fail M
      | Some f \<Rightarrow>
          (let (d, c, rs) = on_attach cls f (parent M);
               M = run rs (M\<lparr>objs := (objs M)(a \<mapsto> f\<lparr>f_data := d\<rparr>), parent := c\<rparr>)
           in if map_key a (fmap M) = None then fail M else dbinit_loop cls run n (map_next a (fmap M)) M))"

definition man_DBInit ::
  "('x, 'c, 'e) filter_class \<Rightarrow> ('x, 'c, 'e) runner \<Rightarrow> nat \<Rightarrow> 'c \<Rightarrow> ('x, 'c) filter_man \<Rightarrow> ('x, 'c) filter_man" where
  "man_DBInit cls run n c M = dbinit_loop cls run n (map_begin (fmap M)) (man_Init c M)"

subsection \<open>Loading what was saved\<close>

text \<open>A filter whose class is registered under its number and reads what it wrote.\<close>

definition saves :: "'x registry \<Rightarrow> 'x filter_obj \<Rightarrow> bool" where
  "saves R f \<longleftrightarrow> sint (word_of_int (f_id f) :: u32) = f_id f
     \<and> (\<exists>m. r_load R (r_guid R (f_data f)) = Some m \<and> reads m (concat (map encode (r_save R (f_data f)))) (f_data f))"

definition instance_bytes :: "'x registry \<Rightarrow> 'x filter_obj \<Rightarrow> byte list" where
  "instance_bytes R f = concat (map encode (VInt (r_guid R (f_data f)) # filter_Save R f))"

lemma reads_instance:
  assumes "saves R f"
  shows "reads (LoadInstance R) (instance_bytes R f) (Some f)"
proof -
  obtain m where m: "r_load R (r_guid R (f_data f)) = Some m" "reads m (concat (map encode (r_save R (f_data f)))) (f_data f)"
    using assms by (auto simp: saves_def)
  have f: "\<lparr>f_mask = f_mask f, f_id = sint (word_of_int (f_id f) :: u32), f_active = f_active f, f_deleted = f_deleted f,
      f_data = f_data f\<rparr> = f"
    using assms by (simp add: saves_def)
  have "reads (filter_Load m) (concat (map encode (filter_Save R f))) f"
  proof -
    have bs: "concat (map encode (filter_Save R f)) = le32_bytes (f_mask f) @ le32_bytes (word_of_int (f_id f))
        @ [of_bool (f_active f)] @ [of_bool (f_deleted f)] @ concat (map encode (r_save R (f_data f)))"
      by (simp add: filter_Save_def)
    show ?thesis unfolding filter_Load_def bs
    by (rule reads_loads [OF reads_int], rule reads_loads [OF reads_int], rule reads_loads [OF reads_bool],
        rule reads_loads [OF reads_bool], rule reads_map [OF m(2)]) (rule f [symmetric])
  qed
  then show ?thesis
    unfolding LoadInstance_def instance_bytes_def list.map concat.simps encode.simps
    by (intro reads_loads [OF reads_int]) (simp add: m(1) reads_map)
qed

lemma reads_filters:
  assumes "\<forall>f \<in> set fs. saves R f"
  shows "reads (load_filters R (length fs) M) (concat (map (instance_bytes R) fs)) (fold RawAddFilter fs M)"
  using assms
proof (induction fs arbitrary: M)
  case Nil
  then show ?case by (simp add: reads_ret)
next
  case (Cons f fs)
  then have "reads (LoadInstance R) (instance_bytes R f) (Some f)" by (intro reads_instance) simp
  then show ?case using Cons by (simp add: reads_loads)
qed

lemma save_filters_push:
  "save_filters R fs w = push_byte (le64_bytes (of_nat (length fs)) @ concat (map (instance_bytes R) fs)) w"
proof -
  have S: "SaveInstance R f w = push_byte (instance_bytes R f) w" for f w
    unfolding SaveInstance_def instance_bytes_def by (rule put_values_push) simp
  have "fold (SaveInstance R) fs (push_byte bs w) = push_byte (bs @ concat (map (instance_bytes R) fs)) w" for bs w
    by (induction fs arbitrary: bs w) (simp_all add: S push_byte_def)
  then show ?thesis by (simp add: save_filters_def put_int64_def)
qed

text \<open>The loaded manager.\<close>

definition sorted_ids :: "'x filter_obj list \<Rightarrow> bool" where
  "sorted_ids fs \<longleftrightarrow> sorted (map f_id fs)"

lemma raw_add:
  assumes "rest good M" "good f" "\<not> f_deleted f"
  shows "rest good (RawAddFilter f M)" "view (RawAddFilter f M) = spec_insert f (view M)"
    "parent (RawAddFilter f M) = parent M" "length (fmap (RawAddFilter f M)) = Suc (length (fmap M))"
proof -
  let ?a = "fbrk M" and ?M = "RawAddFilter f M"
  have c: "calm {} M" using assms by (simp add: rest_def)
  then have ok: "man_ok {} {} {} M" by (simp add: calm_def)
  have M: "?M = M\<lparr>objs := (objs M)(?a \<mapsto> f), fbrk := ?a + 1, fmap := map_insert (f_id f) ?a (fmap M),
      pool := pool_insert ?a (f_mask f) (pool M)\<rparr>"
    by (simp add: RawAddFilter_def new_filter_def)
  have fresh: "?a \<notin> dom (objs M)" using ok unfolding man_ok_def by auto
  then have a: "?a \<notin> addrs M" using man_okD(7) [OF ok] by auto
  have e: "snd x \<noteq> ?a" if "x \<in> set (fmap M)" for x using a addr_setI [OF that] by auto
  have p: "?a \<notin> set (pool M ! i)" if "i < IDX_MAX" for i using man_okD(6) [OF ok that] a by auto
  have "man_ok {} {} {} ?M"
    using ok a fresh p e pool_insert_nth map_insert_distinct map_insert_sorted unfolding M man_ok_def
    by (elim conjE, intro conjI) (auto intro: less_SucI)
  then have calm: "calm {} ?M" using c by (simp add: calm_def M)
  show v: "view ?M = spec_insert f (view M)"
    by (rule view_insert [OF c a]) (simp_all add: M)
  show "parent ?M = parent M" by (simp add: M)
  show "rest good ?M"
    using assms calm unfolding rest_def v by (auto simp: spec_insert_def M dest: set_takeWhileD set_dropWhileD)
  show "length (fmap ?M) = Suc (length (fmap M))"
    unfolding M map_insert_def by simp (metis add_Suc_right length_append takeWhile_dropWhile_id)
qed

lemma raw_adds:
  assumes "rest good M" "\<forall>f \<in> set fs. good f \<and> \<not> f_deleted f"
  shows "rest good (fold RawAddFilter fs M) \<and> view (fold RawAddFilter fs M) = fold spec_insert fs (view M)
    \<and> parent (fold RawAddFilter fs M) = parent M \<and> length (fmap (fold RawAddFilter fs M)) = length fs + length (fmap M)"
  using assms by (induction fs arbitrary: M) (simp_all add: raw_add)

lemma insert_sorted:
  assumes "sorted (map f_id (xs @ fs))"
  shows "fold spec_insert fs xs = xs @ fs"
  using assms
proof (induction fs arbitrary: xs)
  case (Cons f fs)
  have "\<forall>g \<in> set xs. f_id g \<le> f_id f" using Cons.prems by (auto simp: sorted_append)
  then have "takeWhile (\<lambda>g. f_id g \<le> f_id f) xs = xs" "dropWhile (\<lambda>g. f_id g \<le> f_id f) xs = []"
    by (simp_all add: takeWhile_eq_all_conv dropWhile_eq_Nil_conv)
  then have "spec_insert f xs = xs @ [f]" by (simp add: spec_insert_def)
  then show ?case using Cons.IH [of "xs @ [f]"] Cons.prems by simp
qed simp

lemma man_Clear_new: "man_Clear (f_assert (fmap (man_new c) = []) (man_new c)) = man_new c"
  by (simp add: man_Clear_def f_assert_def man_new_def)

lemma load_saved:
  fixes c :: 'c and fs :: "'x filter_obj list"
  assumes fs: "\<forall>f \<in> set fs. saves R f \<and> good f \<and> \<not> f_deleted f" "sorted (map f_id fs)" "length fs < 2 ^ 64"
    and w: "w_ok w" "w_rest w = le64_bytes (of_nat (length fs)) @ concat (map (instance_bytes R) fs) @ post"
  obtains N where "man_Load R (man_new c) w = Inr (N, advance (8 + length (concat (map (instance_bytes R) fs))) w)"
    "rest good N" "view N = fs" "parent N = c"
proof -
  let ?N = "fold RawAddFilter fs (man_new c) :: ('x, 'c) filter_man"
  have un: "unat (of_nat (length fs) :: u64) = length fs" by (rule unat_of_nat64 [OF fs(3)])
  have fm: "fmap (man_new c) = []" by (simp add: man_new_def)
  have N: "rest good ?N \<and> view ?N = fold spec_insert fs [] \<and> parent ?N = c \<and> length (fmap ?N) = length fs"
    using raw_adds [OF rest_new(1), of fs good c] fs(1) by (simp add: rest_new(2,3) fm)
  have "reads (man_Load R (man_new c)) (le64_bytes (of_nat (length fs)) @ concat (map (instance_bytes R) fs)) ?N"
    unfolding man_Load_def man_Clear_new Let_def
  proof (rule reads_loads [OF reads_int64], unfold un, rule reads_map)
    show "reads (load_filters R (length fs) (man_new c)) (concat (map (instance_bytes R) fs)) ?N"
      using fs(1) by (intro reads_filters) simp
    show "?N = f_assert (length (fmap ?N) = length fs) ?N" using N by (simp add: f_assert_def)
  qed
  from readsD [OF this w(1), of post] w(2)
  have "man_Load R (man_new c) w = Inr (?N, advance (8 + length (concat (map (instance_bytes R) fs))) w)" by simp
  then show thesis using that [of ?N] N insert_sorted [of "[]" fs] fs(2) by simp
qed

context quiet_filters begin

text \<open>Saving a manager at rest changes nothing in it.\<close>

lemma save_rest:
  assumes "rest good M"
  shows "man_Save R cls (run m) n M w = (M, save_filters R (filter (\<lambda>f. f_mask f AND MASK_NOSAVE = 0) (view M)) w)"
    "SaveSpecFilters R cls (run m) n k M w = (M, save_filters R (filter (\<lambda>f. f_mask f AND k \<noteq> 0) (view M)) w)"
proof -
  have c: "calm {} M" "\<not> has_wait_delete M" using assms by (simp_all add: rest_def)
  then have "list_all (\<lambda>e. objs M (snd e) \<noteq> None) (fmap M)"
    unfolding list_all_iff using calm_live [OF c(1)] by (metis option.discI)
  then show "man_Save R cls (run m) n M w = (M, save_filters R (filter (\<lambda>f. f_mask f AND MASK_NOSAVE = 0) (view M)) w)"
    "SaveSpecFilters R cls (run m) n k M w = (M, save_filters R (filter (\<lambda>f. f_mask f AND k \<noteq> 0) (view M)) w)"
    using c by (simp_all add: man_Save_def SaveSpecFilters_def DelayAddFilter_def RemoveDeletedFilter_def calm_def f_assert_def)
qed

lemma sorted_view: "rest good M \<Longrightarrow> sorted (map f_id (view M))"
  using view_ids [of "{}" M] by (simp add: rest_def calm_def man_ok_def)

text \<open>\<open>DBInit\<close> attaches the filters in the order of the map.\<close>

lemma dbinit_loop_rest:
  assumes "rest good M" "fmap M = pre @ post" "length post \<le> n"
  shows "dbinit_loop cls (run m) n (head_addr post) M
    = M\<lparr>parent := fold (q_attach q) (map (\<lambda>e. the (objs M (snd e))) post) (parent M)\<rparr>"
  using assms
proof (induction post arbitrary: pre n M)
  case (Cons e post)
  obtain k a where e: "e = (k, a)" by fastforce
  obtain n' where n: "n = Suc n'" using Cons.prems(3) by (cases n) auto
  have c: "calm {} M" using Cons.prems(1) by (simp add: rest_def)
  obtain f where f: "objs M a = Some f" using calm_live [OF c, of e] Cons.prems(2) e by auto
  have g: "good f" using Cons.prems(1,2) f e by (auto simp: rest_def view_def)
  let ?M = "M\<lparr>parent := q_attach q f (parent M)\<rparr>"
  have d: "distinct (map snd (pre @ (k, a) # post))" using calm_distinct [OF c] Cons.prems(2) e by simp
  have same: "M\<lparr>objs := (objs M)(a \<mapsto> f), parent := q_attach q f (parent M)\<rparr> = ?M" using f by (simp add: fun_upd_idem)
  have "rest good ?M" using Cons.prems(1) by (simp add: rest_def calm_def man_ok_def view_def)
  then have "dbinit_loop cls (run m) n' (head_addr post) ?M
      = ?M\<lparr>parent := fold (q_attach q) (map (\<lambda>e. the (objs ?M (snd e))) post) (parent ?M)\<rparr>"
    using Cons.IH [of ?M "pre @ [e]" n'] Cons.prems(2,3) n by simp
  then show ?case
    using f g same map_next_split [OF d] map_key_split [OF d] Cons.prems(2) by (simp add: n e attach)
qed simp

lemma dbinit_rest:
  assumes "rest good M" "length (view M) \<le> n"
  shows "man_DBInit cls (run m) n c M = M\<lparr>parent := fold (q_attach q) (view M) c\<rparr>"
proof -
  have "rest good (man_Init c M)" using assms(1) by (simp add: rest_def calm_def man_ok_def view_def man_Init_def)
  from dbinit_loop_rest [OF this, of "[]" "fmap M" n m] assms(2) show ?thesis
    by (simp add: man_DBInit_def map_begin_head man_Init_def view_def)
qed

end

end
