(* ===== verification/FilterTransfer.thy ===== *)
theory FilterTransfer
  imports FilterSave
begin

text \<open>
  The rest of \<open>filter_man\<close>. Filters move from one object to another with \<open>RandomRemoveSpecFilters\<close> and
  \<open>AddSpecFilters\<close> of \<open>src/cgame/gs/filter_man.cpp\<close>, called by \<open>TransferSpecFilters\<close> and two messages
  of \<open>src/cgame/gs/actobject.cpp\<close>. The loop of the receiver decides by what it reads whether it
  goes on, so it is a partial function here, and that it returns is a lemma.
\<close>

subsection \<open>Giving filters away\<close>

text \<open>
  The multimap keyed by random numbers: \<open>draw i\<close> is the number drawn for the \<open>i\<close>-th candidate.
\<close>

definition candidates :: "(nat \<Rightarrow> 'k :: linorder) \<Rightarrow> u32 \<Rightarrow> ('x, 'c) filter_man \<Rightarrow> ('k \<times> nat) list" where
  "candidates draw m M =
     (let as = filter (\<lambda>a. f_mask (the (objs M a)) AND m \<noteq> 0) (map snd (fmap M))
      in fold (\<lambda>i. map_insert (draw i) (as ! i)) [0..<length as] [])"

fun random_remove_loop ::
  "'x registry \<Rightarrow> ('x, 'c, 'e) filter_class \<Rightarrow> ('x, 'c, 'e) runner \<Rightarrow> nat list \<Rightarrow> raw_wrapper \<Rightarrow> ('x, 'c) filter_man
     \<Rightarrow> ('x, 'c) filter_man \<times> raw_wrapper" where
  "random_remove_loop R cls run [] w M = (M, w)"
| "random_remove_loop R cls run (a # as) w M =
     (case objs M a of
        None \<Rightarrow> (fail M, w)
      | Some f \<Rightarrow> random_remove_loop R cls run as (SaveInstance R f w) (RemoveFilter_obj cls run a M))"

definition RandomRemoveSpecFilters ::
  "'x registry \<Rightarrow> ('x, 'c, 'e) filter_class \<Rightarrow> ('x, 'c, 'e) runner \<Rightarrow> nat \<Rightarrow> (nat \<Rightarrow> 'k :: linorder) \<Rightarrow> u32 \<Rightarrow> int
     \<Rightarrow> raw_wrapper \<Rightarrow> ('x, 'c) filter_man \<Rightarrow> int \<times> ('x, 'c) filter_man \<times> raw_wrapper" where
  "RandomRemoveSpecFilters R cls run n draw m num w M =
     (let M = RemoveDeletedFilter cls run n M;
          M = f_assert (list_all (\<lambda>e. objs M (snd e) \<noteq> None) (fmap M)) M;
          xs = candidates draw m M
      in if xs = [] then (0, M, w)
         else let num = (if int (length xs) < num then int (length xs) else num)
              in (num, random_remove_loop R cls run (map snd (take (nat num) xs)) w M))"

text \<open>
  \<open>gactive_imp::TransferSpecFilters\<close>: the message that is sent, if any, has the number of filters and their bytes.
\<close>

definition TransferSpecFilters ::
  "'x registry \<Rightarrow> ('x, 'c, 'e) filter_class \<Rightarrow> ('x, 'c, 'e) runner \<Rightarrow> nat \<Rightarrow> (nat \<Rightarrow> 'k :: linorder) \<Rightarrow> u32 \<Rightarrow> int
     \<Rightarrow> ('x, 'c) filter_man \<Rightarrow> ('x, 'c) filter_man \<times> (int \<times> byte list) option" where
  "TransferSpecFilters R cls run n draw m num M =
     (if num \<le> 0 then (M, None)
      else let (ret, M, ar) = RandomRemoveSpecFilters R cls run n draw m num (raw_new []) M
           in (M, if 0 < ret then Some (ret, w_buf ar) else None))"

subsection \<open>Taking them\<close>

text \<open>
  An instance of unknown class fails the assertion and is skipped, and \<open>count\<close> stays as it is. When the
  archive throws, the filters added so far stay.
\<close>

partial_function (option) AddSpecFilters ::
  "'x registry \<Rightarrow> ('x, 'c, 'e) filter_class \<Rightarrow> ('x, 'c, 'e) runner \<Rightarrow> nat \<Rightarrow> int \<Rightarrow> raw_wrapper \<Rightarrow> ('x, 'c) filter_man
     \<Rightarrow> (('x, 'c) filter_man \<times> (wrapper_error + raw_wrapper)) option" where
  "AddSpecFilters R cls run n num w M =
     (if num \<le> 0 then Some (M, Inr w)
      else case LoadInstance R w of
        Inl e \<Rightarrow> Some (M, Inl e)
      | Inr fw \<Rightarrow>
          (case fst fw of
             None \<Rightarrow> AddSpecFilters R cls run n num (snd fw) (fail M)
           | Some f \<Rightarrow>
               AddSpecFilters R cls run n (num - 1) (snd fw)
                 (let (a, M) = new_filter f M in snd (AddFilter cls run n a M))))"

declare AddSpecFilters.simps [simp del]

text \<open>The messages \<open>GM_MSG_TRANSFER_FILTER_GET\<close> and \<open>GM_MSG_TRANSFER_FILTER_DATA\<close>.\<close>

definition filter_get_message ::
  "'x registry \<Rightarrow> ('x, 'c, 'e) filter_class \<Rightarrow> ('x, 'c, 'e) runner \<Rightarrow> nat \<Rightarrow> (nat \<Rightarrow> 'k :: linorder) \<Rightarrow> bool \<Rightarrow> u32 \<Rightarrow> int
     \<Rightarrow> ('x, 'c) filter_man \<Rightarrow> ('x, 'c) filter_man \<times> (int \<times> byte list) option" where
  "filter_get_message R cls run n draw zombie m num M =
     (if zombie then (M, None) else TransferSpecFilters R cls run n draw m num M)"

definition filter_data_message ::
  "'x registry \<Rightarrow> ('x, 'c, 'e) filter_class \<Rightarrow> ('x, 'c, 'e) runner \<Rightarrow> nat \<Rightarrow> bool \<Rightarrow> int \<times> byte list \<Rightarrow> ('x, 'c) filter_man
     \<Rightarrow> (('x, 'c) filter_man \<times> (wrapper_error + raw_wrapper)) option" where
  "filter_data_message R cls run n zombie msg M =
     (if zombie then Some (M, Inr (raw_new (snd msg)))
      else AddSpecFilters R cls run n (fst msg) (raw_new (snd msg)) M)"

subsection \<open>Swapping and asking\<close>

text \<open>
  \<open>Swap\<close> when a new object takes the place of the one that was loaded: all members but the call mask.
  The filters of the left get the owner \<open>c\<close>, those of the right keep the one they had.
\<close>

definition man_Swap :: "'c \<Rightarrow> ('x, 'c) filter_man \<Rightarrow> ('x, 'c) filter_man \<Rightarrow> ('x, 'c) filter_man \<times> ('x, 'c) filter_man" where
  "man_Swap c M N =
     (man_Init c (N\<lparr>call_mask := call_mask M, ffault := ffault M \<or> ffault N\<rparr>),
      M\<lparr>call_mask := call_mask N, ffault := ffault M \<or> ffault N\<rparr>)"

text \<open>\<open>QueryFilter\<close> asks the first filter with the id; \<open>on_query\<close> is the virtual method \<open>OnQuery\<close>.\<close>

definition QueryFilter :: "('x filter_obj \<Rightarrow> int \<Rightarrow> int) \<Rightarrow> int \<Rightarrow> int \<Rightarrow> ('x, 'c) filter_man \<Rightarrow> int" where
  "QueryFilter on_query k i M =
     (case map_find k (fmap M) of None \<Rightarrow> 0 | Some a \<Rightarrow> on_query (the (objs M a)) i)"

lemma swap_rest:
  assumes "rest good M" "rest good N"
  shows "case man_Swap c M N of (M', N') \<Rightarrow>
    rest good M' \<and> view M' = view N \<and> parent M' = c \<and> rest good N' \<and> view N' = view M"
  using assms by (auto simp: man_Swap_def man_Init_def rest_def calm_def man_ok_def view_def)

lemma query_rest:
  assumes "rest good M"
  shows "QueryFilter q k i M = (case List.find (\<lambda>f. f_id f = k) (view M) of None \<Rightarrow> 0 | Some f \<Rightarrow> q f i)"
proof -
  have c: "calm {} M" using assms by (simp add: rest_def)
  have "List.find (\<lambda>f. f_id f = k) (map (\<lambda>e. the (objs M (snd e))) xs)
      = map_option (\<lambda>e. the (objs M (snd e))) (List.find (\<lambda>e. fst e = k) xs)" if "set xs \<subseteq> set (fmap M)" for xs
    using that calm_id [OF c] by (induction xs) auto
  then show ?thesis by (auto simp: QueryFilter_def map_find_def view_def split: option.split)
qed

subsection \<open>The loop of the receiver ends\<close>

text \<open>A loader that only reads: the bytes stay and the position does not go back.\<close>

definition only_reads :: "'a loader \<Rightarrow> bool" where
  "only_reads m \<longleftrightarrow> (\<forall>w x w'. length (w_buf w) < 2 ^ 64 \<longrightarrow> m w = Inr (x, w') \<longrightarrow>
     w_buf w' = w_buf w \<and> unat (w_offset w) \<le> unat (w_offset w'))"

lemma pop_byte_reads:
  assumes "length (w_buf w) < 2 ^ 64" "pop_byte n w = Inr (bs, w')"
  shows "w_buf w' = w_buf w \<and> unat (w_offset w') = unat (w_offset w) + unat n \<and> unat (w_offset w') \<le> length (w_buf w)"
proof -
  have l: "unat (w_size w) = length (w_buf w)" using assms(1) by (simp add: w_size_def unat_of_nat64)
  have s: "w_buf w' = w_buf w" "w_offset w' = w_offset w + n" "w_offset w + n \<le> w_size w"
    "min (length (w_buf w) - unat (w_offset w)) (unat n) = unat n"
    using assms(2) by (auto simp: pop_byte_def pop_back_def w_size_def w_slice_def split: if_splits)
  have "unat (w_offset w) + unat n < 2 ^ 64"
    using s(4) assms(1) unsigned_less [of "w_offset w"] by (cases "unat n = 0") auto
  then have "unat (w_offset w + n) = unat (w_offset w) + unat n" by (simp add: unat_word_ariths)
  then show ?thesis using s l by (simp add: word_le_nat_alt)
qed

lemma only_reads_pop: "only_reads (pop_byte n)"
  using pop_byte_reads unfolding only_reads_def by fastforce

lemma only_reads_ret: "only_reads (ret x)"
  by (simp add: only_reads_def ret_def)

lemma only_reads_loads:
  assumes "only_reads m" "\<And>x. only_reads (k x)"
  shows "only_reads (loads m k)"
  unfolding only_reads_def
proof (intro allI impI)
  fix w y w'
  assume w: "length (w_buf w) < 2 ^ 64" and r: "loads m k w = Inr (y, w')"
  then obtain x v where x: "m w = Inr (x, v)" "k x v = Inr (y, w')"
    by (auto simp: loads_def split: sum.splits prod.splits)
  have v: "w_buf v = w_buf w" "unat (w_offset w) \<le> unat (w_offset v)"
    using assms(1) x(1) w unfolding only_reads_def by blast+
  have "w_buf w' = w_buf v \<and> unat (w_offset v) \<le> unat (w_offset w')"
    using assms(2) [of x] x(2) w v(1) unfolding only_reads_def by metis
  with v show "w_buf w' = w_buf w \<and> unat (w_offset w) \<le> unat (w_offset w')" by simp
qed

lemma only_reads_int: "only_reads get_int"
  unfolding get_int_def by (intro only_reads_loads only_reads_pop only_reads_ret)

lemma only_reads_bool: "only_reads get_bool"
  unfolding get_bool_def get_char_def by (intro only_reads_loads only_reads_pop only_reads_ret)

lemmas only_reads_intros = only_reads_loads only_reads_ret only_reads_int only_reads_bool

text \<open>What \<open>LoadInstance\<close> takes from the archive: at least the number of the class.\<close>

lemma LoadInstance_reads:
  assumes R: "\<And>g m. r_load R g = Some m \<Longrightarrow> only_reads m"
    and w: "length (w_buf w) < 2 ^ 64" and r: "LoadInstance R w = Inr (f, w')"
  shows "w_buf w' = w_buf w \<and> unat (w_offset w) + 4 \<le> unat (w_offset w')
    \<and> (f = None \<longrightarrow> unat (w_offset w') \<le> length (w_buf w))"
proof -
  obtain g v where g: "get_int w = Inr (g, v)"
    and k: "(case r_load R g of None \<Rightarrow> (\<lambda>w. Inr (None, w\<lparr>w_fault := True\<rparr>)) | Some m \<Rightarrow> loads (filter_Load m) (\<lambda>f. ret (Some f))) v = Inr (f, w')"
    using r by (auto simp: LoadInstance_def loads_def split: sum.splits prod.splits)
  obtain bs where "pop_byte 4 w = Inr (bs, v)"
    using g by (auto simp: get_int_def loads_def ret_def split: sum.splits prod.splits)
  note v = pop_byte_reads [OF w this]
  show ?thesis
  proof (cases "r_load R g")
    case None
    then show ?thesis using k v by auto
  next
    case (Some m)
    have "only_reads (loads (filter_Load m) (\<lambda>f. ret (Some f)))"
      unfolding filter_Load_def by (intro only_reads_intros R [OF Some])
    moreover have "loads (filter_Load m) (\<lambda>f. ret (Some f)) v = Inr (f, w')" using k Some by simp
    moreover have "length (w_buf v) < 2 ^ 64" using v w by simp
    ultimately have "w_buf w' = w_buf v \<and> unat (w_offset v) \<le> unat (w_offset w')" unfolding only_reads_def by blast
    moreover obtain g where "f = Some g" using k Some by (auto simp: loads_def ret_def split: sum.splits prod.splits)
    ultimately show ?thesis using v by simp
  qed
qed

text \<open>Each turn takes a filter or four bytes.\<close>

lemma AddSpecFilters_returns:
  assumes R: "\<And>g m. r_load R g = Some m \<Longrightarrow> only_reads m" and w: "length (w_buf w) < 2 ^ 64"
  shows "\<exists>N r. AddSpecFilters R cls run n num w M = Some (N, r)
    \<and> (\<forall>v. r = Inr v \<longrightarrow> w_buf v = w_buf w \<and> unat (w_offset w) + 4 * nat num \<le> unat (w_offset v))"
  using w
proof (induction "(nat num, length (w_buf w) - unat (w_offset w))" arbitrary: num w M
    rule: wf_induct_rule [OF wf_lex_prod [OF wf_less_than wf_less_than]])
  case 1
  note IH = 1(1) and w = 1(2)
  show ?case
  proof (cases "num \<le> 0")
    case True
    then show ?thesis by (simp add: AddSpecFilters.simps)
  next
    case False
    show ?thesis
    proof (cases "LoadInstance R w")
      case (Inl e)
      then show ?thesis using False by (simp add: AddSpecFilters.simps)
    next
      case (Inr fw)
      obtain f v where fw: "fw = (f, v)" by fastforce
      have "LoadInstance R w = Inr (f, v)" using Inr fw by simp
      note L = LoadInstance_reads [OF R w this]
      have v: "w_buf v = w_buf w" "unat (w_offset w) + 4 \<le> unat (w_offset v)" "length (w_buf v) < 2 ^ 64"
        "f = None \<longrightarrow> unat (w_offset v) \<le> length (w_buf w)"
        using L w by simp_all
      show ?thesis
      proof (cases f)
        case None
        have "((nat num, length (w_buf v) - unat (w_offset v)), nat num, length (w_buf w) - unat (w_offset w))
            \<in> less_than <*lex*> less_than"
          using v None by simp
        from IH [OF this v(3), of "fail M"] obtain N r where N: "AddSpecFilters R cls run n num v (fail M) = Some (N, r)"
          "\<forall>u. r = Inr u \<longrightarrow> w_buf u = w_buf v \<and> unat (w_offset v) + 4 * nat num \<le> unat (w_offset u)" by blast
        have "AddSpecFilters R cls run n num w M = Some (N, r)"
          using N(1) None Inr fw False by (subst AddSpecFilters.simps) simp
        moreover have "\<forall>u. r = Inr u \<longrightarrow> w_buf u = w_buf w \<and> unat (w_offset w) + 4 * nat num \<le> unat (w_offset u)"
        proof (intro allI impI)
          fix u assume "r = Inr u"
          then have "w_buf u = w_buf v" "unat (w_offset v) + 4 * nat num \<le> unat (w_offset u)" using N(2) by blast+
          then show "w_buf u = w_buf w \<and> unat (w_offset w) + 4 * nat num \<le> unat (w_offset u)" using v(1,2) False by auto
        qed
        ultimately show ?thesis by blast
      next
        case (Some g)
        have "((nat (num - 1), length (w_buf v) - unat (w_offset v)), nat num, length (w_buf w) - unat (w_offset w))
            \<in> less_than <*lex*> less_than"
          using False by simp
        from IH [OF this v(3), of "let (a, M) = new_filter g M in snd (AddFilter cls run n a M)"] obtain N r where
          N: "AddSpecFilters R cls run n (num - 1) v (let (a, M) = new_filter g M in snd (AddFilter cls run n a M)) = Some (N, r)"
          "\<forall>u. r = Inr u \<longrightarrow> w_buf u = w_buf v \<and> unat (w_offset v) + 4 * nat (num - 1) \<le> unat (w_offset u)" by blast
        have "AddSpecFilters R cls run n num w M = Some (N, r)"
          using N(1) Some Inr fw False by (subst AddSpecFilters.simps) simp
        moreover have "\<forall>u. r = Inr u \<longrightarrow> w_buf u = w_buf w \<and> unat (w_offset w) + 4 * nat num \<le> unat (w_offset u)"
        proof (intro allI impI)
          fix u assume "r = Inr u"
          then have "w_buf u = w_buf v" "unat (w_offset v) + 4 * nat (num - 1) \<le> unat (w_offset u)" using N(2) by blast+
          then show "w_buf u = w_buf w \<and> unat (w_offset w) + 4 * nat num \<le> unat (w_offset u)" using v(1,2) False by auto
        qed
        ultimately show ?thesis by blast
      qed
    qed
  qed
qed

subsection \<open>Both sides at rest\<close>

lemma mset_map_insert: "mset (map_insert k a xs) = add_mset (k, a) (mset xs)"
proof -
  have "mset (takeWhile P xs) + mset (dropWhile P xs) = mset xs" for P
    by (metis mset_append takeWhile_dropWhile_id)
  then show ?thesis by (simp add: map_insert_def)
qed

lemma candidates_mset:
  "mset (map snd (candidates draw m M)) = mset (filter (\<lambda>a. f_mask (the (objs M a)) AND m \<noteq> 0) (map snd (fmap M)))"
proof -
  have "mset (map snd (fold (\<lambda>i. map_insert (draw i) (as ! i)) [0..<k] [])) = mset (take k as)" if "k \<le> length as" for k and as :: "nat list"
    using that by (induction k) (simp_all add: mset_map_insert take_Suc_conv_app_nth)
  then show ?thesis unfolding candidates_def Let_def by simp
qed

context quiet_filters begin

lemma remove_obj_rest:
  fixes k :: int and m :: nat
  assumes M: "rest good M" "(k, a) \<in> set (fmap M)" "distinct (map fst (fmap M))"
  defines "N \<equiv> RemoveFilter_obj cls (run m) a M"
  shows "rest good N" "(view N, parent N) = spec_request q (ReqRemove k) (view M, parent M)"
    "fmap N = filter (\<lambda>e. fst e \<noteq> k) (fmap M)" "\<And>b. b \<noteq> a \<Longrightarrow> objs N b = objs M b"
proof -
  have c: "calm {} M" and wd: "\<not> has_wait_delete M" and g: "\<forall>f \<in> set (view M). good f \<and> \<not> f_deleted f"
    using M(1) by (auto simp: rest_def)
  from calm_live [OF c M(2)] obtain f where f: "objs M a = Some f" "f_id f = k" by auto
  have "f \<in> set (view M)" using M(2) f by (force simp: view_def)
  then have gf: "good f" using g by blast
  have a: "a \<in> addrs M" using addr_setI [OF M(2)] by simp
  obtain pre post where s: "fmap M = pre @ (k, a) # post" using split_list [OF M(2)] by blast
  have ka: "map_key a (fmap M) = Some k" using map_key_split calm_distinct [OF c] s by metis
  have ex: "IsFilterExist M k" using M(2) by (auto simp: IsFilterExist_def map_find_def find_None_iff)
  have cm: "call_mask M = 0" using c by (simp add: calm_def)
  have N: "N = snd (erase_and_release cls (run m) a (RemoveFilterFromPool a M))"
    unfolding N_def RemoveFilter_obj_def using f ka ex cm by (simp add: f_assert_def)
  have R: "removed {} a M N" unfolding N by (rule remove_one_calm(2) [OF c a f(1) gf])
  have only: "filter (\<lambda>e. fst e = k) (fmap M) = [(k, a)]" and map': "map_erase a (fmap M) = filter (\<lambda>e. fst e \<noteq> k) (fmap M)"
  proof -
    have "\<forall>e \<in> set pre \<union> set post. fst e \<noteq> k" using M(3) unfolding s by (auto simp: image_iff)
    then have e: "filter (\<lambda>e. fst e = k) pre = []" "filter (\<lambda>e. fst e = k) post = []"
      "filter (\<lambda>e. fst e \<noteq> k) pre = pre" "filter (\<lambda>e. fst e \<noteq> k) post = post"
      by (auto simp: filter_empty_conv filter_id_conv)
    then show "filter (\<lambda>e. fst e = k) (fmap M) = [(k, a)]" "map_erase a (fmap M) = filter (\<lambda>e. fst e \<noteq> k) (fmap M)"
      using map_erase_split [of pre k a post] calm_distinct [OF c] unfolding s by simp_all
  qed
  have cN: "calm {} N" using R by (simp add: removed_def)
  have R1: "removed_all {} (filter (\<lambda>e. fst e = k) (fmap M)) M N"
    unfolding only by (rule removed_all_cons [OF R removed_all_nil [OF cN]]) (simp add: addr_set_def)
  show m: "fmap N = filter (\<lambda>e. fst e \<noteq> k) (fmap M)" using R map' by (simp add: removed_def)
  have v: "(view N, parent N) = spec_drop q (\<lambda>f. f_id f = k) (view M, parent M)"
    by (rule view_removed_all [OF R1 m]) (use c calm_distinct in \<open>auto elim: calm_live [OF c]\<close>)
  then show "(view N, parent N) = spec_request q (ReqRemove k) (view M, parent M)" by (simp add: spec_request_def)
  have "view N = filter (\<lambda>f. f_id f \<noteq> k) (view M)" using v by (simp add: spec_drop_def)
  then show "rest good N" using R wd g cN by (auto simp: rest_def removed_def)
  show "objs N b = objs M b" if "b \<noteq> a" for b using R that by (simp add: removed_def)
qed

lemma random_remove_rest:
  assumes "rest good M" "set as \<subseteq> addrs M" "distinct as" "distinct (map fst (fmap M))"
  obtains N where "random_remove_loop R cls (run m) as w M = (N, fold (SaveInstance R) (map (\<lambda>a. the (objs M a)) as) w)" "rest good N"
    "(view N, parent N) = fold (spec_request q) (map (\<lambda>f. ReqRemove (f_id f)) (map (\<lambda>a. the (objs M a)) as)) (view M, parent M)"
  using assms
proof (induction as arbitrary: M w thesis)
  case (Cons a as)
  have c: "calm {} M" using Cons.prems(2) by (simp add: rest_def)
  from Cons.prems(3) obtain k where k: "(k, a) \<in> set (fmap M)" by (auto simp: addr_set_def)
  from calm_live [OF c this] obtain f where f: "objs M a = Some f" "f_id f = k" by auto
  let ?N = "RemoveFilter_obj cls (run m) a M"
  note r = remove_obj_rest [OF Cons.prems(2) k Cons.prems(5), where m = m]
  have addr: "set as \<subseteq> addrs ?N"
  proof
    fix b assume b: "b \<in> set as"
    then obtain j where j: "(j, b) \<in> set (fmap M)" using Cons.prems(3) by (auto simp: addr_set_def)
    have "j \<noteq> k"
    proof
      assume "j = k"
      then have "(k, b) = (k, a)" using j k inj_onD [OF conjunct2 [OF Cons.prems(5) [unfolded distinct_map]], of "(k, b)" "(k, a)"] by simp
      then have "b = a" by simp
      then show False using b Cons.prems(4) by simp
    qed
    then have "(j, b) \<in> set (fmap ?N)" using j by (simp add: r(3))
    then show "b \<in> addrs ?N" using addr_setI by fastforce
  qed
  have d: "distinct (map fst (fmap ?N))" unfolding r(3) using Cons.prems(5) by (rule distinct_map_filter)
  have same: "map (\<lambda>a. the (objs ?N a)) as = map (\<lambda>a. the (objs M a)) as" 
  proof (rule map_cong [OF refl])
    fix b assume "b \<in> set as"
    then have "b \<noteq> a" using Cons.prems(4) by auto
    from r(4) [OF this] show "the (objs ?N b) = the (objs M b)" by simp
  qed
  have da: "distinct as" using Cons.prems(4) by simp
  obtain N where N: "random_remove_loop R cls (run m) as (SaveInstance R f w) ?N = (N, fold (SaveInstance R) (map (\<lambda>a. the (objs M a)) as) (SaveInstance R f w))"
    "rest good N" "(view N, parent N) = fold (spec_request q) (map (\<lambda>f. ReqRemove (f_id f)) (map (\<lambda>a. the (objs M a)) as)) (view ?N, parent ?N)"
    using Cons.IH [OF _ r(1) addr da d, of "SaveInstance R f w"] unfolding same by blast
  show ?case
    by (rule Cons.prems(1) [of N]) (use N f r(2) in simp_all)
qed simp

lemma view_dropped:
  "fst (fold (spec_request q) (map (\<lambda>f. ReqRemove (f_id f)) fs) (xs, c)) = filter (\<lambda>g. f_id g \<notin> f_id ` set fs) xs"
proof (induction fs arbitrary: xs c)
  case (Cons f fs)
  obtain c' where "spec_request q (ReqRemove (f_id f)) (xs, c) = (filter (\<lambda>g. f_id g \<noteq> f_id f) xs, c')"
    by (simp add: spec_request_def spec_drop_def)
  then have "fst (fold (spec_request q) (map (\<lambda>f. ReqRemove (f_id f)) (f # fs)) (xs, c))
      = filter (\<lambda>g. f_id g \<notin> f_id ` set fs) (filter (\<lambda>g. f_id g \<noteq> f_id f) xs)"
    using Cons.IH by (simp only: list.map fold_simps)
  then show ?case by (simp add: conj_commute)
qed simp

text \<open>What is taken: as many of the filters with the flag as were asked for, or all of them.\<close>

lemma transfer_rest:
  fixes draw :: "nat \<Rightarrow> 'k :: linorder"
  assumes M: "rest good M" "distinct (map f_id (view M))" and num: "0 < num"
  obtains fs N where "distinct (map f_id fs)" "set fs \<subseteq> {f \<in> set (view M). f_mask f AND k \<noteq> 0}"
    "length fs = min (nat num) (length (filter (\<lambda>f. f_mask f AND k \<noteq> 0) (view M)))" "rest good N"
    "TransferSpecFilters R cls (run m) n draw k num M
      = (N, if fs = [] then None else Some (int (length fs), concat (map (instance_bytes R) fs)))"
    "(view N, parent N) = fold (spec_request q) (map (\<lambda>f. ReqRemove (f_id f)) fs) (view M, parent M)"
proof -
  have c: "calm {} M" and wd: "\<not> has_wait_delete M" using M(1) by (auto simp: rest_def)
  have d: "distinct (map fst (fmap M))" using M(2) view_ids [OF c] by simp
  let ?sel = "\<lambda>a. f_mask (the (objs M a)) AND k \<noteq> 0"
  let ?xs = "candidates draw k M"
  define as where "as = map snd (take (nat num) ?xs)"
  have live: "list_all (\<lambda>e. objs M (snd e) \<noteq> None) (fmap M)"
    unfolding list_all_iff using calm_live [OF c] by (metis option.discI)
  have ms: "mset (map snd ?xs) = mset (filter ?sel (map snd (fmap M)))" by (rule candidates_mset)
  then have set: "set (map snd ?xs) = {a \<in> addrs M. ?sel a}"
    unfolding addr_set_def by (subst mset_eq_setD [OF ms]) (simp add: set_filter)
  have dist: "distinct (map snd ?xs)"
    using mset_eq_imp_distinct_iff [OF ms] calm_distinct [OF c] by (simp add: distinct_filter)
  have len: "length ?xs = length (filter (\<lambda>f. f_mask f AND k \<noteq> 0) (view M))"
    using mset_eq_length [OF ms] by (simp add: view_def filter_map comp_def)
  have as: "set as \<subseteq> addrs M" "distinct as" "\<forall>a \<in> set as. ?sel a" "length as = min (nat num) (length ?xs)"
  proof -
    have "set as \<subseteq> set (map snd ?xs)" unfolding as_def by (auto dest: in_set_takeD)
    then show "set as \<subseteq> addrs M" "\<forall>a \<in> set as. ?sel a" using set by auto
    show "distinct as" unfolding as_def take_map [symmetric] using dist by (rule distinct_take)
    show "length as = min (nat num) (length ?xs)" by (simp add: as_def min.commute)
  qed
  define fs where "fs = map (\<lambda>a. the (objs M a)) as"
  obtain N where N: "random_remove_loop R cls (run m) as (raw_new []) M = (N, fold (SaveInstance R) fs (raw_new []))" "rest good N"
    "(view N, parent N) = fold (spec_request q) (map (\<lambda>f. ReqRemove (f_id f)) fs) (view M, parent M)"
    unfolding fs_def by (rule random_remove_rest [OF M(1) as(1,2) d])
  have inv: "the (objs M a) \<in> set (view M)" if "a \<in> set as" for a
    using that as(1) by (auto simp: view_def addr_set_def)
  have dv: "distinct (map f_id fs)"
  proof -
    have "inj_on (\<lambda>a. f_id (the (objs M a))) (addrs M)"
    proof (rule inj_onI)
      fix a b assume a: "a \<in> addrs M" and b: "b \<in> addrs M" and e: "f_id (the (objs M a)) = f_id (the (objs M b))"
      obtain i j where "(i, a) \<in> set (fmap M)" "(j, b) \<in> set (fmap M)" using a b by (auto simp: addr_set_def)
      then show "a = b" using e calm_id [OF c] d by (force simp: distinct_map inj_on_def)
    qed
    then show ?thesis using as(1,2) by (simp add: fs_def distinct_map comp_def inj_on_subset)
  qed
  have sv: "w_buf (fold (SaveInstance R) fs (raw_new [])) = concat (map (instance_bytes R) fs)"
  proof -
    have S: "SaveInstance R f w = push_byte (instance_bytes R f) w" for f w
      unfolding SaveInstance_def instance_bytes_def by (rule put_values_push) simp
    have "w_buf (fold (SaveInstance R) fs w) = w_buf w @ concat (map (instance_bytes R) fs)" for w
      by (induction fs arbitrary: w) (simp_all add: S push_byte_def)
    then show ?thesis by (simp add: raw_new_def)
  qed
  have tk: "take (nat (if int (length ?xs) < num then int (length ?xs) else num)) ?xs = take (nat num) ?xs"
    using num by simp
  have "TransferSpecFilters R cls (run m) n draw k num M
      = (N, if fs = [] then None else Some (int (length fs), concat (map (instance_bytes R) fs)))"
  proof (cases "?xs = []")
    case True
    then have "as = []" by (simp add: as_def)
    then show ?thesis using N(1) num wd live True
      by (simp add: TransferSpecFilters_def RandomRemoveSpecFilters_def RemoveDeletedFilter_def f_assert_def fs_def)
  next
    case False
    then have ne: "fs \<noteq> []" using num by (simp add: fs_def as_def)
    have r: "(if int (length ?xs) < num then int (length ?xs) else num) = int (length fs)"
      using as(4) num by (simp add: fs_def)
    have "RandomRemoveSpecFilters R cls (run m) n draw k num (raw_new []) M = (int (length fs), N, fold (SaveInstance R) fs (raw_new []))"
      using N(1) wd live False tk
      by (simp add: RandomRemoveSpecFilters_def RemoveDeletedFilter_def f_assert_def r [symmetric] as_def [symmetric] del: if_split)
    then show ?thesis using num ne sv by (simp add: TransferSpecFilters_def)
  qed
  moreover have "set fs \<subseteq> {f \<in> set (view M). f_mask f AND k \<noteq> 0}" using inv as(3) by (auto simp: fs_def)
  moreover have "length fs = min (nat num) (length (filter (\<lambda>f. f_mask f AND k \<noteq> 0) (view M)))"
    using as(4) len by (simp add: fs_def)
  ultimately show thesis using that dv N by blast
qed

text \<open>What is received.\<close>

lemma receive_rest:
  assumes "rest good M" "\<forall>f \<in> set fs. saves R f \<and> good f \<and> \<not> f_deleted f" "length (view M) + length fs \<le> n"
    and "w_ok w" "w_rest w = concat (map (instance_bytes R) fs) @ post"
  obtains N where "AddSpecFilters R cls (run m) n (int (length fs)) w M
      = Some (N, Inr (advance (length (concat (map (instance_bytes R) fs))) w))"
    "rest good N" "(view N, parent N) = fold (spec_request q) (map ReqAdd fs) (view M, parent M)"
  using assms
proof (induction fs arbitrary: M w thesis)
  case Nil
  then show ?case by (simp add: AddSpecFilters.simps advance_def)
next
  case (Cons f fs)
  let ?bs = "instance_bytes R f"
  have f: "saves R f" "good f" "\<not> f_deleted f" using Cons.prems(3) by simp_all
  have i: "LoadInstance R w = Inr (Some f, advance (length ?bs) w)"
    by (rule readsD [OF reads_instance [OF f(1)] Cons.prems(5), of "concat (map (instance_bytes R) fs) @ post"])
      (use Cons.prems(6) in simp)
  have l: "length ?bs \<le> length (w_rest w)" using Cons.prems(6) by simp
  note w = advance_ok [OF Cons.prems(5) l]
  let ?M = "let (a, M) = new_filter f M in snd (AddFilter cls (run m) n a M)"
  have M: "?M = do_request cls (run m) n (ReqAdd f) M" by (simp add: do_request_def)
  have "length (fmap M) \<le> n" "valid_request good (ReqAdd f)" using Cons.prems(4) f by (simp_all add: view_def valid_request_def)
  note r = request_refines [OF Cons.prems(2) this, of m, folded M]
  have "length (view ?M) \<le> Suc (length (view M))"
    using spec_request_length [of "ReqAdd f" "(view M, parent M)"] r by (metis fst_conv)
  then have n: "length (view ?M) + length fs \<le> n" using Cons.prems(4) by simp
  have fs: "\<forall>f \<in> set fs. saves R f \<and> good f \<and> \<not> f_deleted f" using Cons.prems(3) by simp
  have wr: "w_rest (advance (length ?bs) w) = concat (map (instance_bytes R) fs) @ post" using w(2) Cons.prems(6) by simp
  obtain N where N: "AddSpecFilters R cls (run m) n (int (length fs)) (advance (length ?bs) w) ?M
      = Some (N, Inr (advance (length (concat (map (instance_bytes R) fs))) (advance (length ?bs) w)))"
    "rest good N" "(view N, parent N) = fold (spec_request q) (map ReqAdd fs) (view ?M, parent ?M)"
    using Cons.IH [OF _ conjunct1 [OF r] fs n w(1) wr] by blast
  have "AddSpecFilters R cls (run m) n (int (length (f # fs))) w M
      = Some (N, Inr (advance (length (concat (map (instance_bytes R) (f # fs)))) w))"
    using i N(1) by (subst AddSpecFilters.simps) (simp add: advance_advance)
  then show ?case using Cons.prems(1) [of N] N(2,3) r by simp
qed

end

end
