(* ===== verification/SkillFilter.thy ===== *)
theory SkillFilter
  imports SkillConst Effects FilterTransfer
begin

text \<open>
  The skill filters of \<open>src/cskill/skill/skillfilter.h\<close> that derive from \<open>timeout_filter\<close> and do
  no more than change their owner when they are attached, released and merged. Each class is a
  record of its methods; this theory holds \<open>timeout_filter\<close> of \<open>src/cgame/gs/filter.h\<close>, the class
  that the filter manager sees, the interface \<open>skill_family\<close> that the families of classes
  satisfy, and what follows from it: the manager keeps the account of its owner.
\<close>

subsection \<open>Methods\<close>

text \<open>
  \<open>m_guid\<close> is the class number of \<open>DEFINE_SUBSTANCE\<close>, \<open>m_mask\<close> the enumerator \<open>FILTER_MASK\<close> of the
  class and \<open>m_save\<close> what its \<open>Save\<close> appends to that of \<open>timeout_filter\<close>. \<open>m_merge\<close> is given the
  remaining time, the data and the time of the other filter and the owner; \<open>None\<close> is a failed
  assertion.
\<close>

record 'k methods =
  m_guid :: int32
  m_id :: int
  m_mask :: u32
  m_save :: "wval list"
  m_load :: "'k loader"
  m_attach :: "actor \<Rightarrow> actor"
  m_release :: "actor \<Rightarrow> actor"
  m_merge :: "int32 \<Rightarrow> 'k \<Rightarrow> int32 \<Rightarrow> actor \<Rightarrow> ('k \<times> int32 \<times> actor) option"

definition assert_false :: "int32 \<Rightarrow> 'k \<Rightarrow> int32 \<Rightarrow> actor \<Rightarrow> ('k \<times> int32 \<times> actor) option" where
  "assert_false _ _ _ _ = None"

text \<open>The flags of \<open>FILTER_MASK\<close> that the manager does not test, and the three of which it takes the first.\<close>

abbreviation (input) MASK_HEARTBEAT :: u32 where "MASK_HEARTBEAT \<equiv> 0x0004"
abbreviation (input) MASK_DEBUFF :: u32 where "MASK_DEBUFF \<equiv> 0x001000"
abbreviation (input) MASK_BUFF :: u32 where "MASK_BUFF \<equiv> 0x002000"
abbreviation (input) MASK_REMOVE_ON_DEATH :: u32 where "MASK_REMOVE_ON_DEATH \<equiv> 0x010000"
abbreviation (input) MASK_SAVE_DB_DATA :: u32 where "MASK_SAVE_DB_DATA \<equiv> 0x200000"
abbreviation (input) MASK_TRANSFERABLE_BUFF :: u32 where "MASK_TRANSFERABLE_BUFF \<equiv> 0x00800000"
abbreviation (input) MASK_TRANSFERABLE_DEBUFF :: u32 where "MASK_TRANSFERABLE_DEBUFF \<equiv> 0x01000000"
abbreviation (input) MASK_CONTROL :: u32 where "MASK_CONTROL \<equiv> 0x02C000"

subsection \<open>\<open>timeout_filter\<close>\<close>

type_synonym 'k timed = "('k \<times> int32) filter_obj"

abbreviation kind_of :: "'k timed \<Rightarrow> 'k" where "kind_of f \<equiv> fst (f_data f)"
abbreviation timeout_of :: "'k timed \<Rightarrow> int32" where "timeout_of f \<equiv> snd (f_data f)"

text \<open>The constructor of a class with its own mask, into which some classes put flags of the caller.\<close>

definition timeout_filter :: "('k \<Rightarrow> 'k methods) \<Rightarrow> 'k \<Rightarrow> int32 \<Rightarrow> u32 \<Rightarrow> 'k timed" where
  "timeout_filter M k period flags =
     \<lparr>f_mask = m_mask (M k) OR flags, f_id = m_id (M k), f_active = False, f_deleted = False, f_data = (k, period)\<rparr>"

definition timeout_Heartbeat :: "int32 \<Rightarrow> 'k timed \<Rightarrow> ('k \<times> int32) \<times> bool" where
  "timeout_Heartbeat tick f =
     (let timeout = timeout_of f - tick in ((kind_of f, timeout), f_deleted f \<or> timeout \<le>s 0))"

text \<open>The virtual methods; \<open>filter\<close> asserts in every event that a class does not define.\<close>

definition skill_class :: "('k \<Rightarrow> 'k methods) \<Rightarrow> ('k \<times> int32, actor, int32) filter_class" where
  "skill_class M =
     \<lparr>on_event = (\<lambda>i ex tick f A.
        if i = IDX_HEARTBEAT then (fst (timeout_Heartbeat tick f), snd (timeout_Heartbeat tick f), tick, A, [])
        else (f_data f, f_deleted f, tick, A, [ReqAssert])),
      on_attach = (\<lambda>f A. (f_data f, m_attach (M (kind_of f)) A, [])),
      on_release = (\<lambda>f A. (f_data f, m_release (M (kind_of f)) A, [])),
      on_merge = (\<lambda>g f A. case m_merge (M (kind_of g)) (timeout_of g) (kind_of f) (timeout_of f) A of
          None \<Rightarrow> (f_data g, A, [ReqAssert])
        | Some (k, t, B) \<Rightarrow> ((k, t), B, [])),
      on_modify = (\<lambda>name v f A. (f_data f, f_deleted f, A, []))\<rparr>"

text \<open>What that class does, as functions.\<close>

definition skill_quiet :: "('k \<Rightarrow> 'k methods) \<Rightarrow> ('k \<times> int32, actor, int32) quiet_class" where
  "skill_quiet M =
     \<lparr>q_attach = (\<lambda>f. m_attach (M (kind_of f))),
      q_release = (\<lambda>f. m_release (M (kind_of f))),
      q_tick = timeout_Heartbeat,
      q_merge = (\<lambda>g f. case m_merge (M (kind_of g)) (timeout_of g) (kind_of f) (timeout_of f) actor_new of
          None \<Rightarrow> f_data g | Some (k, t, B) \<Rightarrow> (k, t)),
      q_merge_owner = (\<lambda>g f A. case m_merge (M (kind_of g)) (timeout_of g) (kind_of f) (timeout_of f) A of
          None \<Rightarrow> A | Some (k, t, B) \<Rightarrow> B)\<rparr>"

text \<open>A filter as its constructor leaves it, up to the flags the manager does not test.\<close>

definition skill_good :: "('k \<Rightarrow> 'k methods) \<Rightarrow> 'k timed \<Rightarrow> bool" where
  "skill_good M f \<longleftrightarrow> f_id f = m_id (M (kind_of f)) \<and> f_mask f AND MASK_CONTROL = m_mask (M (kind_of f)) AND MASK_CONTROL
     \<and> (\<forall>i < IDX_MAX. bit (f_mask f) i \<longrightarrow> i = IDX_HEARTBEAT)"

lemma skill_goodD:
  assumes "skill_good M f"
  shows "f_id f = m_id (M (kind_of f))" "f_mask f AND MASK_CONTROL = m_mask (M (kind_of f)) AND MASK_CONTROL"
    "i < IDX_MAX \<Longrightarrow> bit (f_mask f) i \<Longrightarrow> i = IDX_HEARTBEAT"
  using assms by (auto simp: skill_good_def)

subsection \<open>What a class has to satisfy\<close>

text \<open>
  \<open>merge_law M k t k2 t2\<close>: \<open>Merge\<close> succeeds, replaces the data of the filter by some \<open>k'\<close> of the same
  id, flags, counters and team states, and moves the owner from the effect of the old data to
  that of the new.
\<close>

definition merge_law :: "('k \<Rightarrow> 'k methods) \<Rightarrow> 'k \<Rightarrow> int32 \<Rightarrow> 'k \<Rightarrow> int32 \<Rightarrow> bool" where
  "merge_law M k t k2 t2 \<longleftrightarrow>
     (\<exists>k' t'. m_id (M k') = m_id (M k) \<and> m_mask (M k') = m_mask (M k)
        \<and> holds (m_attach (M k')) = holds (m_attach (M k)) \<and> team_of (m_attach (M k')) = team_of (m_attach (M k))
        \<and> (\<forall>A. \<exists>B. m_merge (M k) t k2 t2 A = Some (k', t', B) \<and> steady B A
             \<and> (\<forall>s. amount B s = amount A s - effect (m_attach (M k)) s + effect (m_attach (M k')) s)
             \<and> (fresh_except {} A \<longrightarrow> fresh_except {} B)))"

text \<open>The parts of a family's laws, over its classes one by one.\<close>

lemma counts_undone: "raises on n \<Longrightarrow> lowers off m \<Longrightarrow> n = m \<Longrightarrow> \<exists>n. raises on n \<and> lowers off n"
  by blast

lemma teams_undone:
  "joins on T \<Longrightarrow> leaves off U \<Longrightarrow> T = U \<Longrightarrow> \<forall>t \<in> T. P t \<Longrightarrow> \<exists>T. joins on T \<and> leaves off T \<and> (\<forall>t \<in> T. P t)"
  by blast

text \<open>A merge that replaces the data and makes the calls \<open>f\<close>, and one that keeps the data.\<close>

definition change_ok :: "('k \<Rightarrow> 'k methods) \<Rightarrow> 'k \<Rightarrow> 'k \<Rightarrow> (actor \<Rightarrow> actor) \<Rightarrow> bool" where
  "change_ok M k k' f \<longleftrightarrow> m_id (M k') = m_id (M k) \<and> m_mask (M k') = m_mask (M k)
     \<and> holds (m_attach (M k')) = holds (m_attach (M k)) \<and> team_of (m_attach (M k')) = team_of (m_attach (M k))
     \<and> quiet f \<and> renews f
     \<and> (\<forall>A s. amount (f A) s = amount A s - effect (m_attach (M k)) s + effect (m_attach (M k')) s)"

lemma change_okI:
  assumes "m_id (M k') = m_id (M k)" "m_mask (M k') = m_mask (M k)"
    and "raises (m_attach (M k)) n" "raises (m_attach (M k')) n'" "n = n'"
    and "joins (m_attach (M k)) T" "joins (m_attach (M k')) T'" "T = T'"
    and "quiet f" "renews f"
    and "\<And>A s. amount (f A) s = amount A s - effect (m_attach (M k)) s + effect (m_attach (M k')) s"
  shows "change_ok M k k' f"
  using assms unfolding change_ok_def by (metis joins_team_of raises_holds)

lemma merge_step:
  assumes "\<And>A. m_merge (M k) t k2 t2 A = Some (k', t', f A)" "change_ok M k k' f"
  shows "merge_law M k t k2 t2"
  using assms unfolding merge_law_def change_ok_def quiet_def renews_def by blast

lemma merge_keep:
  assumes "\<And>A. m_merge (M k) t k2 t2 A = Some (k, t', A)"
  shows "merge_law M k t k2 t2"
  unfolding merge_law_def using assms by (auto simp: steady_def same_control_def intro!: exI [of _ k])

lemma merge_change:
  assumes "\<And>A. m_merge (M k) t k2 t2 A = Some (if c then (k', t', f A) else (k, t'', A))" "change_ok M k k' f"
  shows "merge_law M k t k2 t2"
  using merge_step [of M k t k2 t2 k' t' f] merge_keep [of M k t k2 t2 t''] assms by (cases c) auto

lemma mask_control:
  fixes m m' :: u32
  assumes "m AND MASK_CONTROL = m' AND MASK_CONTROL" "w AND MASK_CONTROL = w"
  shows "m AND w = m' AND w"
proof -
  have "x AND w = (x AND MASK_CONTROL) AND w" for x :: u32
    using arg_cong [OF assms(2), of "\<lambda>y. x AND y"] by (simp only: and.commute and.left_commute and.assoc)
  then show ?thesis using assms(1) by metis
qed

lemma mask_flags: "MASK_UNIQUE AND MASK_CONTROL = MASK_UNIQUE" "MASK_WEAK AND MASK_CONTROL = MASK_WEAK"
    "MASK_MERGE AND MASK_CONTROL = MASK_MERGE"
  by simp_all

lemma mask_control_cases:
  fixes m :: u32
  assumes "m AND MASK_CONTROL \<noteq> 0"
  shows "m AND MASK_UNIQUE \<noteq> 0 \<or> m AND MASK_WEAK \<noteq> 0 \<or> m AND MASK_MERGE \<noteq> 0"
proof (rule ccontr)
  assume "\<not> ?thesis"
  moreover have "m AND MASK_CONTROL = (m AND MASK_UNIQUE) OR (m AND MASK_WEAK) OR (m AND MASK_MERGE)"
    by (simp flip: bit.conj_disj_distrib)
  ultimately show False using assms by simp
qed

locale skill_family =
  fixes M :: "'k \<Rightarrow> 'k methods"
  assumes undone: "undoes (m_attach (M k)) (m_release (M k))"
    and merging: "m_id (M k) = m_id (M k2) \<Longrightarrow> m_mask (M k) AND MASK_MERGE \<noteq> 0 \<Longrightarrow> merge_law M k t k2 t2"
    and same_control: "m_id (M k) = m_id (M k2) \<Longrightarrow> m_mask (M k) AND MASK_CONTROL = m_mask (M k2) AND MASK_CONTROL"
    and some_control: "m_mask (M k) AND MASK_CONTROL \<noteq> 0"
    and heartbeat_only: "m_mask (M k) AND MASK_ALL = MASK_HEARTBEAT"
    and team_id: "team_of (m_attach (M k)) \<inter> team_of (m_attach (M k2)) \<noteq> {} \<Longrightarrow> m_id (M k) = m_id (M k2)"
begin

text \<open>What the constructors make, with flags of the caller that the manager does not test.\<close>

lemma good_new:
  assumes "flags AND (MASK_CONTROL OR MASK_ALL) = 0"
  shows "skill_good M (timeout_filter M k period flags)" "bit (f_mask (timeout_filter M k period flags)) IDX_HEARTBEAT"
    "\<not> f_deleted (timeout_filter M k period flags)"
proof -
  have z: "flags AND MASK_CONTROL = 0" "flags AND MASK_ALL = 0"
    using assms by (simp_all only: bit.conj_disj_distrib or_eq_0_iff)
  from z(1) have c: "(m_mask (M k) OR flags) AND MASK_CONTROL = m_mask (M k) AND MASK_CONTROL"
    by (simp only: bit.conj_disj_distrib2 or.right_neutral)
  have h: "bit (m_mask (M k)) i \<longleftrightarrow> i = IDX_HEARTBEAT" "\<not> bit flags i" if i: "i < IDX_MAX" for i
  proof -
    have a: "bit MASK_ALL i" using i by (auto simp: less_Suc_eq numeral_eq_Suc)
    then show "\<not> bit flags i" using arg_cong [OF z(2), of "\<lambda>x. bit x i"] by (simp add: bit_and_iff)
    have "bit (m_mask (M k)) i \<longleftrightarrow> bit (m_mask (M k) AND MASK_ALL) i" using a by (simp add: bit_and_iff)
    also have "\<dots> \<longleftrightarrow> bit MASK_HEARTBEAT i" by (simp only: heartbeat_only)
    also have "\<dots> \<longleftrightarrow> i = IDX_HEARTBEAT" using i by (auto simp: less_Suc_eq numeral_eq_Suc)
    finally show "bit (m_mask (M k)) i \<longleftrightarrow> i = IDX_HEARTBEAT" .
  qed
  show "skill_good M (timeout_filter M k period flags)" "bit (f_mask (timeout_filter M k period flags)) IDX_HEARTBEAT"
    "\<not> f_deleted (timeout_filter M k period flags)"
    using c h by (auto simp: skill_good_def timeout_filter_def bit_or_iff)
qed

lemma good_flag:
  assumes "skill_good M f" "w AND MASK_CONTROL = w"
  shows "f_mask f AND w = m_mask (M (kind_of f)) AND w"
  using mask_control [OF skill_goodD(2) [OF assms(1)] assms(2)] .

lemma good_merging:
  assumes "skill_good M f" "skill_good M g" "f_id f = f_id g" "f_mask f AND MASK_MERGE \<noteq> 0"
  shows "f_mask g AND MASK_MERGE \<noteq> 0" "merge_law M (kind_of g) t (kind_of f) t2"
proof -
  have id: "m_id (M (kind_of g)) = m_id (M (kind_of f))" using assms(3) skill_goodD(1) assms(1,2) by metis
  have "f_mask g AND MASK_MERGE = f_mask f AND MASK_MERGE"
    using good_flag [OF assms(1)] good_flag [OF assms(2)] mask_control [OF same_control [OF id]] mask_flags(3) by metis
  then show g: "f_mask g AND MASK_MERGE \<noteq> 0" using assms(4) by metis
  then have "m_mask (M (kind_of g)) AND MASK_MERGE \<noteq> 0" using good_flag [OF assms(2) mask_flags(3)] by metis
  then show "merge_law M (kind_of g) t (kind_of f) t2" by (rule merging [OF id])
qed

lemma merge_result:
  assumes "merge_law M (kind_of g) (timeout_of g) (kind_of f) (timeout_of f)"
  obtains k' t' where "q_merge (skill_quiet M) g f = (k', t')" "m_id (M k') = m_id (M (kind_of g))"
    "m_mask (M k') = m_mask (M (kind_of g))" "holds (m_attach (M k')) = holds (m_attach (M (kind_of g)))"
    "team_of (m_attach (M k')) = team_of (m_attach (M (kind_of g)))"
    "\<And>A. m_merge (M (kind_of g)) (timeout_of g) (kind_of f) (timeout_of f) A = Some (k', t', q_merge_owner (skill_quiet M) g f A)"
    "\<And>A. steady (q_merge_owner (skill_quiet M) g f A) A"
    "\<And>A s. amount (q_merge_owner (skill_quiet M) g f A) s
        = amount A s - effect (m_attach (M (kind_of g))) s + effect (m_attach (M k')) s"
    "\<And>A. fresh_except {} A \<Longrightarrow> fresh_except {} (q_merge_owner (skill_quiet M) g f A)"
proof -
  obtain k' t' where k: "m_id (M k') = m_id (M (kind_of g))" "m_mask (M k') = m_mask (M (kind_of g))"
    "holds (m_attach (M k')) = holds (m_attach (M (kind_of g)))" "team_of (m_attach (M k')) = team_of (m_attach (M (kind_of g)))"
    and A: "\<forall>A. \<exists>B. m_merge (M (kind_of g)) (timeout_of g) (kind_of f) (timeout_of f) A = Some (k', t', B) \<and> steady B A
             \<and> (\<forall>s. amount B s = amount A s - effect (m_attach (M (kind_of g))) s + effect (m_attach (M k')) s)
             \<and> (fresh_except {} A \<longrightarrow> fresh_except {} B)"
    using assms unfolding merge_law_def by auto
  have "q_merge (skill_quiet M) g f = (k', t')" using spec [OF A, of actor_new] by (auto simp: skill_quiet_def)
  moreover have "m_merge (M (kind_of g)) (timeout_of g) (kind_of f) (timeout_of f) A
      = Some (k', t', q_merge_owner (skill_quiet M) g f A)
    \<and> steady (q_merge_owner (skill_quiet M) g f A) A
    \<and> (\<forall>s. amount (q_merge_owner (skill_quiet M) g f A) s
        = amount A s - effect (m_attach (M (kind_of g))) s + effect (m_attach (M k')) s)
    \<and> (fresh_except {} A \<longrightarrow> fresh_except {} (q_merge_owner (skill_quiet M) g f A))" for A
    using spec [OF A, of A] by (auto simp: skill_quiet_def)
  ultimately show thesis using that k by blast
qed

lemma good_masked:
  assumes "skill_good M f" "w AND MASK_CONTROL = MASK_CONTROL"
  shows "skill_good M (f\<lparr>f_mask := f_mask f AND w\<rparr>)"
  using assms by (simp add: skill_good_def and.assoc bit_and_iff)

sublocale quiet: quiet_filters "skill_class M" "skill_quiet M" "skill_good M"
proof (unfold_locales, goal_cases)
  case (5 f g c)
  note m = good_merging [OF 5]
  from m(2) [of "timeout_of g" "timeout_of f"] obtain k' t' where
    "q_merge (skill_quiet M) g f = (k', t')"
    "m_merge (M (kind_of g)) (timeout_of g) (kind_of f) (timeout_of f) c = Some (k', t', q_merge_owner (skill_quiet M) g f c)"
    by (rule merge_result) blast
  then show ?case using m(1) by (simp add: skill_class_def)
next
  case (10 f g)
  from good_merging(2) [OF 10, of "timeout_of g" "timeout_of f"] obtain k' t' where
    "q_merge (skill_quiet M) g f = (k', t')" "m_id (M k') = m_id (M (kind_of g))" "m_mask (M k') = m_mask (M (kind_of g))"
    by (rule merge_result)
  then show ?case using 10(2) by (simp add: skill_good_def)
next
  case (9 f)
  then show ?case by (rule good_masked) simp
qed (auto simp: skill_class_def skill_quiet_def skill_good_def timeout_Heartbeat_def Let_def)

sublocale effects "\<lambda>k. m_attach (M k)" "\<lambda>k. m_release (M k)" "\<lambda>_. True"
  by unfold_locales (rule undone)

subsubsection \<open>The account of the owner\<close>

text \<open>
  \<open>kept B (xs, A)\<close>: no two filters have the same id, and \<open>A\<close> is the owner \<open>B\<close> with the effects
  of the filters \<open>xs\<close>.
\<close>

definition kinds :: "'k timed list \<Rightarrow> 'k multiset" where
  "kinds xs = mset (map kind_of xs)"

definition kept :: "actor \<Rightarrow> 'k timed list \<times> actor \<Rightarrow> bool" where
  "kept B = (\<lambda>(xs, A). distinct (map f_id xs) \<and> (\<forall>f \<in> set xs. skill_good M f)
     \<and> account (\<lambda>k. m_attach (M k)) B (kinds xs) A)"

lemma kinds_simps [simp]: "kinds [] = {#}" "kinds (f # xs) = add_mset (kind_of f) (kinds xs)" "kinds (xs @ ys) = kinds xs + kinds ys"
  by (simp_all add: kinds_def)

lemma apart_by_id:
  assumes "skill_good M f" "\<forall>g \<in> set xs. skill_good M g" "f_id f \<notin> f_id ` set xs"
  shows "team_of (m_attach (M (kind_of f))) \<inter> team_set (\<lambda>k. m_attach (M k)) (kinds xs) = {}"
proof -
  have "team_of (m_attach (M (kind_of f))) \<inter> team_of (m_attach (M (kind_of g))) = {}" if "g \<in> set xs" for g
    using team_id [of "kind_of f" "kind_of g"] assms that skill_goodD(1) by (metis image_eqI)
  then show ?thesis by (auto simp: team_set_def kinds_def)
qed

lemma mset_insert: "mset (spec_insert f xs) = add_mset f (mset xs)"
proof -
  have "mset (takeWhile P xs) + mset (dropWhile P xs) = mset xs" for P
    by (metis mset_append takeWhile_dropWhile_id)
  then show ?thesis by (simp add: spec_insert_def)
qed

lemma kinds_insert: "kinds (spec_insert f xs) = add_mset (kind_of f) (kinds xs)"
  by (simp add: kinds_def mset_insert)

lemma set_insert: "set (spec_insert f xs) = insert f (set xs)"
  using arg_cong [OF mset_insert, of set_mset f xs] by simp

lemma distinct_insert:
  assumes "distinct (map f_id xs)" "f_id f \<notin> f_id ` set xs"
  shows "distinct (map f_id (spec_insert f xs))"
proof -
  have "mset (map f_id (spec_insert f xs)) = mset (map f_id (f # xs))" by (simp add: mset_insert)
  then have "distinct (map f_id (spec_insert f xs)) \<longleftrightarrow> distinct (map f_id (f # xs))"
    by (rule mset_eq_imp_distinct_iff)
  then show ?thesis using assms by simp
qed

lemma kept_attach:
  assumes "kept B (xs, A)" "skill_good M f" "f_id f \<notin> f_id ` set xs"
  shows "kept B (spec_attach (skill_quiet M) f (xs, A))"
  using assms on_account [of B "kinds xs" A "kind_of f"]
  by (simp add: kept_def spec_attach_def kinds_insert distinct_insert set_insert) (simp add: skill_quiet_def)

lemma kept_drop:
  assumes "kept B (xs, A)"
  shows "kept B (spec_drop (skill_quiet M) P (xs, A))"
proof -
  have "account (\<lambda>k. m_attach (M k)) B (kinds (filter (\<lambda>f. \<not> P f) xs) + kinds ys)
      (fold (q_release (skill_quiet M)) zs A)"
    if "account (\<lambda>k. m_attach (M k)) B (kinds (filter (\<lambda>f. \<not> P f) xs) + kinds ys + kinds zs) A"
      "distinct (map f_id (filter (\<lambda>f. \<not> P f) xs @ ys @ zs))"
      "\<forall>f \<in> set (filter (\<lambda>f. \<not> P f) xs @ ys @ zs). skill_good M f" for ys zs A
    using that
  proof (induction zs arbitrary: A)
    case (Cons f zs)
    let ?xs = "filter (\<lambda>f. \<not> P f) xs @ ys @ zs"
    have "team_of (m_attach (M (kind_of f))) \<inter> team_set (\<lambda>k. m_attach (M k)) (kinds ?xs) = {}"
      by (rule apart_by_id) (use Cons.prems(2,3) in auto)
    then have "account (\<lambda>k. m_attach (M k)) B (kinds ?xs) (m_release (M (kind_of f)) A)"
      using Cons.prems(1) by (intro off_account) (simp_all add: ac_simps)
    then have "account (\<lambda>k. m_attach (M k)) B (kinds (filter (\<lambda>f. \<not> P f) xs) + kinds ys + kinds zs) (q_release (skill_quiet M) f A)"
      by (simp add: skill_quiet_def ac_simps)
    from Cons.IH [OF this] Cons.prems(2,3) show ?case by simp
  qed simp
  note drop = this [of "[]" "filter P xs" A]
  have k: "kinds (filter (\<lambda>f. \<not> P f) xs) + kinds (filter P xs) = kinds xs"
    by (induction xs) simp_all
  have d: "distinct (map f_id (filter (\<lambda>f. \<not> P f) xs @ filter P xs)) \<longleftrightarrow> distinct (map f_id xs)"
    by (rule mset_eq_imp_distinct_iff, unfold mset_map, rule arg_cong [where f = "image_mset f_id"]) simp
  show ?thesis using drop assms d by (auto simp: kept_def spec_drop_def k distinct_map_filter)
qed

lemma kept_merge:
  assumes "kept B (xs, A)" "skill_good M f" "f_id f \<in> f_id ` set xs" "f_mask f AND MASK_MERGE \<noteq> 0"
  shows "kept B (merge_first (skill_quiet M) f (xs, A))"
proof -
  obtain as g bs where xs: "xs = as @ g # bs" "f_id g = f_id f" "f_id f \<notin> f_id ` set as"
    using split_list_first_prop [of xs "\<lambda>g. f_id g = f_id f"] assms(3) by fastforce
  have m: "merge_first (skill_quiet M) f (as @ g # bs, A)
      = (as @ g\<lparr>f_data := q_merge (skill_quiet M) g f\<rparr> # bs, q_merge_owner (skill_quiet M) g f A)"
    using xs(2,3) by (induction as) (auto simp: image_iff)
  have g: "skill_good M g" using assms(1) xs(1) by (simp add: kept_def)
  from good_merging(2) [OF assms(2) g xs(2) [symmetric] assms(4), of "timeout_of g" "timeout_of f"]
  obtain k' t' where r: "q_merge (skill_quiet M) g f = (k', t')" "m_id (M k') = m_id (M (kind_of g))"
    "m_mask (M k') = m_mask (M (kind_of g))" "holds (m_attach (M k')) = holds (m_attach (M (kind_of g)))"
    "team_of (m_attach (M k')) = team_of (m_attach (M (kind_of g)))" and
    A: "steady (q_merge_owner (skill_quiet M) g f A) A"
    "\<And>s. amount (q_merge_owner (skill_quiet M) g f A) s
        = amount A s - effect (m_attach (M (kind_of g))) s + effect (m_attach (M k')) s"
    "fresh_except {} A \<Longrightarrow> fresh_except {} (q_merge_owner (skill_quiet M) g f A)"
    by (rule merge_result) blast
  have "account (\<lambda>k. m_attach (M k)) B (kinds (as @ g\<lparr>f_data := (k', t')\<rparr> # bs)) (q_merge_owner (skill_quiet M) g f A)"
    using assms(1) A(3) steady_count [OF A(1)] steady_fault [OF A(1)] steady_counted [OF A(1)] steady_team [OF A(1)] r(4,5)
    by (auto simp: kept_def xs(1) account_def A(2) team_set_def teams_def algebra_simps)
  moreover have "skill_good M (g\<lparr>f_data := (k', t')\<rparr>)" using g r(2,3) by (simp add: skill_good_def)
  ultimately show ?thesis
    unfolding xs(1) m r(1) using assms(1) by (simp add: kept_def xs(1))
qed

lemma kept_request:
  assumes "kept B (xs, A)" "valid_request (skill_good M) r"
  shows "kept B (spec_request (skill_quiet M) r (xs, A))"
proof (cases r)
  case (ReqAdd f)
  then have f: "skill_good M f" using assms(2) by (simp add: valid_request_def)
  have "f_mask f AND MASK_CONTROL \<noteq> 0"
    using skill_goodD(2) [OF f] some_control by simp
  then have c: "f_mask f AND MASK_UNIQUE \<noteq> 0 \<or> f_mask f AND MASK_WEAK \<noteq> 0 \<or> f_mask f AND MASK_MERGE \<noteq> 0"
    by (rule mask_control_cases)
  have u: "kept B (spec_attach (skill_quiet M) f (spec_drop (skill_quiet M) (\<lambda>g. f_id g = f_id f) (xs, A)))"
    using kept_drop [OF assms(1), of "\<lambda>g. f_id g = f_id f"] f
    by (auto simp: spec_drop_def intro!: kept_attach)
  consider "f_id f \<notin> f_id ` set xs" | "f_id f \<in> f_id ` set xs" "f_mask f AND MASK_UNIQUE \<noteq> 0"
    | "f_id f \<in> f_id ` set xs" "f_mask f AND MASK_UNIQUE = 0" "f_mask f AND MASK_WEAK \<noteq> 0"
    | "f_id f \<in> f_id ` set xs" "f_mask f AND MASK_UNIQUE = 0" "f_mask f AND MASK_WEAK = 0" "f_mask f AND MASK_MERGE \<noteq> 0"
    using c by blast
  then show ?thesis
  proof cases
    case 1 then show ?thesis using kept_attach [OF assms(1) f] by (simp add: ReqAdd spec_request_def spec_add_def)
  next
    case 2 then show ?thesis using u by (simp add: ReqAdd spec_request_def spec_add_def)
  next
    case 3 then show ?thesis using assms(1) by (simp add: ReqAdd spec_request_def spec_add_def)
  next
    case 4 then show ?thesis using kept_merge [OF assms(1) f] by (simp add: ReqAdd spec_request_def spec_add_def)
  qed
next
  case (ReqEvent i tick)
  have "kept B (map (ticked (skill_quiet M) tick) xs, A)"
  proof -
    have "f_id (ticked (skill_quiet M) tick f) = f_id f" "kind_of (ticked (skill_quiet M) tick f) = kind_of f"
      "skill_good M f \<Longrightarrow> skill_good M (ticked (skill_quiet M) tick f)" for f
      by (simp_all add: ticked_def skill_quiet_def timeout_Heartbeat_def Let_def skill_good_def)
    moreover from this(2) have "kinds (map (ticked (skill_quiet M) tick) xs) = kinds xs"
      by (induction xs) simp_all
    ultimately show ?thesis using assms(1) by (simp add: kept_def comp_def)
  qed
  then show ?thesis using assms(1) kept_drop by (simp add: ReqEvent spec_request_def spec_tick_def)
qed (use assms kept_drop in \<open>simp_all add: spec_request_def\<close>)

lemma kept_requests:
  assumes "kept B s" "\<forall>r \<in> set rs. valid_request (skill_good M) r"
  shows "kept B (fold (spec_request (skill_quiet M)) rs s)"
  using assms
proof (induction rs arbitrary: s)
  case (Cons r rs)
  then show ?case using kept_request [of B "fst s" "snd s" r] by simp
qed simp

end

end
