(* ===== verification/SkillControl.thy ===== *)
theory SkillControl
  imports SkillFilter
begin

text \<open>The filters of sleep, stun, root, silence and immunity of \<open>skillfilter.h\<close>, one definition per class, and their laws.\<close>

subsection \<open>The classes\<close>

datatype control =
    Sealed
  | Dizzy
  | Fix
  | Freemove
  | Closed
  | Befrozen bool
  | Sealed2 bool
  | Fix2 bool
  | Palsy
  | Minecarprotect

definition filter_Sealed :: "control methods" where
  "filter_Sealed =
     \<lparr>m_guid = CLASS_SEALED,
      m_id = FILTER_SEALED,
      m_mask = MASK_WEAK OR MASK_HEARTBEAT OR MASK_REMOVE_ON_DEATH OR MASK_TRANSFERABLE_DEBUFF,
      m_save = [],
      m_load = ret Sealed,
      m_attach = calls [IncIdleSealMode MODE_INDEX_SILENT, IncVisibleState VSTATE_SEALED,
        InsertTeamVisibleState HSTATE_SEALED []],
      m_release = calls [DecIdleSealMode MODE_INDEX_SILENT, DecVisibleState VSTATE_SEALED, RemoveTeamVisibleState HSTATE_SEALED],
      m_merge = assert_false\<rparr>"

definition filter_Dizzy :: "control methods" where
  "filter_Dizzy =
     \<lparr>m_guid = CLASS_DIZZY,
      m_id = FILTER_DIZZY,
      m_mask = MASK_WEAK OR MASK_HEARTBEAT OR MASK_REMOVE_ON_DEATH,
      m_save = [],
      m_load = ret Dizzy,
      m_attach = calls [IncIdleSealMode MODE_INDEX_STUN, IncVisibleState VSTATE_DIZZY, InsertTeamVisibleState HSTATE_DIZZY []],
      m_release = calls [DecIdleSealMode MODE_INDEX_STUN, DecVisibleState VSTATE_DIZZY, RemoveTeamVisibleState HSTATE_DIZZY],
      m_merge = assert_false\<rparr>"

definition filter_Fix :: "control methods" where
  "filter_Fix =
     \<lparr>m_guid = CLASS_FIX,
      m_id = FILTER_FIX,
      m_mask = MASK_WEAK OR MASK_DEBUFF OR MASK_HEARTBEAT OR MASK_REMOVE_ON_DEATH OR MASK_TRANSFERABLE_DEBUFF,
      m_save = [],
      m_load = ret Fix,
      m_attach = calls [IncIdleSealMode MODE_INDEX_ROOT, IncVisibleState VSTATE_FIX, InsertTeamVisibleState HSTATE_FIX []],
      m_release = calls [DecIdleSealMode MODE_INDEX_ROOT, DecVisibleState VSTATE_FIX, RemoveTeamVisibleState HSTATE_FIX],
      m_merge = assert_false\<rparr>"

definition filter_Freemove :: "control methods" where
  "filter_Freemove =
     \<lparr>m_guid = CLASS_FREEMOVE,
      m_id = FILTER_FREEMOVE,
      m_mask = MASK_WEAK OR MASK_BUFF OR MASK_HEARTBEAT OR MASK_REMOVE_ON_DEATH OR MASK_TRANSFERABLE_BUFF,
      m_save = [],
      m_load = ret Freemove,
      m_attach = calls [InsertTeamVisibleState HSTATE_FREEMOVE [], IncImmuneMask IMMUNESLOW, IncImmuneMask IMMUNEFIX,
        IncImmuneMask IMMUNEDIZZY, IncImmuneMask IMMUNESLEEP],
      m_release = calls [RemoveTeamVisibleState HSTATE_FREEMOVE, DecImmuneMask IMMUNESLOW, DecImmuneMask IMMUNEFIX,
        DecImmuneMask IMMUNEDIZZY, DecImmuneMask IMMUNESLEEP],
      m_merge = assert_false\<rparr>"

definition filter_Closed :: "control methods" where
  "filter_Closed =
     \<lparr>m_guid = CLASS_CLOSED,
      m_id = FILTER_CLOSED,
      m_mask = MASK_WEAK OR MASK_BUFF OR MASK_DEBUFF OR MASK_HEARTBEAT OR MASK_REMOVE_ON_DEATH OR MASK_TRANSFERABLE_BUFF,
      m_save = [],
      m_load = ret Closed,
      m_attach = calls [IncIdleSealMode MODE_INDEX_SILENT, IncImmuneMask IMMUNEPHYSICAL,
        InsertTeamVisibleState HSTATE_CLOSED []],
      m_release = calls [DecIdleSealMode MODE_INDEX_SILENT, DecImmuneMask IMMUNEPHYSICAL, RemoveTeamVisibleState HSTATE_CLOSED],
      m_merge = assert_false\<rparr>"

definition filter_Befrozen :: "bool \<Rightarrow> control methods" where
  "filter_Befrozen insertvstate =
     \<lparr>m_guid = CLASS_BEFROZEN,
      m_id = FILTER_BEFROZEN,
      m_mask = MASK_WEAK OR MASK_DEBUFF OR MASK_HEARTBEAT OR MASK_REMOVE_ON_DEATH OR MASK_TRANSFERABLE_DEBUFF,
      m_save = [VBool insertvstate],
      m_load = loads get_bool (\<lambda>insertvstate. ret (Befrozen insertvstate)),
      m_attach = calls [IncIdleSealMode MODE_INDEX_STUN, only_if insertvstate (IncVisibleState VSTATE_BEFROZEN),
        InsertTeamVisibleState HSTATE_BEFROZEN []],
      m_release = calls [DecIdleSealMode MODE_INDEX_STUN, only_if insertvstate (DecVisibleState VSTATE_BEFROZEN),
        RemoveTeamVisibleState HSTATE_BEFROZEN],
      m_merge = assert_false\<rparr>"

definition filter_Sealed2 :: "bool \<Rightarrow> control methods" where
  "filter_Sealed2 insertvstate =
     \<lparr>m_guid = CLASS_SEALED2,
      m_id = FILTER_SEALED2,
      m_mask = MASK_WEAK OR MASK_HEARTBEAT OR MASK_REMOVE_ON_DEATH OR MASK_TRANSFERABLE_DEBUFF,
      m_save = [VBool insertvstate],
      m_load = loads get_bool (\<lambda>insertvstate. ret (Sealed2 insertvstate)),
      m_attach = calls [IncIdleSealMode MODE_INDEX_SILENT, only_if insertvstate (IncVisibleState VSTATE_SEALED),
        InsertTeamVisibleState HSTATE_SEALED2 []],
      m_release = calls [DecIdleSealMode MODE_INDEX_SILENT, only_if insertvstate (DecVisibleState VSTATE_SEALED),
        RemoveTeamVisibleState HSTATE_SEALED2],
      m_merge = assert_false\<rparr>"

definition filter_Fix2 :: "bool \<Rightarrow> control methods" where
  "filter_Fix2 insertvstate =
     \<lparr>m_guid = CLASS_FIX2,
      m_id = FILTER_FIX2,
      m_mask = MASK_WEAK OR MASK_HEARTBEAT OR MASK_REMOVE_ON_DEATH OR MASK_TRANSFERABLE_DEBUFF,
      m_save = [VBool insertvstate],
      m_load = loads get_bool (\<lambda>insertvstate. ret (Fix2 insertvstate)),
      m_attach = calls [IncIdleSealMode MODE_INDEX_ROOT, only_if insertvstate (IncVisibleState VSTATE_FIX),
        InsertTeamVisibleState HSTATE_FIX2 []],
      m_release = calls [DecIdleSealMode MODE_INDEX_ROOT, only_if insertvstate (DecVisibleState VSTATE_FIX),
        RemoveTeamVisibleState HSTATE_FIX2],
      m_merge = assert_false\<rparr>"

definition filter_Palsy :: "control methods" where
  "filter_Palsy =
     \<lparr>m_guid = CLASS_PALSY,
      m_id = FILTER_PALSY,
      m_mask = MASK_UNIQUE OR MASK_HEARTBEAT OR MASK_NOSAVE OR MASK_REMOVE_ON_DEATH,
      m_save = [],
      m_load = ret Palsy,
      m_attach = calls [IncIdleSealMode MODE_INDEX_STUN, IncVisibleState VSTATE_PALSY, InsertTeamVisibleState HSTATE_PALSY []],
      m_release = calls [DecIdleSealMode MODE_INDEX_STUN, DecVisibleState VSTATE_PALSY, RemoveTeamVisibleState HSTATE_PALSY],
      m_merge = assert_false\<rparr>"

definition filter_Minecarprotect :: "control methods" where
  "filter_Minecarprotect =
     \<lparr>m_guid = CLASS_MINECARPROTECT,
      m_id = FILTER_MINECARPROTECT,
      m_mask = MASK_UNIQUE OR MASK_HEARTBEAT OR MASK_REMOVE_ON_DEATH,
      m_save = [],
      m_load = ret Minecarprotect,
      m_attach = calls [IncImmuneMask (IMMUNEPHYSICAL OR IMMUNEMETAL OR IMMUNEWOOD OR IMMUNEWATER OR IMMUNEFIRE OR IMMUNESOIL OR IMMUNEALL),
        IncVisibleState VSTATE_INVINCIBLE, InsertTeamVisibleState HSTATE_INVINCIBLE []],
      m_release = calls [DecImmuneMask (IMMUNEPHYSICAL OR IMMUNEMETAL OR IMMUNEWOOD OR IMMUNEWATER OR IMMUNEFIRE OR IMMUNESOIL OR IMMUNEALL),
        DecVisibleState VSTATE_INVINCIBLE, RemoveTeamVisibleState HSTATE_INVINCIBLE],
      m_merge = assert_false\<rparr>"

primrec control_methods :: "control \<Rightarrow> control methods" where
  "control_methods Sealed = filter_Sealed"
| "control_methods Dizzy = filter_Dizzy"
| "control_methods Fix = filter_Fix"
| "control_methods Freemove = filter_Freemove"
| "control_methods Closed = filter_Closed"
| "control_methods (Befrozen insertvstate) = filter_Befrozen insertvstate"
| "control_methods (Sealed2 insertvstate) = filter_Sealed2 insertvstate"
| "control_methods (Fix2 insertvstate) = filter_Fix2 insertvstate"
| "control_methods Palsy = filter_Palsy"
| "control_methods Minecarprotect = filter_Minecarprotect"

lemmas control_defs =
  filter_Sealed_def filter_Dizzy_def filter_Fix_def filter_Freemove_def filter_Closed_def
  filter_Befrozen_def filter_Sealed2_def filter_Fix2_def filter_Palsy_def filter_Minecarprotect_def

subsection \<open>Laws\<close>

text \<open>The filter ids of the family with their flags, and the id of each team state.\<close>

definition control_ids :: "(int \<times> u32) list" where
  "control_ids =
    [(FILTER_SEALED, MASK_WEAK), (FILTER_DIZZY, MASK_WEAK), (FILTER_FIX, MASK_WEAK), (FILTER_FREEMOVE, MASK_WEAK),
     (FILTER_CLOSED, MASK_WEAK), (FILTER_BEFROZEN, MASK_WEAK), (FILTER_SEALED2, MASK_WEAK),
     (FILTER_FIX2, MASK_WEAK), (FILTER_PALSY, MASK_UNIQUE), (FILTER_MINECARPROTECT, MASK_UNIQUE)]"

definition control_teams :: "(u16 \<times> int) list" where
  "control_teams =
    [(HSTATE_SEALED, FILTER_SEALED), (HSTATE_DIZZY, FILTER_DIZZY), (HSTATE_FIX, FILTER_FIX),
     (HSTATE_FREEMOVE, FILTER_FREEMOVE), (HSTATE_CLOSED, FILTER_CLOSED), (HSTATE_BEFROZEN, FILTER_BEFROZEN),
     (HSTATE_SEALED2, FILTER_SEALED2), (HSTATE_FIX2, FILTER_FIX2), (HSTATE_PALSY, FILTER_PALSY),
     (HSTATE_INVINCIBLE, FILTER_MINECARPROTECT)]"

text \<open>The classes by their numbers; \<open>Load\<close> does not depend on the data of the object it fills.\<close>

definition control_loaders :: "(int32 \<times> control loader) list" where
  "control_loaders = map (\<lambda>m. (m_guid m, m_load m))
    [filter_Sealed, filter_Dizzy, filter_Fix, filter_Freemove, filter_Closed, filter_Befrozen False,
     filter_Sealed2 False, filter_Fix2 False, filter_Palsy, filter_Minecarprotect]"


lemmas control_unfold = control_methods.simps control_defs methods.select_convs

lemma control_amount:
  "amount (m_attach (control_methods k) A) s = amount A s + effect (m_attach (control_methods k)) s"
  "amount (m_release (control_methods k) A) s = amount A s - effect (m_attach (control_methods k)) s"
  by (cases k; simp only: control_unfold; simp add: effect_def amount_simps amount_new algebra_simps split del: if_split)+

lemma control_counts: "\<exists>n. raises (m_attach (control_methods k)) n \<and> lowers (m_release (control_methods k)) n"
  by (cases k; (simp only: control_unfold, rule counts_undone, (rule effect_intros | (simp add: fun_eq_iff; fail))+))

lemma control_states:
  "\<exists>T. joins (m_attach (control_methods k)) T \<and> leaves (m_release (control_methods k)) T \<and> (\<forall>t \<in> T. (t, m_id (control_methods k)) \<in> set control_teams)"
  by (cases k; (simp only: control_unfold, rule teams_undone, (rule effect_intros | (simp add: TVSGetState_def control_teams_def; fail))+))

lemma control_fresh: "renews (m_attach (control_methods k)) \<and> renews (m_release (control_methods k))"
  by (rule conjI; cases k; simp only: control_unfold; rule renews_calls, (simp only: calls_simps, (rule fresh_intros | assumption)+), auto)

lemma control_undone: "undoes (m_attach (control_methods k)) (m_release (control_methods k))"
proof -
  obtain n where n: "raises (m_attach (control_methods k)) n \<and> lowers (m_release (control_methods k)) n" using control_counts by blast
  obtain T where T: "joins (m_attach (control_methods k)) T \<and> leaves (m_release (control_methods k)) T" using control_states by blast
  show ?thesis by (rule undoes_parts [OF control_amount n T control_fresh])
qed

lemma control_team_id: "t \<in> team_of (m_attach (control_methods k)) \<Longrightarrow> (t, m_id (control_methods k)) \<in> set control_teams"
  using control_states [of k] joins_team_of by blast

lemma control_reads: "reads (m_load (control_methods k)) (concat (map encode (m_save (control_methods k)))) k"
  by (cases k; (simp only: control_unfold list.map concat.simps encode.simps, (rule reads_loads reads_int reads_bool reads_ret)+))

lemma control_id: "(m_id (control_methods k), m_mask (control_methods k) AND MASK_CONTROL) \<in> set control_ids"
  by (cases k; simp only: control_unfold control_ids_def; simp)

lemma control_events: "m_mask (control_methods k) AND MASK_ALL = MASK_HEARTBEAT"
  by (cases k; simp only: control_unfold; simp)

lemma control_loader: "(m_guid (control_methods k), m_load (control_methods k)) \<in> set control_loaders"
  unfolding control_loaders_def by (cases k; simp only: control_unfold list.map list.set; simp)

lemma control_idm:
  "m_id (filter_Sealed) = FILTER_SEALED" "m_mask (filter_Sealed) = MASK_WEAK OR MASK_HEARTBEAT OR MASK_REMOVE_ON_DEATH OR MASK_TRANSFERABLE_DEBUFF"
    "m_id (filter_Dizzy) = FILTER_DIZZY" "m_mask (filter_Dizzy) = MASK_WEAK OR MASK_HEARTBEAT OR MASK_REMOVE_ON_DEATH"
    "m_id (filter_Fix) = FILTER_FIX" "m_mask (filter_Fix) = MASK_WEAK OR MASK_DEBUFF OR MASK_HEARTBEAT OR MASK_REMOVE_ON_DEATH OR MASK_TRANSFERABLE_DEBUFF"
    "m_id (filter_Freemove) = FILTER_FREEMOVE" "m_mask (filter_Freemove) = MASK_WEAK OR MASK_BUFF OR MASK_HEARTBEAT OR MASK_REMOVE_ON_DEATH OR MASK_TRANSFERABLE_BUFF"
    "m_id (filter_Closed) = FILTER_CLOSED" "m_mask (filter_Closed) = MASK_WEAK OR MASK_BUFF OR MASK_DEBUFF OR MASK_HEARTBEAT OR MASK_REMOVE_ON_DEATH OR MASK_TRANSFERABLE_BUFF"
    "m_id (filter_Befrozen p0) = FILTER_BEFROZEN" "m_mask (filter_Befrozen p0) = MASK_WEAK OR MASK_DEBUFF OR MASK_HEARTBEAT OR MASK_REMOVE_ON_DEATH OR MASK_TRANSFERABLE_DEBUFF"
    "m_id (filter_Sealed2 p0) = FILTER_SEALED2" "m_mask (filter_Sealed2 p0) = MASK_WEAK OR MASK_HEARTBEAT OR MASK_REMOVE_ON_DEATH OR MASK_TRANSFERABLE_DEBUFF"
    "m_id (filter_Fix2 p0) = FILTER_FIX2" "m_mask (filter_Fix2 p0) = MASK_WEAK OR MASK_HEARTBEAT OR MASK_REMOVE_ON_DEATH OR MASK_TRANSFERABLE_DEBUFF"
    "m_id (filter_Palsy) = FILTER_PALSY" "m_mask (filter_Palsy) = MASK_UNIQUE OR MASK_HEARTBEAT OR MASK_NOSAVE OR MASK_REMOVE_ON_DEATH"
    "m_id (filter_Minecarprotect) = FILTER_MINECARPROTECT" "m_mask (filter_Minecarprotect) = MASK_UNIQUE OR MASK_HEARTBEAT OR MASK_REMOVE_ON_DEATH"
  by (simp_all only: control_unfold)


lemmas control_merges = TrueI

lemma control_merging:
  assumes "m_id (control_methods k) = m_id (control_methods k2)" "m_mask (control_methods k) AND MASK_MERGE \<noteq> 0"
  shows "merge_law control_methods k t k2 t2"
  using assms by (cases k; (simp only: control_methods.simps control_idm; simp; fail)?; cases k2;
    simp only: control_methods.simps control_idm numeral_eq_iff eq_num_simps simp_thms control_merges)

end
