(* ===== verification/SkillSpeed.thy ===== *)
theory SkillSpeed
  imports SkillFilter
begin

text \<open>The filters of the speeds of \<open>skillfilter.h\<close>, one definition per class, and their laws.\<close>

subsection \<open>The classes\<close>

datatype speed =
    Speedup int32
  | Slow int32
  | Fastride int32
  | Slowswim int32
  | Fastswim int32
  | Slowfly int32
  | Fastfly int32
  | Slowride int32
  | Homefeeling int32 int32
  | Burningfeet int32 int32
  | Charred int32 int32
  | Speedup2 int32 bool
  | Specialslow int32
  | Incflyspeed int32 int32 int32

definition filter_Speedup :: "int32 \<Rightarrow> speed methods" where
  "filter_Speedup ratio =
     \<lparr>m_guid = CLASS_SPEEDUP,
      m_id = FILTER_SPEEDUP,
      m_mask = MASK_MERGE OR MASK_BUFF OR MASK_REMOVE_ON_DEATH OR MASK_HEARTBEAT OR MASK_TRANSFERABLE_BUFF,
      m_save = [VInt ratio],
      m_load = loads get_int (\<lambda>ratio. ret (Speedup ratio)),
      m_attach = calls [IncVisibleState VSTATE_BLESSED, InsertTeamVisibleState HSTATE_SPEEDUP [], EnhanceSpeed ratio,
        UpdateSpeedData, SendClientCurSpeed],
      m_release = calls [DecVisibleState VSTATE_BLESSED, RemoveTeamVisibleState HSTATE_SPEEDUP, ImpairSpeed ratio,
        UpdateSpeedData, SendClientCurSpeed],
      m_merge = (\<lambda>_ nf timeout' A. case nf of Speedup ratio' \<Rightarrow>
          Some (if ratio \<noteq> ratio' then (Speedup ratio', timeout', calls [ImpairSpeed ratio, EnhanceSpeed ratio', UpdateSpeedData, SendClientCurSpeed] A)
                else (Speedup ratio, timeout', A))
        | _ \<Rightarrow> None)\<rparr>"

definition filter_Slow :: "int32 \<Rightarrow> speed methods" where
  "filter_Slow ratio =
     \<lparr>m_guid = CLASS_SLOW,
      m_id = FILTER_SLOW,
      m_mask = MASK_UNIQUE OR MASK_DEBUFF OR MASK_REMOVE_ON_DEATH OR MASK_HEARTBEAT OR MASK_TRANSFERABLE_DEBUFF,
      m_save = [VInt ratio],
      m_load = loads get_int (\<lambda>ratio. ret (Slow ratio)),
      m_attach = calls [IncVisibleState VSTATE_SLOW, InsertTeamVisibleState HSTATE_SLOW [], ImpairSpeed ratio, UpdateSpeedData,
        SendClientCurSpeed],
      m_release = calls [DecVisibleState VSTATE_SLOW, RemoveTeamVisibleState HSTATE_SLOW, EnhanceSpeed ratio, UpdateSpeedData,
        SendClientCurSpeed],
      m_merge = assert_false\<rparr>"

definition filter_Fastride :: "int32 \<Rightarrow> speed methods" where
  "filter_Fastride ratio =
     \<lparr>m_guid = CLASS_FASTRIDE,
      m_id = FILTER_FASTRIDE,
      m_mask = MASK_UNIQUE OR MASK_REMOVE_ON_DEATH OR MASK_HEARTBEAT OR MASK_TRANSFERABLE_BUFF,
      m_save = [VInt ratio],
      m_load = loads get_int (\<lambda>ratio. ret (Fastride ratio)),
      m_attach = calls [InsertTeamVisibleState HSTATE_FASTRIDE [], EnhanceMountSpeed ratio, UpdateSpeedData,
        SendClientCurSpeed],
      m_release = calls [RemoveTeamVisibleState HSTATE_FASTRIDE, ImpairMountSpeed ratio, UpdateSpeedData, SendClientCurSpeed],
      m_merge = assert_false\<rparr>"

definition filter_Slowswim :: "int32 \<Rightarrow> speed methods" where
  "filter_Slowswim ratio =
     \<lparr>m_guid = CLASS_SLOWSWIM,
      m_id = FILTER_SLOWSWIM,
      m_mask = MASK_WEAK OR MASK_DEBUFF OR MASK_REMOVE_ON_DEATH OR MASK_HEARTBEAT OR MASK_TRANSFERABLE_DEBUFF,
      m_save = [VInt ratio],
      m_load = loads get_int (\<lambda>ratio. ret (Slowswim ratio)),
      m_attach = calls [InsertTeamVisibleState HSTATE_SLOWSWIM [], ImpairSwimSpeed ratio, UpdateSpeedData, SendClientCurSpeed],
      m_release = calls [RemoveTeamVisibleState HSTATE_SLOWSWIM, EnhanceSwimSpeed ratio, UpdateSpeedData, SendClientCurSpeed],
      m_merge = assert_false\<rparr>"

definition filter_Fastswim :: "int32 \<Rightarrow> speed methods" where
  "filter_Fastswim ratio =
     \<lparr>m_guid = CLASS_FASTSWIM,
      m_id = FILTER_FASTSWIM,
      m_mask = MASK_WEAK OR MASK_BUFF OR MASK_REMOVE_ON_DEATH OR MASK_HEARTBEAT OR MASK_TRANSFERABLE_BUFF,
      m_save = [VInt ratio],
      m_load = loads get_int (\<lambda>ratio. ret (Fastswim ratio)),
      m_attach = calls [InsertTeamVisibleState HSTATE_FASTSWIM [], EnhanceSwimSpeed ratio, UpdateSpeedData, SendClientCurSpeed],
      m_release = calls [RemoveTeamVisibleState HSTATE_FASTSWIM, ImpairSwimSpeed ratio, UpdateSpeedData, SendClientCurSpeed],
      m_merge = assert_false\<rparr>"

definition filter_Slowfly :: "int32 \<Rightarrow> speed methods" where
  "filter_Slowfly ratio =
     \<lparr>m_guid = CLASS_SLOWFLY,
      m_id = FILTER_SLOWFLY,
      m_mask = MASK_WEAK OR MASK_DEBUFF OR MASK_REMOVE_ON_DEATH OR MASK_HEARTBEAT OR MASK_TRANSFERABLE_DEBUFF,
      m_save = [VInt ratio],
      m_load = loads get_int (\<lambda>ratio. ret (Slowfly ratio)),
      m_attach = calls [InsertTeamVisibleState HSTATE_SLOWFLY [], ImpairScaleFlySpeed ratio, UpdateSpeedData,
        SendClientCurSpeed],
      m_release = calls [RemoveTeamVisibleState HSTATE_SLOWFLY, EnhanceScaleFlySpeed ratio, UpdateSpeedData, SendClientCurSpeed],
      m_merge = assert_false\<rparr>"

definition filter_Fastfly :: "int32 \<Rightarrow> speed methods" where
  "filter_Fastfly ratio =
     \<lparr>m_guid = CLASS_FASTFLY,
      m_id = FILTER_FASTFLY,
      m_mask = MASK_WEAK OR MASK_BUFF OR MASK_REMOVE_ON_DEATH OR MASK_HEARTBEAT OR MASK_TRANSFERABLE_BUFF,
      m_save = [VInt ratio],
      m_load = loads get_int (\<lambda>ratio. ret (Fastfly ratio)),
      m_attach = calls [InsertTeamVisibleState HSTATE_FASTFLY [], EnhanceScaleFlySpeed ratio, UpdateSpeedData,
        SendClientCurSpeed],
      m_release = calls [RemoveTeamVisibleState HSTATE_FASTFLY, ImpairScaleFlySpeed ratio, UpdateSpeedData, SendClientCurSpeed],
      m_merge = assert_false\<rparr>"

definition filter_Slowride :: "int32 \<Rightarrow> speed methods" where
  "filter_Slowride ratio =
     \<lparr>m_guid = CLASS_SLOWRIDE,
      m_id = FILTER_SLOWRIDE,
      m_mask = MASK_WEAK OR MASK_DEBUFF OR MASK_REMOVE_ON_DEATH OR MASK_HEARTBEAT OR MASK_TRANSFERABLE_DEBUFF,
      m_save = [VInt ratio],
      m_load = loads get_int (\<lambda>ratio. ret (Slowride ratio)),
      m_attach = calls [InsertTeamVisibleState HSTATE_SLOWRIDE [], ImpairMountSpeed ratio, UpdateSpeedData, SendClientCurSpeed],
      m_release = calls [RemoveTeamVisibleState HSTATE_SLOWRIDE, EnhanceMountSpeed ratio, UpdateSpeedData, SendClientCurSpeed],
      m_merge = assert_false\<rparr>"

definition filter_Homefeeling :: "int32 \<Rightarrow> int32 \<Rightarrow> speed methods" where
  "filter_Homefeeling hpmpgen speed =
     \<lparr>m_guid = CLASS_HOMEFEELING,
      m_id = FILTER_HOMEFEELING,
      m_mask = MASK_WEAK OR MASK_BUFF OR MASK_REMOVE_ON_DEATH OR MASK_HEARTBEAT OR MASK_TRANSFERABLE_BUFF,
      m_save = [VInt hpmpgen, VInt speed],
      m_load = loads get_int (\<lambda>hpmpgen. loads get_int (\<lambda>speed. ret (Homefeeling hpmpgen speed))),
      m_attach = calls [InsertTeamVisibleState HSTATE_HOMEFEELING [], EnhanceSpeed speed, UpdateSpeedData, SendClientCurSpeed,
        EnhanceHPGen hpmpgen, EnhanceMPGen hpmpgen, UpdateHPMPGen],
      m_release = calls [RemoveTeamVisibleState HSTATE_HOMEFEELING, ImpairSpeed speed, UpdateSpeedData, SendClientCurSpeed,
        ImpairHPGen hpmpgen, ImpairMPGen hpmpgen, UpdateHPMPGen],
      m_merge = assert_false\<rparr>"

definition filter_Burningfeet :: "int32 \<Rightarrow> int32 \<Rightarrow> speed methods" where
  "filter_Burningfeet fire speed =
     \<lparr>m_guid = CLASS_BURNINGFEET,
      m_id = FILTER_BURNINGFEET,
      m_mask = MASK_WEAK OR MASK_DEBUFF OR MASK_REMOVE_ON_DEATH OR MASK_HEARTBEAT OR MASK_TRANSFERABLE_DEBUFF,
      m_save = [VInt fire, VInt speed],
      m_load = loads get_int (\<lambda>fire. loads get_int (\<lambda>speed. ret (Burningfeet fire speed))),
      m_attach = calls [InsertTeamVisibleState HSTATE_BURNINGFEET [], ImpairSpeed speed, UpdateSpeedData, SendClientCurSpeed,
        ImpairScaleResistance 3 fire, UpdateMagicData],
      m_release = calls [RemoveTeamVisibleState HSTATE_BURNINGFEET, EnhanceSpeed speed, UpdateSpeedData, SendClientCurSpeed,
        EnhanceScaleResistance 3 fire, UpdateMagicData],
      m_merge = assert_false\<rparr>"

definition filter_Charred :: "int32 \<Rightarrow> int32 \<Rightarrow> speed methods" where
  "filter_Charred ratio ratio2 =
     \<lparr>m_guid = CLASS_CHARRED,
      m_id = FILTER_CHARRED,
      m_mask = MASK_WEAK OR MASK_DEBUFF OR MASK_REMOVE_ON_DEATH OR MASK_HEARTBEAT OR MASK_TRANSFERABLE_DEBUFF,
      m_save = [VInt ratio, VInt ratio2],
      m_load = loads get_int (\<lambda>ratio. loads get_int (\<lambda>ratio2. ret (Charred ratio ratio2))),
      m_attach = calls [InsertTeamVisibleState HSTATE_CHARRED [], ImpairScaleDefense ratio, UpdateDefenseData,
        ImpairScaleDamage ratio, ImpairScaleMagicDamage ratio, UpdateAttackData, UpdateMagicData,
        EnhanceSpeed ratio2, UpdateSpeedData, SendClientCurSpeed],
      m_release = calls [RemoveTeamVisibleState HSTATE_CHARRED, EnhanceScaleDefense ratio, UpdateDefenseData,
        EnhanceScaleDamage ratio, EnhanceScaleMagicDamage ratio, UpdateAttackData, UpdateMagicData,
        ImpairSpeed ratio2, UpdateSpeedData, SendClientCurSpeed],
      m_merge = assert_false\<rparr>"

definition filter_Speedup2 :: "int32 \<Rightarrow> bool \<Rightarrow> speed methods" where
  "filter_Speedup2 ratio insertvstate =
     \<lparr>m_guid = CLASS_SPEEDUP2,
      m_id = FILTER_SPEEDUP2,
      m_mask = MASK_MERGE OR MASK_BUFF OR MASK_REMOVE_ON_DEATH OR MASK_HEARTBEAT OR MASK_TRANSFERABLE_BUFF,
      m_save = [VInt ratio, VBool insertvstate],
      m_load = loads get_int (\<lambda>ratio. loads get_bool (\<lambda>insertvstate. ret (Speedup2 ratio insertvstate))),
      m_attach = calls [only_if insertvstate (IncVisibleState VSTATE_BLESSED), InsertTeamVisibleState HSTATE_SPEEDUP2 [],
        EnhanceSpeed ratio, UpdateSpeedData, SendClientCurSpeed],
      m_release = calls [only_if insertvstate (DecVisibleState VSTATE_BLESSED), RemoveTeamVisibleState HSTATE_SPEEDUP2,
        ImpairSpeed ratio, UpdateSpeedData, SendClientCurSpeed],
      m_merge = (\<lambda>_ nf timeout' A. case nf of Speedup2 ratio' _ \<Rightarrow>
          Some (if ratio \<noteq> ratio' then (Speedup2 ratio' insertvstate, timeout', calls [ImpairSpeed ratio, EnhanceSpeed ratio', UpdateSpeedData, SendClientCurSpeed] A)
                else (Speedup2 ratio insertvstate, timeout', A))
        | _ \<Rightarrow> None)\<rparr>"

definition filter_Specialslow :: "int32 \<Rightarrow> speed methods" where
  "filter_Specialslow ratio =
     \<lparr>m_guid = CLASS_SPECIALSLOW,
      m_id = FILTER_SPECIALSLOW,
      m_mask = MASK_UNIQUE OR MASK_DEBUFF OR MASK_REMOVE_ON_DEATH OR MASK_HEARTBEAT OR MASK_TRANSFERABLE_DEBUFF,
      m_save = [VInt ratio],
      m_load = loads get_int (\<lambda>ratio. ret (Specialslow ratio)),
      m_attach = calls [IncVisibleState VSTATE_SPECIALSLOW, InsertTeamVisibleState HSTATE_SPECIALSLOW [], ImpairSpeed ratio,
        UpdateSpeedData, SendClientCurSpeed],
      m_release = calls [DecVisibleState VSTATE_SPECIALSLOW, RemoveTeamVisibleState HSTATE_SPECIALSLOW, EnhanceSpeed ratio,
        UpdateSpeedData, SendClientCurSpeed],
      m_merge = assert_false\<rparr>"

definition filter_Incflyspeed :: "int32 \<Rightarrow> int32 \<Rightarrow> int32 \<Rightarrow> speed methods" where
  "filter_Incflyspeed ratio pile_times pile_limit =
     \<lparr>m_guid = CLASS_INCFLYSPEED,
      m_id = FILTER_INCFLYSPEED,
      m_mask = MASK_MERGE OR MASK_HEARTBEAT OR MASK_REMOVE_ON_DEATH,
      m_save = [VInt ratio, VInt pile_times, VInt pile_limit],
      m_load = loads get_int (\<lambda>ratio. loads get_int (\<lambda>pile_times. loads get_int (\<lambda>pile_limit. ret (Incflyspeed ratio pile_times pile_limit)))),
      m_attach = calls [IncVisibleState VSTATE_INCFLYSPEED, InsertTeamVisibleState HSTATE_INCFLYSPEED [],
        EnhanceScaleFlySpeed ratio, UpdateSpeedData, SendClientCurSpeed],
      m_release = calls [ImpairScaleFlySpeed ratio, UpdateSpeedData, SendClientCurSpeed, DecVisibleState VSTATE_INCFLYSPEED,
        RemoveTeamVisibleState HSTATE_INCFLYSPEED],
      m_merge = (\<lambda>_ nf timeout' A. case nf of Incflyspeed ratio' _ pile_limit' \<Rightarrow>
          Some (if pile_times <s pile_limit'
                then (Incflyspeed (ratio + ratio') (pile_times + 1) pile_limit', timeout',
                  calls [ImpairScaleFlySpeed ratio, EnhanceScaleFlySpeed (ratio + ratio'), UpdateSpeedData, SendClientCurSpeed] A)
                else (Incflyspeed ratio pile_times pile_limit, timeout', A))
        | _ \<Rightarrow> None)\<rparr>"

primrec speed_methods :: "speed \<Rightarrow> speed methods" where
  "speed_methods (Speedup ratio) = filter_Speedup ratio"
| "speed_methods (Slow ratio) = filter_Slow ratio"
| "speed_methods (Fastride ratio) = filter_Fastride ratio"
| "speed_methods (Slowswim ratio) = filter_Slowswim ratio"
| "speed_methods (Fastswim ratio) = filter_Fastswim ratio"
| "speed_methods (Slowfly ratio) = filter_Slowfly ratio"
| "speed_methods (Fastfly ratio) = filter_Fastfly ratio"
| "speed_methods (Slowride ratio) = filter_Slowride ratio"
| "speed_methods (Homefeeling hpmpgen speed) = filter_Homefeeling hpmpgen speed"
| "speed_methods (Burningfeet fire speed) = filter_Burningfeet fire speed"
| "speed_methods (Charred ratio ratio2) = filter_Charred ratio ratio2"
| "speed_methods (Speedup2 ratio insertvstate) = filter_Speedup2 ratio insertvstate"
| "speed_methods (Specialslow ratio) = filter_Specialslow ratio"
| "speed_methods (Incflyspeed ratio pile_times pile_limit) = filter_Incflyspeed ratio pile_times pile_limit"

lemmas speed_defs =
  filter_Speedup_def filter_Slow_def filter_Fastride_def filter_Slowswim_def filter_Fastswim_def
  filter_Slowfly_def filter_Fastfly_def filter_Slowride_def filter_Homefeeling_def filter_Burningfeet_def
  filter_Charred_def filter_Speedup2_def filter_Specialslow_def filter_Incflyspeed_def

subsection \<open>Laws\<close>

text \<open>The filter ids of the family with their flags, and the id of each team state.\<close>

definition speed_ids :: "(int \<times> u32) list" where
  "speed_ids =
    [(FILTER_SPEEDUP, MASK_MERGE), (FILTER_SLOW, MASK_UNIQUE), (FILTER_FASTRIDE, MASK_UNIQUE),
     (FILTER_SLOWSWIM, MASK_WEAK), (FILTER_FASTSWIM, MASK_WEAK), (FILTER_SLOWFLY, MASK_WEAK),
     (FILTER_FASTFLY, MASK_WEAK), (FILTER_SLOWRIDE, MASK_WEAK), (FILTER_HOMEFEELING, MASK_WEAK),
     (FILTER_BURNINGFEET, MASK_WEAK), (FILTER_CHARRED, MASK_WEAK), (FILTER_SPEEDUP2, MASK_MERGE),
     (FILTER_SPECIALSLOW, MASK_UNIQUE), (FILTER_INCFLYSPEED, MASK_MERGE)]"

definition speed_teams :: "(u16 \<times> int) list" where
  "speed_teams =
    [(HSTATE_SPEEDUP, FILTER_SPEEDUP), (HSTATE_SLOW, FILTER_SLOW), (HSTATE_FASTRIDE, FILTER_FASTRIDE),
     (HSTATE_SLOWSWIM, FILTER_SLOWSWIM), (HSTATE_FASTSWIM, FILTER_FASTSWIM), (HSTATE_SLOWFLY, FILTER_SLOWFLY),
     (HSTATE_FASTFLY, FILTER_FASTFLY), (HSTATE_SLOWRIDE, FILTER_SLOWRIDE),
     (HSTATE_HOMEFEELING, FILTER_HOMEFEELING), (HSTATE_BURNINGFEET, FILTER_BURNINGFEET),
     (HSTATE_CHARRED, FILTER_CHARRED), (HSTATE_SPEEDUP2, FILTER_SPEEDUP2),
     (HSTATE_SPECIALSLOW, FILTER_SPECIALSLOW), (HSTATE_INCFLYSPEED, FILTER_INCFLYSPEED)]"

text \<open>The classes by their numbers; \<open>Load\<close> does not depend on the data of the object it fills.\<close>

definition speed_loaders :: "(int32 \<times> speed loader) list" where
  "speed_loaders = map (\<lambda>m. (m_guid m, m_load m))
    [filter_Speedup 0, filter_Slow 0, filter_Fastride 0, filter_Slowswim 0, filter_Fastswim 0, filter_Slowfly 0,
     filter_Fastfly 0, filter_Slowride 0, filter_Homefeeling 0 0, filter_Burningfeet 0 0, filter_Charred 0 0,
     filter_Speedup2 0 False, filter_Specialslow 0, filter_Incflyspeed 0 0 0]"


lemmas speed_unfold = speed_methods.simps speed_defs methods.select_convs

lemma speed_amount:
  "amount (m_attach (speed_methods k) A) s = amount A s + effect (m_attach (speed_methods k)) s"
  "amount (m_release (speed_methods k) A) s = amount A s - effect (m_attach (speed_methods k)) s"
  by (cases k; simp only: speed_unfold; simp add: effect_def amount_simps amount_new algebra_simps split del: if_split)+

lemma speed_counts: "\<exists>n. raises (m_attach (speed_methods k)) n \<and> lowers (m_release (speed_methods k)) n"
  by (cases k; (simp only: speed_unfold, rule counts_undone, (rule effect_intros | (simp add: fun_eq_iff; fail))+))

lemma speed_states:
  "\<exists>T. joins (m_attach (speed_methods k)) T \<and> leaves (m_release (speed_methods k)) T \<and> (\<forall>t \<in> T. (t, m_id (speed_methods k)) \<in> set speed_teams)"
  by (cases k; (simp only: speed_unfold, rule teams_undone, (rule effect_intros | (simp add: TVSGetState_def speed_teams_def; fail))+))

lemma speed_fresh: "renews (m_attach (speed_methods k)) \<and> renews (m_release (speed_methods k))"
  by (rule conjI; cases k; simp only: speed_unfold; rule renews_calls, (simp only: calls_simps, (rule fresh_intros | assumption)+), auto)

lemma speed_undone: "undoes (m_attach (speed_methods k)) (m_release (speed_methods k))"
proof -
  obtain n where n: "raises (m_attach (speed_methods k)) n \<and> lowers (m_release (speed_methods k)) n" using speed_counts by blast
  obtain T where T: "joins (m_attach (speed_methods k)) T \<and> leaves (m_release (speed_methods k)) T" using speed_states by blast
  show ?thesis by (rule undoes_parts [OF speed_amount n T speed_fresh])
qed

lemma speed_team_id: "t \<in> team_of (m_attach (speed_methods k)) \<Longrightarrow> (t, m_id (speed_methods k)) \<in> set speed_teams"
  using speed_states [of k] joins_team_of by blast

lemma speed_reads: "reads (m_load (speed_methods k)) (concat (map encode (m_save (speed_methods k)))) k"
  by (cases k; (simp only: speed_unfold list.map concat.simps encode.simps, (rule reads_loads reads_int reads_bool reads_ret)+))

lemma speed_id: "(m_id (speed_methods k), m_mask (speed_methods k) AND MASK_CONTROL) \<in> set speed_ids"
  by (cases k; simp only: speed_unfold speed_ids_def; simp)

lemma speed_events: "m_mask (speed_methods k) AND MASK_ALL = MASK_HEARTBEAT"
  by (cases k; simp only: speed_unfold; simp)

lemma speed_loader: "(m_guid (speed_methods k), m_load (speed_methods k)) \<in> set speed_loaders"
  unfolding speed_loaders_def by (cases k; simp only: speed_unfold list.map list.set; simp)

lemma speed_idm:
  "m_id (filter_Speedup a0) = FILTER_SPEEDUP" "m_mask (filter_Speedup a0) = MASK_MERGE OR MASK_BUFF OR MASK_REMOVE_ON_DEATH OR MASK_HEARTBEAT OR MASK_TRANSFERABLE_BUFF"
    "m_id (filter_Slow a0) = FILTER_SLOW" "m_mask (filter_Slow a0) = MASK_UNIQUE OR MASK_DEBUFF OR MASK_REMOVE_ON_DEATH OR MASK_HEARTBEAT OR MASK_TRANSFERABLE_DEBUFF"
    "m_id (filter_Fastride a0) = FILTER_FASTRIDE" "m_mask (filter_Fastride a0) = MASK_UNIQUE OR MASK_REMOVE_ON_DEATH OR MASK_HEARTBEAT OR MASK_TRANSFERABLE_BUFF"
    "m_id (filter_Slowswim a0) = FILTER_SLOWSWIM" "m_mask (filter_Slowswim a0) = MASK_WEAK OR MASK_DEBUFF OR MASK_REMOVE_ON_DEATH OR MASK_HEARTBEAT OR MASK_TRANSFERABLE_DEBUFF"
    "m_id (filter_Fastswim a0) = FILTER_FASTSWIM" "m_mask (filter_Fastswim a0) = MASK_WEAK OR MASK_BUFF OR MASK_REMOVE_ON_DEATH OR MASK_HEARTBEAT OR MASK_TRANSFERABLE_BUFF"
    "m_id (filter_Slowfly a0) = FILTER_SLOWFLY" "m_mask (filter_Slowfly a0) = MASK_WEAK OR MASK_DEBUFF OR MASK_REMOVE_ON_DEATH OR MASK_HEARTBEAT OR MASK_TRANSFERABLE_DEBUFF"
    "m_id (filter_Fastfly a0) = FILTER_FASTFLY" "m_mask (filter_Fastfly a0) = MASK_WEAK OR MASK_BUFF OR MASK_REMOVE_ON_DEATH OR MASK_HEARTBEAT OR MASK_TRANSFERABLE_BUFF"
    "m_id (filter_Slowride a0) = FILTER_SLOWRIDE" "m_mask (filter_Slowride a0) = MASK_WEAK OR MASK_DEBUFF OR MASK_REMOVE_ON_DEATH OR MASK_HEARTBEAT OR MASK_TRANSFERABLE_DEBUFF"
    "m_id (filter_Homefeeling a0 a1) = FILTER_HOMEFEELING" "m_mask (filter_Homefeeling a0 a1) = MASK_WEAK OR MASK_BUFF OR MASK_REMOVE_ON_DEATH OR MASK_HEARTBEAT OR MASK_TRANSFERABLE_BUFF"
    "m_id (filter_Burningfeet a0 a1) = FILTER_BURNINGFEET" "m_mask (filter_Burningfeet a0 a1) = MASK_WEAK OR MASK_DEBUFF OR MASK_REMOVE_ON_DEATH OR MASK_HEARTBEAT OR MASK_TRANSFERABLE_DEBUFF"
    "m_id (filter_Charred a0 a1) = FILTER_CHARRED" "m_mask (filter_Charred a0 a1) = MASK_WEAK OR MASK_DEBUFF OR MASK_REMOVE_ON_DEATH OR MASK_HEARTBEAT OR MASK_TRANSFERABLE_DEBUFF"
    "m_id (filter_Speedup2 a0 p1) = FILTER_SPEEDUP2" "m_mask (filter_Speedup2 a0 p1) = MASK_MERGE OR MASK_BUFF OR MASK_REMOVE_ON_DEATH OR MASK_HEARTBEAT OR MASK_TRANSFERABLE_BUFF"
    "m_id (filter_Specialslow a0) = FILTER_SPECIALSLOW" "m_mask (filter_Specialslow a0) = MASK_UNIQUE OR MASK_DEBUFF OR MASK_REMOVE_ON_DEATH OR MASK_HEARTBEAT OR MASK_TRANSFERABLE_DEBUFF"
    "m_id (filter_Incflyspeed a0 a1 a2) = FILTER_INCFLYSPEED" "m_mask (filter_Incflyspeed a0 a1 a2) = MASK_MERGE OR MASK_HEARTBEAT OR MASK_REMOVE_ON_DEATH"
  by (simp_all only: speed_unfold)

lemma merge_Speedup: "merge_law speed_methods (Speedup a0) t (Speedup b0) t'"
  by (rule merge_change, simp only: speed_unfold speed.case, rule change_okI, (simp only: speed_unfold)+,
    ((simp only: speed_unfold)?, (rule effect_intros quiet_intros refl | (simp add: TVSGetState_def; fail))+)+, rule renews_calls, (simp only: calls_simps, (rule fresh_intros | assumption)+), auto,
    simp only: speed_unfold, simp add: effect_def amount_simps amount_new algebra_simps split del: if_split)

lemma merge_Speedup2: "merge_law speed_methods (Speedup2 a0 a1) t (Speedup2 b0 b1) t'"
  by (rule merge_change, simp only: speed_unfold speed.case, rule change_okI, (simp only: speed_unfold)+,
    ((simp only: speed_unfold)?, (rule effect_intros quiet_intros refl | (simp add: TVSGetState_def; fail))+)+, rule renews_calls, (simp only: calls_simps, (rule fresh_intros | assumption)+), auto,
    simp only: speed_unfold, simp add: effect_def amount_simps amount_new algebra_simps split del: if_split)

lemma merge_Incflyspeed: "merge_law speed_methods (Incflyspeed a0 a1 a2) t (Incflyspeed b0 b1 b2) t'"
  by (rule merge_change, simp only: speed_unfold speed.case, rule change_okI, (simp only: speed_unfold)+,
    ((simp only: speed_unfold)?, (rule effect_intros quiet_intros refl | (simp add: TVSGetState_def; fail))+)+, rule renews_calls, (simp only: calls_simps, (rule fresh_intros | assumption)+), auto,
    simp only: speed_unfold, simp add: effect_def amount_simps amount_new algebra_simps split del: if_split)


lemmas speed_merges = merge_Speedup
    merge_Speedup2
    merge_Incflyspeed

lemma speed_merging:
  assumes "m_id (speed_methods k) = m_id (speed_methods k2)" "m_mask (speed_methods k) AND MASK_MERGE \<noteq> 0"
  shows "merge_law speed_methods k t k2 t2"
  using assms by (cases k; (simp only: speed_methods.simps speed_idm; simp; fail)?; cases k2;
    simp only: speed_methods.simps speed_idm numeral_eq_iff eq_num_simps simp_thms speed_merges)

end
