(* ===== verification/SkillVital.thy ===== *)
theory SkillVital
  imports SkillFilter
begin

text \<open>The filters of health and mana of \<open>skillfilter.h\<close>, one definition per class, and their laws.\<close>

subsection \<open>The classes\<close>

datatype vital =
    Inchp int32
  | Incmp int32
  | Fastmpgen int32
  | Fasthpgen int32
  | Dechp int32
  | Decmp int32
  | Devilstate int32 int32
  | Noregain
  | Inchp2 int32 bool
  | Inchpsteal int32
  | Fastmpgen2 int32
  | Inchpmp int32 int32

definition filter_Inchp :: "int32 \<Rightarrow> vital methods" where
  "filter_Inchp ratio =
     \<lparr>m_guid = CLASS_INCHP,
      m_id = FILTER_INCHP,
      m_mask = MASK_MERGE OR MASK_BUFF OR MASK_REMOVE_ON_DEATH OR MASK_HEARTBEAT OR MASK_TRANSFERABLE_BUFF,
      m_save = [VInt ratio],
      m_load = loads get_int (\<lambda>ratio. ret (Inchp ratio)),
      m_attach = calls [IncVisibleState VSTATE_BLESSED, InsertTeamVisibleState HSTATE_INCHP [], EnhanceScaleMaxHP ratio],
      m_release = calls [DecVisibleState VSTATE_BLESSED, RemoveTeamVisibleState HSTATE_INCHP, ImpairScaleMaxHP ratio],
      m_merge = (\<lambda>_ nf timeout' A. case nf of Inchp ratio' \<Rightarrow>
          Some (if ratio \<noteq> ratio' then (Inchp ratio', timeout', calls [ImpairScaleMaxHP ratio, EnhanceScaleMaxHP ratio'] A)
                else (Inchp ratio, timeout', A))
        | _ \<Rightarrow> None)\<rparr>"

definition filter_Incmp :: "int32 \<Rightarrow> vital methods" where
  "filter_Incmp ratio =
     \<lparr>m_guid = CLASS_INCMP,
      m_id = FILTER_INCMP,
      m_mask = MASK_MERGE OR MASK_BUFF OR MASK_REMOVE_ON_DEATH OR MASK_HEARTBEAT OR MASK_TRANSFERABLE_BUFF,
      m_save = [VInt ratio],
      m_load = loads get_int (\<lambda>ratio. ret (Incmp ratio)),
      m_attach = calls [IncVisibleState VSTATE_BLESSED, InsertTeamVisibleState HSTATE_INCMP [], EnhanceScaleMaxMP ratio],
      m_release = calls [DecVisibleState VSTATE_BLESSED, RemoveTeamVisibleState HSTATE_INCMP, ImpairScaleMaxMP ratio],
      m_merge = (\<lambda>_ nf timeout' A. case nf of Incmp ratio' \<Rightarrow>
          Some (if ratio \<noteq> ratio' then (Incmp ratio', timeout', calls [ImpairScaleMaxMP ratio, EnhanceScaleMaxMP ratio'] A)
                else (Incmp ratio, timeout', A))
        | _ \<Rightarrow> None)\<rparr>"

definition filter_Fastmpgen :: "int32 \<Rightarrow> vital methods" where
  "filter_Fastmpgen point =
     \<lparr>m_guid = CLASS_FASTMPGEN,
      m_id = FILTER_FASTMPGEN,
      m_mask = MASK_MERGE OR MASK_BUFF OR MASK_REMOVE_ON_DEATH OR MASK_HEARTBEAT OR MASK_TRANSFERABLE_BUFF,
      m_save = [VInt point],
      m_load = loads get_int (\<lambda>point. ret (Fastmpgen point)),
      m_attach = calls [IncVisibleState VSTATE_BLESSED, InsertTeamVisibleState HSTATE_FASTMPGEN [], EnhanceMPGen point,
        UpdateHPMPGen],
      m_release = calls [DecVisibleState VSTATE_BLESSED, RemoveTeamVisibleState HSTATE_FASTMPGEN, ImpairMPGen point,
        UpdateHPMPGen],
      m_merge = (\<lambda>_ nf timeout' A. case nf of Fastmpgen point' \<Rightarrow>
          Some (if point \<noteq> point' then (Fastmpgen point', timeout', calls [ImpairMPGen point, EnhanceMPGen point', UpdateHPMPGen] A)
                else (Fastmpgen point, timeout', A))
        | _ \<Rightarrow> None)\<rparr>"

definition filter_Fasthpgen :: "int32 \<Rightarrow> vital methods" where
  "filter_Fasthpgen point =
     \<lparr>m_guid = CLASS_FASTHPGEN,
      m_id = FILTER_FASTHPGEN,
      m_mask = MASK_MERGE OR MASK_BUFF OR MASK_REMOVE_ON_DEATH OR MASK_HEARTBEAT OR MASK_TRANSFERABLE_BUFF,
      m_save = [VInt point],
      m_load = loads get_int (\<lambda>point. ret (Fasthpgen point)),
      m_attach = calls [IncVisibleState VSTATE_BLESSED, InsertTeamVisibleState HSTATE_FASTHPGEN [], EnhanceHPGen point,
        UpdateHPMPGen],
      m_release = calls [DecVisibleState VSTATE_BLESSED, RemoveTeamVisibleState HSTATE_FASTHPGEN, ImpairHPGen point,
        UpdateHPMPGen],
      m_merge = (\<lambda>_ nf timeout' A. case nf of Fasthpgen point' \<Rightarrow>
          Some (if point \<noteq> point' then (Fasthpgen point', timeout', calls [ImpairHPGen point, EnhanceHPGen point', UpdateHPMPGen] A)
                else (Fasthpgen point, timeout', A))
        | _ \<Rightarrow> None)\<rparr>"

definition filter_Dechp :: "int32 \<Rightarrow> vital methods" where
  "filter_Dechp ratio =
     \<lparr>m_guid = CLASS_DECHP,
      m_id = FILTER_DECHP,
      m_mask = MASK_UNIQUE OR MASK_REMOVE_ON_DEATH OR MASK_HEARTBEAT,
      m_save = [VInt ratio],
      m_load = loads get_int (\<lambda>ratio. ret (Dechp ratio)),
      m_attach = calls [IncVisibleState VSTATE_CURSED, InsertTeamVisibleState HSTATE_DECHP [], ImpairScaleMaxHP ratio],
      m_release = calls [EnhanceScaleMaxHP ratio, DecVisibleState VSTATE_CURSED, RemoveTeamVisibleState HSTATE_DECHP],
      m_merge = assert_false\<rparr>"

definition filter_Decmp :: "int32 \<Rightarrow> vital methods" where
  "filter_Decmp ratio =
     \<lparr>m_guid = CLASS_DECMP,
      m_id = FILTER_DECMP,
      m_mask = MASK_UNIQUE OR MASK_DEBUFF OR MASK_REMOVE_ON_DEATH OR MASK_HEARTBEAT,
      m_save = [VInt ratio],
      m_load = loads get_int (\<lambda>ratio. ret (Decmp ratio)),
      m_attach = calls [ImpairScaleMaxMP ratio],
      m_release = calls [EnhanceScaleMaxMP ratio],
      m_merge = assert_false\<rparr>"

definition filter_Devilstate :: "int32 \<Rightarrow> int32 \<Rightarrow> vital methods" where
  "filter_Devilstate ratio hpdec =
     \<lparr>m_guid = CLASS_DEVILSTATE,
      m_id = FILTER_DEVILSTATE,
      m_mask = MASK_UNIQUE OR MASK_BUFF OR MASK_REMOVE_ON_DEATH OR MASK_HEARTBEAT OR MASK_TRANSFERABLE_BUFF,
      m_save = [VInt ratio, VInt hpdec],
      m_load = loads get_int (\<lambda>ratio. loads get_int (\<lambda>hpdec. ret (Devilstate ratio hpdec))),
      m_attach = calls [IncVisibleState VSTATE_BLESSED, InsertTeamVisibleState HSTATE_DEVILSTATE [], ImpairScaleMaxHP hpdec,
        EnhanceScaleAttack ratio, UpdateAttackData],
      m_release = calls [DecVisibleState VSTATE_BLESSED, RemoveTeamVisibleState HSTATE_DEVILSTATE, EnhanceScaleMaxHP hpdec,
        ImpairScaleAttack ratio, UpdateAttackData],
      m_merge = assert_false\<rparr>"

definition filter_Noregain :: "vital methods" where
  "filter_Noregain =
     \<lparr>m_guid = CLASS_NOREGAIN,
      m_id = FILTER_SPIRITCURSE,
      m_mask = MASK_UNIQUE OR MASK_DEBUFF OR MASK_REMOVE_ON_DEATH OR MASK_HEARTBEAT OR MASK_TRANSFERABLE_DEBUFF,
      m_save = [],
      m_load = ret Noregain,
      m_attach = calls [ImpairScaleHPGen 2000, ImpairScaleMPGen 2000, IncVisibleState VSTATE_NOREGAIN,
        InsertTeamVisibleState HSTATE_NOREGAIN [], UpdateHPMPGen],
      m_release = calls [EnhanceScaleHPGen 2000, EnhanceScaleMPGen 2000, DecVisibleState VSTATE_NOREGAIN,
        RemoveTeamVisibleState HSTATE_NOREGAIN, UpdateHPMPGen],
      m_merge = assert_false\<rparr>"

definition filter_Inchp2 :: "int32 \<Rightarrow> bool \<Rightarrow> vital methods" where
  "filter_Inchp2 ratio insertvstate =
     \<lparr>m_guid = CLASS_INCHP2,
      m_id = FILTER_INCHP2,
      m_mask = MASK_MERGE OR MASK_BUFF OR MASK_REMOVE_ON_DEATH OR MASK_HEARTBEAT OR MASK_TRANSFERABLE_BUFF,
      m_save = [VInt ratio, VBool insertvstate],
      m_load = loads get_int (\<lambda>ratio. loads get_bool (\<lambda>insertvstate. ret (Inchp2 ratio insertvstate))),
      m_attach = calls [only_if insertvstate (IncVisibleState VSTATE_BLESSED), InsertTeamVisibleState HSTATE_INCHP2 [],
        EnhanceScaleMaxHP ratio],
      m_release = calls [only_if insertvstate (DecVisibleState VSTATE_BLESSED), RemoveTeamVisibleState HSTATE_INCHP2,
        ImpairScaleMaxHP ratio],
      m_merge = (\<lambda>_ nf timeout' A. case nf of Inchp2 ratio' _ \<Rightarrow>
          Some (if ratio \<noteq> ratio' then (Inchp2 ratio' insertvstate, timeout', calls [ImpairScaleMaxHP ratio, EnhanceScaleMaxHP ratio'] A)
                else (Inchp2 ratio insertvstate, timeout', A))
        | _ \<Rightarrow> None)\<rparr>"

definition filter_Inchpsteal :: "int32 \<Rightarrow> vital methods" where
  "filter_Inchpsteal inc =
     \<lparr>m_guid = CLASS_INCHPSTEAL,
      m_id = FILTER_INCHPSTEAL,
      m_mask = MASK_MERGE OR MASK_BUFF OR MASK_HEARTBEAT OR MASK_REMOVE_ON_DEATH,
      m_save = [VInt inc],
      m_load = loads get_int (\<lambda>inc. ret (Inchpsteal inc)),
      m_attach = calls [InsertTeamVisibleState HSTATE_INCHPSTEAL [], EnhanceHpSteal inc],
      m_release = calls [RemoveTeamVisibleState HSTATE_INCHPSTEAL, ImpairHpSteal inc],
      m_merge = (\<lambda>timeout nf timeout' A. case nf of Inchpsteal inc' \<Rightarrow>
          Some (if inc' = inc then (Inchpsteal inc, timeout', A)
                else if inc <s inc' then (Inchpsteal inc', timeout', calls [ImpairHpSteal inc, EnhanceHpSteal inc'] A)
                else (Inchpsteal inc, timeout, A))
        | _ \<Rightarrow> None)\<rparr>"

definition filter_Fastmpgen2 :: "int32 \<Rightarrow> vital methods" where
  "filter_Fastmpgen2 point =
     \<lparr>m_guid = CLASS_FASTMPGEN2,
      m_id = FILTER_FASTMPGEN2,
      m_mask = MASK_MERGE OR MASK_REMOVE_ON_DEATH OR MASK_HEARTBEAT OR MASK_NOSAVE,
      m_save = [VInt point],
      m_load = loads get_int (\<lambda>point. ret (Fastmpgen2 point)),
      m_attach = calls [IncVisibleState VSTATE_BLESSED, InsertTeamVisibleState HSTATE_FASTMPGEN2 [], EnhanceMPGen point,
        UpdateHPMPGen],
      m_release = calls [DecVisibleState VSTATE_BLESSED, RemoveTeamVisibleState HSTATE_FASTMPGEN2, ImpairMPGen point,
        UpdateHPMPGen],
      m_merge = (\<lambda>_ nf timeout' A. case nf of Fastmpgen2 point' \<Rightarrow>
          Some (if point \<noteq> point' then (Fastmpgen2 point', timeout', calls [ImpairMPGen point, EnhanceMPGen point', UpdateHPMPGen] A)
                else (Fastmpgen2 point, timeout', A))
        | _ \<Rightarrow> None)\<rparr>"

definition filter_Inchpmp :: "int32 \<Rightarrow> int32 \<Rightarrow> vital methods" where
  "filter_Inchpmp hp mp =
     \<lparr>m_guid = CLASS_INCHPMP,
      m_id = FILTER_INCHPMP,
      m_mask = MASK_UNIQUE OR MASK_REMOVE_ON_DEATH OR MASK_HEARTBEAT,
      m_save = [VInt hp, VInt mp],
      m_load = loads get_int (\<lambda>hp. loads get_int (\<lambda>mp. ret (Inchpmp hp mp))),
      m_attach = calls [InsertTeamVisibleState HSTATE_INCHPMP [], EnhanceMaxHP hp, EnhanceMaxMP mp],
      m_release = calls [ImpairMaxHP hp, ImpairMaxMP mp, RemoveTeamVisibleState HSTATE_INCHPMP],
      m_merge = assert_false\<rparr>"

primrec vital_methods :: "vital \<Rightarrow> vital methods" where
  "vital_methods (Inchp ratio) = filter_Inchp ratio"
| "vital_methods (Incmp ratio) = filter_Incmp ratio"
| "vital_methods (Fastmpgen point) = filter_Fastmpgen point"
| "vital_methods (Fasthpgen point) = filter_Fasthpgen point"
| "vital_methods (Dechp ratio) = filter_Dechp ratio"
| "vital_methods (Decmp ratio) = filter_Decmp ratio"
| "vital_methods (Devilstate ratio hpdec) = filter_Devilstate ratio hpdec"
| "vital_methods Noregain = filter_Noregain"
| "vital_methods (Inchp2 ratio insertvstate) = filter_Inchp2 ratio insertvstate"
| "vital_methods (Inchpsteal inc) = filter_Inchpsteal inc"
| "vital_methods (Fastmpgen2 point) = filter_Fastmpgen2 point"
| "vital_methods (Inchpmp hp mp) = filter_Inchpmp hp mp"

lemmas vital_defs =
  filter_Inchp_def filter_Incmp_def filter_Fastmpgen_def filter_Fasthpgen_def filter_Dechp_def
  filter_Decmp_def filter_Devilstate_def filter_Noregain_def filter_Inchp2_def filter_Inchpsteal_def
  filter_Fastmpgen2_def filter_Inchpmp_def

subsection \<open>Laws\<close>

text \<open>The filter ids of the family with their flags, and the id of each team state.\<close>

definition vital_ids :: "(int \<times> u32) list" where
  "vital_ids =
    [(FILTER_INCHP, MASK_MERGE), (FILTER_INCMP, MASK_MERGE), (FILTER_FASTMPGEN, MASK_MERGE),
     (FILTER_FASTHPGEN, MASK_MERGE), (FILTER_DECHP, MASK_UNIQUE), (FILTER_DECMP, MASK_UNIQUE),
     (FILTER_DEVILSTATE, MASK_UNIQUE), (FILTER_SPIRITCURSE, MASK_UNIQUE), (FILTER_INCHP2, MASK_MERGE),
     (FILTER_INCHPSTEAL, MASK_MERGE), (FILTER_FASTMPGEN2, MASK_MERGE), (FILTER_INCHPMP, MASK_UNIQUE)]"

definition vital_teams :: "(u16 \<times> int) list" where
  "vital_teams =
    [(HSTATE_INCHP, FILTER_INCHP), (HSTATE_INCMP, FILTER_INCMP), (HSTATE_FASTMPGEN, FILTER_FASTMPGEN),
     (HSTATE_FASTHPGEN, FILTER_FASTHPGEN), (HSTATE_DECHP, FILTER_DECHP), (HSTATE_DEVILSTATE, FILTER_DEVILSTATE),
     (HSTATE_NOREGAIN, FILTER_SPIRITCURSE), (HSTATE_INCHP2, FILTER_INCHP2),
     (HSTATE_INCHPSTEAL, FILTER_INCHPSTEAL), (HSTATE_FASTMPGEN2, FILTER_FASTMPGEN2),
     (HSTATE_INCHPMP, FILTER_INCHPMP)]"

text \<open>The classes by their numbers; \<open>Load\<close> does not depend on the data of the object it fills.\<close>

definition vital_loaders :: "(int32 \<times> vital loader) list" where
  "vital_loaders = map (\<lambda>m. (m_guid m, m_load m))
    [filter_Inchp 0, filter_Incmp 0, filter_Fastmpgen 0, filter_Fasthpgen 0, filter_Dechp 0, filter_Decmp 0,
     filter_Devilstate 0 0, filter_Noregain, filter_Inchp2 0 False, filter_Inchpsteal 0, filter_Fastmpgen2 0,
     filter_Inchpmp 0 0]"


lemmas vital_unfold = vital_methods.simps vital_defs methods.select_convs

lemma vital_amount:
  "amount (m_attach (vital_methods k) A) s = amount A s + effect (m_attach (vital_methods k)) s"
  "amount (m_release (vital_methods k) A) s = amount A s - effect (m_attach (vital_methods k)) s"
  by (cases k; simp only: vital_unfold; simp add: effect_def amount_simps amount_new algebra_simps split del: if_split)+

lemma vital_counts: "\<exists>n. raises (m_attach (vital_methods k)) n \<and> lowers (m_release (vital_methods k)) n"
  by (cases k; (simp only: vital_unfold, rule counts_undone, (rule effect_intros | (simp add: fun_eq_iff; fail))+))

lemma vital_states:
  "\<exists>T. joins (m_attach (vital_methods k)) T \<and> leaves (m_release (vital_methods k)) T \<and> (\<forall>t \<in> T. (t, m_id (vital_methods k)) \<in> set vital_teams)"
  by (cases k; (simp only: vital_unfold, rule teams_undone, (rule effect_intros | (simp add: TVSGetState_def vital_teams_def; fail))+))

lemma vital_fresh: "renews (m_attach (vital_methods k)) \<and> renews (m_release (vital_methods k))"
  by (rule conjI; cases k; simp only: vital_unfold; rule renews_calls, (simp only: calls_simps, (rule fresh_intros | assumption)+), auto)

lemma vital_undone: "undoes (m_attach (vital_methods k)) (m_release (vital_methods k))"
proof -
  obtain n where n: "raises (m_attach (vital_methods k)) n \<and> lowers (m_release (vital_methods k)) n" using vital_counts by blast
  obtain T where T: "joins (m_attach (vital_methods k)) T \<and> leaves (m_release (vital_methods k)) T" using vital_states by blast
  show ?thesis by (rule undoes_parts [OF vital_amount n T vital_fresh])
qed

lemma vital_team_id: "t \<in> team_of (m_attach (vital_methods k)) \<Longrightarrow> (t, m_id (vital_methods k)) \<in> set vital_teams"
  using vital_states [of k] joins_team_of by blast

lemma vital_reads: "reads (m_load (vital_methods k)) (concat (map encode (m_save (vital_methods k)))) k"
  by (cases k; (simp only: vital_unfold list.map concat.simps encode.simps, (rule reads_loads reads_int reads_bool reads_ret)+))

lemma vital_id: "(m_id (vital_methods k), m_mask (vital_methods k) AND MASK_CONTROL) \<in> set vital_ids"
  by (cases k; simp only: vital_unfold vital_ids_def; simp)

lemma vital_events: "m_mask (vital_methods k) AND MASK_ALL = MASK_HEARTBEAT"
  by (cases k; simp only: vital_unfold; simp)

lemma vital_loader: "(m_guid (vital_methods k), m_load (vital_methods k)) \<in> set vital_loaders"
  unfolding vital_loaders_def by (cases k; simp only: vital_unfold list.map list.set; simp)

lemma vital_idm:
  "m_id (filter_Inchp a0) = FILTER_INCHP" "m_mask (filter_Inchp a0) = MASK_MERGE OR MASK_BUFF OR MASK_REMOVE_ON_DEATH OR MASK_HEARTBEAT OR MASK_TRANSFERABLE_BUFF"
    "m_id (filter_Incmp a0) = FILTER_INCMP" "m_mask (filter_Incmp a0) = MASK_MERGE OR MASK_BUFF OR MASK_REMOVE_ON_DEATH OR MASK_HEARTBEAT OR MASK_TRANSFERABLE_BUFF"
    "m_id (filter_Fastmpgen a0) = FILTER_FASTMPGEN" "m_mask (filter_Fastmpgen a0) = MASK_MERGE OR MASK_BUFF OR MASK_REMOVE_ON_DEATH OR MASK_HEARTBEAT OR MASK_TRANSFERABLE_BUFF"
    "m_id (filter_Fasthpgen a0) = FILTER_FASTHPGEN" "m_mask (filter_Fasthpgen a0) = MASK_MERGE OR MASK_BUFF OR MASK_REMOVE_ON_DEATH OR MASK_HEARTBEAT OR MASK_TRANSFERABLE_BUFF"
    "m_id (filter_Dechp a0) = FILTER_DECHP" "m_mask (filter_Dechp a0) = MASK_UNIQUE OR MASK_REMOVE_ON_DEATH OR MASK_HEARTBEAT"
    "m_id (filter_Decmp a0) = FILTER_DECMP" "m_mask (filter_Decmp a0) = MASK_UNIQUE OR MASK_DEBUFF OR MASK_REMOVE_ON_DEATH OR MASK_HEARTBEAT"
    "m_id (filter_Devilstate a0 a1) = FILTER_DEVILSTATE" "m_mask (filter_Devilstate a0 a1) = MASK_UNIQUE OR MASK_BUFF OR MASK_REMOVE_ON_DEATH OR MASK_HEARTBEAT OR MASK_TRANSFERABLE_BUFF"
    "m_id (filter_Noregain) = FILTER_SPIRITCURSE" "m_mask (filter_Noregain) = MASK_UNIQUE OR MASK_DEBUFF OR MASK_REMOVE_ON_DEATH OR MASK_HEARTBEAT OR MASK_TRANSFERABLE_DEBUFF"
    "m_id (filter_Inchp2 a0 p1) = FILTER_INCHP2" "m_mask (filter_Inchp2 a0 p1) = MASK_MERGE OR MASK_BUFF OR MASK_REMOVE_ON_DEATH OR MASK_HEARTBEAT OR MASK_TRANSFERABLE_BUFF"
    "m_id (filter_Inchpsteal a0) = FILTER_INCHPSTEAL" "m_mask (filter_Inchpsteal a0) = MASK_MERGE OR MASK_BUFF OR MASK_HEARTBEAT OR MASK_REMOVE_ON_DEATH"
    "m_id (filter_Fastmpgen2 a0) = FILTER_FASTMPGEN2" "m_mask (filter_Fastmpgen2 a0) = MASK_MERGE OR MASK_REMOVE_ON_DEATH OR MASK_HEARTBEAT OR MASK_NOSAVE"
    "m_id (filter_Inchpmp a0 a1) = FILTER_INCHPMP" "m_mask (filter_Inchpmp a0 a1) = MASK_UNIQUE OR MASK_REMOVE_ON_DEATH OR MASK_HEARTBEAT"
  by (simp_all only: vital_unfold)

lemma merge_Inchp: "merge_law vital_methods (Inchp a0) t (Inchp b0) t'"
  by (rule merge_change, simp only: vital_unfold vital.case, rule change_okI, (simp only: vital_unfold)+,
    ((simp only: vital_unfold)?, (rule effect_intros quiet_intros refl | (simp add: TVSGetState_def; fail))+)+, rule renews_calls, (simp only: calls_simps, (rule fresh_intros | assumption)+), auto,
    simp only: vital_unfold, simp add: effect_def amount_simps amount_new algebra_simps split del: if_split)

lemma merge_Incmp: "merge_law vital_methods (Incmp a0) t (Incmp b0) t'"
  by (rule merge_change, simp only: vital_unfold vital.case, rule change_okI, (simp only: vital_unfold)+,
    ((simp only: vital_unfold)?, (rule effect_intros quiet_intros refl | (simp add: TVSGetState_def; fail))+)+, rule renews_calls, (simp only: calls_simps, (rule fresh_intros | assumption)+), auto,
    simp only: vital_unfold, simp add: effect_def amount_simps amount_new algebra_simps split del: if_split)

lemma merge_Fastmpgen: "merge_law vital_methods (Fastmpgen a0) t (Fastmpgen b0) t'"
  by (rule merge_change, simp only: vital_unfold vital.case, rule change_okI, (simp only: vital_unfold)+,
    ((simp only: vital_unfold)?, (rule effect_intros quiet_intros refl | (simp add: TVSGetState_def; fail))+)+, rule renews_calls, (simp only: calls_simps, (rule fresh_intros | assumption)+), auto,
    simp only: vital_unfold, simp add: effect_def amount_simps amount_new algebra_simps split del: if_split)

lemma merge_Fasthpgen: "merge_law vital_methods (Fasthpgen a0) t (Fasthpgen b0) t'"
  by (rule merge_change, simp only: vital_unfold vital.case, rule change_okI, (simp only: vital_unfold)+,
    ((simp only: vital_unfold)?, (rule effect_intros quiet_intros refl | (simp add: TVSGetState_def; fail))+)+, rule renews_calls, (simp only: calls_simps, (rule fresh_intros | assumption)+), auto,
    simp only: vital_unfold, simp add: effect_def amount_simps amount_new algebra_simps split del: if_split)

lemma merge_Inchp2: "merge_law vital_methods (Inchp2 a0 a1) t (Inchp2 b0 b1) t'"
  by (rule merge_change, simp only: vital_unfold vital.case, rule change_okI, (simp only: vital_unfold)+,
    ((simp only: vital_unfold)?, (rule effect_intros quiet_intros refl | (simp add: TVSGetState_def; fail))+)+, rule renews_calls, (simp only: calls_simps, (rule fresh_intros | assumption)+), auto,
    simp only: vital_unfold, simp add: effect_def amount_simps amount_new algebra_simps split del: if_split)

lemma merge_Inchpsteal: "merge_law vital_methods (Inchpsteal a0) t (Inchpsteal b0) t'"
proof -
  have c: "change_ok vital_methods (Inchpsteal a0) (Inchpsteal b0) (calls [ImpairHpSteal a0, EnhanceHpSteal b0])"
    by (rule change_okI, (simp only: vital_unfold)+,
    ((simp only: vital_unfold)?, (rule effect_intros quiet_intros refl | (simp add: TVSGetState_def; fail))+)+, rule renews_calls, (simp only: calls_simps, (rule fresh_intros | assumption)+), auto,
    simp only: vital_unfold, simp add: effect_def amount_simps amount_new algebra_simps split del: if_split)
  consider "b0 = a0" | "b0 \<noteq> a0" "a0 <s b0" | "b0 \<noteq> a0" "\<not> a0 <s b0" by blast
  then show ?thesis
    by cases ((rule merge_keep, simp add: vital_unfold), (rule merge_step [OF _ c], simp add: vital_unfold), (rule merge_keep, simp add: vital_unfold))
qed

lemma merge_Fastmpgen2: "merge_law vital_methods (Fastmpgen2 a0) t (Fastmpgen2 b0) t'"
  by (rule merge_change, simp only: vital_unfold vital.case, rule change_okI, (simp only: vital_unfold)+,
    ((simp only: vital_unfold)?, (rule effect_intros quiet_intros refl | (simp add: TVSGetState_def; fail))+)+, rule renews_calls, (simp only: calls_simps, (rule fresh_intros | assumption)+), auto,
    simp only: vital_unfold, simp add: effect_def amount_simps amount_new algebra_simps split del: if_split)


lemmas vital_merges = merge_Inchp
    merge_Incmp
    merge_Fastmpgen
    merge_Fasthpgen
    merge_Inchp2
    merge_Inchpsteal
    merge_Fastmpgen2

lemma vital_merging:
  assumes "m_id (vital_methods k) = m_id (vital_methods k2)" "m_mask (vital_methods k) AND MASK_MERGE \<noteq> 0"
  shows "merge_law vital_methods k t k2 t2"
  using assms by (cases k; (simp only: vital_methods.simps vital_idm; simp; fail)?; cases k2;
    simp only: vital_methods.simps vital_idm numeral_eq_iff eq_num_simps simp_thms vital_merges)

end
