(* ===== verification/SkillDefence.thy ===== *)
theory SkillDefence
  imports SkillFilter
begin

text \<open>The filters of the defences of \<open>skillfilter.h\<close>, one definition per class, and their laws.\<close>

subsection \<open>The classes\<close>

datatype defence =
    Incdefence int32
  | Incdodge int32
  | Decdefence int32
  | Decdodge int32
  | Stoneskin int32
  | Ironshield int32
  | Subdefencedegree int32
  | Adddefencedegree int32 bool
  | Incdefence2 int32
  | Decdefence2 int32
  | Incdamagedodge int32
  | Incdebuffdodge int32
  | Adjustattackdefend int32 int32
  | Incdefencesmite int32 int32
  | Inccritresistance int32
  | Deccritresistance int32
  | Subdefencedegree2 int32
  | Incpenres int32 int32
  | Addattackdefenddegree int32 int32
  | Incvigour2 int32 int32
  | Critdamagereduce int32

definition filter_Incdefence :: "int32 \<Rightarrow> defence methods" where
  "filter_Incdefence ratio =
     \<lparr>m_guid = CLASS_INCDEFENCE,
      m_id = FILTER_INCDEFENCE,
      m_mask = MASK_MERGE OR MASK_BUFF OR MASK_REMOVE_ON_DEATH OR MASK_HEARTBEAT OR MASK_TRANSFERABLE_BUFF,
      m_save = [VInt ratio],
      m_load = loads get_int (\<lambda>ratio. ret (Incdefence ratio)),
      m_attach = calls [IncVisibleState VSTATE_BLESSED, InsertTeamVisibleState HSTATE_INCDEFENCE [], EnhanceScaleDefense ratio,
        UpdateDefenseData],
      m_release = calls [ImpairScaleDefense ratio, UpdateDefenseData, DecVisibleState VSTATE_BLESSED,
        RemoveTeamVisibleState HSTATE_INCDEFENCE],
      m_merge = (\<lambda>_ nf timeout' A. case nf of Incdefence ratio' \<Rightarrow>
          Some (if ratio \<noteq> ratio' then (Incdefence ratio', timeout', calls [ImpairScaleDefense ratio, EnhanceScaleDefense ratio', UpdateDefenseData] A)
                else (Incdefence ratio, timeout', A))
        | _ \<Rightarrow> None)\<rparr>"

definition filter_Incdodge :: "int32 \<Rightarrow> defence methods" where
  "filter_Incdodge ratio =
     \<lparr>m_guid = CLASS_INCDODGE,
      m_id = FILTER_INCDODGE,
      m_mask = MASK_MERGE OR MASK_BUFF OR MASK_REMOVE_ON_DEATH OR MASK_HEARTBEAT OR MASK_TRANSFERABLE_BUFF,
      m_save = [VInt ratio],
      m_load = loads get_int (\<lambda>ratio. ret (Incdodge ratio)),
      m_attach = calls [IncVisibleState VSTATE_BLESSED, InsertTeamVisibleState HSTATE_INCDODGE [], EnhanceScaleArmor ratio,
        UpdateDefenseData],
      m_release = calls [DecVisibleState VSTATE_BLESSED, RemoveTeamVisibleState HSTATE_INCDODGE, ImpairScaleArmor ratio,
        UpdateDefenseData],
      m_merge = (\<lambda>_ nf timeout' A. case nf of Incdodge ratio' \<Rightarrow>
          Some (if ratio \<noteq> ratio' then (Incdodge ratio', timeout', calls [ImpairScaleArmor ratio, EnhanceScaleArmor ratio', UpdateDefenseData] A)
                else (Incdodge ratio, timeout', A))
        | _ \<Rightarrow> None)\<rparr>"

definition filter_Decdefence :: "int32 \<Rightarrow> defence methods" where
  "filter_Decdefence ratio =
     \<lparr>m_guid = CLASS_DECDEFENCE,
      m_id = FILTER_DECDEFENCE,
      m_mask = MASK_UNIQUE OR MASK_DEBUFF OR MASK_REMOVE_ON_DEATH OR MASK_HEARTBEAT OR MASK_TRANSFERABLE_DEBUFF,
      m_save = [VInt ratio],
      m_load = loads get_int (\<lambda>ratio. ret (Decdefence ratio)),
      m_attach = calls [IncVisibleState VSTATE_CURSED, InsertTeamVisibleState HSTATE_DECDEFENCE [], ImpairScaleDefense ratio,
        UpdateDefenseData],
      m_release = calls [DecVisibleState VSTATE_CURSED, RemoveTeamVisibleState HSTATE_DECDEFENCE, EnhanceScaleDefense ratio,
        UpdateDefenseData],
      m_merge = assert_false\<rparr>"

definition filter_Decdodge :: "int32 \<Rightarrow> defence methods" where
  "filter_Decdodge increment =
     \<lparr>m_guid = CLASS_DECDODGE,
      m_id = FILTER_DECDODGE,
      m_mask = MASK_UNIQUE OR MASK_DEBUFF OR MASK_REMOVE_ON_DEATH OR MASK_HEARTBEAT OR MASK_TRANSFERABLE_DEBUFF,
      m_save = [VInt increment],
      m_load = loads get_int (\<lambda>increment. ret (Decdodge increment)),
      m_attach = calls [IncVisibleState VSTATE_CURSED, InsertTeamVisibleState HSTATE_DECDODGE [], ImpairScaleArmor increment,
        UpdateDefenseData],
      m_release = calls [DecVisibleState VSTATE_CURSED, RemoveTeamVisibleState HSTATE_DECDODGE, EnhanceScaleArmor increment,
        UpdateDefenseData],
      m_merge = assert_false\<rparr>"

definition filter_Stoneskin :: "int32 \<Rightarrow> defence methods" where
  "filter_Stoneskin ratio =
     \<lparr>m_guid = CLASS_STONESKIN,
      m_id = FILTER_STONESKIN,
      m_mask = MASK_UNIQUE OR MASK_BUFF OR MASK_REMOVE_ON_DEATH OR MASK_HEARTBEAT OR MASK_TRANSFERABLE_BUFF,
      m_save = [VInt ratio],
      m_load = loads get_int (\<lambda>ratio. ret (Stoneskin ratio)),
      m_attach = calls [InsertTeamVisibleState HSTATE_STONESKIN [], IncVisibleState VSTATE_BLESSED, EnhanceScaleDefense ratio,
        UpdateDefenseData],
      m_release = calls [ImpairScaleDefense ratio, UpdateDefenseData, DecVisibleState VSTATE_BLESSED,
        RemoveTeamVisibleState HSTATE_STONESKIN],
      m_merge = assert_false\<rparr>"

definition filter_Ironshield :: "int32 \<Rightarrow> defence methods" where
  "filter_Ironshield ratio =
     \<lparr>m_guid = CLASS_IRONSHIELD,
      m_id = FILTER_IRONSHIELD,
      m_mask = MASK_UNIQUE OR MASK_BUFF OR MASK_REMOVE_ON_DEATH OR MASK_HEARTBEAT OR MASK_TRANSFERABLE_BUFF,
      m_save = [VInt ratio],
      m_load = loads get_int (\<lambda>ratio. ret (Ironshield ratio)),
      m_attach = calls [InsertTeamVisibleState HSTATE_IRONSHIELD [], IncVisibleState VSTATE_BLESSED, EnhanceScaleDefense ratio,
        UpdateDefenseData],
      m_release = calls [ImpairScaleDefense ratio, UpdateDefenseData, DecVisibleState VSTATE_BLESSED,
        RemoveTeamVisibleState HSTATE_IRONSHIELD],
      m_merge = assert_false\<rparr>"

definition filter_Subdefencedegree :: "int32 \<Rightarrow> defence methods" where
  "filter_Subdefencedegree value =
     \<lparr>m_guid = CLASS_SUBDEFENCEDEGREE,
      m_id = FILTER_SUBDEFENCEDEGREE,
      m_mask = MASK_UNIQUE OR MASK_DEBUFF OR MASK_REMOVE_ON_DEATH OR MASK_HEARTBEAT OR MASK_TRANSFERABLE_DEBUFF,
      m_save = [VInt value],
      m_load = loads get_int (\<lambda>value. ret (Subdefencedegree value)),
      m_attach = calls [InsertTeamVisibleState HSTATE_SUBDEFENCEDEGREE [], ImpairDefendDegree value, SendClientDefenseData],
      m_release = calls [RemoveTeamVisibleState HSTATE_SUBDEFENCEDEGREE, EnhanceDefendDegree value, SendClientDefenseData],
      m_merge = assert_false\<rparr>"

definition filter_Adddefencedegree :: "int32 \<Rightarrow> bool \<Rightarrow> defence methods" where
  "filter_Adddefencedegree value insertvstate =
     \<lparr>m_guid = CLASS_ADDDEFENCEDEGREE,
      m_id = FILTER_ADDDEFENCEDEGREE,
      m_mask = MASK_UNIQUE OR MASK_BUFF OR MASK_REMOVE_ON_DEATH OR MASK_HEARTBEAT OR MASK_TRANSFERABLE_BUFF,
      m_save = [VInt value, VBool insertvstate],
      m_load = loads get_int (\<lambda>value. loads get_bool (\<lambda>insertvstate. ret (Adddefencedegree value insertvstate))),
      m_attach = calls [only_if insertvstate (IncVisibleState VSTATE_ADDDEFENCEDEGREE),
        InsertTeamVisibleState HSTATE_ADDDEFENCEDEGREE [], EnhanceDefendDegree value, SendClientDefenseData],
      m_release = calls [only_if insertvstate (DecVisibleState VSTATE_ADDDEFENCEDEGREE),
        RemoveTeamVisibleState HSTATE_ADDDEFENCEDEGREE, ImpairDefendDegree value, SendClientDefenseData],
      m_merge = (\<lambda>_ nf timeout' A. case nf of Adddefencedegree value' _ \<Rightarrow>
          Some (if value \<noteq> value' then (Adddefencedegree value' insertvstate, timeout', calls [ImpairDefendDegree value, EnhanceDefendDegree value', SendClientDefenseData] A)
                else (Adddefencedegree value insertvstate, timeout', A))
        | _ \<Rightarrow> None)\<rparr>"

definition filter_Incdefence2 :: "int32 \<Rightarrow> defence methods" where
  "filter_Incdefence2 ratio =
     \<lparr>m_guid = CLASS_INCDEFENCE2,
      m_id = FILTER_INCDEFENCE2,
      m_mask = MASK_MERGE OR MASK_BUFF OR MASK_REMOVE_ON_DEATH OR MASK_HEARTBEAT OR MASK_TRANSFERABLE_BUFF,
      m_save = [VInt ratio],
      m_load = loads get_int (\<lambda>ratio. ret (Incdefence2 ratio)),
      m_attach = calls [InsertTeamVisibleState HSTATE_INCDEFENCE2 [], EnhanceScaleDefense ratio, UpdateDefenseData],
      m_release = calls [RemoveTeamVisibleState HSTATE_INCDEFENCE2, ImpairScaleDefense ratio, UpdateDefenseData],
      m_merge = (\<lambda>_ nf timeout' A. case nf of Incdefence2 ratio' \<Rightarrow>
          Some (if ratio \<noteq> ratio' then (Incdefence2 ratio', timeout', calls [ImpairScaleDefense ratio, EnhanceScaleDefense ratio', UpdateDefenseData] A)
                else (Incdefence2 ratio, timeout', A))
        | _ \<Rightarrow> None)\<rparr>"

definition filter_Decdefence2 :: "int32 \<Rightarrow> defence methods" where
  "filter_Decdefence2 ratio =
     \<lparr>m_guid = CLASS_DECDEFENCE2,
      m_id = FILTER_DECDEFENCE2,
      m_mask = MASK_UNIQUE OR MASK_DEBUFF OR MASK_REMOVE_ON_DEATH OR MASK_HEARTBEAT OR MASK_TRANSFERABLE_DEBUFF,
      m_save = [VInt ratio],
      m_load = loads get_int (\<lambda>ratio. ret (Decdefence2 ratio)),
      m_attach = calls [InsertTeamVisibleState HSTATE_DECDEFENCE2 [], ImpairScaleDefense ratio, UpdateDefenseData],
      m_release = calls [RemoveTeamVisibleState HSTATE_DECDEFENCE2, EnhanceScaleDefense ratio, UpdateDefenseData],
      m_merge = assert_false\<rparr>"

definition filter_Incdamagedodge :: "int32 \<Rightarrow> defence methods" where
  "filter_Incdamagedodge inc =
     \<lparr>m_guid = CLASS_INCDAMAGEDODGE,
      m_id = FILTER_INCDAMAGEDODGE,
      m_mask = MASK_UNIQUE OR MASK_HEARTBEAT OR MASK_REMOVE_ON_DEATH OR MASK_TRANSFERABLE_BUFF,
      m_save = [VInt inc],
      m_load = loads get_int (\<lambda>inc. ret (Incdamagedodge inc)),
      m_attach = calls [InsertTeamVisibleState HSTATE_INCDAMAGEDODGE [], IncVisibleState VSTATE_INCDAMAGEDODGE,
        EnhanceDamageDodge inc],
      m_release = calls [RemoveTeamVisibleState HSTATE_INCDAMAGEDODGE, DecVisibleState VSTATE_INCDAMAGEDODGE,
        ImpairDamageDodge inc],
      m_merge = assert_false\<rparr>"

definition filter_Incdebuffdodge :: "int32 \<Rightarrow> defence methods" where
  "filter_Incdebuffdodge inc =
     \<lparr>m_guid = CLASS_INCDEBUFFDODGE,
      m_id = FILTER_INCDEBUFFDODGE,
      m_mask = MASK_UNIQUE OR MASK_HEARTBEAT OR MASK_REMOVE_ON_DEATH OR MASK_TRANSFERABLE_BUFF,
      m_save = [VInt inc],
      m_load = loads get_int (\<lambda>inc. ret (Incdebuffdodge inc)),
      m_attach = calls [InsertTeamVisibleState HSTATE_INCDEBUFFDODGE [], IncVisibleState VSTATE_INCDEBUFFDODGE,
        EnhanceDebuffDodge inc],
      m_release = calls [RemoveTeamVisibleState HSTATE_INCDEBUFFDODGE, DecVisibleState VSTATE_INCDEBUFFDODGE,
        ImpairDebuffDodge inc],
      m_merge = assert_false\<rparr>"

definition filter_Adjustattackdefend :: "int32 \<Rightarrow> int32 \<Rightarrow> defence methods" where
  "filter_Adjustattackdefend attack_adj defend_adj =
     \<lparr>m_guid = CLASS_ADJUSTATTACKDEFEND,
      m_id = FILTER_ADJUSTATTACKDEFEND,
      m_mask = MASK_UNIQUE OR MASK_BUFF OR MASK_REMOVE_ON_DEATH OR MASK_HEARTBEAT OR MASK_TRANSFERABLE_BUFF,
      m_save = [VInt attack_adj, VInt defend_adj],
      m_load = loads get_int (\<lambda>attack_adj. loads get_int (\<lambda>defend_adj. ret (Adjustattackdefend attack_adj defend_adj))),
      m_attach = calls [InsertTeamVisibleState HSTATE_ADJUSTATTACKDEFEND [],
        only_if (0 <s attack_adj) (IncVisibleState VSTATE_ADJUSTATTACKDEFEND1),
        only_if (\<not> 0 <s attack_adj) (IncVisibleState VSTATE_ADJUSTATTACKDEFEND2),
        EnhanceAttackDegree attack_adj, EnhanceDefendDegree defend_adj, SendClientAttackData],
      m_release = calls [RemoveTeamVisibleState HSTATE_ADJUSTATTACKDEFEND,
        only_if (0 <s attack_adj) (DecVisibleState VSTATE_ADJUSTATTACKDEFEND1),
        only_if (\<not> 0 <s attack_adj) (DecVisibleState VSTATE_ADJUSTATTACKDEFEND2),
        ImpairAttackDegree attack_adj, ImpairDefendDegree defend_adj, SendClientAttackData],
      m_merge = assert_false\<rparr>"

definition filter_Incdefencesmite :: "int32 \<Rightarrow> int32 \<Rightarrow> defence methods" where
  "filter_Incdefencesmite inc_defence inc_crit =
     \<lparr>m_guid = CLASS_INCDEFENCESMITE,
      m_id = FILTER_INCDEFENCESMITE,
      m_mask = MASK_UNIQUE OR MASK_BUFF OR MASK_REMOVE_ON_DEATH OR MASK_HEARTBEAT OR MASK_TRANSFERABLE_BUFF,
      m_save = [VInt inc_defence, VInt inc_crit],
      m_load = loads get_int (\<lambda>inc_defence. loads get_int (\<lambda>inc_crit. ret (Incdefencesmite inc_defence inc_crit))),
      m_attach = calls [IncVisibleState VSTATE_INCDEFENCESMITE, InsertTeamVisibleState HSTATE_INCDEFENCESMITE [],
        EnhanceScaleDefense inc_defence, UpdateDefenseData, EnhanceCrit inc_crit],
      m_release = calls [DecVisibleState VSTATE_INCDEFENCESMITE, RemoveTeamVisibleState HSTATE_INCDEFENCESMITE,
        ImpairScaleDefense inc_defence, UpdateDefenseData, ImpairCrit inc_crit],
      m_merge = assert_false\<rparr>"

definition filter_Inccritresistance :: "int32 \<Rightarrow> defence methods" where
  "filter_Inccritresistance inc =
     \<lparr>m_guid = CLASS_INCCRITRESISTANCE,
      m_id = FILTER_INCCRITRESISTANCE,
      m_mask = MASK_UNIQUE OR MASK_BUFF OR MASK_HEARTBEAT OR MASK_REMOVE_ON_DEATH OR MASK_TRANSFERABLE_BUFF,
      m_save = [VInt inc],
      m_load = loads get_int (\<lambda>inc. ret (Inccritresistance inc)),
      m_attach = calls [InsertTeamVisibleState HSTATE_INCCRITRESISTANCE [], EnhanceCritResistance inc],
      m_release = calls [RemoveTeamVisibleState HSTATE_INCCRITRESISTANCE, ImpairCritResistance inc],
      m_merge = assert_false\<rparr>"

definition filter_Deccritresistance :: "int32 \<Rightarrow> defence methods" where
  "filter_Deccritresistance dec =
     \<lparr>m_guid = CLASS_DECCRITRESISTANCE,
      m_id = FILTER_DECCRITRESISTANCE,
      m_mask = MASK_UNIQUE OR MASK_DEBUFF OR MASK_HEARTBEAT OR MASK_REMOVE_ON_DEATH OR MASK_TRANSFERABLE_DEBUFF,
      m_save = [VInt dec],
      m_load = loads get_int (\<lambda>dec. ret (Deccritresistance dec)),
      m_attach = calls [IncVisibleState VSTATE_DECCRITRESISTANCE, InsertTeamVisibleState HSTATE_DECCRITRESISTANCE [],
        ImpairCritResistance dec],
      m_release = calls [DecVisibleState VSTATE_DECCRITRESISTANCE, RemoveTeamVisibleState HSTATE_DECCRITRESISTANCE,
        EnhanceCritResistance dec],
      m_merge = assert_false\<rparr>"

definition filter_Subdefencedegree2 :: "int32 \<Rightarrow> defence methods" where
  "filter_Subdefencedegree2 value =
     \<lparr>m_guid = CLASS_SUBDEFENCEDEGREE2,
      m_id = FILTER_SUBDEFENCEDEGREE2,
      m_mask = MASK_UNIQUE OR MASK_DEBUFF OR MASK_REMOVE_ON_DEATH OR MASK_HEARTBEAT OR MASK_TRANSFERABLE_DEBUFF,
      m_save = [VInt value],
      m_load = loads get_int (\<lambda>value. ret (Subdefencedegree2 value)),
      m_attach = calls [InsertTeamVisibleState HSTATE_SUBDEFENCEDEGREE2 [], ImpairDefendDegree value, SendClientDefenseData],
      m_release = calls [RemoveTeamVisibleState HSTATE_SUBDEFENCEDEGREE2, EnhanceDefendDegree value, SendClientDefenseData],
      m_merge = assert_false\<rparr>"

definition filter_Incpenres :: "int32 \<Rightarrow> int32 \<Rightarrow> defence methods" where
  "filter_Incpenres point1 point2 =
     \<lparr>m_guid = CLASS_INCPENRES,
      m_id = FILTER_INCPENRES,
      m_mask = MASK_UNIQUE OR MASK_BUFF OR MASK_REMOVE_ON_DEATH OR MASK_HEARTBEAT,
      m_save = [VInt point1, VInt point2],
      m_load = loads get_int (\<lambda>point1. loads get_int (\<lambda>point2. ret (Incpenres point1 point2))),
      m_attach = calls [InsertTeamVisibleState HSTATE_INCPENRES [], IncPenetration point1, IncResilience point2],
      m_release = calls [RemoveTeamVisibleState HSTATE_INCPENRES, DecPenetration point1, DecResilience point2],
      m_merge = assert_false\<rparr>"

definition filter_Addattackdefenddegree :: "int32 \<Rightarrow> int32 \<Rightarrow> defence methods" where
  "filter_Addattackdefenddegree attack_inc defend_inc =
     \<lparr>m_guid = CLASS_ADDATTACKDEFENDDEGREE,
      m_id = FILTER_ADDATTACKDEFENDDEGREE,
      m_mask = MASK_UNIQUE OR MASK_HEARTBEAT OR MASK_NOSAVE,
      m_save = [VInt attack_inc, VInt defend_inc],
      m_load = loads get_int (\<lambda>attack_inc. loads get_int (\<lambda>defend_inc. ret (Addattackdefenddegree attack_inc defend_inc))),
      m_attach = calls [InsertTeamVisibleState HSTATE_ADDATTACKDEFENDDEGREE [], EnhanceAttackDegree attack_inc,
        EnhanceDefendDegree defend_inc, SendClientAttackData],
      m_release = calls [RemoveTeamVisibleState HSTATE_ADDATTACKDEFENDDEGREE, ImpairAttackDegree attack_inc,
        ImpairDefendDegree defend_inc, SendClientAttackData],
      m_merge = assert_false\<rparr>"

definition filter_Incvigour2 :: "int32 \<Rightarrow> int32 \<Rightarrow> defence methods" where
  "filter_Incvigour2 vigour cdr =
     \<lparr>m_guid = CLASS_INCVIGOUR2,
      m_id = FILTER_INCVIGOUR2,
      m_mask = MASK_UNIQUE OR MASK_HEARTBEAT OR MASK_SAVE_DB_DATA,
      m_save = [VInt vigour, VInt cdr],
      m_load = loads get_int (\<lambda>vigour. loads get_int (\<lambda>cdr. ret (Incvigour2 vigour cdr))),
      m_attach = calls [IncVigour vigour, EnhanceCritDamageReduce cdr, InsertTeamVisibleState HSTATE_INCVIGOUR2 []],
      m_release = calls [DecVigour vigour, ImpairCritDamageReduce cdr, RemoveTeamVisibleState HSTATE_INCVIGOUR2],
      m_merge = assert_false\<rparr>"

definition filter_Critdamagereduce :: "int32 \<Rightarrow> defence methods" where
  "filter_Critdamagereduce cdr =
     \<lparr>m_guid = CLASS_CRITDAMAGEREDUCE,
      m_id = FILTER_CRITDAMAGEREDUCE,
      m_mask = MASK_UNIQUE OR MASK_REMOVE_ON_DEATH OR MASK_HEARTBEAT OR MASK_NOSAVE,
      m_save = [VInt cdr],
      m_load = loads get_int (\<lambda>cdr. ret (Critdamagereduce cdr)),
      m_attach = calls [InsertTeamVisibleState HSTATE_CRITDAMAGEREDUCE [], EnhanceCritDamageReduce cdr],
      m_release = calls [RemoveTeamVisibleState HSTATE_CRITDAMAGEREDUCE, ImpairCritDamageReduce cdr],
      m_merge = assert_false\<rparr>"

primrec defence_methods :: "defence \<Rightarrow> defence methods" where
  "defence_methods (Incdefence ratio) = filter_Incdefence ratio"
| "defence_methods (Incdodge ratio) = filter_Incdodge ratio"
| "defence_methods (Decdefence ratio) = filter_Decdefence ratio"
| "defence_methods (Decdodge increment) = filter_Decdodge increment"
| "defence_methods (Stoneskin ratio) = filter_Stoneskin ratio"
| "defence_methods (Ironshield ratio) = filter_Ironshield ratio"
| "defence_methods (Subdefencedegree value) = filter_Subdefencedegree value"
| "defence_methods (Adddefencedegree value insertvstate) = filter_Adddefencedegree value insertvstate"
| "defence_methods (Incdefence2 ratio) = filter_Incdefence2 ratio"
| "defence_methods (Decdefence2 ratio) = filter_Decdefence2 ratio"
| "defence_methods (Incdamagedodge inc) = filter_Incdamagedodge inc"
| "defence_methods (Incdebuffdodge inc) = filter_Incdebuffdodge inc"
| "defence_methods (Adjustattackdefend attack_adj defend_adj) = filter_Adjustattackdefend attack_adj defend_adj"
| "defence_methods (Incdefencesmite inc_defence inc_crit) = filter_Incdefencesmite inc_defence inc_crit"
| "defence_methods (Inccritresistance inc) = filter_Inccritresistance inc"
| "defence_methods (Deccritresistance dec) = filter_Deccritresistance dec"
| "defence_methods (Subdefencedegree2 value) = filter_Subdefencedegree2 value"
| "defence_methods (Incpenres point1 point2) = filter_Incpenres point1 point2"
| "defence_methods (Addattackdefenddegree attack_inc defend_inc) = filter_Addattackdefenddegree attack_inc defend_inc"
| "defence_methods (Incvigour2 vigour cdr) = filter_Incvigour2 vigour cdr"
| "defence_methods (Critdamagereduce cdr) = filter_Critdamagereduce cdr"

lemmas defence_defs =
  filter_Incdefence_def filter_Incdodge_def filter_Decdefence_def filter_Decdodge_def filter_Stoneskin_def
  filter_Ironshield_def filter_Subdefencedegree_def filter_Adddefencedegree_def filter_Incdefence2_def
  filter_Decdefence2_def filter_Incdamagedodge_def filter_Incdebuffdodge_def filter_Adjustattackdefend_def
  filter_Incdefencesmite_def filter_Inccritresistance_def filter_Deccritresistance_def
  filter_Subdefencedegree2_def filter_Incpenres_def filter_Addattackdefenddegree_def filter_Incvigour2_def
  filter_Critdamagereduce_def

subsection \<open>Laws\<close>

text \<open>The filter ids of the family with their flags, and the id of each team state.\<close>

definition defence_ids :: "(int \<times> u32) list" where
  "defence_ids =
    [(FILTER_INCDEFENCE, MASK_MERGE), (FILTER_INCDODGE, MASK_MERGE), (FILTER_DECDEFENCE, MASK_UNIQUE),
     (FILTER_DECDODGE, MASK_UNIQUE), (FILTER_STONESKIN, MASK_UNIQUE), (FILTER_IRONSHIELD, MASK_UNIQUE),
     (FILTER_SUBDEFENCEDEGREE, MASK_UNIQUE), (FILTER_ADDDEFENCEDEGREE, MASK_UNIQUE),
     (FILTER_INCDEFENCE2, MASK_MERGE), (FILTER_DECDEFENCE2, MASK_UNIQUE), (FILTER_INCDAMAGEDODGE, MASK_UNIQUE),
     (FILTER_INCDEBUFFDODGE, MASK_UNIQUE), (FILTER_ADJUSTATTACKDEFEND, MASK_UNIQUE),
     (FILTER_INCDEFENCESMITE, MASK_UNIQUE), (FILTER_INCCRITRESISTANCE, MASK_UNIQUE),
     (FILTER_DECCRITRESISTANCE, MASK_UNIQUE), (FILTER_SUBDEFENCEDEGREE2, MASK_UNIQUE),
     (FILTER_INCPENRES, MASK_UNIQUE), (FILTER_ADDATTACKDEFENDDEGREE, MASK_UNIQUE),
     (FILTER_INCVIGOUR2, MASK_UNIQUE), (FILTER_CRITDAMAGEREDUCE, MASK_UNIQUE)]"

definition defence_teams :: "(u16 \<times> int) list" where
  "defence_teams =
    [(HSTATE_INCDEFENCE, FILTER_INCDEFENCE), (HSTATE_INCDODGE, FILTER_INCDODGE),
     (HSTATE_DECDEFENCE, FILTER_DECDEFENCE), (HSTATE_DECDODGE, FILTER_DECDODGE),
     (HSTATE_STONESKIN, FILTER_STONESKIN), (HSTATE_IRONSHIELD, FILTER_IRONSHIELD),
     (HSTATE_SUBDEFENCEDEGREE, FILTER_SUBDEFENCEDEGREE), (HSTATE_ADDDEFENCEDEGREE, FILTER_ADDDEFENCEDEGREE),
     (HSTATE_INCDEFENCE2, FILTER_INCDEFENCE2), (HSTATE_DECDEFENCE2, FILTER_DECDEFENCE2),
     (HSTATE_INCDAMAGEDODGE, FILTER_INCDAMAGEDODGE), (HSTATE_INCDEBUFFDODGE, FILTER_INCDEBUFFDODGE),
     (HSTATE_ADJUSTATTACKDEFEND, FILTER_ADJUSTATTACKDEFEND), (HSTATE_INCDEFENCESMITE, FILTER_INCDEFENCESMITE),
     (HSTATE_INCCRITRESISTANCE, FILTER_INCCRITRESISTANCE), (HSTATE_DECCRITRESISTANCE, FILTER_DECCRITRESISTANCE),
     (HSTATE_SUBDEFENCEDEGREE2, FILTER_SUBDEFENCEDEGREE2), (HSTATE_INCPENRES, FILTER_INCPENRES),
     (HSTATE_ADDATTACKDEFENDDEGREE, FILTER_ADDATTACKDEFENDDEGREE), (HSTATE_INCVIGOUR2, FILTER_INCVIGOUR2),
     (HSTATE_CRITDAMAGEREDUCE, FILTER_CRITDAMAGEREDUCE)]"

text \<open>The classes by their numbers; \<open>Load\<close> does not depend on the data of the object it fills.\<close>

definition defence_loaders :: "(int32 \<times> defence loader) list" where
  "defence_loaders = map (\<lambda>m. (m_guid m, m_load m))
    [filter_Incdefence 0, filter_Incdodge 0, filter_Decdefence 0, filter_Decdodge 0, filter_Stoneskin 0,
     filter_Ironshield 0, filter_Subdefencedegree 0, filter_Adddefencedegree 0 False, filter_Incdefence2 0,
     filter_Decdefence2 0, filter_Incdamagedodge 0, filter_Incdebuffdodge 0, filter_Adjustattackdefend 0 0,
     filter_Incdefencesmite 0 0, filter_Inccritresistance 0, filter_Deccritresistance 0,
     filter_Subdefencedegree2 0, filter_Incpenres 0 0, filter_Addattackdefenddegree 0 0, filter_Incvigour2 0 0,
     filter_Critdamagereduce 0]"


lemmas defence_unfold = defence_methods.simps defence_defs methods.select_convs

lemma defence_amount:
  "amount (m_attach (defence_methods k) A) s = amount A s + effect (m_attach (defence_methods k)) s"
  "amount (m_release (defence_methods k) A) s = amount A s - effect (m_attach (defence_methods k)) s"
  by (cases k; simp only: defence_unfold; simp add: effect_def amount_simps amount_new algebra_simps split del: if_split)+

lemma defence_counts: "\<exists>n. raises (m_attach (defence_methods k)) n \<and> lowers (m_release (defence_methods k)) n"
  by (cases k; (simp only: defence_unfold, rule counts_undone, (rule effect_intros | (simp add: fun_eq_iff; fail))+))

lemma defence_states:
  "\<exists>T. joins (m_attach (defence_methods k)) T \<and> leaves (m_release (defence_methods k)) T \<and> (\<forall>t \<in> T. (t, m_id (defence_methods k)) \<in> set defence_teams)"
  by (cases k; (simp only: defence_unfold, rule teams_undone, (rule effect_intros | (simp add: TVSGetState_def defence_teams_def; fail))+))

lemma defence_fresh: "renews (m_attach (defence_methods k)) \<and> renews (m_release (defence_methods k))"
  by (rule conjI; cases k; simp only: defence_unfold; rule renews_calls, (simp only: calls_simps, (rule fresh_intros | assumption)+), auto)

lemma defence_undone: "undoes (m_attach (defence_methods k)) (m_release (defence_methods k))"
proof -
  obtain n where n: "raises (m_attach (defence_methods k)) n \<and> lowers (m_release (defence_methods k)) n" using defence_counts by blast
  obtain T where T: "joins (m_attach (defence_methods k)) T \<and> leaves (m_release (defence_methods k)) T" using defence_states by blast
  show ?thesis by (rule undoes_parts [OF defence_amount n T defence_fresh])
qed

lemma defence_team_id: "t \<in> team_of (m_attach (defence_methods k)) \<Longrightarrow> (t, m_id (defence_methods k)) \<in> set defence_teams"
  using defence_states [of k] joins_team_of by blast

lemma defence_reads: "reads (m_load (defence_methods k)) (concat (map encode (m_save (defence_methods k)))) k"
  by (cases k; (simp only: defence_unfold list.map concat.simps encode.simps, (rule reads_loads reads_int reads_bool reads_ret)+))

lemma defence_id: "(m_id (defence_methods k), m_mask (defence_methods k) AND MASK_CONTROL) \<in> set defence_ids"
  by (cases k; simp only: defence_unfold defence_ids_def; simp)

lemma defence_events: "m_mask (defence_methods k) AND MASK_ALL = MASK_HEARTBEAT"
  by (cases k; simp only: defence_unfold; simp)

lemma defence_loader: "(m_guid (defence_methods k), m_load (defence_methods k)) \<in> set defence_loaders"
  unfolding defence_loaders_def by (cases k; simp only: defence_unfold list.map list.set; simp)

lemma defence_idm:
  "m_id (filter_Incdefence a0) = FILTER_INCDEFENCE" "m_mask (filter_Incdefence a0) = MASK_MERGE OR MASK_BUFF OR MASK_REMOVE_ON_DEATH OR MASK_HEARTBEAT OR MASK_TRANSFERABLE_BUFF"
    "m_id (filter_Incdodge a0) = FILTER_INCDODGE" "m_mask (filter_Incdodge a0) = MASK_MERGE OR MASK_BUFF OR MASK_REMOVE_ON_DEATH OR MASK_HEARTBEAT OR MASK_TRANSFERABLE_BUFF"
    "m_id (filter_Decdefence a0) = FILTER_DECDEFENCE" "m_mask (filter_Decdefence a0) = MASK_UNIQUE OR MASK_DEBUFF OR MASK_REMOVE_ON_DEATH OR MASK_HEARTBEAT OR MASK_TRANSFERABLE_DEBUFF"
    "m_id (filter_Decdodge a0) = FILTER_DECDODGE" "m_mask (filter_Decdodge a0) = MASK_UNIQUE OR MASK_DEBUFF OR MASK_REMOVE_ON_DEATH OR MASK_HEARTBEAT OR MASK_TRANSFERABLE_DEBUFF"
    "m_id (filter_Stoneskin a0) = FILTER_STONESKIN" "m_mask (filter_Stoneskin a0) = MASK_UNIQUE OR MASK_BUFF OR MASK_REMOVE_ON_DEATH OR MASK_HEARTBEAT OR MASK_TRANSFERABLE_BUFF"
    "m_id (filter_Ironshield a0) = FILTER_IRONSHIELD" "m_mask (filter_Ironshield a0) = MASK_UNIQUE OR MASK_BUFF OR MASK_REMOVE_ON_DEATH OR MASK_HEARTBEAT OR MASK_TRANSFERABLE_BUFF"
    "m_id (filter_Subdefencedegree a0) = FILTER_SUBDEFENCEDEGREE" "m_mask (filter_Subdefencedegree a0) = MASK_UNIQUE OR MASK_DEBUFF OR MASK_REMOVE_ON_DEATH OR MASK_HEARTBEAT OR MASK_TRANSFERABLE_DEBUFF"
    "m_id (filter_Adddefencedegree a0 p1) = FILTER_ADDDEFENCEDEGREE" "m_mask (filter_Adddefencedegree a0 p1) = MASK_UNIQUE OR MASK_BUFF OR MASK_REMOVE_ON_DEATH OR MASK_HEARTBEAT OR MASK_TRANSFERABLE_BUFF"
    "m_id (filter_Incdefence2 a0) = FILTER_INCDEFENCE2" "m_mask (filter_Incdefence2 a0) = MASK_MERGE OR MASK_BUFF OR MASK_REMOVE_ON_DEATH OR MASK_HEARTBEAT OR MASK_TRANSFERABLE_BUFF"
    "m_id (filter_Decdefence2 a0) = FILTER_DECDEFENCE2" "m_mask (filter_Decdefence2 a0) = MASK_UNIQUE OR MASK_DEBUFF OR MASK_REMOVE_ON_DEATH OR MASK_HEARTBEAT OR MASK_TRANSFERABLE_DEBUFF"
    "m_id (filter_Incdamagedodge a0) = FILTER_INCDAMAGEDODGE" "m_mask (filter_Incdamagedodge a0) = MASK_UNIQUE OR MASK_HEARTBEAT OR MASK_REMOVE_ON_DEATH OR MASK_TRANSFERABLE_BUFF"
    "m_id (filter_Incdebuffdodge a0) = FILTER_INCDEBUFFDODGE" "m_mask (filter_Incdebuffdodge a0) = MASK_UNIQUE OR MASK_HEARTBEAT OR MASK_REMOVE_ON_DEATH OR MASK_TRANSFERABLE_BUFF"
    "m_id (filter_Adjustattackdefend a0 a1) = FILTER_ADJUSTATTACKDEFEND" "m_mask (filter_Adjustattackdefend a0 a1) = MASK_UNIQUE OR MASK_BUFF OR MASK_REMOVE_ON_DEATH OR MASK_HEARTBEAT OR MASK_TRANSFERABLE_BUFF"
    "m_id (filter_Incdefencesmite a0 a1) = FILTER_INCDEFENCESMITE" "m_mask (filter_Incdefencesmite a0 a1) = MASK_UNIQUE OR MASK_BUFF OR MASK_REMOVE_ON_DEATH OR MASK_HEARTBEAT OR MASK_TRANSFERABLE_BUFF"
    "m_id (filter_Inccritresistance a0) = FILTER_INCCRITRESISTANCE" "m_mask (filter_Inccritresistance a0) = MASK_UNIQUE OR MASK_BUFF OR MASK_HEARTBEAT OR MASK_REMOVE_ON_DEATH OR MASK_TRANSFERABLE_BUFF"
    "m_id (filter_Deccritresistance a0) = FILTER_DECCRITRESISTANCE" "m_mask (filter_Deccritresistance a0) = MASK_UNIQUE OR MASK_DEBUFF OR MASK_HEARTBEAT OR MASK_REMOVE_ON_DEATH OR MASK_TRANSFERABLE_DEBUFF"
    "m_id (filter_Subdefencedegree2 a0) = FILTER_SUBDEFENCEDEGREE2" "m_mask (filter_Subdefencedegree2 a0) = MASK_UNIQUE OR MASK_DEBUFF OR MASK_REMOVE_ON_DEATH OR MASK_HEARTBEAT OR MASK_TRANSFERABLE_DEBUFF"
    "m_id (filter_Incpenres a0 a1) = FILTER_INCPENRES" "m_mask (filter_Incpenres a0 a1) = MASK_UNIQUE OR MASK_BUFF OR MASK_REMOVE_ON_DEATH OR MASK_HEARTBEAT"
    "m_id (filter_Addattackdefenddegree a0 a1) = FILTER_ADDATTACKDEFENDDEGREE" "m_mask (filter_Addattackdefenddegree a0 a1) = MASK_UNIQUE OR MASK_HEARTBEAT OR MASK_NOSAVE"
    "m_id (filter_Incvigour2 a0 a1) = FILTER_INCVIGOUR2" "m_mask (filter_Incvigour2 a0 a1) = MASK_UNIQUE OR MASK_HEARTBEAT OR MASK_SAVE_DB_DATA"
    "m_id (filter_Critdamagereduce a0) = FILTER_CRITDAMAGEREDUCE" "m_mask (filter_Critdamagereduce a0) = MASK_UNIQUE OR MASK_REMOVE_ON_DEATH OR MASK_HEARTBEAT OR MASK_NOSAVE"
  by (simp_all only: defence_unfold)

lemma merge_Incdefence: "merge_law defence_methods (Incdefence a0) t (Incdefence b0) t'"
  by (rule merge_change, simp only: defence_unfold defence.case, rule change_okI, (simp only: defence_unfold)+,
    ((simp only: defence_unfold)?, (rule effect_intros quiet_intros refl | (simp add: TVSGetState_def; fail))+)+, rule renews_calls, (simp only: calls_simps, (rule fresh_intros | assumption)+), auto,
    simp only: defence_unfold, simp add: effect_def amount_simps amount_new algebra_simps split del: if_split)

lemma merge_Incdodge: "merge_law defence_methods (Incdodge a0) t (Incdodge b0) t'"
  by (rule merge_change, simp only: defence_unfold defence.case, rule change_okI, (simp only: defence_unfold)+,
    ((simp only: defence_unfold)?, (rule effect_intros quiet_intros refl | (simp add: TVSGetState_def; fail))+)+, rule renews_calls, (simp only: calls_simps, (rule fresh_intros | assumption)+), auto,
    simp only: defence_unfold, simp add: effect_def amount_simps amount_new algebra_simps split del: if_split)

lemma merge_Incdefence2: "merge_law defence_methods (Incdefence2 a0) t (Incdefence2 b0) t'"
  by (rule merge_change, simp only: defence_unfold defence.case, rule change_okI, (simp only: defence_unfold)+,
    ((simp only: defence_unfold)?, (rule effect_intros quiet_intros refl | (simp add: TVSGetState_def; fail))+)+, rule renews_calls, (simp only: calls_simps, (rule fresh_intros | assumption)+), auto,
    simp only: defence_unfold, simp add: effect_def amount_simps amount_new algebra_simps split del: if_split)


lemmas defence_merges = merge_Incdefence
    merge_Incdodge
    merge_Incdefence2

lemma defence_merging:
  assumes "m_id (defence_methods k) = m_id (defence_methods k2)" "m_mask (defence_methods k) AND MASK_MERGE \<noteq> 0"
  shows "merge_law defence_methods k t k2 t2"
  using assms by (cases k; (simp only: defence_methods.simps defence_idm; simp; fail)?; cases k2;
    simp only: defence_methods.simps defence_idm numeral_eq_iff eq_num_simps simp_thms defence_merges)

end
