(* ===== verification/SkillAttack.thy ===== *)
theory SkillAttack
  imports SkillFilter
begin

text \<open>The filters of the attacks of \<open>skillfilter.h\<close>, one definition per class, and their laws.\<close>

subsection \<open>The classes\<close>

datatype attack =
    Incattack int32
  | Incmagic int32
  | Decattack int32
  | Decmagic int32
  | Tardy int32
  | Crazy int32
  | Decaccuracy int32
  | Incaccuracy int32
  | Powerup
  | Giant int32
  | Blessmagic int32
  | Incsmite int32
  | Sharpblade int32
  | Addattackdegree int32 bool
  | Subattackdegree int32
  | Incsmite2 int32
  | Incattack2 int32 bool
  | Incmagic2 int32 bool
  | Inccritdamage int32
  | Deepicethrust int32 int32
  | Specialphysichurttrigger
  | Enhanceskilldamage int32
  | Enhanceskilldamage2 int32
  | Incattack3 int32 int32 int32
  | Incsmite3 int32
  | Incvigour int32
  | Enhanceskilldamage3 int32

definition filter_Incattack :: "int32 \<Rightarrow> attack methods" where
  "filter_Incattack ratio =
     \<lparr>m_guid = CLASS_INCATTACK,
      m_id = FILTER_INCATTACK,
      m_mask = MASK_MERGE OR MASK_BUFF OR MASK_REMOVE_ON_DEATH OR MASK_HEARTBEAT OR MASK_TRANSFERABLE_BUFF,
      m_save = [VInt ratio],
      m_load = loads get_int (\<lambda>ratio. ret (Incattack ratio)),
      m_attach = calls [IncVisibleState VSTATE_BLESSED, InsertTeamVisibleState HSTATE_INCATTACK [], EnhanceScaleDamage ratio,
        UpdateAttackData],
      m_release = calls [DecVisibleState VSTATE_BLESSED, RemoveTeamVisibleState HSTATE_INCATTACK, ImpairScaleDamage ratio,
        UpdateAttackData],
      m_merge = (\<lambda>_ nf timeout' A. case nf of Incattack ratio' \<Rightarrow>
          Some (if ratio \<noteq> ratio' then (Incattack ratio', timeout', calls [ImpairScaleDamage ratio, EnhanceScaleDamage ratio', UpdateAttackData] A)
                else (Incattack ratio, timeout', A))
        | _ \<Rightarrow> None)\<rparr>"

definition filter_Incmagic :: "int32 \<Rightarrow> attack methods" where
  "filter_Incmagic ratio =
     \<lparr>m_guid = CLASS_INCMAGIC,
      m_id = FILTER_INCMAGIC,
      m_mask = MASK_MERGE OR MASK_BUFF OR MASK_REMOVE_ON_DEATH OR MASK_HEARTBEAT OR MASK_TRANSFERABLE_BUFF,
      m_save = [VInt ratio],
      m_load = loads get_int (\<lambda>ratio. ret (Incmagic ratio)),
      m_attach = calls [IncVisibleState VSTATE_BLESSED, InsertTeamVisibleState HSTATE_INCMAGIC [],
        EnhanceScaleMagicDamage ratio, UpdateMagicData],
      m_release = calls [DecVisibleState VSTATE_BLESSED, RemoveTeamVisibleState HSTATE_INCMAGIC, ImpairScaleMagicDamage ratio,
        UpdateMagicData],
      m_merge = (\<lambda>_ nf timeout' A. case nf of Incmagic ratio' \<Rightarrow>
          Some (if ratio \<noteq> ratio' then (Incmagic ratio', timeout', calls [ImpairScaleMagicDamage ratio, EnhanceScaleMagicDamage ratio', UpdateMagicData] A)
                else (Incmagic ratio, timeout', A))
        | _ \<Rightarrow> None)\<rparr>"

definition filter_Decattack :: "int32 \<Rightarrow> attack methods" where
  "filter_Decattack ratio =
     \<lparr>m_guid = CLASS_DECATTACK,
      m_id = FILTER_DECATTACK,
      m_mask = MASK_UNIQUE OR MASK_DEBUFF OR MASK_REMOVE_ON_DEATH OR MASK_HEARTBEAT OR MASK_TRANSFERABLE_DEBUFF,
      m_save = [VInt ratio],
      m_load = loads get_int (\<lambda>ratio. ret (Decattack ratio)),
      m_attach = calls [IncVisibleState VSTATE_CURSED, InsertTeamVisibleState HSTATE_DECATTACK [], ImpairScaleDamage ratio,
        UpdateAttackData],
      m_release = calls [DecVisibleState VSTATE_CURSED, RemoveTeamVisibleState HSTATE_DECATTACK, EnhanceScaleDamage ratio,
        UpdateAttackData],
      m_merge = assert_false\<rparr>"

definition filter_Decmagic :: "int32 \<Rightarrow> attack methods" where
  "filter_Decmagic ratio =
     \<lparr>m_guid = CLASS_DECMAGIC,
      m_id = FILTER_DECMAGIC,
      m_mask = MASK_UNIQUE OR MASK_DEBUFF OR MASK_REMOVE_ON_DEATH OR MASK_HEARTBEAT OR MASK_TRANSFERABLE_DEBUFF,
      m_save = [VInt ratio],
      m_load = loads get_int (\<lambda>ratio. ret (Decmagic ratio)),
      m_attach = calls [IncVisibleState VSTATE_CURSED, InsertTeamVisibleState HSTATE_DECMAGIC [], ImpairScaleMagicDamage ratio,
        UpdateMagicData],
      m_release = calls [DecVisibleState VSTATE_CURSED, RemoveTeamVisibleState HSTATE_DECMAGIC, EnhanceScaleMagicDamage ratio,
        UpdateMagicData],
      m_merge = assert_false\<rparr>"

definition filter_Tardy :: "int32 \<Rightarrow> attack methods" where
  "filter_Tardy ratio =
     \<lparr>m_guid = CLASS_TARDY,
      m_id = FILTER_TARDY,
      m_mask = MASK_UNIQUE OR MASK_DEBUFF OR MASK_HEARTBEAT OR MASK_REMOVE_ON_DEATH OR MASK_TRANSFERABLE_DEBUFF,
      m_save = [VInt ratio],
      m_load = loads get_int (\<lambda>ratio. ret (Tardy ratio)),
      m_attach = calls [ImpairScaleAttackSpeed ratio, UpdateAttackData, IncVisibleState VSTATE_INFAUST,
        InsertTeamVisibleState HSTATE_SLOWATTACK []],
      m_release = calls [EnhanceScaleAttackSpeed ratio, UpdateAttackData, DecVisibleState VSTATE_INFAUST,
        RemoveTeamVisibleState HSTATE_SLOWATTACK],
      m_merge = assert_false\<rparr>"

definition filter_Crazy :: "int32 \<Rightarrow> attack methods" where
  "filter_Crazy ratio =
     \<lparr>m_guid = CLASS_CRAZY,
      m_id = FILTER_CRAZY,
      m_mask = MASK_MERGE OR MASK_BUFF OR MASK_HEARTBEAT OR MASK_REMOVE_ON_DEATH OR MASK_TRANSFERABLE_BUFF,
      m_save = [VInt ratio],
      m_load = loads get_int (\<lambda>ratio. ret (Crazy ratio)),
      m_attach = calls [EnhanceScaleAttackSpeed ratio, UpdateAttackData, IncVisibleState VSTATE_BLESSED,
        InsertTeamVisibleState HSTATE_FASTATTACK []],
      m_release = calls [ImpairScaleAttackSpeed ratio, UpdateAttackData, DecVisibleState VSTATE_BLESSED,
        RemoveTeamVisibleState HSTATE_FASTATTACK],
      m_merge = (\<lambda>_ nf timeout' A. case nf of Crazy ratio' \<Rightarrow>
          Some (if ratio \<noteq> ratio' then (Crazy ratio', timeout', calls [ImpairScaleAttackSpeed ratio, EnhanceScaleAttackSpeed ratio', UpdateAttackData] A)
                else (Crazy ratio, timeout', A))
        | _ \<Rightarrow> None)\<rparr>"

definition filter_Decaccuracy :: "int32 \<Rightarrow> attack methods" where
  "filter_Decaccuracy ratio =
     \<lparr>m_guid = CLASS_DECACCURACY,
      m_id = FILTER_DECACCURACY,
      m_mask = MASK_UNIQUE OR MASK_DEBUFF OR MASK_REMOVE_ON_DEATH OR MASK_HEARTBEAT OR MASK_TRANSFERABLE_DEBUFF,
      m_save = [VInt ratio],
      m_load = loads get_int (\<lambda>ratio. ret (Decaccuracy ratio)),
      m_attach = calls [ImpairScaleAttack ratio, UpdateAttackData, IncVisibleState VSTATE_INFAUST,
        InsertTeamVisibleState HSTATE_DECACCURACY []],
      m_release = calls [EnhanceScaleAttack ratio, UpdateAttackData, DecVisibleState VSTATE_INFAUST,
        RemoveTeamVisibleState HSTATE_DECACCURACY],
      m_merge = assert_false\<rparr>"

definition filter_Incaccuracy :: "int32 \<Rightarrow> attack methods" where
  "filter_Incaccuracy ratio =
     \<lparr>m_guid = CLASS_INCACCURACY,
      m_id = FILTER_INCACCURACY,
      m_mask = MASK_UNIQUE OR MASK_BUFF OR MASK_REMOVE_ON_DEATH OR MASK_HEARTBEAT OR MASK_TRANSFERABLE_BUFF,
      m_save = [VInt ratio],
      m_load = loads get_int (\<lambda>ratio. ret (Incaccuracy ratio)),
      m_attach = calls [IncVisibleState VSTATE_BLESSED, InsertTeamVisibleState HSTATE_INCACCURACY [], EnhanceScaleAttack ratio,
        UpdateAttackData],
      m_release = calls [DecVisibleState VSTATE_BLESSED, RemoveTeamVisibleState HSTATE_INCACCURACY, ImpairScaleAttack ratio,
        UpdateAttackData],
      m_merge = assert_false\<rparr>"

definition filter_Powerup :: "attack methods" where
  "filter_Powerup =
     \<lparr>m_guid = CLASS_POWERUP,
      m_id = FILTER_POWERUP,
      m_mask = MASK_UNIQUE OR MASK_BUFF OR MASK_REMOVE_ON_DEATH OR MASK_HEARTBEAT,
      m_save = [],
      m_load = ret Powerup,
      m_attach = calls [IncVisibleState VSTATE_POWERUP, InsertTeamVisibleState HSTATE_POWERUP []],
      m_release = calls [DecVisibleState VSTATE_POWERUP, RemoveTeamVisibleState HSTATE_POWERUP],
      m_merge = assert_false\<rparr>"

definition filter_Giant :: "int32 \<Rightarrow> attack methods" where
  "filter_Giant ratio =
     \<lparr>m_guid = CLASS_GIANT,
      m_id = FILTER_GIANT,
      m_mask = MASK_UNIQUE OR MASK_BUFF OR MASK_REMOVE_ON_DEATH OR MASK_HEARTBEAT OR MASK_TRANSFERABLE_BUFF,
      m_save = [VInt ratio],
      m_load = loads get_int (\<lambda>ratio. ret (Giant ratio)),
      m_attach = calls [IncVisibleState VSTATE_BLESSED, InsertTeamVisibleState HSTATE_GIANT [], EnhanceScaleDamage ratio,
        UpdateAttackData],
      m_release = calls [DecVisibleState VSTATE_BLESSED, RemoveTeamVisibleState HSTATE_GIANT, ImpairScaleDamage ratio,
        UpdateAttackData],
      m_merge = assert_false\<rparr>"

definition filter_Blessmagic :: "int32 \<Rightarrow> attack methods" where
  "filter_Blessmagic ratio =
     \<lparr>m_guid = CLASS_BLESSMAGIC,
      m_id = FILTER_BLESSMAGIC,
      m_mask = MASK_UNIQUE OR MASK_BUFF OR MASK_REMOVE_ON_DEATH OR MASK_HEARTBEAT OR MASK_TRANSFERABLE_BUFF,
      m_save = [VInt ratio],
      m_load = loads get_int (\<lambda>ratio. ret (Blessmagic ratio)),
      m_attach = calls [IncVisibleState VSTATE_BLESSED, InsertTeamVisibleState HSTATE_BLESSMAGIC [],
        EnhanceScaleMagicDamage ratio, UpdateMagicData],
      m_release = calls [DecVisibleState VSTATE_BLESSED, RemoveTeamVisibleState HSTATE_BLESSMAGIC, ImpairScaleMagicDamage ratio,
        UpdateMagicData],
      m_merge = assert_false\<rparr>"

definition filter_Incsmite :: "int32 \<Rightarrow> attack methods" where
  "filter_Incsmite point =
     \<lparr>m_guid = CLASS_INCSMITE,
      m_id = FILTER_INCSMITE,
      m_mask = MASK_WEAK OR MASK_BUFF OR MASK_REMOVE_ON_DEATH OR MASK_HEARTBEAT OR MASK_TRANSFERABLE_BUFF,
      m_save = [VInt point],
      m_load = loads get_int (\<lambda>point. ret (Incsmite point)),
      m_attach = calls [IncVisibleState VSTATE_BLESSED, InsertTeamVisibleState HSTATE_INCSMITE [], EnhanceCrit point],
      m_release = calls [DecVisibleState VSTATE_BLESSED, RemoveTeamVisibleState HSTATE_INCSMITE, ImpairCrit point],
      m_merge = assert_false\<rparr>"

definition filter_Sharpblade :: "int32 \<Rightarrow> attack methods" where
  "filter_Sharpblade ratio =
     \<lparr>m_guid = CLASS_SHARPBLADE,
      m_id = FILTER_SHARPBLADE,
      m_mask = MASK_UNIQUE OR MASK_BUFF OR MASK_REMOVE_ON_DEATH OR MASK_HEARTBEAT OR MASK_TRANSFERABLE_BUFF,
      m_save = [VInt ratio],
      m_load = loads get_int (\<lambda>ratio. ret (Sharpblade ratio)),
      m_attach = calls [IncVisibleState VSTATE_BLESSED, InsertTeamVisibleState HSTATE_SHARPBLADE [], EnhanceScaleDamage ratio,
        UpdateAttackData],
      m_release = calls [DecVisibleState VSTATE_BLESSED, RemoveTeamVisibleState HSTATE_SHARPBLADE, ImpairScaleDamage ratio,
        UpdateAttackData],
      m_merge = assert_false\<rparr>"

definition filter_Addattackdegree :: "int32 \<Rightarrow> bool \<Rightarrow> attack methods" where
  "filter_Addattackdegree add insertvstate =
     \<lparr>m_guid = CLASS_ADDATTACKDEGREE,
      m_id = FILTER_ADDATTACKDEGREE,
      m_mask = MASK_MERGE OR MASK_BUFF OR MASK_REMOVE_ON_DEATH OR MASK_HEARTBEAT OR MASK_TRANSFERABLE_BUFF,
      m_save = [VInt add, VBool insertvstate],
      m_load = loads get_int (\<lambda>add. loads get_bool (\<lambda>insertvstate. ret (Addattackdegree add insertvstate))),
      m_attach = calls [only_if insertvstate (IncVisibleState VSTATE_ADDATTACKDEGREE),
        InsertTeamVisibleState HSTATE_ADDATTACKDEGREE [], EnhanceAttackDegree add, SendClientAttackData],
      m_release = calls [only_if insertvstate (DecVisibleState VSTATE_ADDATTACKDEGREE),
        RemoveTeamVisibleState HSTATE_ADDATTACKDEGREE, ImpairAttackDegree add, SendClientAttackData],
      m_merge = (\<lambda>_ nf timeout' A. case nf of Addattackdegree add' _ \<Rightarrow>
          Some (if add \<noteq> add' then (Addattackdegree add' insertvstate, timeout', calls [ImpairAttackDegree add, EnhanceAttackDegree add', SendClientAttackData] A)
                else (Addattackdegree add insertvstate, timeout', A))
        | _ \<Rightarrow> None)\<rparr>"

definition filter_Subattackdegree :: "int32 \<Rightarrow> attack methods" where
  "filter_Subattackdegree value =
     \<lparr>m_guid = CLASS_SUBATTACKDEGREE,
      m_id = FILTER_SUBATTACKDEGREE,
      m_mask = MASK_UNIQUE OR MASK_DEBUFF OR MASK_REMOVE_ON_DEATH OR MASK_HEARTBEAT OR MASK_TRANSFERABLE_DEBUFF,
      m_save = [VInt value],
      m_load = loads get_int (\<lambda>value. ret (Subattackdegree value)),
      m_attach = calls [InsertTeamVisibleState HSTATE_SUBATTACKDEGREE [], ImpairAttackDegree value, SendClientAttackData],
      m_release = calls [RemoveTeamVisibleState HSTATE_SUBATTACKDEGREE, EnhanceAttackDegree value, SendClientAttackData],
      m_merge = assert_false\<rparr>"

definition filter_Incsmite2 :: "int32 \<Rightarrow> attack methods" where
  "filter_Incsmite2 point =
     \<lparr>m_guid = CLASS_INCSMITE2,
      m_id = FILTER_INCSMITE2,
      m_mask = MASK_WEAK OR MASK_BUFF OR MASK_REMOVE_ON_DEATH OR MASK_HEARTBEAT OR MASK_TRANSFERABLE_BUFF,
      m_save = [VInt point],
      m_load = loads get_int (\<lambda>point. ret (Incsmite2 point)),
      m_attach = calls [InsertTeamVisibleState HSTATE_INCSMITE2 [], EnhanceCrit point],
      m_release = calls [RemoveTeamVisibleState HSTATE_INCSMITE2, ImpairCrit point],
      m_merge = assert_false\<rparr>"

definition filter_Incattack2 :: "int32 \<Rightarrow> bool \<Rightarrow> attack methods" where
  "filter_Incattack2 ratio insertvstate =
     \<lparr>m_guid = CLASS_INCATTACK2,
      m_id = FILTER_INCATTACK2,
      m_mask = MASK_MERGE OR MASK_BUFF OR MASK_REMOVE_ON_DEATH OR MASK_HEARTBEAT OR MASK_TRANSFERABLE_BUFF,
      m_save = [VInt ratio, VBool insertvstate],
      m_load = loads get_int (\<lambda>ratio. loads get_bool (\<lambda>insertvstate. ret (Incattack2 ratio insertvstate))),
      m_attach = calls [only_if insertvstate (IncVisibleState VSTATE_BLESSED), InsertTeamVisibleState HSTATE_INCATTACK2 [],
        EnhanceScaleDamage ratio, UpdateAttackData],
      m_release = calls [only_if insertvstate (DecVisibleState VSTATE_BLESSED), RemoveTeamVisibleState HSTATE_INCATTACK2,
        ImpairScaleDamage ratio, UpdateAttackData],
      m_merge = (\<lambda>_ nf timeout' A. case nf of Incattack2 ratio' _ \<Rightarrow>
          Some (if ratio \<noteq> ratio' then (Incattack2 ratio' insertvstate, timeout', calls [ImpairScaleDamage ratio, EnhanceScaleDamage ratio', UpdateAttackData] A)
                else (Incattack2 ratio insertvstate, timeout', A))
        | _ \<Rightarrow> None)\<rparr>"

definition filter_Incmagic2 :: "int32 \<Rightarrow> bool \<Rightarrow> attack methods" where
  "filter_Incmagic2 ratio insertvstate =
     \<lparr>m_guid = CLASS_INCMAGIC2,
      m_id = FILTER_INCMAGIC2,
      m_mask = MASK_MERGE OR MASK_BUFF OR MASK_REMOVE_ON_DEATH OR MASK_HEARTBEAT OR MASK_TRANSFERABLE_BUFF,
      m_save = [VInt ratio, VBool insertvstate],
      m_load = loads get_int (\<lambda>ratio. loads get_bool (\<lambda>insertvstate. ret (Incmagic2 ratio insertvstate))),
      m_attach = calls [only_if insertvstate (IncVisibleState VSTATE_BLESSED), InsertTeamVisibleState HSTATE_INCMAGIC2 [],
        EnhanceScaleMagicDamage ratio, UpdateMagicData],
      m_release = calls [only_if insertvstate (DecVisibleState VSTATE_BLESSED), RemoveTeamVisibleState HSTATE_INCMAGIC2,
        ImpairScaleMagicDamage ratio, UpdateMagicData],
      m_merge = (\<lambda>_ nf timeout' A. case nf of Incmagic2 ratio' _ \<Rightarrow>
          Some (if ratio \<noteq> ratio' then (Incmagic2 ratio' insertvstate, timeout', calls [ImpairScaleMagicDamage ratio, EnhanceScaleMagicDamage ratio', UpdateMagicData] A)
                else (Incmagic2 ratio insertvstate, timeout', A))
        | _ \<Rightarrow> None)\<rparr>"

definition filter_Inccritdamage :: "int32 \<Rightarrow> attack methods" where
  "filter_Inccritdamage inc =
     \<lparr>m_guid = CLASS_INCCRITDAMAGE,
      m_id = FILTER_INCCRITDAMAGE,
      m_mask = MASK_UNIQUE OR MASK_HEARTBEAT OR MASK_REMOVE_ON_DEATH OR MASK_TRANSFERABLE_BUFF,
      m_save = [VInt inc],
      m_load = loads get_int (\<lambda>inc. ret (Inccritdamage inc)),
      m_attach = calls [InsertTeamVisibleState HSTATE_INCCRITDAMAGE [], EnhanceCritDamage inc],
      m_release = calls [RemoveTeamVisibleState HSTATE_INCCRITDAMAGE, ImpairCritDamage inc],
      m_merge = assert_false\<rparr>"

definition filter_Deepicethrust :: "int32 \<Rightarrow> int32 \<Rightarrow> attack methods" where
  "filter_Deepicethrust point ratio =
     \<lparr>m_guid = CLASS_DEEPICETHRUST,
      m_id = FILTER_DEEPICETHRUST,
      m_mask = MASK_UNIQUE OR MASK_BUFF OR MASK_REMOVE_ON_DEATH OR MASK_HEARTBEAT OR MASK_TRANSFERABLE_BUFF,
      m_save = [VInt point, VInt ratio],
      m_load = loads get_int (\<lambda>point. loads get_int (\<lambda>ratio. ret (Deepicethrust point ratio))),
      m_attach = calls [InsertTeamVisibleState HSTATE_DEEPICETHRUST [], IncVisibleState VSTATE_DEEPICETHRUST,
        EnhanceAttackDegree point, SendClientAttackData, ImpairAttackSpeed ratio, UpdateAttackData],
      m_release = calls [RemoveTeamVisibleState HSTATE_DEEPICETHRUST, DecVisibleState VSTATE_DEEPICETHRUST,
        ImpairAttackDegree point, SendClientAttackData, EnhanceAttackSpeed ratio, UpdateAttackData],
      m_merge = assert_false\<rparr>"

definition filter_Specialphysichurttrigger :: "attack methods" where
  "filter_Specialphysichurttrigger =
     \<lparr>m_guid = CLASS_SPECIALPHYSICHURTTRIGGER,
      m_id = FILTER_SPECIALPHYSICHURTTRIGGER,
      m_mask = MASK_UNIQUE OR MASK_DEBUFF OR MASK_REMOVE_ON_DEATH OR MASK_HEARTBEAT,
      m_save = [],
      m_load = ret Specialphysichurttrigger,
      m_attach = calls [InsertTeamVisibleState HSTATE_SPECIALPHYSICHURTTRIGGER []],
      m_release = calls [RemoveTeamVisibleState HSTATE_SPECIALPHYSICHURTTRIGGER],
      m_merge = assert_false\<rparr>"

definition filter_Enhanceskilldamage :: "int32 \<Rightarrow> attack methods" where
  "filter_Enhanceskilldamage inc =
     \<lparr>m_guid = CLASS_ENHANCESKILLDAMAGE,
      m_id = FILTER_ENHANCESKILLDAMAGE,
      m_mask = MASK_UNIQUE OR MASK_REMOVE_ON_DEATH OR MASK_HEARTBEAT OR MASK_NOSAVE,
      m_save = [VInt inc],
      m_load = loads get_int (\<lambda>inc. ret (Enhanceskilldamage inc)),
      m_attach = calls [InsertTeamVisibleState HSTATE_ENHANCESKILLDAMAGE [], EnhanceSkillDamage inc],
      m_release = calls [RemoveTeamVisibleState HSTATE_ENHANCESKILLDAMAGE, ImpairSkillDamage inc],
      m_merge = assert_false\<rparr>"

definition filter_Enhanceskilldamage2 :: "int32 \<Rightarrow> attack methods" where
  "filter_Enhanceskilldamage2 inc =
     \<lparr>m_guid = CLASS_ENHANCESKILLDAMAGE2,
      m_id = FILTER_ENHANCESKILLDAMAGE2,
      m_mask = MASK_UNIQUE OR MASK_REMOVE_ON_DEATH OR MASK_HEARTBEAT OR MASK_NOSAVE,
      m_save = [VInt inc],
      m_load = loads get_int (\<lambda>inc. ret (Enhanceskilldamage2 inc)),
      m_attach = calls [InsertTeamVisibleState HSTATE_ENHANCESKILLDAMAGE2 [], EnhanceSkillDamage inc],
      m_release = calls [RemoveTeamVisibleState HSTATE_ENHANCESKILLDAMAGE2, ImpairSkillDamage inc],
      m_merge = assert_false\<rparr>"

definition filter_Incattack3 :: "int32 \<Rightarrow> int32 \<Rightarrow> int32 \<Rightarrow> attack methods" where
  "filter_Incattack3 ratio cur_merge merge_max =
     \<lparr>m_guid = CLASS_INCATTACK3,
      m_id = FILTER_INCATTACK3,
      m_mask = MASK_MERGE OR MASK_BUFF OR MASK_REMOVE_ON_DEATH OR MASK_HEARTBEAT OR MASK_TRANSFERABLE_BUFF,
      m_save = [VInt ratio, VInt cur_merge, VInt merge_max],
      m_load = loads get_int (\<lambda>ratio. loads get_int (\<lambda>cur_merge. loads get_int (\<lambda>merge_max. ret (Incattack3 ratio cur_merge merge_max)))),
      m_attach = calls [IncVisibleState VSTATE_BLESSED, InsertTeamVisibleState HSTATE_INCATTACK3 [], EnhanceScaleDamage ratio,
        UpdateAttackData],
      m_release = calls [DecVisibleState VSTATE_BLESSED, RemoveTeamVisibleState HSTATE_INCATTACK3, ImpairScaleDamage ratio,
        UpdateAttackData],
      m_merge = (\<lambda>timeout nf _ A.
        if cur_merge <s merge_max then case nf of Incattack3 ratio' _ _ \<Rightarrow>
          Some (Incattack3 (ratio + ratio') (cur_merge + 1) merge_max, timeout,
            calls [ImpairScaleDamage ratio, EnhanceScaleDamage (ratio + ratio'), UpdateAttackData] A)
        | _ \<Rightarrow> None
        else Some (Incattack3 ratio cur_merge merge_max, timeout, A))\<rparr>"

definition filter_Incsmite3 :: "int32 \<Rightarrow> attack methods" where
  "filter_Incsmite3 point =
     \<lparr>m_guid = CLASS_INCSMITE3,
      m_id = FILTER_INCSMITE3,
      m_mask = MASK_WEAK OR MASK_BUFF OR MASK_REMOVE_ON_DEATH OR MASK_HEARTBEAT OR MASK_TRANSFERABLE_BUFF,
      m_save = [VInt point],
      m_load = loads get_int (\<lambda>point. ret (Incsmite3 point)),
      m_attach = calls [InsertTeamVisibleState HSTATE_INCSMITE3 [], EnhanceCrit point],
      m_release = calls [RemoveTeamVisibleState HSTATE_INCSMITE3, ImpairCrit point],
      m_merge = assert_false\<rparr>"

definition filter_Incvigour :: "int32 \<Rightarrow> attack methods" where
  "filter_Incvigour vigour =
     \<lparr>m_guid = CLASS_INCVIGOUR,
      m_id = FILTER_INCVIGOUR,
      m_mask = MASK_UNIQUE OR MASK_HEARTBEAT OR MASK_REMOVE_ON_DEATH,
      m_save = [VInt vigour],
      m_load = loads get_int (\<lambda>vigour. ret (Incvigour vigour)),
      m_attach = calls [IncVigour vigour, InsertTeamVisibleState HSTATE_INCVIGOUR []],
      m_release = calls [DecVigour vigour, RemoveTeamVisibleState HSTATE_INCVIGOUR],
      m_merge = assert_false\<rparr>"

definition filter_Enhanceskilldamage3 :: "int32 \<Rightarrow> attack methods" where
  "filter_Enhanceskilldamage3 inc =
     \<lparr>m_guid = CLASS_ENHANCESKILLDAMAGE3,
      m_id = FILTER_ENHANCESKILLDAMAGE3,
      m_mask = MASK_UNIQUE OR MASK_REMOVE_ON_DEATH OR MASK_HEARTBEAT OR MASK_NOSAVE,
      m_save = [VInt inc],
      m_load = loads get_int (\<lambda>inc. ret (Enhanceskilldamage3 inc)),
      m_attach = calls [InsertTeamVisibleState HSTATE_ENHANCESKILLDAMAGE3 [], EnhanceSkillDamage inc],
      m_release = calls [RemoveTeamVisibleState HSTATE_ENHANCESKILLDAMAGE3, ImpairSkillDamage inc],
      m_merge = assert_false\<rparr>"

primrec attack_methods :: "attack \<Rightarrow> attack methods" where
  "attack_methods (Incattack ratio) = filter_Incattack ratio"
| "attack_methods (Incmagic ratio) = filter_Incmagic ratio"
| "attack_methods (Decattack ratio) = filter_Decattack ratio"
| "attack_methods (Decmagic ratio) = filter_Decmagic ratio"
| "attack_methods (Tardy ratio) = filter_Tardy ratio"
| "attack_methods (Crazy ratio) = filter_Crazy ratio"
| "attack_methods (Decaccuracy ratio) = filter_Decaccuracy ratio"
| "attack_methods (Incaccuracy ratio) = filter_Incaccuracy ratio"
| "attack_methods Powerup = filter_Powerup"
| "attack_methods (Giant ratio) = filter_Giant ratio"
| "attack_methods (Blessmagic ratio) = filter_Blessmagic ratio"
| "attack_methods (Incsmite point) = filter_Incsmite point"
| "attack_methods (Sharpblade ratio) = filter_Sharpblade ratio"
| "attack_methods (Addattackdegree add insertvstate) = filter_Addattackdegree add insertvstate"
| "attack_methods (Subattackdegree value) = filter_Subattackdegree value"
| "attack_methods (Incsmite2 point) = filter_Incsmite2 point"
| "attack_methods (Incattack2 ratio insertvstate) = filter_Incattack2 ratio insertvstate"
| "attack_methods (Incmagic2 ratio insertvstate) = filter_Incmagic2 ratio insertvstate"
| "attack_methods (Inccritdamage inc) = filter_Inccritdamage inc"
| "attack_methods (Deepicethrust point ratio) = filter_Deepicethrust point ratio"
| "attack_methods Specialphysichurttrigger = filter_Specialphysichurttrigger"
| "attack_methods (Enhanceskilldamage inc) = filter_Enhanceskilldamage inc"
| "attack_methods (Enhanceskilldamage2 inc) = filter_Enhanceskilldamage2 inc"
| "attack_methods (Incattack3 ratio cur_merge merge_max) = filter_Incattack3 ratio cur_merge merge_max"
| "attack_methods (Incsmite3 point) = filter_Incsmite3 point"
| "attack_methods (Incvigour vigour) = filter_Incvigour vigour"
| "attack_methods (Enhanceskilldamage3 inc) = filter_Enhanceskilldamage3 inc"

lemmas attack_defs =
  filter_Incattack_def filter_Incmagic_def filter_Decattack_def filter_Decmagic_def filter_Tardy_def
  filter_Crazy_def filter_Decaccuracy_def filter_Incaccuracy_def filter_Powerup_def filter_Giant_def
  filter_Blessmagic_def filter_Incsmite_def filter_Sharpblade_def filter_Addattackdegree_def
  filter_Subattackdegree_def filter_Incsmite2_def filter_Incattack2_def filter_Incmagic2_def
  filter_Inccritdamage_def filter_Deepicethrust_def filter_Specialphysichurttrigger_def
  filter_Enhanceskilldamage_def filter_Enhanceskilldamage2_def filter_Incattack3_def filter_Incsmite3_def
  filter_Incvigour_def filter_Enhanceskilldamage3_def

subsection \<open>Laws\<close>

text \<open>The filter ids of the family with their flags, and the id of each team state.\<close>

definition attack_ids :: "(int \<times> u32) list" where
  "attack_ids =
    [(FILTER_INCATTACK, MASK_MERGE), (FILTER_INCMAGIC, MASK_MERGE), (FILTER_DECATTACK, MASK_UNIQUE),
     (FILTER_DECMAGIC, MASK_UNIQUE), (FILTER_TARDY, MASK_UNIQUE), (FILTER_CRAZY, MASK_MERGE),
     (FILTER_DECACCURACY, MASK_UNIQUE), (FILTER_INCACCURACY, MASK_UNIQUE), (FILTER_POWERUP, MASK_UNIQUE),
     (FILTER_GIANT, MASK_UNIQUE), (FILTER_BLESSMAGIC, MASK_UNIQUE), (FILTER_INCSMITE, MASK_WEAK),
     (FILTER_SHARPBLADE, MASK_UNIQUE), (FILTER_ADDATTACKDEGREE, MASK_MERGE),
     (FILTER_SUBATTACKDEGREE, MASK_UNIQUE), (FILTER_INCSMITE2, MASK_WEAK), (FILTER_INCATTACK2, MASK_MERGE),
     (FILTER_INCMAGIC2, MASK_MERGE), (FILTER_INCCRITDAMAGE, MASK_UNIQUE), (FILTER_DEEPICETHRUST, MASK_UNIQUE),
     (FILTER_SPECIALPHYSICHURTTRIGGER, MASK_UNIQUE), (FILTER_ENHANCESKILLDAMAGE, MASK_UNIQUE),
     (FILTER_ENHANCESKILLDAMAGE2, MASK_UNIQUE), (FILTER_INCATTACK3, MASK_MERGE), (FILTER_INCSMITE3, MASK_WEAK),
     (FILTER_INCVIGOUR, MASK_UNIQUE), (FILTER_ENHANCESKILLDAMAGE3, MASK_UNIQUE)]"

definition attack_teams :: "(u16 \<times> int) list" where
  "attack_teams =
    [(HSTATE_INCATTACK, FILTER_INCATTACK), (HSTATE_INCMAGIC, FILTER_INCMAGIC),
     (HSTATE_DECATTACK, FILTER_DECATTACK), (HSTATE_DECMAGIC, FILTER_DECMAGIC), (HSTATE_SLOWATTACK, FILTER_TARDY),
     (HSTATE_FASTATTACK, FILTER_CRAZY), (HSTATE_DECACCURACY, FILTER_DECACCURACY),
     (HSTATE_INCACCURACY, FILTER_INCACCURACY), (HSTATE_POWERUP, FILTER_POWERUP), (HSTATE_GIANT, FILTER_GIANT),
     (HSTATE_BLESSMAGIC, FILTER_BLESSMAGIC), (HSTATE_INCSMITE, FILTER_INCSMITE),
     (HSTATE_SHARPBLADE, FILTER_SHARPBLADE), (HSTATE_ADDATTACKDEGREE, FILTER_ADDATTACKDEGREE),
     (HSTATE_SUBATTACKDEGREE, FILTER_SUBATTACKDEGREE), (HSTATE_INCSMITE2, FILTER_INCSMITE2),
     (HSTATE_INCATTACK2, FILTER_INCATTACK2), (HSTATE_INCMAGIC2, FILTER_INCMAGIC2),
     (HSTATE_INCCRITDAMAGE, FILTER_INCCRITDAMAGE), (HSTATE_DEEPICETHRUST, FILTER_DEEPICETHRUST),
     (HSTATE_SPECIALPHYSICHURTTRIGGER, FILTER_SPECIALPHYSICHURTTRIGGER),
     (HSTATE_ENHANCESKILLDAMAGE, FILTER_ENHANCESKILLDAMAGE),
     (HSTATE_ENHANCESKILLDAMAGE2, FILTER_ENHANCESKILLDAMAGE2), (HSTATE_INCATTACK3, FILTER_INCATTACK3),
     (HSTATE_INCSMITE3, FILTER_INCSMITE3), (HSTATE_INCVIGOUR, FILTER_INCVIGOUR),
     (HSTATE_ENHANCESKILLDAMAGE3, FILTER_ENHANCESKILLDAMAGE3)]"

text \<open>The classes by their numbers; \<open>Load\<close> does not depend on the data of the object it fills.\<close>

definition attack_loaders :: "(int32 \<times> attack loader) list" where
  "attack_loaders = map (\<lambda>m. (m_guid m, m_load m))
    [filter_Incattack 0, filter_Incmagic 0, filter_Decattack 0, filter_Decmagic 0, filter_Tardy 0, filter_Crazy 0,
     filter_Decaccuracy 0, filter_Incaccuracy 0, filter_Powerup, filter_Giant 0, filter_Blessmagic 0,
     filter_Incsmite 0, filter_Sharpblade 0, filter_Addattackdegree 0 False, filter_Subattackdegree 0,
     filter_Incsmite2 0, filter_Incattack2 0 False, filter_Incmagic2 0 False, filter_Inccritdamage 0,
     filter_Deepicethrust 0 0, filter_Specialphysichurttrigger, filter_Enhanceskilldamage 0,
     filter_Enhanceskilldamage2 0, filter_Incattack3 0 0 0, filter_Incsmite3 0, filter_Incvigour 0,
     filter_Enhanceskilldamage3 0]"


lemmas attack_unfold = attack_methods.simps attack_defs methods.select_convs

lemma attack_amount:
  "amount (m_attach (attack_methods k) A) s = amount A s + effect (m_attach (attack_methods k)) s"
  "amount (m_release (attack_methods k) A) s = amount A s - effect (m_attach (attack_methods k)) s"
  by (cases k; simp only: attack_unfold; simp add: effect_def amount_simps amount_new algebra_simps split del: if_split)+

lemma attack_counts: "\<exists>n. raises (m_attach (attack_methods k)) n \<and> lowers (m_release (attack_methods k)) n"
  by (cases k; (simp only: attack_unfold, rule counts_undone, (rule effect_intros | (simp add: fun_eq_iff; fail))+))

lemma attack_states:
  "\<exists>T. joins (m_attach (attack_methods k)) T \<and> leaves (m_release (attack_methods k)) T \<and> (\<forall>t \<in> T. (t, m_id (attack_methods k)) \<in> set attack_teams)"
  by (cases k; (simp only: attack_unfold, rule teams_undone, (rule effect_intros | (simp add: TVSGetState_def attack_teams_def; fail))+))

lemma attack_fresh: "renews (m_attach (attack_methods k)) \<and> renews (m_release (attack_methods k))"
  by (rule conjI; cases k; simp only: attack_unfold; rule renews_calls, (simp only: calls_simps, (rule fresh_intros | assumption)+), auto)

lemma attack_undone: "undoes (m_attach (attack_methods k)) (m_release (attack_methods k))"
proof -
  obtain n where n: "raises (m_attach (attack_methods k)) n \<and> lowers (m_release (attack_methods k)) n" using attack_counts by blast
  obtain T where T: "joins (m_attach (attack_methods k)) T \<and> leaves (m_release (attack_methods k)) T" using attack_states by blast
  show ?thesis by (rule undoes_parts [OF attack_amount n T attack_fresh])
qed

lemma attack_team_id: "t \<in> team_of (m_attach (attack_methods k)) \<Longrightarrow> (t, m_id (attack_methods k)) \<in> set attack_teams"
  using attack_states [of k] joins_team_of by blast

lemma attack_reads: "reads (m_load (attack_methods k)) (concat (map encode (m_save (attack_methods k)))) k"
  by (cases k; (simp only: attack_unfold list.map concat.simps encode.simps, (rule reads_loads reads_int reads_bool reads_ret)+))

lemma attack_id: "(m_id (attack_methods k), m_mask (attack_methods k) AND MASK_CONTROL) \<in> set attack_ids"
  by (cases k; simp only: attack_unfold attack_ids_def; simp)

lemma attack_events: "m_mask (attack_methods k) AND MASK_ALL = MASK_HEARTBEAT"
  by (cases k; simp only: attack_unfold; simp)

lemma attack_loader: "(m_guid (attack_methods k), m_load (attack_methods k)) \<in> set attack_loaders"
  unfolding attack_loaders_def by (cases k; simp only: attack_unfold list.map list.set; simp)

lemma attack_idm:
  "m_id (filter_Incattack a0) = FILTER_INCATTACK" "m_mask (filter_Incattack a0) = MASK_MERGE OR MASK_BUFF OR MASK_REMOVE_ON_DEATH OR MASK_HEARTBEAT OR MASK_TRANSFERABLE_BUFF"
    "m_id (filter_Incmagic a0) = FILTER_INCMAGIC" "m_mask (filter_Incmagic a0) = MASK_MERGE OR MASK_BUFF OR MASK_REMOVE_ON_DEATH OR MASK_HEARTBEAT OR MASK_TRANSFERABLE_BUFF"
    "m_id (filter_Decattack a0) = FILTER_DECATTACK" "m_mask (filter_Decattack a0) = MASK_UNIQUE OR MASK_DEBUFF OR MASK_REMOVE_ON_DEATH OR MASK_HEARTBEAT OR MASK_TRANSFERABLE_DEBUFF"
    "m_id (filter_Decmagic a0) = FILTER_DECMAGIC" "m_mask (filter_Decmagic a0) = MASK_UNIQUE OR MASK_DEBUFF OR MASK_REMOVE_ON_DEATH OR MASK_HEARTBEAT OR MASK_TRANSFERABLE_DEBUFF"
    "m_id (filter_Tardy a0) = FILTER_TARDY" "m_mask (filter_Tardy a0) = MASK_UNIQUE OR MASK_DEBUFF OR MASK_HEARTBEAT OR MASK_REMOVE_ON_DEATH OR MASK_TRANSFERABLE_DEBUFF"
    "m_id (filter_Crazy a0) = FILTER_CRAZY" "m_mask (filter_Crazy a0) = MASK_MERGE OR MASK_BUFF OR MASK_HEARTBEAT OR MASK_REMOVE_ON_DEATH OR MASK_TRANSFERABLE_BUFF"
    "m_id (filter_Decaccuracy a0) = FILTER_DECACCURACY" "m_mask (filter_Decaccuracy a0) = MASK_UNIQUE OR MASK_DEBUFF OR MASK_REMOVE_ON_DEATH OR MASK_HEARTBEAT OR MASK_TRANSFERABLE_DEBUFF"
    "m_id (filter_Incaccuracy a0) = FILTER_INCACCURACY" "m_mask (filter_Incaccuracy a0) = MASK_UNIQUE OR MASK_BUFF OR MASK_REMOVE_ON_DEATH OR MASK_HEARTBEAT OR MASK_TRANSFERABLE_BUFF"
    "m_id (filter_Powerup) = FILTER_POWERUP" "m_mask (filter_Powerup) = MASK_UNIQUE OR MASK_BUFF OR MASK_REMOVE_ON_DEATH OR MASK_HEARTBEAT"
    "m_id (filter_Giant a0) = FILTER_GIANT" "m_mask (filter_Giant a0) = MASK_UNIQUE OR MASK_BUFF OR MASK_REMOVE_ON_DEATH OR MASK_HEARTBEAT OR MASK_TRANSFERABLE_BUFF"
    "m_id (filter_Blessmagic a0) = FILTER_BLESSMAGIC" "m_mask (filter_Blessmagic a0) = MASK_UNIQUE OR MASK_BUFF OR MASK_REMOVE_ON_DEATH OR MASK_HEARTBEAT OR MASK_TRANSFERABLE_BUFF"
    "m_id (filter_Incsmite a0) = FILTER_INCSMITE" "m_mask (filter_Incsmite a0) = MASK_WEAK OR MASK_BUFF OR MASK_REMOVE_ON_DEATH OR MASK_HEARTBEAT OR MASK_TRANSFERABLE_BUFF"
    "m_id (filter_Sharpblade a0) = FILTER_SHARPBLADE" "m_mask (filter_Sharpblade a0) = MASK_UNIQUE OR MASK_BUFF OR MASK_REMOVE_ON_DEATH OR MASK_HEARTBEAT OR MASK_TRANSFERABLE_BUFF"
    "m_id (filter_Addattackdegree a0 p1) = FILTER_ADDATTACKDEGREE" "m_mask (filter_Addattackdegree a0 p1) = MASK_MERGE OR MASK_BUFF OR MASK_REMOVE_ON_DEATH OR MASK_HEARTBEAT OR MASK_TRANSFERABLE_BUFF"
    "m_id (filter_Subattackdegree a0) = FILTER_SUBATTACKDEGREE" "m_mask (filter_Subattackdegree a0) = MASK_UNIQUE OR MASK_DEBUFF OR MASK_REMOVE_ON_DEATH OR MASK_HEARTBEAT OR MASK_TRANSFERABLE_DEBUFF"
    "m_id (filter_Incsmite2 a0) = FILTER_INCSMITE2" "m_mask (filter_Incsmite2 a0) = MASK_WEAK OR MASK_BUFF OR MASK_REMOVE_ON_DEATH OR MASK_HEARTBEAT OR MASK_TRANSFERABLE_BUFF"
    "m_id (filter_Incattack2 a0 p1) = FILTER_INCATTACK2" "m_mask (filter_Incattack2 a0 p1) = MASK_MERGE OR MASK_BUFF OR MASK_REMOVE_ON_DEATH OR MASK_HEARTBEAT OR MASK_TRANSFERABLE_BUFF"
    "m_id (filter_Incmagic2 a0 p1) = FILTER_INCMAGIC2" "m_mask (filter_Incmagic2 a0 p1) = MASK_MERGE OR MASK_BUFF OR MASK_REMOVE_ON_DEATH OR MASK_HEARTBEAT OR MASK_TRANSFERABLE_BUFF"
    "m_id (filter_Inccritdamage a0) = FILTER_INCCRITDAMAGE" "m_mask (filter_Inccritdamage a0) = MASK_UNIQUE OR MASK_HEARTBEAT OR MASK_REMOVE_ON_DEATH OR MASK_TRANSFERABLE_BUFF"
    "m_id (filter_Deepicethrust a0 a1) = FILTER_DEEPICETHRUST" "m_mask (filter_Deepicethrust a0 a1) = MASK_UNIQUE OR MASK_BUFF OR MASK_REMOVE_ON_DEATH OR MASK_HEARTBEAT OR MASK_TRANSFERABLE_BUFF"
    "m_id (filter_Specialphysichurttrigger) = FILTER_SPECIALPHYSICHURTTRIGGER" "m_mask (filter_Specialphysichurttrigger) = MASK_UNIQUE OR MASK_DEBUFF OR MASK_REMOVE_ON_DEATH OR MASK_HEARTBEAT"
    "m_id (filter_Enhanceskilldamage a0) = FILTER_ENHANCESKILLDAMAGE" "m_mask (filter_Enhanceskilldamage a0) = MASK_UNIQUE OR MASK_REMOVE_ON_DEATH OR MASK_HEARTBEAT OR MASK_NOSAVE"
    "m_id (filter_Enhanceskilldamage2 a0) = FILTER_ENHANCESKILLDAMAGE2" "m_mask (filter_Enhanceskilldamage2 a0) = MASK_UNIQUE OR MASK_REMOVE_ON_DEATH OR MASK_HEARTBEAT OR MASK_NOSAVE"
    "m_id (filter_Incattack3 a0 a1 a2) = FILTER_INCATTACK3" "m_mask (filter_Incattack3 a0 a1 a2) = MASK_MERGE OR MASK_BUFF OR MASK_REMOVE_ON_DEATH OR MASK_HEARTBEAT OR MASK_TRANSFERABLE_BUFF"
    "m_id (filter_Incsmite3 a0) = FILTER_INCSMITE3" "m_mask (filter_Incsmite3 a0) = MASK_WEAK OR MASK_BUFF OR MASK_REMOVE_ON_DEATH OR MASK_HEARTBEAT OR MASK_TRANSFERABLE_BUFF"
    "m_id (filter_Incvigour a0) = FILTER_INCVIGOUR" "m_mask (filter_Incvigour a0) = MASK_UNIQUE OR MASK_HEARTBEAT OR MASK_REMOVE_ON_DEATH"
    "m_id (filter_Enhanceskilldamage3 a0) = FILTER_ENHANCESKILLDAMAGE3" "m_mask (filter_Enhanceskilldamage3 a0) = MASK_UNIQUE OR MASK_REMOVE_ON_DEATH OR MASK_HEARTBEAT OR MASK_NOSAVE"
  by (simp_all only: attack_unfold)

lemma merge_Incattack: "merge_law attack_methods (Incattack a0) t (Incattack b0) t'"
  by (rule merge_change, simp only: attack_unfold attack.case, rule change_okI, (simp only: attack_unfold)+,
    ((simp only: attack_unfold)?, (rule effect_intros quiet_intros refl | (simp add: TVSGetState_def; fail))+)+, rule renews_calls, (simp only: calls_simps, (rule fresh_intros | assumption)+), auto,
    simp only: attack_unfold, simp add: effect_def amount_simps amount_new algebra_simps split del: if_split)

lemma merge_Incmagic: "merge_law attack_methods (Incmagic a0) t (Incmagic b0) t'"
  by (rule merge_change, simp only: attack_unfold attack.case, rule change_okI, (simp only: attack_unfold)+,
    ((simp only: attack_unfold)?, (rule effect_intros quiet_intros refl | (simp add: TVSGetState_def; fail))+)+, rule renews_calls, (simp only: calls_simps, (rule fresh_intros | assumption)+), auto,
    simp only: attack_unfold, simp add: effect_def amount_simps amount_new algebra_simps split del: if_split)

lemma merge_Crazy: "merge_law attack_methods (Crazy a0) t (Crazy b0) t'"
  by (rule merge_change, simp only: attack_unfold attack.case, rule change_okI, (simp only: attack_unfold)+,
    ((simp only: attack_unfold)?, (rule effect_intros quiet_intros refl | (simp add: TVSGetState_def; fail))+)+, rule renews_calls, (simp only: calls_simps, (rule fresh_intros | assumption)+), auto,
    simp only: attack_unfold, simp add: effect_def amount_simps amount_new algebra_simps split del: if_split)

lemma merge_Addattackdegree: "merge_law attack_methods (Addattackdegree a0 a1) t (Addattackdegree b0 b1) t'"
  by (rule merge_change, simp only: attack_unfold attack.case, rule change_okI, (simp only: attack_unfold)+,
    ((simp only: attack_unfold)?, (rule effect_intros quiet_intros refl | (simp add: TVSGetState_def; fail))+)+, rule renews_calls, (simp only: calls_simps, (rule fresh_intros | assumption)+), auto,
    simp only: attack_unfold, simp add: effect_def amount_simps amount_new algebra_simps split del: if_split)

lemma merge_Incattack2: "merge_law attack_methods (Incattack2 a0 a1) t (Incattack2 b0 b1) t'"
  by (rule merge_change, simp only: attack_unfold attack.case, rule change_okI, (simp only: attack_unfold)+,
    ((simp only: attack_unfold)?, (rule effect_intros quiet_intros refl | (simp add: TVSGetState_def; fail))+)+, rule renews_calls, (simp only: calls_simps, (rule fresh_intros | assumption)+), auto,
    simp only: attack_unfold, simp add: effect_def amount_simps amount_new algebra_simps split del: if_split)

lemma merge_Incmagic2: "merge_law attack_methods (Incmagic2 a0 a1) t (Incmagic2 b0 b1) t'"
  by (rule merge_change, simp only: attack_unfold attack.case, rule change_okI, (simp only: attack_unfold)+,
    ((simp only: attack_unfold)?, (rule effect_intros quiet_intros refl | (simp add: TVSGetState_def; fail))+)+, rule renews_calls, (simp only: calls_simps, (rule fresh_intros | assumption)+), auto,
    simp only: attack_unfold, simp add: effect_def amount_simps amount_new algebra_simps split del: if_split)

lemma merge_Incattack3: "merge_law attack_methods (Incattack3 a0 a1 a2) t (Incattack3 b0 b1 b2) t'"
proof -
  have c: "change_ok attack_methods (Incattack3 a0 a1 a2) (Incattack3 (a0 + b0) (a1 + 1) a2)
      (calls [ImpairScaleDamage a0, EnhanceScaleDamage (a0 + b0), UpdateAttackData])"
    by (rule change_okI, (simp only: attack_unfold)+,
    ((simp only: attack_unfold)?, (rule effect_intros quiet_intros refl | (simp add: TVSGetState_def; fail))+)+, rule renews_calls, (simp only: calls_simps, (rule fresh_intros | assumption)+), auto,
    simp only: attack_unfold, simp add: effect_def amount_simps amount_new algebra_simps split del: if_split)
  consider "a1 <s a2" | "\<not> a1 <s a2" by blast
  then show ?thesis
    by cases ((rule merge_step [OF _ c], simp add: attack_unfold), (rule merge_keep, simp add: attack_unfold))
qed


lemmas attack_merges = merge_Incattack
    merge_Incmagic
    merge_Crazy
    merge_Addattackdegree
    merge_Incattack2
    merge_Incmagic2
    merge_Incattack3

lemma attack_merging:
  assumes "m_id (attack_methods k) = m_id (attack_methods k2)" "m_mask (attack_methods k) AND MASK_MERGE \<noteq> 0"
  shows "merge_law attack_methods k t k2 t2"
  using assms by (cases k; (simp only: attack_methods.simps attack_idm; simp; fail)?; cases k2;
    simp only: attack_methods.simps attack_idm numeral_eq_iff eq_num_simps simp_thms attack_merges)

end
