(* ===== verification/SkillElement.thy ===== *)
theory SkillElement
  imports SkillFilter
begin

text \<open>The filters of the resistances of \<open>skillfilter.h\<close>, one definition per class, and their laws.\<close>

subsection \<open>The classes\<close>

datatype element =
    Incresist int32
  | Decresist int32
  | Enhancegold int32
  | Enhancesoil int32
  | Enhancewood int32
  | Enhancewater int32
  | Enhancefire int32
  | Reducegold int32
  | Reducewood int32
  | Reducewater int32
  | Reducefire int32
  | Reducesoil int32
  | Yijin int32 int32
  | Xisui int32 int32
  | Iceshield int32 int32
  | Fireshield int32 int32
  | Soilshield int32 int32
  | Weakelement int32 bool
  | Fury int32
  | Reducewater2 int32
  | Reducefire2 int32
  | Reducegold2 int32
  | Incwoodwaterdefense int32 int32 int32
  | Incresistmagic int32 int32
  | Incatkdefhp int32 int32 int32
  | Incresist2 int32
  | Incatkdefhp2 int32 int32 int32
  | Fireshield2 int32 int32 int32

definition filter_Incresist :: "int32 \<Rightarrow> element methods" where
  "filter_Incresist ratio =
     \<lparr>m_guid = CLASS_INCRESIST,
      m_id = FILTER_INCRESIST,
      m_mask = MASK_UNIQUE OR MASK_BUFF OR MASK_REMOVE_ON_DEATH OR MASK_HEARTBEAT OR MASK_TRANSFERABLE_BUFF,
      m_save = [VInt ratio],
      m_load = loads get_int (\<lambda>ratio. ret (Incresist ratio)),
      m_attach = calls [IncVisibleState VSTATE_BLESSED, InsertTeamVisibleState HSTATE_INCRESIST [],
        EnhanceScaleResistance 0 ratio, EnhanceScaleResistance 1 ratio, EnhanceScaleResistance 2 ratio,
        EnhanceScaleResistance 3 ratio, EnhanceScaleResistance 4 ratio, UpdateMagicData],
      m_release = calls [DecVisibleState VSTATE_BLESSED, RemoveTeamVisibleState HSTATE_INCRESIST, ImpairScaleResistance 0 ratio,
        ImpairScaleResistance 1 ratio, ImpairScaleResistance 2 ratio, ImpairScaleResistance 3 ratio,
        ImpairScaleResistance 4 ratio, UpdateMagicData],
      m_merge = assert_false\<rparr>"

definition filter_Decresist :: "int32 \<Rightarrow> element methods" where
  "filter_Decresist ratio =
     \<lparr>m_guid = CLASS_DECRESIST,
      m_id = FILTER_DECRESIST,
      m_mask = MASK_UNIQUE OR MASK_DEBUFF OR MASK_REMOVE_ON_DEATH OR MASK_HEARTBEAT OR MASK_TRANSFERABLE_DEBUFF,
      m_save = [VInt ratio],
      m_load = loads get_int (\<lambda>ratio. ret (Decresist ratio)),
      m_attach = calls [IncVisibleState VSTATE_CURSED, InsertTeamVisibleState HSTATE_DECRESIST [],
        ImpairScaleResistance 0 ratio, ImpairScaleResistance 1 ratio, ImpairScaleResistance 2 ratio,
        ImpairScaleResistance 3 ratio, ImpairScaleResistance 4 ratio, UpdateMagicData],
      m_release = calls [DecVisibleState VSTATE_CURSED, RemoveTeamVisibleState HSTATE_DECRESIST, EnhanceScaleResistance 0 ratio,
        EnhanceScaleResistance 1 ratio, EnhanceScaleResistance 2 ratio, EnhanceScaleResistance 3 ratio,
        EnhanceScaleResistance 4 ratio, UpdateMagicData],
      m_merge = assert_false\<rparr>"

definition filter_Enhancegold :: "int32 \<Rightarrow> element methods" where
  "filter_Enhancegold ratio =
     \<lparr>m_guid = CLASS_ENHANCEGOLD,
      m_id = FILTER_ENHANCEGOLD,
      m_mask = MASK_MERGE OR MASK_BUFF OR MASK_REMOVE_ON_DEATH OR MASK_HEARTBEAT OR MASK_TRANSFERABLE_BUFF,
      m_save = [VInt ratio],
      m_load = loads get_int (\<lambda>ratio. ret (Enhancegold ratio)),
      m_attach = calls [InsertTeamVisibleState HSTATE_ENHANCEGOLD [], EnhanceScaleResistance 0 ratio, UpdateMagicData],
      m_release = calls [RemoveTeamVisibleState HSTATE_ENHANCEGOLD, ImpairScaleResistance 0 ratio, UpdateMagicData],
      m_merge = (\<lambda>timeout _ _ A. Some ((Enhancegold ratio), timeout, A))\<rparr>"

definition filter_Enhancesoil :: "int32 \<Rightarrow> element methods" where
  "filter_Enhancesoil ratio =
     \<lparr>m_guid = CLASS_ENHANCESOIL,
      m_id = FILTER_ENHANCESOIL,
      m_mask = MASK_MERGE OR MASK_BUFF OR MASK_REMOVE_ON_DEATH OR MASK_HEARTBEAT OR MASK_TRANSFERABLE_BUFF,
      m_save = [VInt ratio],
      m_load = loads get_int (\<lambda>ratio. ret (Enhancesoil ratio)),
      m_attach = calls [InsertTeamVisibleState HSTATE_ENHANCESOIL [], EnhanceScaleResistance 4 ratio, UpdateMagicData],
      m_release = calls [RemoveTeamVisibleState HSTATE_ENHANCESOIL, ImpairScaleResistance 4 ratio, UpdateMagicData],
      m_merge = (\<lambda>timeout _ _ A. Some ((Enhancesoil ratio), timeout, A))\<rparr>"

definition filter_Enhancewood :: "int32 \<Rightarrow> element methods" where
  "filter_Enhancewood ratio =
     \<lparr>m_guid = CLASS_ENHANCEWOOD,
      m_id = FILTER_ENHANCEWOOD,
      m_mask = MASK_MERGE OR MASK_BUFF OR MASK_REMOVE_ON_DEATH OR MASK_HEARTBEAT OR MASK_TRANSFERABLE_BUFF,
      m_save = [VInt ratio],
      m_load = loads get_int (\<lambda>ratio. ret (Enhancewood ratio)),
      m_attach = calls [InsertTeamVisibleState HSTATE_ENHANCEWOOD [], EnhanceScaleResistance 1 ratio, UpdateMagicData],
      m_release = calls [RemoveTeamVisibleState HSTATE_ENHANCEWOOD, ImpairScaleResistance 1 ratio, UpdateMagicData],
      m_merge = (\<lambda>timeout _ _ A. Some ((Enhancewood ratio), timeout, A))\<rparr>"

definition filter_Enhancewater :: "int32 \<Rightarrow> element methods" where
  "filter_Enhancewater ratio =
     \<lparr>m_guid = CLASS_ENHANCEWATER,
      m_id = FILTER_ENHANCEWATER,
      m_mask = MASK_MERGE OR MASK_BUFF OR MASK_REMOVE_ON_DEATH OR MASK_HEARTBEAT OR MASK_TRANSFERABLE_BUFF,
      m_save = [VInt ratio],
      m_load = loads get_int (\<lambda>ratio. ret (Enhancewater ratio)),
      m_attach = calls [InsertTeamVisibleState HSTATE_ENHANCEWATER [], EnhanceScaleResistance 2 ratio, UpdateMagicData],
      m_release = calls [RemoveTeamVisibleState HSTATE_ENHANCEWATER, ImpairScaleResistance 2 ratio, UpdateMagicData],
      m_merge = (\<lambda>timeout _ _ A. Some ((Enhancewater ratio), timeout, A))\<rparr>"

definition filter_Enhancefire :: "int32 \<Rightarrow> element methods" where
  "filter_Enhancefire ratio =
     \<lparr>m_guid = CLASS_ENHANCEFIRE,
      m_id = FILTER_ENHANCEFIRE,
      m_mask = MASK_MERGE OR MASK_BUFF OR MASK_REMOVE_ON_DEATH OR MASK_HEARTBEAT OR MASK_TRANSFERABLE_BUFF,
      m_save = [VInt ratio],
      m_load = loads get_int (\<lambda>ratio. ret (Enhancefire ratio)),
      m_attach = calls [InsertTeamVisibleState HSTATE_ENHANCEFIRE [], EnhanceScaleResistance 3 ratio, UpdateMagicData],
      m_release = calls [ImpairScaleResistance 3 ratio, RemoveTeamVisibleState HSTATE_ENHANCEFIRE, UpdateMagicData],
      m_merge = (\<lambda>timeout _ _ A. Some ((Enhancefire ratio), timeout, A))\<rparr>"

definition filter_Reducegold :: "int32 \<Rightarrow> element methods" where
  "filter_Reducegold ratio =
     \<lparr>m_guid = CLASS_REDUCEGOLD,
      m_id = FILTER_REDUCEGOLD,
      m_mask = MASK_MERGE OR MASK_DEBUFF OR MASK_REMOVE_ON_DEATH OR MASK_HEARTBEAT OR MASK_TRANSFERABLE_DEBUFF,
      m_save = [VInt ratio],
      m_load = loads get_int (\<lambda>ratio. ret (Reducegold ratio)),
      m_attach = calls [InsertTeamVisibleState HSTATE_REDUCEGOLD [], ImpairScaleResistance 0 ratio, UpdateMagicData],
      m_release = calls [RemoveTeamVisibleState HSTATE_REDUCEGOLD, EnhanceScaleResistance 0 ratio, UpdateMagicData],
      m_merge = (\<lambda>timeout _ _ A. Some ((Reducegold ratio), timeout, A))\<rparr>"

definition filter_Reducewood :: "int32 \<Rightarrow> element methods" where
  "filter_Reducewood ratio =
     \<lparr>m_guid = CLASS_REDUCEWOOD,
      m_id = FILTER_REDUCEWOOD,
      m_mask = MASK_MERGE OR MASK_DEBUFF OR MASK_REMOVE_ON_DEATH OR MASK_HEARTBEAT OR MASK_TRANSFERABLE_DEBUFF,
      m_save = [VInt ratio],
      m_load = loads get_int (\<lambda>ratio. ret (Reducewood ratio)),
      m_attach = calls [InsertTeamVisibleState HSTATE_REDUCEWOOD [], ImpairScaleResistance 1 ratio, UpdateMagicData],
      m_release = calls [RemoveTeamVisibleState HSTATE_REDUCEWOOD, EnhanceScaleResistance 1 ratio, UpdateMagicData],
      m_merge = (\<lambda>timeout _ _ A. Some ((Reducewood ratio), timeout, A))\<rparr>"

definition filter_Reducewater :: "int32 \<Rightarrow> element methods" where
  "filter_Reducewater ratio =
     \<lparr>m_guid = CLASS_REDUCEWATER,
      m_id = FILTER_REDUCEWATER,
      m_mask = MASK_MERGE OR MASK_DEBUFF OR MASK_REMOVE_ON_DEATH OR MASK_HEARTBEAT OR MASK_TRANSFERABLE_DEBUFF,
      m_save = [VInt ratio],
      m_load = loads get_int (\<lambda>ratio. ret (Reducewater ratio)),
      m_attach = calls [InsertTeamVisibleState HSTATE_REDUCEWATER [], ImpairScaleResistance 2 ratio, UpdateMagicData],
      m_release = calls [RemoveTeamVisibleState HSTATE_REDUCEWATER, EnhanceScaleResistance 2 ratio, UpdateMagicData],
      m_merge = (\<lambda>timeout _ _ A. Some ((Reducewater ratio), timeout, A))\<rparr>"

definition filter_Reducefire :: "int32 \<Rightarrow> element methods" where
  "filter_Reducefire ratio =
     \<lparr>m_guid = CLASS_REDUCEFIRE,
      m_id = FILTER_REDUCEFIRE,
      m_mask = MASK_MERGE OR MASK_DEBUFF OR MASK_REMOVE_ON_DEATH OR MASK_HEARTBEAT OR MASK_TRANSFERABLE_DEBUFF,
      m_save = [VInt ratio],
      m_load = loads get_int (\<lambda>ratio. ret (Reducefire ratio)),
      m_attach = calls [InsertTeamVisibleState HSTATE_REDUCEFIRE [], ImpairScaleResistance 3 ratio, UpdateMagicData],
      m_release = calls [RemoveTeamVisibleState HSTATE_REDUCEFIRE, EnhanceScaleResistance 3 ratio, UpdateMagicData],
      m_merge = (\<lambda>timeout _ _ A. Some ((Reducefire ratio), timeout, A))\<rparr>"

definition filter_Reducesoil :: "int32 \<Rightarrow> element methods" where
  "filter_Reducesoil ratio =
     \<lparr>m_guid = CLASS_REDUCESOIL,
      m_id = FILTER_REDUCESOIL,
      m_mask = MASK_MERGE OR MASK_DEBUFF OR MASK_REMOVE_ON_DEATH OR MASK_HEARTBEAT OR MASK_TRANSFERABLE_DEBUFF,
      m_save = [VInt ratio],
      m_load = loads get_int (\<lambda>ratio. ret (Reducesoil ratio)),
      m_attach = calls [InsertTeamVisibleState HSTATE_REDUCESOIL [], ImpairScaleResistance 4 ratio, UpdateMagicData],
      m_release = calls [RemoveTeamVisibleState HSTATE_REDUCESOIL, EnhanceScaleResistance 4 ratio, UpdateMagicData],
      m_merge = (\<lambda>timeout _ _ A. Some ((Reducesoil ratio), timeout, A))\<rparr>"

definition filter_Yijin :: "int32 \<Rightarrow> int32 \<Rightarrow> element methods" where
  "filter_Yijin inc dec =
     \<lparr>m_guid = CLASS_YIJIN,
      m_id = FILTER_YIJIN,
      m_mask = MASK_UNIQUE OR MASK_BUFF OR MASK_REMOVE_ON_DEATH OR MASK_HEARTBEAT OR MASK_TRANSFERABLE_BUFF,
      m_save = [VInt inc, VInt dec],
      m_load = loads get_int (\<lambda>inc. loads get_int (\<lambda>dec. ret (Yijin inc dec))),
      m_attach = calls [ImpairScaleDefense dec, EnhanceScaleResistance 0 inc, EnhanceScaleResistance 1 inc,
        EnhanceScaleResistance 2 inc, EnhanceScaleResistance 3 inc, EnhanceScaleResistance 4 inc,
        UpdateMagicData, UpdateDefenseData, InsertTeamVisibleState HSTATE_YIJIN []],
      m_release = calls [RemoveTeamVisibleState HSTATE_YIJIN, EnhanceScaleDefense dec, ImpairScaleResistance 0 inc,
        ImpairScaleResistance 1 inc, ImpairScaleResistance 2 inc, ImpairScaleResistance 3 inc,
        ImpairScaleResistance 4 inc, UpdateDefenseData, UpdateMagicData],
      m_merge = assert_false\<rparr>"

definition filter_Xisui :: "int32 \<Rightarrow> int32 \<Rightarrow> element methods" where
  "filter_Xisui inc dec =
     \<lparr>m_guid = CLASS_XISUI,
      m_id = FILTER_XISUI,
      m_mask = MASK_UNIQUE OR MASK_BUFF OR MASK_REMOVE_ON_DEATH OR MASK_HEARTBEAT OR MASK_TRANSFERABLE_BUFF,
      m_save = [VInt inc, VInt dec],
      m_load = loads get_int (\<lambda>inc. loads get_int (\<lambda>dec. ret (Xisui inc dec))),
      m_attach = calls [EnhanceScaleDefense inc, ImpairScaleResistance 0 dec, ImpairScaleResistance 1 dec,
        ImpairScaleResistance 2 dec, ImpairScaleResistance 3 dec, ImpairScaleResistance 4 dec,
        UpdateDefenseData, UpdateMagicData, InsertTeamVisibleState HSTATE_XISUI []],
      m_release = calls [ImpairScaleDefense inc, EnhanceScaleResistance 0 dec, EnhanceScaleResistance 1 dec,
        EnhanceScaleResistance 2 dec, EnhanceScaleResistance 3 dec, EnhanceScaleResistance 4 dec,
        RemoveTeamVisibleState HSTATE_XISUI, UpdateMagicData, UpdateDefenseData],
      m_merge = assert_false\<rparr>"

definition filter_Iceshield :: "int32 \<Rightarrow> int32 \<Rightarrow> element methods" where
  "filter_Iceshield ratio point =
     \<lparr>m_guid = CLASS_ICESHIELD,
      m_id = FILTER_MAGICSHIELD,
      m_mask = MASK_UNIQUE OR MASK_BUFF OR MASK_REMOVE_ON_DEATH OR MASK_HEARTBEAT OR MASK_TRANSFERABLE_BUFF,
      m_save = [VInt ratio, VInt point],
      m_load = loads get_int (\<lambda>ratio. loads get_int (\<lambda>point. ret (Iceshield ratio point))),
      m_attach = calls [IncVisibleState VSTATE_ICESHIELD, InsertTeamVisibleState HSTATE_ICESHIELD [], EnhanceMPGen point,
        EnhanceScaleResistance 2 ratio, UpdateMagicData, UpdateHPMPGen],
      m_release = calls [DecVisibleState VSTATE_ICESHIELD, RemoveTeamVisibleState HSTATE_ICESHIELD, ImpairMPGen point,
        ImpairScaleResistance 2 ratio, UpdateMagicData, UpdateHPMPGen],
      m_merge = assert_false\<rparr>"

definition filter_Fireshield :: "int32 \<Rightarrow> int32 \<Rightarrow> element methods" where
  "filter_Fireshield ratio point =
     \<lparr>m_guid = CLASS_FIRESHIELD,
      m_id = FILTER_MAGICSHIELD,
      m_mask = MASK_UNIQUE OR MASK_BUFF OR MASK_REMOVE_ON_DEATH OR MASK_HEARTBEAT OR MASK_TRANSFERABLE_BUFF,
      m_save = [VInt ratio, VInt point],
      m_load = loads get_int (\<lambda>ratio. loads get_int (\<lambda>point. ret (Fireshield ratio point))),
      m_attach = calls [IncVisibleState VSTATE_FIRESHIELD, InsertTeamVisibleState HSTATE_FIRESHIELD [],
        EnhanceScaleResistance 3 ratio, EnhanceHPGen point, UpdateMagicData, UpdateHPMPGen],
      m_release = calls [DecVisibleState VSTATE_FIRESHIELD, RemoveTeamVisibleState HSTATE_FIRESHIELD,
        ImpairScaleResistance 3 ratio, ImpairHPGen point, UpdateMagicData, UpdateHPMPGen],
      m_merge = assert_false\<rparr>"

definition filter_Soilshield :: "int32 \<Rightarrow> int32 \<Rightarrow> element methods" where
  "filter_Soilshield sratio pratio =
     \<lparr>m_guid = CLASS_SOILSHIELD,
      m_id = FILTER_MAGICSHIELD,
      m_mask = MASK_UNIQUE OR MASK_BUFF OR MASK_REMOVE_ON_DEATH OR MASK_HEARTBEAT OR MASK_TRANSFERABLE_BUFF,
      m_save = [VInt sratio, VInt pratio],
      m_load = loads get_int (\<lambda>sratio. loads get_int (\<lambda>pratio. ret (Soilshield sratio pratio))),
      m_attach = calls [IncVisibleState VSTATE_SOILSHIELD, InsertTeamVisibleState HSTATE_SOILSHIELD [],
        EnhanceScaleResistance 4 sratio, UpdateMagicData, EnhanceScaleDefense pratio, UpdateDefenseData],
      m_release = calls [DecVisibleState VSTATE_SOILSHIELD, RemoveTeamVisibleState HSTATE_SOILSHIELD,
        ImpairScaleResistance 4 sratio, UpdateMagicData, ImpairScaleDefense pratio, UpdateDefenseData],
      m_merge = assert_false\<rparr>"

definition filter_Weakelement :: "int32 \<Rightarrow> bool \<Rightarrow> element methods" where
  "filter_Weakelement ratio insertvstate =
     \<lparr>m_guid = CLASS_WEAKELEMENT,
      m_id = FILTER_WEAKELEMENT,
      m_mask = MASK_WEAK OR MASK_BUFF OR MASK_DEBUFF OR MASK_REMOVE_ON_DEATH OR MASK_HEARTBEAT OR MASK_TRANSFERABLE_DEBUFF,
      m_save = [VInt ratio, VBool insertvstate],
      m_load = loads get_int (\<lambda>ratio. loads get_bool (\<lambda>insertvstate. ret (Weakelement ratio insertvstate))),
      m_attach = calls [only_if insertvstate (IncVisibleState VSTATE_WEAKELEMENT),
        InsertTeamVisibleState HSTATE_WEAKELEMENT [], EnhanceScaleDefense ratio, ImpairScaleResistance 0 ratio,
        ImpairScaleResistance 1 ratio, ImpairScaleResistance 2 ratio, ImpairScaleResistance 3 ratio,
        ImpairScaleResistance 4 ratio, UpdateDefenseData, UpdateMagicData],
      m_release = calls [only_if insertvstate (DecVisibleState VSTATE_WEAKELEMENT), RemoveTeamVisibleState HSTATE_WEAKELEMENT,
        ImpairScaleDefense ratio, EnhanceScaleResistance 0 ratio, EnhanceScaleResistance 1 ratio,
        EnhanceScaleResistance 2 ratio, EnhanceScaleResistance 3 ratio, EnhanceScaleResistance 4 ratio,
        UpdateMagicData, UpdateDefenseData],
      m_merge = assert_false\<rparr>"

definition filter_Fury :: "int32 \<Rightarrow> element methods" where
  "filter_Fury point =
     \<lparr>m_guid = CLASS_FURY,
      m_id = FILTER_FURY,
      m_mask = MASK_WEAK OR MASK_BUFF OR MASK_DEBUFF OR MASK_REMOVE_ON_DEATH OR MASK_HEARTBEAT OR MASK_TRANSFERABLE_BUFF,
      m_save = [VInt point],
      m_load = loads get_int (\<lambda>point. ret (Fury point)),
      m_attach = calls [InsertTeamVisibleState HSTATE_FURY [], ImpairScaleDefense (point * 5),
        ImpairScaleResistance 0 (point * 5), ImpairScaleResistance 1 (point * 5),
        ImpairScaleResistance 2 (point * 5), ImpairScaleResistance 3 (point * 5),
        ImpairScaleResistance 4 (point * 5), UpdateDefenseData, UpdateMagicData, EnhanceAttackDegree point,
        SendClientAttackData],
      m_release = calls [RemoveTeamVisibleState HSTATE_FURY, EnhanceScaleDefense (point * 5),
        EnhanceScaleResistance 0 (point * 5), EnhanceScaleResistance 1 (point * 5),
        EnhanceScaleResistance 2 (point * 5), EnhanceScaleResistance 3 (point * 5),
        EnhanceScaleResistance 4 (point * 5), UpdateDefenseData, UpdateMagicData, ImpairAttackDegree point,
        SendClientAttackData],
      m_merge = assert_false\<rparr>"

definition filter_Reducewater2 :: "int32 \<Rightarrow> element methods" where
  "filter_Reducewater2 ratio =
     \<lparr>m_guid = CLASS_REDUCEWATER2,
      m_id = FILTER_REDUCEWATER2,
      m_mask = MASK_WEAK OR MASK_DEBUFF OR MASK_REMOVE_ON_DEATH OR MASK_HEARTBEAT OR MASK_TRANSFERABLE_DEBUFF,
      m_save = [VInt ratio],
      m_load = loads get_int (\<lambda>ratio. ret (Reducewater2 ratio)),
      m_attach = calls [InsertTeamVisibleState HSTATE_REDUCEWATER2 [], ImpairScaleResistance 2 ratio, UpdateMagicData],
      m_release = calls [RemoveTeamVisibleState HSTATE_REDUCEWATER2, EnhanceScaleResistance 2 ratio, UpdateMagicData],
      m_merge = assert_false\<rparr>"

definition filter_Reducefire2 :: "int32 \<Rightarrow> element methods" where
  "filter_Reducefire2 ratio =
     \<lparr>m_guid = CLASS_REDUCEFIRE2,
      m_id = FILTER_REDUCEFIRE2,
      m_mask = MASK_MERGE OR MASK_DEBUFF OR MASK_REMOVE_ON_DEATH OR MASK_HEARTBEAT OR MASK_TRANSFERABLE_DEBUFF,
      m_save = [VInt ratio],
      m_load = loads get_int (\<lambda>ratio. ret (Reducefire2 ratio)),
      m_attach = calls [InsertTeamVisibleState HSTATE_REDUCEFIRE2 [], ImpairScaleResistance 3 ratio, UpdateMagicData],
      m_release = calls [RemoveTeamVisibleState HSTATE_REDUCEFIRE2, EnhanceScaleResistance 3 ratio, UpdateMagicData],
      m_merge = (\<lambda>timeout _ _ A. Some ((Reducefire2 ratio), timeout, A))\<rparr>"

definition filter_Reducegold2 :: "int32 \<Rightarrow> element methods" where
  "filter_Reducegold2 ratio =
     \<lparr>m_guid = CLASS_REDUCEGOLD2,
      m_id = FILTER_REDUCEGOLD2,
      m_mask = MASK_MERGE OR MASK_DEBUFF OR MASK_REMOVE_ON_DEATH OR MASK_HEARTBEAT OR MASK_TRANSFERABLE_DEBUFF,
      m_save = [VInt ratio],
      m_load = loads get_int (\<lambda>ratio. ret (Reducegold2 ratio)),
      m_attach = calls [InsertTeamVisibleState HSTATE_REDUCEGOLD2 [], ImpairScaleResistance 0 ratio, UpdateMagicData],
      m_release = calls [RemoveTeamVisibleState HSTATE_REDUCEGOLD2, EnhanceScaleResistance 0 ratio, UpdateMagicData],
      m_merge = (\<lambda>timeout _ _ A. Some ((Reducegold2 ratio), timeout, A))\<rparr>"

definition filter_Incwoodwaterdefense :: "int32 \<Rightarrow> int32 \<Rightarrow> int32 \<Rightarrow> element methods" where
  "filter_Incwoodwaterdefense inc_wood inc_water inc_defense =
     \<lparr>m_guid = CLASS_INCWOODWATERDEFENSE,
      m_id = FILTER_INCWOODWATERDEFENSE,
      m_mask = MASK_UNIQUE OR MASK_BUFF OR MASK_HEARTBEAT OR MASK_REMOVE_ON_DEATH OR MASK_TRANSFERABLE_BUFF,
      m_save = [VInt inc_wood, VInt inc_water, VInt inc_defense],
      m_load = loads get_int (\<lambda>inc_wood. loads get_int (\<lambda>inc_water. loads get_int (\<lambda>inc_defense. ret (Incwoodwaterdefense inc_wood inc_water inc_defense)))),
      m_attach = calls [IncVisibleState VSTATE_INCWOODWATERDEFENSE, InsertTeamVisibleState HSTATE_INCWOODWATERDEFENSE [],
        EnhanceScaleDefense inc_defense, EnhanceScaleResistance 1 inc_wood, EnhanceScaleResistance 2 inc_water,
        UpdateDefenseData, UpdateMagicData],
      m_release = calls [DecVisibleState VSTATE_INCWOODWATERDEFENSE, RemoveTeamVisibleState HSTATE_INCWOODWATERDEFENSE,
        ImpairScaleDefense inc_defense, ImpairScaleResistance 1 inc_wood, ImpairScaleResistance 2 inc_water,
        UpdateDefenseData, UpdateMagicData],
      m_merge = assert_false\<rparr>"

definition filter_Incresistmagic :: "int32 \<Rightarrow> int32 \<Rightarrow> element methods" where
  "filter_Incresistmagic inc_resist inc_magic =
     \<lparr>m_guid = CLASS_INCRESISTMAGIC,
      m_id = FILTER_INCRESISTMAGIC,
      m_mask = MASK_UNIQUE OR MASK_BUFF OR MASK_REMOVE_ON_DEATH OR MASK_HEARTBEAT OR MASK_TRANSFERABLE_BUFF,
      m_save = [VInt inc_resist, VInt inc_magic],
      m_load = loads get_int (\<lambda>inc_resist. loads get_int (\<lambda>inc_magic. ret (Incresistmagic inc_resist inc_magic))),
      m_attach = calls [IncVisibleState VSTATE_INCRESISTMAGIC, InsertTeamVisibleState HSTATE_INCRESISTMAGIC [],
        EnhanceScaleResistance 0 inc_resist, EnhanceScaleResistance 1 inc_resist,
        EnhanceScaleResistance 2 inc_resist, EnhanceScaleResistance 3 inc_resist,
        EnhanceScaleResistance 4 inc_resist, EnhanceScaleMagicDamage inc_magic, UpdateMagicData],
      m_release = calls [DecVisibleState VSTATE_INCRESISTMAGIC, RemoveTeamVisibleState HSTATE_INCRESISTMAGIC,
        ImpairScaleResistance 0 inc_resist, ImpairScaleResistance 1 inc_resist,
        ImpairScaleResistance 2 inc_resist, ImpairScaleResistance 3 inc_resist,
        ImpairScaleResistance 4 inc_resist, ImpairScaleMagicDamage inc_magic, UpdateMagicData],
      m_merge = assert_false\<rparr>"

definition filter_Incatkdefhp :: "int32 \<Rightarrow> int32 \<Rightarrow> int32 \<Rightarrow> element methods" where
  "filter_Incatkdefhp atk_ratio def_ratio hp_ratio =
     \<lparr>m_guid = CLASS_INCATKDEFHP,
      m_id = FILTER_INCATKDEFHP,
      m_mask = MASK_UNIQUE OR MASK_HEARTBEAT,
      m_save = [VInt atk_ratio, VInt def_ratio, VInt hp_ratio],
      m_load = loads get_int (\<lambda>atk_ratio. loads get_int (\<lambda>def_ratio. loads get_int (\<lambda>hp_ratio. ret (Incatkdefhp atk_ratio def_ratio hp_ratio)))),
      m_attach = calls [InsertTeamVisibleState HSTATE_INCATKDEFHP [], EnhanceScaleDamage atk_ratio, UpdateAttackData,
        EnhanceScaleMagicDamage atk_ratio, EnhanceScaleDefense def_ratio, UpdateDefenseData,
        EnhanceScaleResistance 0 def_ratio, EnhanceScaleResistance 1 def_ratio,
        EnhanceScaleResistance 2 def_ratio, EnhanceScaleResistance 3 def_ratio,
        EnhanceScaleResistance 4 def_ratio, UpdateMagicData, EnhanceScaleMaxHP hp_ratio],
      m_release = calls [RemoveTeamVisibleState HSTATE_INCATKDEFHP, ImpairScaleDamage atk_ratio, UpdateAttackData,
        ImpairScaleMagicDamage atk_ratio, ImpairScaleDefense def_ratio, UpdateDefenseData,
        ImpairScaleResistance 0 def_ratio, ImpairScaleResistance 1 def_ratio,
        ImpairScaleResistance 2 def_ratio, ImpairScaleResistance 3 def_ratio,
        ImpairScaleResistance 4 def_ratio, UpdateMagicData, ImpairScaleMaxHP hp_ratio],
      m_merge = assert_false\<rparr>"

definition filter_Incresist2 :: "int32 \<Rightarrow> element methods" where
  "filter_Incresist2 ratio =
     \<lparr>m_guid = CLASS_INCRESIST2,
      m_id = FILTER_INCRESIST2,
      m_mask = MASK_UNIQUE OR MASK_BUFF OR MASK_REMOVE_ON_DEATH OR MASK_HEARTBEAT OR MASK_TRANSFERABLE_BUFF,
      m_save = [VInt ratio],
      m_load = loads get_int (\<lambda>ratio. ret (Incresist2 ratio)),
      m_attach = calls [IncVisibleState VSTATE_BLESSED, InsertTeamVisibleState HSTATE_INCRESIST2 [],
        EnhanceScaleResistance 0 ratio, EnhanceScaleResistance 1 ratio, EnhanceScaleResistance 2 ratio,
        EnhanceScaleResistance 3 ratio, EnhanceScaleResistance 4 ratio, UpdateMagicData],
      m_release = calls [DecVisibleState VSTATE_BLESSED, RemoveTeamVisibleState HSTATE_INCRESIST2,
        ImpairScaleResistance 0 ratio, ImpairScaleResistance 1 ratio, ImpairScaleResistance 2 ratio,
        ImpairScaleResistance 3 ratio, ImpairScaleResistance 4 ratio, UpdateMagicData],
      m_merge = assert_false\<rparr>"

definition filter_Incatkdefhp2 :: "int32 \<Rightarrow> int32 \<Rightarrow> int32 \<Rightarrow> element methods" where
  "filter_Incatkdefhp2 atk_ratio def_ratio hp_ratio =
     \<lparr>m_guid = CLASS_INCATKDEFHP2,
      m_id = FILTER_INCATKDEFHP2,
      m_mask = MASK_UNIQUE OR MASK_REMOVE_ON_DEATH OR MASK_HEARTBEAT OR MASK_BUFF,
      m_save = [VInt atk_ratio, VInt def_ratio, VInt hp_ratio],
      m_load = loads get_int (\<lambda>atk_ratio. loads get_int (\<lambda>def_ratio. loads get_int (\<lambda>hp_ratio. ret (Incatkdefhp2 atk_ratio def_ratio hp_ratio)))),
      m_attach = calls [InsertTeamVisibleState HSTATE_INCATKDEFHP2 [], EnhanceScaleDamage atk_ratio, UpdateAttackData,
        EnhanceScaleMagicDamage atk_ratio, EnhanceScaleDefense def_ratio, UpdateDefenseData,
        EnhanceScaleResistance 0 def_ratio, EnhanceScaleResistance 1 def_ratio,
        EnhanceScaleResistance 2 def_ratio, EnhanceScaleResistance 3 def_ratio,
        EnhanceScaleResistance 4 def_ratio, UpdateMagicData, EnhanceScaleMaxHP hp_ratio],
      m_release = calls [RemoveTeamVisibleState HSTATE_INCATKDEFHP2, ImpairScaleDamage atk_ratio, UpdateAttackData,
        ImpairScaleMagicDamage atk_ratio, ImpairScaleDefense def_ratio, UpdateDefenseData,
        ImpairScaleResistance 0 def_ratio, ImpairScaleResistance 1 def_ratio,
        ImpairScaleResistance 2 def_ratio, ImpairScaleResistance 3 def_ratio,
        ImpairScaleResistance 4 def_ratio, UpdateMagicData, ImpairScaleMaxHP hp_ratio],
      m_merge = assert_false\<rparr>"

definition filter_Fireshield2 :: "int32 \<Rightarrow> int32 \<Rightarrow> int32 \<Rightarrow> element methods" where
  "filter_Fireshield2 ratio point appoint =
     \<lparr>m_guid = CLASS_FIRESHIELD2,
      m_id = FILTER_MAGICSHIELD,
      m_mask = MASK_UNIQUE OR MASK_BUFF OR MASK_REMOVE_ON_DEATH OR MASK_HEARTBEAT OR MASK_TRANSFERABLE_BUFF,
      m_save = [VInt ratio, VInt point, VInt appoint],
      m_load = loads get_int (\<lambda>ratio. loads get_int (\<lambda>point. loads get_int (\<lambda>appoint. ret (Fireshield2 ratio point appoint)))),
      m_attach = calls [IncVisibleState VSTATE_FIRESHIELD, InsertTeamVisibleState HSTATE_FIRESHIELD2 [], EnhanceCrit appoint,
        EnhanceHPGen point, EnhanceScaleResistance 3 ratio, UpdateMagicData, UpdateHPMPGen],
      m_release = calls [DecVisibleState VSTATE_FIRESHIELD, RemoveTeamVisibleState HSTATE_FIRESHIELD2, ImpairCrit appoint,
        ImpairHPGen point, ImpairScaleResistance 3 ratio, UpdateMagicData, UpdateHPMPGen],
      m_merge = assert_false\<rparr>"

primrec element_methods :: "element \<Rightarrow> element methods" where
  "element_methods (Incresist ratio) = filter_Incresist ratio"
| "element_methods (Decresist ratio) = filter_Decresist ratio"
| "element_methods (Enhancegold ratio) = filter_Enhancegold ratio"
| "element_methods (Enhancesoil ratio) = filter_Enhancesoil ratio"
| "element_methods (Enhancewood ratio) = filter_Enhancewood ratio"
| "element_methods (Enhancewater ratio) = filter_Enhancewater ratio"
| "element_methods (Enhancefire ratio) = filter_Enhancefire ratio"
| "element_methods (Reducegold ratio) = filter_Reducegold ratio"
| "element_methods (Reducewood ratio) = filter_Reducewood ratio"
| "element_methods (Reducewater ratio) = filter_Reducewater ratio"
| "element_methods (Reducefire ratio) = filter_Reducefire ratio"
| "element_methods (Reducesoil ratio) = filter_Reducesoil ratio"
| "element_methods (Yijin inc dec) = filter_Yijin inc dec"
| "element_methods (Xisui inc dec) = filter_Xisui inc dec"
| "element_methods (Iceshield ratio point) = filter_Iceshield ratio point"
| "element_methods (Fireshield ratio point) = filter_Fireshield ratio point"
| "element_methods (Soilshield sratio pratio) = filter_Soilshield sratio pratio"
| "element_methods (Weakelement ratio insertvstate) = filter_Weakelement ratio insertvstate"
| "element_methods (Fury point) = filter_Fury point"
| "element_methods (Reducewater2 ratio) = filter_Reducewater2 ratio"
| "element_methods (Reducefire2 ratio) = filter_Reducefire2 ratio"
| "element_methods (Reducegold2 ratio) = filter_Reducegold2 ratio"
| "element_methods (Incwoodwaterdefense inc_wood inc_water inc_defense) = filter_Incwoodwaterdefense inc_wood inc_water inc_defense"
| "element_methods (Incresistmagic inc_resist inc_magic) = filter_Incresistmagic inc_resist inc_magic"
| "element_methods (Incatkdefhp atk_ratio def_ratio hp_ratio) = filter_Incatkdefhp atk_ratio def_ratio hp_ratio"
| "element_methods (Incresist2 ratio) = filter_Incresist2 ratio"
| "element_methods (Incatkdefhp2 atk_ratio def_ratio hp_ratio) = filter_Incatkdefhp2 atk_ratio def_ratio hp_ratio"
| "element_methods (Fireshield2 ratio point appoint) = filter_Fireshield2 ratio point appoint"

lemmas element_defs =
  filter_Incresist_def filter_Decresist_def filter_Enhancegold_def filter_Enhancesoil_def
  filter_Enhancewood_def filter_Enhancewater_def filter_Enhancefire_def filter_Reducegold_def
  filter_Reducewood_def filter_Reducewater_def filter_Reducefire_def filter_Reducesoil_def
  filter_Yijin_def filter_Xisui_def filter_Iceshield_def filter_Fireshield_def filter_Soilshield_def
  filter_Weakelement_def filter_Fury_def filter_Reducewater2_def filter_Reducefire2_def
  filter_Reducegold2_def filter_Incwoodwaterdefense_def filter_Incresistmagic_def filter_Incatkdefhp_def
  filter_Incresist2_def filter_Incatkdefhp2_def filter_Fireshield2_def

subsection \<open>Laws\<close>

text \<open>The filter ids of the family with their flags, and the id of each team state.\<close>

definition element_ids :: "(int \<times> u32) list" where
  "element_ids =
    [(FILTER_INCRESIST, MASK_UNIQUE), (FILTER_DECRESIST, MASK_UNIQUE), (FILTER_ENHANCEGOLD, MASK_MERGE),
     (FILTER_ENHANCESOIL, MASK_MERGE), (FILTER_ENHANCEWOOD, MASK_MERGE), (FILTER_ENHANCEWATER, MASK_MERGE),
     (FILTER_ENHANCEFIRE, MASK_MERGE), (FILTER_REDUCEGOLD, MASK_MERGE), (FILTER_REDUCEWOOD, MASK_MERGE),
     (FILTER_REDUCEWATER, MASK_MERGE), (FILTER_REDUCEFIRE, MASK_MERGE), (FILTER_REDUCESOIL, MASK_MERGE),
     (FILTER_YIJIN, MASK_UNIQUE), (FILTER_MAGICSHIELD, MASK_UNIQUE), (FILTER_WEAKELEMENT, MASK_WEAK),
     (FILTER_FURY, MASK_WEAK), (FILTER_REDUCEWATER2, MASK_WEAK), (FILTER_REDUCEFIRE2, MASK_MERGE),
     (FILTER_REDUCEGOLD2, MASK_MERGE), (FILTER_INCWOODWATERDEFENSE, MASK_UNIQUE),
     (FILTER_INCRESISTMAGIC, MASK_UNIQUE), (FILTER_INCATKDEFHP, MASK_UNIQUE), (FILTER_INCRESIST2, MASK_UNIQUE),
     (FILTER_INCATKDEFHP2, MASK_UNIQUE)]"

definition element_teams :: "(u16 \<times> int) list" where
  "element_teams =
    [(HSTATE_INCRESIST, FILTER_INCRESIST), (HSTATE_DECRESIST, FILTER_DECRESIST),
     (HSTATE_ENHANCEGOLD, FILTER_ENHANCEGOLD), (HSTATE_ENHANCESOIL, FILTER_ENHANCESOIL),
     (HSTATE_ENHANCEWOOD, FILTER_ENHANCEWOOD), (HSTATE_ENHANCEWATER, FILTER_ENHANCEWATER),
     (HSTATE_ENHANCEFIRE, FILTER_ENHANCEFIRE), (HSTATE_REDUCEGOLD, FILTER_REDUCEGOLD),
     (HSTATE_REDUCEWOOD, FILTER_REDUCEWOOD), (HSTATE_REDUCEWATER, FILTER_REDUCEWATER),
     (HSTATE_REDUCEFIRE, FILTER_REDUCEFIRE), (HSTATE_REDUCESOIL, FILTER_REDUCESOIL), (HSTATE_YIJIN, FILTER_YIJIN),
     (HSTATE_XISUI, FILTER_XISUI), (HSTATE_ICESHIELD, FILTER_MAGICSHIELD),
     (HSTATE_FIRESHIELD, FILTER_MAGICSHIELD), (HSTATE_SOILSHIELD, FILTER_MAGICSHIELD),
     (HSTATE_WEAKELEMENT, FILTER_WEAKELEMENT), (HSTATE_FURY, FILTER_FURY),
     (HSTATE_REDUCEWATER2, FILTER_REDUCEWATER2), (HSTATE_REDUCEFIRE2, FILTER_REDUCEFIRE2),
     (HSTATE_REDUCEGOLD2, FILTER_REDUCEGOLD2), (HSTATE_INCWOODWATERDEFENSE, FILTER_INCWOODWATERDEFENSE),
     (HSTATE_INCRESISTMAGIC, FILTER_INCRESISTMAGIC), (HSTATE_INCATKDEFHP, FILTER_INCATKDEFHP),
     (HSTATE_INCRESIST2, FILTER_INCRESIST2), (HSTATE_INCATKDEFHP2, FILTER_INCATKDEFHP2),
     (HSTATE_FIRESHIELD2, FILTER_MAGICSHIELD)]"

text \<open>The classes by their numbers; \<open>Load\<close> does not depend on the data of the object it fills.\<close>

definition element_loaders :: "(int32 \<times> element loader) list" where
  "element_loaders = map (\<lambda>m. (m_guid m, m_load m))
    [filter_Incresist 0, filter_Decresist 0, filter_Enhancegold 0, filter_Enhancesoil 0, filter_Enhancewood 0,
     filter_Enhancewater 0, filter_Enhancefire 0, filter_Reducegold 0, filter_Reducewood 0, filter_Reducewater 0,
     filter_Reducefire 0, filter_Reducesoil 0, filter_Yijin 0 0, filter_Xisui 0 0, filter_Iceshield 0 0,
     filter_Fireshield 0 0, filter_Soilshield 0 0, filter_Weakelement 0 False, filter_Fury 0,
     filter_Reducewater2 0, filter_Reducefire2 0, filter_Reducegold2 0, filter_Incwoodwaterdefense 0 0 0,
     filter_Incresistmagic 0 0, filter_Incatkdefhp 0 0 0, filter_Incresist2 0, filter_Incatkdefhp2 0 0 0,
     filter_Fireshield2 0 0 0]"


lemmas element_unfold = element_methods.simps element_defs methods.select_convs

lemma element_amount:
  "amount (m_attach (element_methods k) A) s = amount A s + effect (m_attach (element_methods k)) s"
  "amount (m_release (element_methods k) A) s = amount A s - effect (m_attach (element_methods k)) s"
  by (cases k; simp only: element_unfold; simp add: effect_def amount_simps amount_new algebra_simps split del: if_split)+

lemma element_counts: "\<exists>n. raises (m_attach (element_methods k)) n \<and> lowers (m_release (element_methods k)) n"
  by (cases k; (simp only: element_unfold, rule counts_undone, (rule effect_intros | (simp add: fun_eq_iff; fail))+))

lemma element_states:
  "\<exists>T. joins (m_attach (element_methods k)) T \<and> leaves (m_release (element_methods k)) T \<and> (\<forall>t \<in> T. (t, m_id (element_methods k)) \<in> set element_teams)"
  by (cases k; (simp only: element_unfold, rule teams_undone, (rule effect_intros | (simp add: TVSGetState_def element_teams_def; fail))+))

lemma element_fresh: "renews (m_attach (element_methods k)) \<and> renews (m_release (element_methods k))"
  by (rule conjI; cases k; simp only: element_unfold; rule renews_calls, (simp only: calls_simps, (rule fresh_intros | assumption)+), auto)

lemma element_undone: "undoes (m_attach (element_methods k)) (m_release (element_methods k))"
proof -
  obtain n where n: "raises (m_attach (element_methods k)) n \<and> lowers (m_release (element_methods k)) n" using element_counts by blast
  obtain T where T: "joins (m_attach (element_methods k)) T \<and> leaves (m_release (element_methods k)) T" using element_states by blast
  show ?thesis by (rule undoes_parts [OF element_amount n T element_fresh])
qed

lemma element_team_id: "t \<in> team_of (m_attach (element_methods k)) \<Longrightarrow> (t, m_id (element_methods k)) \<in> set element_teams"
  using element_states [of k] joins_team_of by blast

lemma element_reads: "reads (m_load (element_methods k)) (concat (map encode (m_save (element_methods k)))) k"
  by (cases k; (simp only: element_unfold list.map concat.simps encode.simps, (rule reads_loads reads_int reads_bool reads_ret)+))

lemma element_id: "(m_id (element_methods k), m_mask (element_methods k) AND MASK_CONTROL) \<in> set element_ids"
  by (cases k; simp only: element_unfold element_ids_def; simp)

lemma element_events: "m_mask (element_methods k) AND MASK_ALL = MASK_HEARTBEAT"
  by (cases k; simp only: element_unfold; simp)

lemma element_loader: "(m_guid (element_methods k), m_load (element_methods k)) \<in> set element_loaders"
  unfolding element_loaders_def by (cases k; simp only: element_unfold list.map list.set; simp)

lemma element_idm:
  "m_id (filter_Incresist a0) = FILTER_INCRESIST" "m_mask (filter_Incresist a0) = MASK_UNIQUE OR MASK_BUFF OR MASK_REMOVE_ON_DEATH OR MASK_HEARTBEAT OR MASK_TRANSFERABLE_BUFF"
    "m_id (filter_Decresist a0) = FILTER_DECRESIST" "m_mask (filter_Decresist a0) = MASK_UNIQUE OR MASK_DEBUFF OR MASK_REMOVE_ON_DEATH OR MASK_HEARTBEAT OR MASK_TRANSFERABLE_DEBUFF"
    "m_id (filter_Enhancegold a0) = FILTER_ENHANCEGOLD" "m_mask (filter_Enhancegold a0) = MASK_MERGE OR MASK_BUFF OR MASK_REMOVE_ON_DEATH OR MASK_HEARTBEAT OR MASK_TRANSFERABLE_BUFF"
    "m_id (filter_Enhancesoil a0) = FILTER_ENHANCESOIL" "m_mask (filter_Enhancesoil a0) = MASK_MERGE OR MASK_BUFF OR MASK_REMOVE_ON_DEATH OR MASK_HEARTBEAT OR MASK_TRANSFERABLE_BUFF"
    "m_id (filter_Enhancewood a0) = FILTER_ENHANCEWOOD" "m_mask (filter_Enhancewood a0) = MASK_MERGE OR MASK_BUFF OR MASK_REMOVE_ON_DEATH OR MASK_HEARTBEAT OR MASK_TRANSFERABLE_BUFF"
    "m_id (filter_Enhancewater a0) = FILTER_ENHANCEWATER" "m_mask (filter_Enhancewater a0) = MASK_MERGE OR MASK_BUFF OR MASK_REMOVE_ON_DEATH OR MASK_HEARTBEAT OR MASK_TRANSFERABLE_BUFF"
    "m_id (filter_Enhancefire a0) = FILTER_ENHANCEFIRE" "m_mask (filter_Enhancefire a0) = MASK_MERGE OR MASK_BUFF OR MASK_REMOVE_ON_DEATH OR MASK_HEARTBEAT OR MASK_TRANSFERABLE_BUFF"
    "m_id (filter_Reducegold a0) = FILTER_REDUCEGOLD" "m_mask (filter_Reducegold a0) = MASK_MERGE OR MASK_DEBUFF OR MASK_REMOVE_ON_DEATH OR MASK_HEARTBEAT OR MASK_TRANSFERABLE_DEBUFF"
    "m_id (filter_Reducewood a0) = FILTER_REDUCEWOOD" "m_mask (filter_Reducewood a0) = MASK_MERGE OR MASK_DEBUFF OR MASK_REMOVE_ON_DEATH OR MASK_HEARTBEAT OR MASK_TRANSFERABLE_DEBUFF"
    "m_id (filter_Reducewater a0) = FILTER_REDUCEWATER" "m_mask (filter_Reducewater a0) = MASK_MERGE OR MASK_DEBUFF OR MASK_REMOVE_ON_DEATH OR MASK_HEARTBEAT OR MASK_TRANSFERABLE_DEBUFF"
    "m_id (filter_Reducefire a0) = FILTER_REDUCEFIRE" "m_mask (filter_Reducefire a0) = MASK_MERGE OR MASK_DEBUFF OR MASK_REMOVE_ON_DEATH OR MASK_HEARTBEAT OR MASK_TRANSFERABLE_DEBUFF"
    "m_id (filter_Reducesoil a0) = FILTER_REDUCESOIL" "m_mask (filter_Reducesoil a0) = MASK_MERGE OR MASK_DEBUFF OR MASK_REMOVE_ON_DEATH OR MASK_HEARTBEAT OR MASK_TRANSFERABLE_DEBUFF"
    "m_id (filter_Yijin a0 a1) = FILTER_YIJIN" "m_mask (filter_Yijin a0 a1) = MASK_UNIQUE OR MASK_BUFF OR MASK_REMOVE_ON_DEATH OR MASK_HEARTBEAT OR MASK_TRANSFERABLE_BUFF"
    "m_id (filter_Xisui a0 a1) = FILTER_XISUI" "m_mask (filter_Xisui a0 a1) = MASK_UNIQUE OR MASK_BUFF OR MASK_REMOVE_ON_DEATH OR MASK_HEARTBEAT OR MASK_TRANSFERABLE_BUFF"
    "m_id (filter_Iceshield a0 a1) = FILTER_MAGICSHIELD" "m_mask (filter_Iceshield a0 a1) = MASK_UNIQUE OR MASK_BUFF OR MASK_REMOVE_ON_DEATH OR MASK_HEARTBEAT OR MASK_TRANSFERABLE_BUFF"
    "m_id (filter_Fireshield a0 a1) = FILTER_MAGICSHIELD" "m_mask (filter_Fireshield a0 a1) = MASK_UNIQUE OR MASK_BUFF OR MASK_REMOVE_ON_DEATH OR MASK_HEARTBEAT OR MASK_TRANSFERABLE_BUFF"
    "m_id (filter_Soilshield a0 a1) = FILTER_MAGICSHIELD" "m_mask (filter_Soilshield a0 a1) = MASK_UNIQUE OR MASK_BUFF OR MASK_REMOVE_ON_DEATH OR MASK_HEARTBEAT OR MASK_TRANSFERABLE_BUFF"
    "m_id (filter_Weakelement a0 p1) = FILTER_WEAKELEMENT" "m_mask (filter_Weakelement a0 p1) = MASK_WEAK OR MASK_BUFF OR MASK_DEBUFF OR MASK_REMOVE_ON_DEATH OR MASK_HEARTBEAT OR MASK_TRANSFERABLE_DEBUFF"
    "m_id (filter_Fury a0) = FILTER_FURY" "m_mask (filter_Fury a0) = MASK_WEAK OR MASK_BUFF OR MASK_DEBUFF OR MASK_REMOVE_ON_DEATH OR MASK_HEARTBEAT OR MASK_TRANSFERABLE_BUFF"
    "m_id (filter_Reducewater2 a0) = FILTER_REDUCEWATER2" "m_mask (filter_Reducewater2 a0) = MASK_WEAK OR MASK_DEBUFF OR MASK_REMOVE_ON_DEATH OR MASK_HEARTBEAT OR MASK_TRANSFERABLE_DEBUFF"
    "m_id (filter_Reducefire2 a0) = FILTER_REDUCEFIRE2" "m_mask (filter_Reducefire2 a0) = MASK_MERGE OR MASK_DEBUFF OR MASK_REMOVE_ON_DEATH OR MASK_HEARTBEAT OR MASK_TRANSFERABLE_DEBUFF"
    "m_id (filter_Reducegold2 a0) = FILTER_REDUCEGOLD2" "m_mask (filter_Reducegold2 a0) = MASK_MERGE OR MASK_DEBUFF OR MASK_REMOVE_ON_DEATH OR MASK_HEARTBEAT OR MASK_TRANSFERABLE_DEBUFF"
    "m_id (filter_Incwoodwaterdefense a0 a1 a2) = FILTER_INCWOODWATERDEFENSE" "m_mask (filter_Incwoodwaterdefense a0 a1 a2) = MASK_UNIQUE OR MASK_BUFF OR MASK_HEARTBEAT OR MASK_REMOVE_ON_DEATH OR MASK_TRANSFERABLE_BUFF"
    "m_id (filter_Incresistmagic a0 a1) = FILTER_INCRESISTMAGIC" "m_mask (filter_Incresistmagic a0 a1) = MASK_UNIQUE OR MASK_BUFF OR MASK_REMOVE_ON_DEATH OR MASK_HEARTBEAT OR MASK_TRANSFERABLE_BUFF"
    "m_id (filter_Incatkdefhp a0 a1 a2) = FILTER_INCATKDEFHP" "m_mask (filter_Incatkdefhp a0 a1 a2) = MASK_UNIQUE OR MASK_HEARTBEAT"
    "m_id (filter_Incresist2 a0) = FILTER_INCRESIST2" "m_mask (filter_Incresist2 a0) = MASK_UNIQUE OR MASK_BUFF OR MASK_REMOVE_ON_DEATH OR MASK_HEARTBEAT OR MASK_TRANSFERABLE_BUFF"
    "m_id (filter_Incatkdefhp2 a0 a1 a2) = FILTER_INCATKDEFHP2" "m_mask (filter_Incatkdefhp2 a0 a1 a2) = MASK_UNIQUE OR MASK_REMOVE_ON_DEATH OR MASK_HEARTBEAT OR MASK_BUFF"
    "m_id (filter_Fireshield2 a0 a1 a2) = FILTER_MAGICSHIELD" "m_mask (filter_Fireshield2 a0 a1 a2) = MASK_UNIQUE OR MASK_BUFF OR MASK_REMOVE_ON_DEATH OR MASK_HEARTBEAT OR MASK_TRANSFERABLE_BUFF"
  by (simp_all only: element_unfold)

lemma merge_Enhancegold: "merge_law element_methods (Enhancegold a0) t (Enhancegold b0) t'"
  by (rule merge_keep) (simp add: element_unfold)

lemma merge_Enhancesoil: "merge_law element_methods (Enhancesoil a0) t (Enhancesoil b0) t'"
  by (rule merge_keep) (simp add: element_unfold)

lemma merge_Enhancewood: "merge_law element_methods (Enhancewood a0) t (Enhancewood b0) t'"
  by (rule merge_keep) (simp add: element_unfold)

lemma merge_Enhancewater: "merge_law element_methods (Enhancewater a0) t (Enhancewater b0) t'"
  by (rule merge_keep) (simp add: element_unfold)

lemma merge_Enhancefire: "merge_law element_methods (Enhancefire a0) t (Enhancefire b0) t'"
  by (rule merge_keep) (simp add: element_unfold)

lemma merge_Reducegold: "merge_law element_methods (Reducegold a0) t (Reducegold b0) t'"
  by (rule merge_keep) (simp add: element_unfold)

lemma merge_Reducewood: "merge_law element_methods (Reducewood a0) t (Reducewood b0) t'"
  by (rule merge_keep) (simp add: element_unfold)

lemma merge_Reducewater: "merge_law element_methods (Reducewater a0) t (Reducewater b0) t'"
  by (rule merge_keep) (simp add: element_unfold)

lemma merge_Reducefire: "merge_law element_methods (Reducefire a0) t (Reducefire b0) t'"
  by (rule merge_keep) (simp add: element_unfold)

lemma merge_Reducesoil: "merge_law element_methods (Reducesoil a0) t (Reducesoil b0) t'"
  by (rule merge_keep) (simp add: element_unfold)

lemma merge_Reducefire2: "merge_law element_methods (Reducefire2 a0) t (Reducefire2 b0) t'"
  by (rule merge_keep) (simp add: element_unfold)

lemma merge_Reducegold2: "merge_law element_methods (Reducegold2 a0) t (Reducegold2 b0) t'"
  by (rule merge_keep) (simp add: element_unfold)


lemmas element_merges = merge_Enhancegold
    merge_Enhancesoil
    merge_Enhancewood
    merge_Enhancewater
    merge_Enhancefire
    merge_Reducegold
    merge_Reducewood
    merge_Reducewater
    merge_Reducefire
    merge_Reducesoil
    merge_Reducefire2
    merge_Reducegold2

lemma element_merging:
  assumes "m_id (element_methods k) = m_id (element_methods k2)" "m_mask (element_methods k) AND MASK_MERGE \<noteq> 0"
  shows "merge_law element_methods k t k2 t2"
  using assms by (cases k; (simp only: element_methods.simps element_idm; simp; fail)?; cases k2;
    simp only: element_methods.simps element_idm numeral_eq_iff eq_num_simps simp_thms element_merges)

end
