(* ===== verification/Skills.thy ===== *)
theory Skills
  imports SkillControl SkillSpeed SkillVital SkillDefence SkillAttack SkillElement
begin

text \<open>
  All modelled skill filters as one type, the families being its summands. The laws of the
  families give the interface \<open>skill_family\<close>, and with it the filter manager of an owner of
  skill filters keeps the account of that owner.
\<close>

subsection \<open>The families together\<close>

datatype skill =
    OfControl control
  | OfSpeed speed
  | OfVital vital
  | OfDefence defence
  | OfAttack attack
  | OfElement element

definition lift_methods :: "('k \<Rightarrow> 's) \<Rightarrow> ('s \<Rightarrow> 'k option) \<Rightarrow> 'k methods \<Rightarrow> 's methods" where
  "lift_methods into outof m =
     \<lparr>m_guid = m_guid m, m_id = m_id m, m_mask = m_mask m, m_save = m_save m,
      m_load = loads (m_load m) (\<lambda>k. ret (into k)), m_attach = m_attach m, m_release = m_release m,
      m_merge = (\<lambda>t s t2 A. case outof s of
          None \<Rightarrow> None
        | Some k \<Rightarrow> map_option (\<lambda>(k', t', B). (into k', t', B)) (m_merge m t k t2 A))\<rparr>"

primrec skill_methods :: "skill \<Rightarrow> skill methods" where
  "skill_methods (OfControl k) = lift_methods OfControl (\<lambda>s. case s of OfControl k \<Rightarrow> Some k | _ \<Rightarrow> None) (control_methods k)"
| "skill_methods (OfSpeed k) = lift_methods OfSpeed (\<lambda>s. case s of OfSpeed k \<Rightarrow> Some k | _ \<Rightarrow> None) (speed_methods k)"
| "skill_methods (OfVital k) = lift_methods OfVital (\<lambda>s. case s of OfVital k \<Rightarrow> Some k | _ \<Rightarrow> None) (vital_methods k)"
| "skill_methods (OfDefence k) = lift_methods OfDefence (\<lambda>s. case s of OfDefence k \<Rightarrow> Some k | _ \<Rightarrow> None) (defence_methods k)"
| "skill_methods (OfAttack k) = lift_methods OfAttack (\<lambda>s. case s of OfAttack k \<Rightarrow> Some k | _ \<Rightarrow> None) (attack_methods k)"
| "skill_methods (OfElement k) = lift_methods OfElement (\<lambda>s. case s of OfElement k \<Rightarrow> Some k | _ \<Rightarrow> None) (element_methods k)"

lemma lift_selects [simp]:
  "m_guid (lift_methods into outof m) = m_guid m" "m_id (lift_methods into outof m) = m_id m"
  "m_mask (lift_methods into outof m) = m_mask m" "m_save (lift_methods into outof m) = m_save m"
  "m_attach (lift_methods into outof m) = m_attach m" "m_release (lift_methods into outof m) = m_release m"
  "m_load (lift_methods into outof m) = loads (m_load m) (\<lambda>k. ret (into k))"
  by (simp_all add: lift_methods_def)

subsection \<open>The catalogue of ids\<close>

text \<open>A filter id belongs to one family and has one of the flags; a team state belongs to one id.\<close>

primrec family_of :: "skill \<Rightarrow> nat" where
  "family_of (OfControl _) = 0"
| "family_of (OfSpeed _) = 1"
| "family_of (OfVital _) = 2"
| "family_of (OfDefence _) = 3"
| "family_of (OfAttack _) = 4"
| "family_of (OfElement _) = 5"

definition skill_ids :: "(int \<times> nat \<times> u32) list" where
  "skill_ids = map (map_prod id (Pair 0)) control_ids @ map (map_prod id (Pair 1)) speed_ids
     @ map (map_prod id (Pair 2)) vital_ids @ map (map_prod id (Pair 3)) defence_ids
     @ map (map_prod id (Pair 4)) attack_ids @ map (map_prod id (Pair 5)) element_ids"

definition skill_teams :: "(u16 \<times> int) list" where
  "skill_teams = control_teams @ speed_teams @ vital_teams @ defence_teams @ attack_teams @ element_teams"

lemma distinct_ids: "distinct (map fst skill_ids)"
  by (simp add: skill_ids_def control_ids_def speed_ids_def vital_ids_def defence_ids_def attack_ids_def element_ids_def)

lemma distinct_uint: "distinct (map uint xs) \<Longrightarrow> distinct xs"
  by (simp add: distinct_map)

lemma distinct_teams: "distinct (map fst skill_teams)"
  by (rule distinct_uint) (simp add: skill_teams_def control_teams_def speed_teams_def vital_teams_def defence_teams_def attack_teams_def
      element_teams_def)

lemma skill_id: "(m_id (skill_methods k), family_of k, m_mask (skill_methods k) AND MASK_CONTROL) \<in> set skill_ids"
proof -
  have mem: "(i, n, c) \<in> set (map (map_prod id (Pair n)) xs)" if "(i, c) \<in> set xs" for i n c and xs :: "(int \<times> u32) list"
    using that by (force simp: image_iff)
  show ?thesis
    unfolding skill_ids_def set_append
    by (cases k) (simp_all only: skill_methods.simps lift_selects family_of.simps Un_iff
        mem [OF control_id] mem [OF speed_id] mem [OF vital_id] mem [OF defence_id] mem [OF attack_id] mem [OF element_id] simp_thms)
qed

lemma same_class:
  assumes "m_id (skill_methods k) = m_id (skill_methods k2)"
  shows "family_of k = family_of k2" "m_mask (skill_methods k) AND MASK_CONTROL = m_mask (skill_methods k2) AND MASK_CONTROL"
  using eq_key_imp_eq_value [OF distinct_ids skill_id [of k]] skill_id [of k2] assms by auto

lemma skill_team:
  "t \<in> team_of (m_attach (skill_methods k)) \<Longrightarrow> (t, m_id (skill_methods k)) \<in> set skill_teams"
  using control_team_id speed_team_id vital_team_id defence_team_id attack_team_id element_team_id
  by (cases k) (simp_all add: skill_teams_def)

lemma skill_undone: "undoes (m_attach (skill_methods k)) (m_release (skill_methods k))"
  by (cases k) (simp_all add: control_undone speed_undone vital_undone defence_undone attack_undone element_undone)

lemma skill_reads: "reads (m_load (skill_methods k)) (concat (map encode (m_save (skill_methods k)))) k"
  by (cases k) (auto intro!: reads_map control_reads speed_reads vital_reads defence_reads attack_reads element_reads)

lemma lift_merge_law:
  assumes "merge_law F k t k2 t2" "\<And>k. M (into k) = lift_methods into outof (F k)" "\<And>k. outof (into k) = Some k"
  shows "merge_law M (into k) t (into k2) t2"
proof -
  obtain k' t' where k: "m_id (F k') = m_id (F k)" "m_mask (F k') = m_mask (F k)"
    "holds (m_attach (F k')) = holds (m_attach (F k))" "team_of (m_attach (F k')) = team_of (m_attach (F k))"
    and A: "\<forall>A. \<exists>B. m_merge (F k) t k2 t2 A = Some (k', t', B) \<and> steady B A
         \<and> (\<forall>s. amount B s = amount A s - effect (m_attach (F k)) s + effect (m_attach (F k')) s)
         \<and> (fresh_except {} A \<longrightarrow> fresh_except {} B)"
    using assms(1) unfolding merge_law_def by auto
  show ?thesis unfolding merge_law_def
  proof (rule exI [of _ "into k'"], rule exI [of _ t'], intro conjI, simp_all only: assms(2) lift_selects k, rule allI)
    fix A
    show "\<exists>B. m_merge (lift_methods into outof (F k)) t (into k2) t2 A = Some (into k', t', B) \<and> steady B A
         \<and> (\<forall>s. amount B s = amount A s - effect (m_attach (F k)) s + effect (m_attach (F k')) s)
         \<and> (fresh_except {} A \<longrightarrow> fresh_except {} B)"
      using spec [OF A, of A] by (auto simp: assms(3) lift_methods_def)
  qed
qed

lemma skill_merging:
  assumes "m_id (skill_methods k) = m_id (skill_methods k2)" "m_mask (skill_methods k) AND MASK_MERGE \<noteq> 0"
  shows "merge_law skill_methods k t k2 t2"
proof -
  have "family_of k = family_of k2" by (rule same_class [OF assms(1)])
  then show ?thesis using assms
    by (cases k; cases k2; simp)
      (rule lift_merge_law, (rule control_merging speed_merging vital_merging defence_merging attack_merging element_merging;
        assumption), simp, simp)+
qed

lemma skill_some_control: "m_mask (skill_methods k) AND MASK_CONTROL \<noteq> 0"
proof -
  have "list_all (\<lambda>e. snd (snd e) \<noteq> 0) skill_ids" by code_simp
  then show ?thesis using skill_id [of k] unfolding list_all_iff by fastforce
qed

lemma skill_events: "m_mask (skill_methods k) AND MASK_ALL = MASK_HEARTBEAT"
  by (cases k) (simp_all only: skill_methods.simps lift_selects control_events speed_events vital_events defence_events
      attack_events element_events)

interpretation skills: skill_family skill_methods
proof (unfold_locales, rule skill_undone, erule (1) skill_merging, erule same_class(2), rule skill_some_control, rule skill_events)
  fix k k2 assume "team_of (m_attach (skill_methods k)) \<inter> team_of (m_attach (skill_methods k2)) \<noteq> {}"
  then show "m_id (skill_methods k) = m_id (skill_methods k2)"
    using skill_team eq_key_imp_eq_value [OF distinct_teams] by blast
qed

subsection \<open>The registry of the classes\<close>

text \<open>\<open>CreateInstance\<close> finds the class of a number; the loader is that of its object.\<close>

definition lift_loaders :: "('k \<Rightarrow> 's) \<Rightarrow> (int32 \<times> 'k loader) list \<Rightarrow> (int32 \<times> 's loader) list" where
  "lift_loaders into = map (\<lambda>(g, m). (g, loads m (\<lambda>k. ret (into k))))"

definition skill_loaders :: "(int32 \<times> skill loader) list" where
  "skill_loaders = lift_loaders OfControl control_loaders @ lift_loaders OfSpeed speed_loaders
     @ lift_loaders OfVital vital_loaders @ lift_loaders OfDefence defence_loaders
     @ lift_loaders OfAttack attack_loaders @ lift_loaders OfElement element_loaders"

lemma lift_loaders_fst: "map fst (lift_loaders into xs) = map fst xs"
  by (induction xs) (auto simp: lift_loaders_def)

lemma lift_loaders_in: "(g, m) \<in> set xs \<Longrightarrow> (g, loads m (\<lambda>k. ret (into k))) \<in> set (lift_loaders into xs)"
  by (force simp: lift_loaders_def)

lemma distinct_loaders: "distinct (map fst skill_loaders)"
proof -
  have "map fst skill_loaders = map fst control_loaders @ map fst speed_loaders @ map fst vital_loaders
      @ map fst defence_loaders @ map fst attack_loaders @ map fst element_loaders"
    by (simp add: skill_loaders_def lift_loaders_fst)
  also have "distinct \<dots>"
    by (rule distinct_uint) (simp add: control_loaders_def speed_loaders_def vital_loaders_def defence_loaders_def attack_loaders_def
        element_loaders_def control_defs speed_defs vital_defs defence_defs attack_defs element_defs)
  finally show ?thesis .
qed

lemma skill_loader: "map_of skill_loaders (m_guid (skill_methods k)) = Some (m_load (skill_methods k))"
proof (rule map_of_is_SomeI [OF distinct_loaders])
  show "(m_guid (skill_methods k), m_load (skill_methods k)) \<in> set skill_loaders"
    unfolding skill_loaders_def set_append
    by (cases k) (simp_all only: skill_methods.simps lift_selects Un_iff simp_thms lift_loaders_in [OF control_loader]
        lift_loaders_in [OF speed_loader] lift_loaders_in [OF vital_loader] lift_loaders_in [OF defence_loader]
        lift_loaders_in [OF attack_loader] lift_loaders_in [OF element_loader])
qed

end
