(* ===== verification/SkillOwner.thy ===== *)
theory SkillOwner
  imports Skills
begin

text \<open>
  An object and its filter manager, for all modelled skill filters: what the owner is after any
  requests, when filters expire, and how filters survive a change of server and a login.
\<close>

subsection \<open>The manager of an owner\<close>

abbreviation skill_cls :: "(skill \<times> int32, actor, int32) filter_class" where
  "skill_cls \<equiv> skill_class skill_methods"

abbreviation attach_of :: "skill timed \<Rightarrow> actor \<Rightarrow> actor" where
  "attach_of f \<equiv> m_attach (skill_methods (kind_of f))"

text \<open>An owner before it has filters.\<close>

definition in_order :: "actor \<Rightarrow> bool" where
  "in_order A \<longleftrightarrow> counted_ok A \<and> fresh_except {} A \<and> \<not> a_fault A \<and> visible_team_state A = [] \<and> visible_team_state_param A = []"

text \<open>Requests that add filters as their constructors make them, with flags that the manager does not test.\<close>

definition skill_request :: "(skill \<times> int32, int32) request \<Rightarrow> bool" where
  "skill_request r \<longleftrightarrow>
     (case r of
        ReqAdd f \<Rightarrow> f = timeout_filter skill_methods (kind_of f) (timeout_of f) (f_mask f AND NOT (MASK_CONTROL OR MASK_ALL))
      | ReqAssert \<Rightarrow> False
      | _ \<Rightarrow> True)"

definition skill_exec :: "(skill \<times> int32, int32) request list \<Rightarrow> actor \<Rightarrow> (skill \<times> int32, actor) filter_man" where
  "skill_exec rs A = exec skill_cls (Suc (length rs)) rs (man_new A)"

text \<open>An owner without enhancements whose properties have been computed.\<close>

definition actor_ready :: actor where
  "actor_ready = actor_new\<lparr>computed := inputs actor_new\<rparr>"

lemma actor_ready: "in_order actor_ready"
proof -
  have same: "same_control actor_ready actor_new" by (simp add: actor_ready_def same_control_def modes_def)
  have "inputs (A\<lparr>computed := c\<rparr>) = inputs A" for A c
  proof
    show "inputs (A\<lparr>computed := c\<rparr>) g = inputs A g" for g by (cases g) (simp_all add: inputs_def)
  qed
  then have "inputs actor_ready = inputs actor_new" by (simp only: actor_ready_def)
  then have "fresh_except {} actor_ready" by (simp add: fresh_except_def) (simp add: actor_ready_def)
  moreover have "counted_ok actor_ready" "\<not> a_fault actor_ready"
    using same_counted [OF same] same_fault [OF same] counted_new by simp_all
  ultimately show ?thesis by (simp add: in_order_def) (simp add: actor_ready_def actor_new_def)
qed

lemma skill_request_valid: "skill_request r \<Longrightarrow> valid_request (skill_good skill_methods) r"
proof (cases r)
  case (ReqAdd f)
  assume r: "skill_request r"
  define w where "w = f_mask f AND NOT (MASK_CONTROL OR MASK_ALL)"
  have f: "f = timeout_filter skill_methods (kind_of f) (timeout_of f) w"
    using r unfolding skill_request_def ReqAdd request.case w_def .
  have "w AND (MASK_CONTROL OR MASK_ALL) = 0"
    unfolding w_def by (simp only: and.assoc bit.conj_cancel_left and_zero_eq)
  note skills.good_new [OF this, of "kind_of f" "timeout_of f"]
  then show ?thesis unfolding ReqAdd valid_request_def request.case by (subst (1 2) f) simp
qed (simp_all add: skill_request_def valid_request_def)

lemma in_order_kept: "in_order B \<Longrightarrow> skills.kept B ([], B)"
  using skills.new_account [of B]
  by (simp add: skills.kept_def in_order_def teams_def team_is_def)

lemma skill_exec_rest:
  assumes "\<forall>r \<in> set rs. skill_request r"
  shows "rest (skill_good skill_methods) (skill_exec rs B)"
    "(view (skill_exec rs B), parent (skill_exec rs B)) = fold (spec_request (skill_quiet skill_methods)) rs ([], B)"
  using skills.quiet.exec_refines [OF rest_new(1), of rs B "length rs"] assms skill_request_valid
  by (auto simp: skill_exec_def rest_new(2,3))

lemma skill_exec_kept:
  assumes "in_order B" "\<forall>r \<in> set rs. skill_request r"
  shows "skills.kept B (view (skill_exec rs B), parent (skill_exec rs B))"
  unfolding skill_exec_rest(2) [OF assms(2)]
  by (rule skills.kept_requests [OF in_order_kept [OF assms(1)]]) (use assms(2) skill_request_valid in blast)


subsection \<open>Expiry\<close>

text \<open>Heartbeats of \<open>ts\<close> seconds each; \<open>total\<close> is the time they take.\<close>

definition heartbeats :: "int32 list \<Rightarrow> (skill \<times> int32, int32) request list" where
  "heartbeats ts = map (ReqEvent IDX_HEARTBEAT) ts"

definition total :: "int32 list \<Rightarrow> int" where
  "total ts = sum_list (map sint ts)"

definition running :: "skill timed \<Rightarrow> bool" where
  "running f \<longleftrightarrow> bit (f_mask f) IDX_HEARTBEAT \<and> 0 < sint (timeout_of f) \<and> \<not> f_deleted f"

definition later :: "int32 list \<Rightarrow> skill timed \<Rightarrow> skill timed" where
  "later ts f = f\<lparr>f_data := (kind_of f, timeout_of f - word_of_int (total ts))\<rparr>"

lemma sint_minus_small:
  fixes a b :: int32
  assumes "0 < sint a" "0 < sint b"
  shows "sint (a - b) = sint a - sint b"
proof -
  have "sint a < 2 ^ 31" "sint b < 2 ^ 31" using sint_lt [of a] sint_lt [of b] by simp_all
  then have "- (2 ^ 31) \<le> sint a - sint b" "sint a - sint b < 2 ^ 31" using assms by simp_all
  then show ?thesis by (simp add: sint_word_ariths(2) signed_take_bit_int_eq_self)
qed

lemma tick_running:
  assumes "running f" "0 < sint t"
  shows "ticked (skill_quiet skill_methods) t f = (later [t] f)\<lparr>f_deleted := \<not> sint t < sint (timeout_of f)\<rparr>"
    "sint t < sint (timeout_of f) \<Longrightarrow> running (later [t] f)"
    "sint t < sint (timeout_of f) \<Longrightarrow> sint (timeout_of (later [t] f)) = sint (timeout_of f) - sint t"
proof -
  have w: "word_of_int (sint t) = t" by simp
  have m: "sint (timeout_of f - t) = sint (timeout_of f) - sint t"
    using assms by (intro sint_minus_small) (simp_all add: running_def)
  show "ticked (skill_quiet skill_methods) t f = (later [t] f)\<lparr>f_deleted := \<not> sint t < sint (timeout_of f)\<rparr>"
    using assms m by (auto simp: ticked_def skill_quiet_def timeout_Heartbeat_def Let_def running_def later_def total_def w
        word_sle_eq not_less)
  show "sint t < sint (timeout_of f) \<Longrightarrow> running (later [t] f)"
    "sint t < sint (timeout_of f) \<Longrightarrow> sint (timeout_of (later [t] f)) = sint (timeout_of f) - sint t"
    using assms m by (simp_all add: running_def later_def total_def w)
qed

lemma later_append: "later us (later ts f) = later (ts @ us) f"
  by (simp add: later_def total_def algebra_simps)

lemma spec_tick_running:
  assumes "\<forall>f \<in> set xs. running f" "0 < sint t"
  shows "fst (spec_request (skill_quiet skill_methods) (ReqEvent IDX_HEARTBEAT t) (xs, A))
    = map (later [t]) (filter (\<lambda>f. sint t < sint (timeout_of f)) xs)"
  using assms
proof (induction xs)
  case (Cons f xs)
  have "(later [t] f)\<lparr>f_deleted := False\<rparr> = later [t] f" using Cons.prems by (simp add: running_def later_def)
  then show ?case using Cons tick_running(1) [of f t] by (simp add: spec_request_def spec_tick_def spec_drop_def)
qed (simp add: spec_request_def spec_tick_def spec_drop_def)

lemma spec_ticks_running:
  assumes "\<forall>f \<in> set xs. running f" "\<forall>t \<in> set ts. 0 < sint t"
  shows "fst (fold (spec_request (skill_quiet skill_methods)) (heartbeats ts) (xs, A))
    = map (later ts) (filter (\<lambda>f. total ts < sint (timeout_of f)) xs)"
  using assms
proof (induction ts arbitrary: xs A)
  case Nil
  have "later [] f = f" for f by (simp add: later_def total_def)
  moreover have "filter (\<lambda>f. 0 < sint (timeout_of f)) xs = xs" using Nil(1) by (simp add: filter_id_conv running_def)
  ultimately show ?case by (simp add: heartbeats_def total_def map_idI)
next
  case (Cons t ts)
  let ?s = "spec_request (skill_quiet skill_methods) (ReqEvent IDX_HEARTBEAT t) (xs, A)"
  let ?xs = "map (later [t]) (filter (\<lambda>f. sint t < sint (timeout_of f)) xs)"
  have s: "?s = (?xs, snd ?s)" using spec_tick_running [of xs t A] Cons.prems by (metis list.set_intros(1) prod.collapse)
  have run: "\<forall>f \<in> set ?xs. running f" using Cons.prems tick_running(2) by auto
  have pos: "0 \<le> total ts" unfolding total_def using Cons.prems(2) by (intro sum_list_nonneg) auto
  have "filter (\<lambda>f. total ts < sint (timeout_of f)) ?xs
      = map (later [t]) (filter (\<lambda>f. total (t # ts) < sint (timeout_of f)) xs)"
    using Cons.prems(1)
  proof (induction xs)
    case (Cons f xs)
    then show ?case using tick_running(3) [of f t] \<open>\<forall>t \<in> set (t # ts). 0 < sint t\<close> pos by (auto simp: total_def)
  qed simp
  then have "fst (fold (spec_request (skill_quiet skill_methods)) (heartbeats ts) (?xs, snd ?s))
      = map (later ts \<circ> later [t]) (filter (\<lambda>f. total (t # ts) < sint (timeout_of f)) xs)"
    using Cons.IH [OF run, of "snd ?s"] Cons.prems(2) by (simp only: list.set_intros(2) Ball_set_list_all) simp
  moreover have "later ts \<circ> later [t] = later (t # ts)" by (simp add: fun_eq_iff later_append)
  ultimately show ?case by (simp only: heartbeats_def list.map fold_simps comp_def s [symmetric])
qed


subsection \<open>Archives\<close>

text \<open>What \<open>timeout_filter\<close> and the classes save, and \<open>CreateInstance\<close> for the modelled classes.\<close>

definition skill_registry :: "(skill \<times> int32) registry" where
  "skill_registry =
     \<lparr>r_guid = (\<lambda>(k, timeout). m_guid (skill_methods k)),
      r_save = (\<lambda>(k, timeout). VInt timeout # m_save (skill_methods k)),
      r_load = (\<lambda>guid. case map_of skill_loaders guid of
          None \<Rightarrow> None
        | Some m \<Rightarrow> Some (loads get_int (\<lambda>timeout. loads m (\<lambda>k. ret (k, timeout)))))\<rparr>"

lemma skill_id_range: "0 \<le> m_id (skill_methods k)" "m_id (skill_methods k) < 2 ^ 31"
proof -
  have "list_all (\<lambda>e. 0 \<le> fst e \<and> fst e < 2 ^ 31) skill_ids" by code_simp
  then show "0 \<le> m_id (skill_methods k)" "m_id (skill_methods k) < 2 ^ 31" using skill_id [of k] unfolding list_all_iff by fastforce+
qed

lemma skill_saves:
  assumes "skill_good skill_methods f"
  shows "saves skill_registry f"
proof -
  obtain k t where d: "f_data f = (k, t)" by fastforce
  have "f_id f = m_id (skill_methods k)" using skill_goodD(1) [OF assms] d by simp
  then have i: "sint (word_of_int (f_id f) :: int32) = f_id f"
    using skill_id_range [of k] by (simp add: sint_sbintrunc' signed_take_bit_int_eq_self)
  have "reads (loads get_int (\<lambda>t. loads (m_load (skill_methods k)) (\<lambda>k. ret (k, t))))
      (le32_bytes t @ concat (map encode (m_save (skill_methods k)))) (k, t)"
    by (rule reads_loads [OF reads_int reads_map [OF skill_reads]]) simp
  then show ?thesis using i by (simp add: saves_def skill_registry_def d skill_loader)
qed

lemma length_instances: "length fs \<le> length (concat (map (instance_bytes R) fs))"
  by (induction fs) (simp_all add: instance_bytes_def filter_Save_def)

text \<open>Loading the bytes of a list of saved filters into a new manager.\<close>

lemma load_skills:
  assumes fs: "\<forall>f \<in> set fs. skill_good skill_methods f \<and> \<not> f_deleted f" "sorted (map f_id fs)"
    and len: "length (w_buf (save_filters skill_registry fs (raw_new []))) < 2 ^ 64"
  obtains N w where "man_Load skill_registry (man_new C) (raw_new (w_buf (save_filters skill_registry fs (raw_new [])))) = Inr (N, w)"
    "rest (skill_good skill_methods) N" "view N = fs" "parent N = C" "\<not> w_fault w" "is_eof w"
proof -
  let ?bs = "le64_bytes (of_nat (length fs)) @ concat (map (instance_bytes skill_registry) fs)"
  have buf: "w_buf (save_filters skill_registry fs (raw_new [])) = ?bs"
    by (simp add: save_filters_push push_byte_def raw_new_def)
  have n: "8 + length (concat (map (instance_bytes skill_registry) fs)) < 2 ^ 64" using len unfolding buf by simp
  then have l: "length fs < 2 ^ 64" using length_instances [of fs skill_registry] by linarith
  have w: "w_ok (raw_new ?bs)" "w_rest (raw_new ?bs) = le64_bytes (of_nat (length fs)) @ concat (map (instance_bytes skill_registry) fs) @ []"
    using n by (simp_all add: w_ok_def raw_new_def w_rest_def)
  have "\<forall>f \<in> set fs. saves skill_registry f \<and> skill_good skill_methods f \<and> \<not> f_deleted f" using fs(1) skill_saves by blast
  from load_saved [OF this fs(2) l w, where c = C]
  obtain N :: "(skill \<times> int32, 'a) filter_man" where
    N: "man_Load skill_registry (man_new C) (raw_new ?bs) = Inr (N, advance (8 + length (concat (map (instance_bytes skill_registry) fs))) (raw_new ?bs))"
    "rest (skill_good skill_methods) N" "view N = fs" "parent N = C" by blast
  have "is_eof (advance (8 + length (concat (map (instance_bytes skill_registry) fs))) (raw_new ?bs))"
    by (simp add: is_eof_def advance_def raw_new_def w_size_def)
  moreover have "\<not> w_fault (advance (8 + length (concat (map (instance_bytes skill_registry) fs))) (raw_new ?bs))"
    by (simp add: advance_def raw_new_def)
  ultimately show thesis using that N unfolding buf by blast
qed

text \<open>Attaching filters one after another to an owner in order.\<close>

lemma kept_attached:
  assumes "in_order B" "distinct (map f_id fs)" "\<forall>f \<in> set fs. skill_good skill_methods f"
  shows "skills.kept B (fs, fold (q_attach (skill_quiet skill_methods)) fs B)"
proof -
  have "account (\<lambda>k. m_attach (skill_methods k)) B (skills.kinds gs + skills.kinds fs) (fold (q_attach (skill_quiet skill_methods)) fs A)"
    if "account (\<lambda>k. m_attach (skill_methods k)) B (skills.kinds gs) A" for gs A
    using that
  proof (induction fs arbitrary: gs A)
    case (Cons f fs)
    have "account (\<lambda>k. m_attach (skill_methods k)) B (skills.kinds (f # gs)) (attach_of f A)"
      using skills.on_account [OF Cons.prems] by simp
    then show ?case using Cons.IH [of "f # gs"] by (simp add: skill_quiet_def)
  qed simp
  from this [of "[]" B] in_order_kept [OF assms(1)] show ?thesis
    using assms(2,3) by (simp add: skills.kept_def)
qed

lemma kept_account:
  assumes "skills.kept B (xs, A)"
  shows "(\<forall>s. amount A s = amount B s + (\<Sum>f \<leftarrow> xs. effect (attach_of f) s))
    \<and> (\<forall>c. count_of A c = count_of B c + (\<Sum>f \<leftarrow> xs. holds (attach_of f) c))
    \<and> TVSGetState ` set (visible_team_state A) = (\<Union>f \<in> set xs. team_of (attach_of f))
    \<and> counted_ok A \<and> fresh_except {} A \<and> \<not> a_fault A \<and> distinct (map f_id xs)"
proof -
  have s: "(\<Sum>k \<in># skills.kinds xs. g k) = (\<Sum>f \<leftarrow> xs. g (kind_of f))" for g :: "skill \<Rightarrow> 'a :: comm_monoid_add"
    by (simp add: skills.kinds_def comp_def flip: sum_mset_sum_list mset_map)
  have t: "team_set (\<lambda>k. m_attach (skill_methods k)) (skills.kinds xs) = (\<Union>f \<in> set xs. team_of (attach_of f))"
    by (auto simp: team_set_def skills.kinds_def)
  show ?thesis
    using assms teams_states [of "team_set (\<lambda>k. m_attach (skill_methods k)) (skills.kinds xs)" A]
    by (simp only: skills.kept_def prod.case account_def s t) simp
qed

lemma team_none:
  assumes "TVSGetState ` set (visible_team_state A) = {}"
  shows "visible_team_state A = []"
  using assms by simp

subsection \<open>An example\<close>

text \<open>One filter, of fifteen seconds, on an owner without enhancements.\<close>

definition example_filter :: "skill timed" where
  "example_filter = timeout_filter skill_methods (OfVital (Inchp 30)) 15 MASK_SAVE_DB_DATA"

lemma example_request: "skill_request (ReqAdd example_filter)"
  by (simp add: skill_request_def example_filter_def timeout_filter_def vital_idm)

lemma example_view:
  "(view (skill_exec [ReqAdd example_filter] A), parent (skill_exec [ReqAdd example_filter] A))
    = ([example_filter], attach_of example_filter A)"
proof -
  have v: "\<forall>r \<in> set [ReqAdd example_filter]. skill_request r" using example_request by simp
  show ?thesis unfolding skill_exec_rest(2) [OF v]
    by (simp add: spec_request_def spec_add_def spec_attach_def spec_insert_def) (simp add: skill_quiet_def)
qed

lemma example_rest: "rest (skill_good skill_methods) (skill_exec [ReqAdd example_filter] A)"
  by (rule skill_exec_rest(1)) (use example_request in simp)

lemma example_bytes: "length (w_buf (save_filters skill_registry [example_filter] (raw_new []))) = 30"
  by (simp add: save_filters_push push_byte_def raw_new_def instance_bytes_def filter_Save_def skill_registry_def example_filter_def
      timeout_filter_def filter_Inchp_def)

subsection \<open>Properties\<close>



text \<open>
  (C29) The account of an owner. After any requests that add filters of the modelled classes and
  remove, clear, modify or beat them, no assertion has failed and no loop has run out of
  fuel; every accumulator is that of the owner before it had filters plus the effects of
  the filters that are live, and so are the counters; modes and immunities follow the counters,
  exactly the team states of the live filters are shown, no computed property is stale, and no
  two live filters have the same id.
\<close>

theorem skill_owner_account:
  assumes "in_order B" "\<forall>r \<in> set rs. skill_request r"
  shows "let M = skill_exec rs B; A = parent M in
    \<not> ffault M \<and> \<not> a_fault A
    \<and> (\<forall>s. amount A s = amount B s + (\<Sum>f \<leftarrow> view M. effect (attach_of f) s))
    \<and> (\<forall>c. count_of A c = count_of B c + (\<Sum>f \<leftarrow> view M. holds (attach_of f) c))
    \<and> TVSGetState ` set (visible_team_state A) = (\<Union>f \<in> set (view M). team_of (attach_of f))
    \<and> counted_ok A \<and> fresh_except {} A \<and> distinct (map f_id (view M))"
  using kept_account [OF skill_exec_kept [OF assms]] skill_exec_rest(1) [OF assms(2), of B]
  by (simp add: Let_def rest_def calm_def)

lemma skill_owner_account_witness:
  "let M = skill_exec [ReqAdd example_filter] actor_ready; A = parent M in
    \<not> ffault M \<and> \<not> a_fault A
    \<and> (\<forall>s. amount A s = amount actor_ready s + (\<Sum>f \<leftarrow> view M. effect (attach_of f) s))
    \<and> (\<forall>c. count_of A c = count_of actor_ready c + (\<Sum>f \<leftarrow> view M. holds (attach_of f) c))
    \<and> TVSGetState ` set (visible_team_state A) = (\<Union>f \<in> set (view M). team_of (attach_of f))
    \<and> counted_ok A \<and> fresh_except {} A \<and> distinct (map f_id (view M))"
  by (rule skill_owner_account [OF actor_ready]) (use example_request in simp)


text \<open>
  (C30) The lists, marks and deferred insertions of the manager implement a plain list of filters
  sorted by id: every request is the function \<open>spec_request\<close> on that list and the owner.
\<close>

theorem skill_manager_refines:
  assumes "\<forall>r \<in> set rs. skill_request r"
  shows "rest (skill_good skill_methods) (skill_exec rs B)
    \<and> (view (skill_exec rs B), parent (skill_exec rs B)) = fold (spec_request (skill_quiet skill_methods)) rs ([], B)"
  using skill_exec_rest [OF assms] by blast

lemma skill_manager_refines_witness:
  "rest (skill_good skill_methods) (skill_exec [ReqAdd example_filter] actor_ready)
    \<and> (view (skill_exec [ReqAdd example_filter] actor_ready), parent (skill_exec [ReqAdd example_filter] actor_ready))
      = fold (spec_request (skill_quiet skill_methods)) [ReqAdd example_filter] ([], actor_ready)"
  by (rule skill_manager_refines) (use example_request in simp)


text \<open>
  (C31) Filters expire. After heartbeats that take \<open>total ts\<close> seconds exactly those filters are
  left whose time was longer, with the time that remains; when all times are over the owner is
  what it was before it had filters.
\<close>

theorem skill_filters_expire:
  assumes "in_order B" "\<forall>r \<in> set rs. skill_request r" "\<forall>t \<in> set ts. 0 < sint t"
    and "\<forall>f \<in> set (view (skill_exec rs B)). running f"
  shows "view (skill_exec (rs @ heartbeats ts) B)
      = map (later ts) (filter (\<lambda>f. total ts < sint (timeout_of f)) (view (skill_exec rs B)))
    \<and> ((\<forall>f \<in> set (view (skill_exec rs B)). sint (timeout_of f) \<le> total ts) \<longrightarrow>
        (let A = parent (skill_exec (rs @ heartbeats ts) B) in
         (\<forall>s. amount A s = amount B s) \<and> (\<forall>c. count_of A c = count_of B c) \<and> visible_team_state A = []))"
proof -
  have ok: "\<forall>r \<in> set (rs @ heartbeats ts). skill_request r"
    using assms(2) by (auto simp: heartbeats_def skill_request_def)
  have "fst (fold (spec_request (skill_quiet skill_methods)) (rs @ heartbeats ts) ([], B))
      = map (later ts) (filter (\<lambda>f. total ts < sint (timeout_of f)) (view (skill_exec rs B)))"
    unfolding fold_append comp_apply skill_exec_rest(2) [OF assms(2), symmetric]
    by (rule spec_ticks_running [OF assms(4,3)])
  then have v: "view (skill_exec (rs @ heartbeats ts) B)
      = map (later ts) (filter (\<lambda>f. total ts < sint (timeout_of f)) (view (skill_exec rs B)))"
    using skill_exec_rest(2) [OF ok, of B] by (metis fst_conv)
  have "let A = parent (skill_exec (rs @ heartbeats ts) B) in
      (\<forall>s. amount A s = amount B s) \<and> (\<forall>c. count_of A c = count_of B c) \<and> visible_team_state A = []"
    if "\<forall>f \<in> set (view (skill_exec rs B)). sint (timeout_of f) \<le> total ts"
  proof -
    have e: "view (skill_exec (rs @ heartbeats ts) B) = []" unfolding v using that by (simp add: filter_empty_conv not_less)
    show ?thesis using kept_account [OF skill_exec_kept [OF assms(1) ok]] by (simp add: e Let_def)
  qed
  then show ?thesis using v by blast
qed

lemma skill_filters_expire_witness:
  "view (skill_exec ([ReqAdd example_filter] @ heartbeats [10, 10]) actor_ready) = []"
proof -
  have v: "view (skill_exec [ReqAdd example_filter] actor_ready) = [example_filter]" using example_view by simp
  have "\<forall>f \<in> set (view (skill_exec [ReqAdd example_filter] actor_ready)). running f" unfolding v
    by (simp add: running_def example_filter_def timeout_filter_def vital_idm)
  from conjunct1 [OF skill_filters_expire [OF actor_ready _ _ this, of "[10, 10]"]] show ?thesis
    using example_request by (simp add: v total_def) (simp add: example_filter_def timeout_filter_def)
qed


text \<open>
  (C32) A change of server. Saving the filters of a player and loading the bytes into a new manager
  gives the same filters with the same data, remaining time and marks, but for those with the
  flag \<open>NOSAVE\<close>, and reads the archive to its end.
\<close>

theorem skill_server_change:
  assumes "\<forall>r \<in> set rs. skill_request r"
    and "length (w_buf (snd (man_Save skill_registry skill_cls (exec skill_cls m) n (skill_exec rs B) (raw_new [])))) < 2 ^ 64"
  shows "case man_Load skill_registry (man_new C)
      (raw_new (w_buf (snd (man_Save skill_registry skill_cls (exec skill_cls m) n (skill_exec rs B) (raw_new []))))) of
      Inl e \<Rightarrow> False
    | Inr (N, w) \<Rightarrow> rest (skill_good skill_methods) N \<and> parent N = C \<and> \<not> w_fault w \<and> is_eof w
        \<and> view N = filter (\<lambda>f. f_mask f AND MASK_NOSAVE = 0) (view (skill_exec rs B))"
proof -
  let ?fs = "filter (\<lambda>f. f_mask f AND MASK_NOSAVE = 0) (view (skill_exec rs B))"
  note M = skill_exec_rest(1) [OF assms(1), of B]
  have s: "sorted (map f_id ?fs)" using skills.quiet.sorted_view [OF M] by (rule sorted_filter)
  have g: "\<forall>f \<in> set ?fs. skill_good skill_methods f \<and> \<not> f_deleted f" using M by (simp add: rest_def)
  note e = skills.quiet.save_rest(1) [OF M, of skill_registry m n "raw_new []"]
  have "length (w_buf (save_filters skill_registry ?fs (raw_new []))) < 2 ^ 64" using assms(2) unfolding e snd_conv .
  from load_skills [OF g s this, of C] show ?thesis unfolding e snd_conv by force
qed

lemma skill_server_change_witness:
  "case man_Load skill_registry (man_new actor_ready) (raw_new (w_buf (snd (man_Save skill_registry skill_cls (exec skill_cls 5) 5
      (skill_exec [ReqAdd example_filter] actor_ready) (raw_new []))))) of
      Inl e \<Rightarrow> False
    | Inr (N, w) \<Rightarrow> rest (skill_good skill_methods) N \<and> parent N = actor_ready \<and> \<not> w_fault w \<and> is_eof w
        \<and> view N = filter (\<lambda>f. f_mask f AND MASK_NOSAVE = 0) (view (skill_exec [ReqAdd example_filter] actor_ready))"
proof (rule skill_server_change)
  have "f_mask example_filter AND MASK_NOSAVE = 0" by (simp add: example_filter_def timeout_filter_def vital_idm)
  then show "length (w_buf (snd (man_Save skill_registry skill_cls (exec skill_cls 5) 5
      (skill_exec [ReqAdd example_filter] actor_ready) (raw_new [])))) < 2 ^ 64"
    using example_view [of actor_ready] example_bytes by (simp add: skills.quiet.save_rest(1) [OF example_rest])
qed (use example_request in simp)


text \<open>
  (C33) A login. Saving the filters with some flag to the database, loading them into a new
  manager and attaching them with \<open>DBInit\<close> to a new owner in order gives that owner the
  effects, counters and team states of exactly these filters.
\<close>

theorem skill_login:
  assumes "in_order B" "\<forall>r \<in> set rs. skill_request r" "in_order C" "length (view (skill_exec rs B)) \<le> n"
    and "length (w_buf (snd (SaveSpecFilters skill_registry skill_cls (exec skill_cls m) n k (skill_exec rs B) (raw_new [])))) < 2 ^ 64"
  shows "case man_Load skill_registry (man_new actor_new)
      (raw_new (w_buf (snd (SaveSpecFilters skill_registry skill_cls (exec skill_cls m) n k (skill_exec rs B) (raw_new []))))) of
      Inl e \<Rightarrow> False
    | Inr (N, w) \<Rightarrow>
        (let L = man_DBInit skill_cls (exec skill_cls m) n C N; A = parent L in
         \<not> ffault L \<and> view L = filter (\<lambda>f. f_mask f AND k \<noteq> 0) (view (skill_exec rs B))
         \<and> (\<forall>s. amount A s = amount C s + (\<Sum>f \<leftarrow> view L. effect (attach_of f) s))
         \<and> (\<forall>c. count_of A c = count_of C c + (\<Sum>f \<leftarrow> view L. holds (attach_of f) c))
         \<and> TVSGetState ` set (visible_team_state A) = (\<Union>f \<in> set (view L). team_of (attach_of f))
         \<and> counted_ok A \<and> fresh_except {} A \<and> \<not> a_fault A)"
proof -
  let ?fs = "filter (\<lambda>f. f_mask f AND k \<noteq> 0) (view (skill_exec rs B))"
  note M = skill_exec_rest(1) [OF assms(2), of B]
  have s: "sorted (map f_id ?fs)" using skills.quiet.sorted_view [OF M] by (rule sorted_filter)
  have g: "\<forall>f \<in> set ?fs. skill_good skill_methods f \<and> \<not> f_deleted f" using M by (simp add: rest_def)
  note e = skills.quiet.save_rest(2) [OF M, of skill_registry m n k "raw_new []"]
  have "length (w_buf (save_filters skill_registry ?fs (raw_new []))) < 2 ^ 64" using assms(5) unfolding e snd_conv .
  from load_skills [OF g s this, of actor_new] obtain N w where
    N: "man_Load skill_registry (man_new actor_new) (raw_new (w_buf (save_filters skill_registry ?fs (raw_new [])))) = Inr (N, w)"
    "rest (skill_good skill_methods) N" "view N = ?fs" by blast
  have len: "length (view N) \<le> n" unfolding N(3) using assms(4) length_filter_le le_trans by blast
  let ?L = "man_DBInit skill_cls (exec skill_cls m) n C N"
  have L: "?L = N\<lparr>parent := fold (q_attach (skill_quiet skill_methods)) ?fs C\<rparr>"
    unfolding skills.quiet.dbinit_rest [OF N(2) len] N(3) ..
  have v: "view ?L = ?fs" using N(3) by (simp add: L view_def)
  have "distinct (map f_id (view (skill_exec rs B)))"
    using kept_account [OF skill_exec_kept [OF assms(1,2)]] by blast
  then have d: "distinct (map f_id ?fs)" by (rule distinct_map_filter)
  have "skills.kept C (?fs, parent ?L)" using kept_attached [OF assms(3) d] g by (simp add: L)
  note kept_account [OF this]
  moreover have "\<not> ffault ?L" using N(2) by (simp add: L rest_def calm_def)
  ultimately show ?thesis unfolding e snd_conv N(1) by (simp add: Let_def v)
qed

lemma skill_login_witness:
  "case man_Load skill_registry (man_new actor_new) (raw_new (w_buf (snd (SaveSpecFilters skill_registry skill_cls (exec skill_cls 5) 5
      MASK_SAVE_DB_DATA (skill_exec [ReqAdd example_filter] actor_ready) (raw_new []))))) of
      Inl e \<Rightarrow> False
    | Inr (N, w) \<Rightarrow>
        (let L = man_DBInit skill_cls (exec skill_cls 5) 5 actor_ready N; A = parent L in
         \<not> ffault L \<and> view L = filter (\<lambda>f. f_mask f AND MASK_SAVE_DB_DATA \<noteq> 0) (view (skill_exec [ReqAdd example_filter] actor_ready))
         \<and> (\<forall>s. amount A s = amount actor_ready s + (\<Sum>f \<leftarrow> view L. effect (attach_of f) s))
         \<and> (\<forall>c. count_of A c = count_of actor_ready c + (\<Sum>f \<leftarrow> view L. holds (attach_of f) c))
         \<and> TVSGetState ` set (visible_team_state A) = (\<Union>f \<in> set (view L). team_of (attach_of f))
         \<and> counted_ok A \<and> fresh_except {} A \<and> \<not> a_fault A)"
proof (rule skill_login [OF actor_ready _ actor_ready])
  show "length (view (skill_exec [ReqAdd example_filter] actor_ready)) \<le> 5" using example_view [of actor_ready] by simp
  have "f_mask example_filter AND MASK_SAVE_DB_DATA \<noteq> 0" by (simp add: example_filter_def timeout_filter_def vital_idm)
  then show "length (w_buf (snd (SaveSpecFilters skill_registry skill_cls (exec skill_cls 5) 5 MASK_SAVE_DB_DATA
      (skill_exec [ReqAdd example_filter] actor_ready) (raw_new [])))) < 2 ^ 64"
    using example_view [of actor_ready] example_bytes by (simp add: skills.quiet.save_rest(2) [OF example_rest])
qed (use example_request in simp)


end
