(* ===== verification/SkillTransfer.thy ===== *)
theory SkillTransfer
  imports SkillOwner
begin

text \<open>
  Skill filters that are taken from one object and given to another: the message of the taker, the
  answer of the victim and the loop of the receiver (\<open>FilterTransfer\<close>), for all modelled classes.
\<close>

subsection \<open>The loaders of the classes\<close>

lemma lift_only_reads: "(\<forall>e \<in> set xs. only_reads (snd e)) \<Longrightarrow> \<forall>e \<in> set (lift_loaders into xs). only_reads (snd e)"
  by (auto simp: lift_loaders_def intro!: only_reads_loads only_reads_ret)

lemma control_only_reads: "\<forall>e \<in> set control_loaders. only_reads (snd e)"
  unfolding control_loaders_def list.map list.set ball_simps control_defs
  by (simp, intro conjI only_reads_intros)

lemma speed_only_reads: "\<forall>e \<in> set speed_loaders. only_reads (snd e)"
  unfolding speed_loaders_def list.map list.set ball_simps speed_defs
  by (simp, intro conjI only_reads_intros)

lemma vital_only_reads: "\<forall>e \<in> set vital_loaders. only_reads (snd e)"
  unfolding vital_loaders_def list.map list.set ball_simps vital_defs
  by (simp, intro conjI only_reads_intros)

lemma defence_only_reads: "\<forall>e \<in> set defence_loaders. only_reads (snd e)"
  unfolding defence_loaders_def list.map list.set ball_simps defence_defs
  by (simp, intro conjI only_reads_intros)

lemma attack_only_reads: "\<forall>e \<in> set attack_loaders. only_reads (snd e)"
  unfolding attack_loaders_def list.map list.set ball_simps attack_defs
  by (simp, intro conjI only_reads_intros)

lemma element_only_reads: "\<forall>e \<in> set element_loaders. only_reads (snd e)"
  unfolding element_loaders_def list.map list.set ball_simps element_defs
  by (simp, intro conjI only_reads_intros)

lemma skill_only_reads:
  assumes "r_load skill_registry g = Some m"
  shows "only_reads m"
proof -
  have all: "\<forall>e \<in> set skill_loaders. only_reads (snd e)"
    unfolding skill_loaders_def set_append ball_Un
    by (intro conjI lift_only_reads control_only_reads speed_only_reads vital_only_reads defence_only_reads
        attack_only_reads element_only_reads)
  obtain l where l: "map_of skill_loaders g = Some l" "m = loads get_int (\<lambda>t. loads l (\<lambda>k. ret (k, t)))"
    using assms by (auto simp: skill_registry_def split: option.splits)
  have "only_reads l" using all map_of_SomeD [OF l(1)] by force
  then show ?thesis unfolding l(2) by (intro only_reads_intros)
qed

subsection \<open>The two objects\<close>

text \<open>The account of an owner and its manager (as in \<open>skill_owner_account\<close>).\<close>

definition accounted :: "actor \<Rightarrow> (skill \<times> int32, actor) filter_man \<Rightarrow> bool" where
  "accounted B M \<longleftrightarrow>
     \<not> ffault M \<and> \<not> a_fault (parent M)
     \<and> (\<forall>s. amount (parent M) s = amount B s + (\<Sum>f \<leftarrow> view M. effect (attach_of f) s))
     \<and> (\<forall>c. count_of (parent M) c = count_of B c + (\<Sum>f \<leftarrow> view M. holds (attach_of f) c))
     \<and> TVSGetState ` set (visible_team_state (parent M)) = (\<Union>f \<in> set (view M). team_of (attach_of f))
     \<and> counted_ok (parent M) \<and> fresh_except {} (parent M)"

lemma kept_accounted:
  assumes "rest (skill_good skill_methods) M" "skills.kept B (view M, parent M)"
  shows "accounted B M"
  using kept_account [OF assms(2)] assms(1) by (simp add: accounted_def rest_def calm_def)

text \<open>What goes from the one to the other.\<close>

abbreviation skill_take ::
  "nat \<Rightarrow> nat \<Rightarrow> (nat \<Rightarrow> 'k :: linorder) \<Rightarrow> u32 \<Rightarrow> int \<Rightarrow> (skill \<times> int32, actor) filter_man
     \<Rightarrow> (skill \<times> int32, actor) filter_man \<times> (int \<times> byte list) option" where
  "skill_take m n draw k num V \<equiv> filter_get_message skill_registry skill_cls (exec skill_cls m) n draw False k num V"

abbreviation skill_give ::
  "nat \<Rightarrow> nat \<Rightarrow> int \<times> byte list \<Rightarrow> (skill \<times> int32, actor) filter_man
     \<Rightarrow> ((skill \<times> int32, actor) filter_man \<times> (wrapper_error + raw_wrapper)) option" where
  "skill_give m n d W \<equiv> filter_data_message skill_registry skill_cls (exec skill_cls m) n False d W"

lemma skill_take_rest:
  assumes V: "rest (skill_good skill_methods) V" "skills.kept A (view V, parent V)" and num: "0 < num"
  obtains fs N where "distinct fs" "set fs \<subseteq> {f \<in> set (view V). f_mask f AND k \<noteq> 0}"
    "length fs = min (nat num) (length (filter (\<lambda>f. f_mask f AND k \<noteq> 0) (view V)))"
    "skill_take m n draw k num V = (N, if fs = [] then None else Some (int (length fs), concat (map (instance_bytes skill_registry) fs)))"
    "view N = filter (\<lambda>f. f \<notin> set fs) (view V)" "accounted A N"
proof -
  have d: "distinct (map f_id (view V))" using V(2) by (simp add: skills.kept_def)
  obtain fs N where fs: "distinct (map f_id fs)" "set fs \<subseteq> {f \<in> set (view V). f_mask f AND k \<noteq> 0}"
    "length fs = min (nat num) (length (filter (\<lambda>f. f_mask f AND k \<noteq> 0) (view V)))" "rest (skill_good skill_methods) N"
    "TransferSpecFilters skill_registry skill_cls (exec skill_cls m) n draw k num V
      = (N, if fs = [] then None else Some (int (length fs), concat (map (instance_bytes skill_registry) fs)))"
    "(view N, parent N) = fold (spec_request (skill_quiet skill_methods)) (map (\<lambda>f. ReqRemove (f_id f)) fs) (view V, parent V)"
    by (rule skills.quiet.transfer_rest [OF V(1) d num])
  have "view N = filter (\<lambda>g. f_id g \<notin> f_id ` set fs) (view V)"
    using arg_cong [OF fs(6), of fst] by (simp add: skills.quiet.view_dropped)
  also have "\<dots> = filter (\<lambda>f. f \<notin> set fs) (view V)"
  proof (rule filter_cong [OF refl])
    fix f assume "f \<in> set (view V)"
    then show "f_id f \<notin> f_id ` set fs \<longleftrightarrow> f \<notin> set fs"
      using fs(2) inj_on_image_mem_iff [of f_id "set (view V)" f "set fs"] d by (auto simp: distinct_map)
  qed
  finally have v: "view N = filter (\<lambda>f. f \<notin> set fs) (view V)" .
  have "skills.kept A (view N, parent N)"
    unfolding fs(6) by (rule skills.kept_requests [OF V(2)]) (auto simp: valid_request_def)
  then have "accounted A N" by (rule kept_accounted [OF fs(4)])
  moreover have "distinct fs" using fs(1) by (simp add: distinct_map)
  ultimately show thesis using that fs(2,3,5) v by (simp add: filter_get_message_def)
qed

lemma skill_give_rest:
  assumes W: "rest (skill_good skill_methods) W" "skills.kept B (view W, parent W)"
    and fs: "\<forall>f \<in> set fs. skill_good skill_methods f \<and> \<not> f_deleted f" "length (view W) + length fs \<le> n"
    and len: "length (concat (map (instance_bytes skill_registry) fs)) < 2 ^ 64"
  obtains N w where "skill_give m n (int (length fs), concat (map (instance_bytes skill_registry) fs)) W = Some (N, Inr w)"
    "is_eof w" "accounted B N"
    "(view N, parent N) = fold (spec_request (skill_quiet skill_methods)) (map ReqAdd fs) (view W, parent W)"
proof -
  let ?bs = "concat (map (instance_bytes skill_registry) fs)"
  have w: "w_ok (raw_new ?bs)" "w_rest (raw_new ?bs) = ?bs @ []"
    using len by (simp_all add: w_ok_def raw_new_def w_rest_def)
  have "\<forall>f \<in> set fs. saves skill_registry f \<and> skill_good skill_methods f \<and> \<not> f_deleted f" using fs(1) skill_saves by blast
  then obtain N where N: "AddSpecFilters skill_registry skill_cls (exec skill_cls m) n (int (length fs)) (raw_new ?bs) W
      = Some (N, Inr (advance (length ?bs) (raw_new ?bs)))" "rest (skill_good skill_methods) N"
    "(view N, parent N) = fold (spec_request (skill_quiet skill_methods)) (map ReqAdd fs) (view W, parent W)"
    by (rule skills.quiet.receive_rest [OF W(1) _ fs(2) w])
  have "skills.kept B (view N, parent N)"
    unfolding N(3) by (rule skills.kept_requests [OF W(2)]) (use fs(1) in \<open>auto simp: valid_request_def\<close>)
  then have "accounted B N" by (rule kept_accounted [OF N(2)])
  moreover have "is_eof (advance (length ?bs) (raw_new ?bs))" by (simp add: is_eof_def advance_def raw_new_def w_size_def)
  ultimately show thesis using that N(1,3) by (simp add: filter_data_message_def)
qed

subsection \<open>Properties\<close>



text \<open>
  (C35) Filters change their owner. The victim loses filters with the flag, as many as were asked for
  if it has them, and is otherwise what it was: the account of its owner holds with the rest. The
  receiver reads exactly these filters and ends as if each had been added to it; the account of
  its owner holds too, and the message has been read to its end. If none has the flag nothing
  is sent.
\<close>

theorem skill_transfer:
  assumes "in_order A" "\<forall>r \<in> set rs. skill_request r" "in_order B" "\<forall>r \<in> set ss. skill_request r"
    and "0 < num" "length (view (skill_exec rs A)) + length (view (skill_exec ss B)) \<le> n"
    and "case snd (skill_take m n draw k num (skill_exec rs A)) of None \<Rightarrow> True | Some d \<Rightarrow> length (snd d) < 2 ^ 64"
  shows "\<exists>fs. distinct fs \<and> set fs \<subseteq> {f \<in> set (view (skill_exec rs A)). f_mask f AND k \<noteq> 0}
    \<and> length fs = min (nat num) (length (filter (\<lambda>f. f_mask f AND k \<noteq> 0) (view (skill_exec rs A))))
    \<and> (case skill_take m n draw k num (skill_exec rs A) of (V, msg) \<Rightarrow>
        view V = filter (\<lambda>f. f \<notin> set fs) (view (skill_exec rs A)) \<and> accounted A V
        \<and> (case msg of
             None \<Rightarrow> fs = []
           | Some d \<Rightarrow> (\<exists>W w. skill_give m n d (skill_exec ss B) = Some (W, Inr w) \<and> is_eof w \<and> accounted B W
               \<and> (view W, parent W) = fold (spec_request (skill_quiet skill_methods)) (map ReqAdd fs)
                   (view (skill_exec ss B), parent (skill_exec ss B)))))"
proof -
  note V = skill_exec_rest(1) [OF assms(2), of A] and W = skill_exec_rest(1) [OF assms(4), of B]
  obtain fs N where fs: "distinct fs" "set fs \<subseteq> {f \<in> set (view (skill_exec rs A)). f_mask f AND k \<noteq> 0}"
    "length fs = min (nat num) (length (filter (\<lambda>f. f_mask f AND k \<noteq> 0) (view (skill_exec rs A))))"
    and N: "skill_take m n draw k num (skill_exec rs A)
      = (N, if fs = [] then None else Some (int (length fs), concat (map (instance_bytes skill_registry) fs)))"
    "view N = filter (\<lambda>f. f \<notin> set fs) (view (skill_exec rs A))" "accounted A N"
    by (rule skill_take_rest [OF V skill_exec_kept [OF assms(1,2)] assms(5)])
  have "\<exists>W w. skill_give m n (int (length fs), concat (map (instance_bytes skill_registry) fs)) (skill_exec ss B) = Some (W, Inr w)
      \<and> is_eof w \<and> accounted B W \<and> (view W, parent W) = fold (spec_request (skill_quiet skill_methods)) (map ReqAdd fs)
          (view (skill_exec ss B), parent (skill_exec ss B))" if "fs \<noteq> []"
  proof -
    have g: "\<forall>f \<in> set fs. skill_good skill_methods f \<and> \<not> f_deleted f" using V fs(2) by (auto simp: rest_def)
    have "length fs \<le> length (view (skill_exec rs A))" unfolding fs(3) by (rule le_trans [OF min.cobounded2 length_filter_le])
    then have n: "length (view (skill_exec ss B)) + length fs \<le> n" using assms(6) by linarith
    have len: "length (concat (map (instance_bytes skill_registry) fs)) < 2 ^ 64" using assms(7) N(1) that by simp
    show ?thesis by (rule skill_give_rest [OF W skill_exec_kept [OF assms(3,4)] g n len]) blast
  qed
  then show ?thesis using fs N by (intro exI [of _ fs]) simp
qed

lemma skill_transfer_witness:
  "\<exists>V W w d. skill_take 5 5 id MASK_SAVE_DB_DATA 1 (skill_exec [ReqAdd example_filter] actor_ready) = (V, Some d)
    \<and> view V = [] \<and> skill_give 5 5 d (skill_exec [] actor_ready) = Some (W, Inr w) \<and> is_eof w
    \<and> (view W, parent W) = spec_request (skill_quiet skill_methods) (ReqAdd example_filter)
        (view (skill_exec [] actor_ready), parent (skill_exec [] actor_ready))"
proof -
  let ?V = "skill_exec [ReqAdd example_filter] actor_ready"
  have r: "\<forall>r \<in> set [ReqAdd example_filter]. skill_request r" using example_request by simp
  have v: "view ?V = [example_filter]" using example_view by simp
  have e: "view (skill_exec [] actor_ready) = []" by (simp add: skill_exec_def rest_new)
  have f: "f_mask example_filter AND MASK_SAVE_DB_DATA \<noteq> 0" by (simp add: example_filter_def timeout_filter_def vital_idm)
  have small: "length (concat (map (instance_bytes skill_registry) [example_filter])) < 2 ^ 64"
    using example_bytes by (simp add: save_filters_push push_byte_def raw_new_def)
  have len: "case snd (skill_take 5 5 id MASK_SAVE_DB_DATA 1 ?V) of None \<Rightarrow> True | Some d \<Rightarrow> length (snd d) < 2 ^ 64"
  proof -
    obtain fs N where fs: "distinct fs" "set fs \<subseteq> {f \<in> set (view ?V). f_mask f AND MASK_SAVE_DB_DATA \<noteq> 0}"
      "length fs = min (nat 1) (length (filter (\<lambda>f. f_mask f AND MASK_SAVE_DB_DATA \<noteq> 0) (view ?V)))"
      "skill_take 5 5 id MASK_SAVE_DB_DATA 1 ?V
        = (N, if fs = [] then None else Some (int (length fs), concat (map (instance_bytes skill_registry) fs)))"
      by (rule skill_take_rest [OF skill_exec_rest(1) [OF r] skill_exec_kept [OF actor_ready r], of 1 MASK_SAVE_DB_DATA 5 5 id]) simp_all
    then have "fs = [example_filter]" using f by (cases fs) (auto simp: v)
    then show ?thesis using small fs(4) by simp
  qed
  have ok: "in_order actor_ready" "(0 :: int) < 1" "\<forall>r \<in> set []. skill_request r"
    "length (view ?V) + length (view (skill_exec [] actor_ready)) \<le> 5"
    using actor_ready by (simp_all add: v e)
  obtain fs where "distinct fs" "set fs \<subseteq> {f \<in> set (view ?V). f_mask f AND MASK_SAVE_DB_DATA \<noteq> 0}"
    and l: "length fs = min (nat 1) (length (filter (\<lambda>f. f_mask f AND MASK_SAVE_DB_DATA \<noteq> 0) (view ?V)))"
    and t: "case skill_take 5 5 id MASK_SAVE_DB_DATA 1 ?V of (V, msg) \<Rightarrow>
        view V = filter (\<lambda>f. f \<notin> set fs) (view ?V) \<and> accounted actor_ready V
        \<and> (case msg of
             None \<Rightarrow> fs = []
           | Some d \<Rightarrow> (\<exists>W w. skill_give 5 5 d (skill_exec [] actor_ready) = Some (W, Inr w) \<and> is_eof w \<and> accounted actor_ready W
               \<and> (view W, parent W) = fold (spec_request (skill_quiet skill_methods)) (map ReqAdd fs)
                   (view (skill_exec [] actor_ready), parent (skill_exec [] actor_ready))))"
    using skill_transfer [OF ok(1) r ok(1) ok(3) ok(2) ok(4) len] by (elim exE conjE) (rule that)
  then have fs: "fs = [example_filter]" using f by (cases fs) (auto simp: v)
  show ?thesis using t unfolding fs v by (auto split: option.splits prod.splits)
qed

end
